(* ===== verification/Liaison_Prelude.thy ===== *)
theory Liaison_Prelude
  imports Main "HOL-Library.Word" "HOL-Library.AList" "HOL-Library.Multiset"
    "HOL-Library.List_Lexorder" "HOL-Library.Char_ord" "HOL-Library.Sublist"
begin

text \<open>
  Shared vocabulary of the development: the Go base types, error values and the
  \<^verbatim>\<open>errors\<close>/\<^verbatim>\<open>fmt\<close> operations the sources use on them, Go maps, \<^verbatim>\<open>sort.Slice\<close> and a few
  \<^verbatim>\<open>strings\<close> functions, with the lemmas on them that the component theories rely on.

  A Go map is an association list with distinct keys. Go leaves the iteration order of a map
  unspecified; here it is the order of the list. Every theorem quantifies over the whole list, so it
  holds for every iteration order. The contract of the three map operations is the locale
  \<open>go_map\<close>, interpreted below on the definitions.
\<close>

named_theorems gomap_simps \<open>rewriting of lookups and key sets of Go maps\<close>

section \<open>Base types\<close>

type_synonym u64 = "64 word"
type_synonym u32 = "32 word"
type_synonym gtime = int  \<comment> \<open>nanoseconds; 0 is the zero \<^verbatim>\<open>time.Time\<close>\<close>
type_synonym bytes = string

text \<open>A \<^verbatim>\<open>context.Context\<close> is observed through \<^verbatim>\<open>ctx.Err()\<close> only: \<open>None\<close> while it is live.\<close>

datatype ctx_state = CtxLive | CtxCanceled | CtxDeadlineExceeded

section \<open>Errors\<close>

datatype sentinel =
    ErrSessionNotFound | ErrTurnNotFound | ErrStepNotFound | ErrSessionArchived
  | ErrTurnAlreadyActive | ErrInvalidTransition | ErrVersionConflict | ErrAttachmentNotFound
  | ErrStepBudgetExceeded | ErrInvalidModelCall | ErrApprovalNotFound | ErrApprovalConflict
  | ErrApprovalExpired | ErrEventSubscriberSlow
  | ErrInvalidDescriptor | ErrAlreadyRegistered | ErrToolNotFound | ErrToolUnavailable
  | ErrStaleSnapshot | ErrToolNotExposed | ErrApprovalRequired | ErrPolicyDenied
  | ErrHandleNotFound | ErrHandleMismatch | ErrExecutorNotFound | ErrOperationDenied
  | ErrForbidden | ErrNotFound | ErrInvalid
  | ContextCanceled | ContextDeadlineExceeded | GormErrRecordNotFound

text \<open>
  \<open>ErrNew\<close> is \<^verbatim>\<open>errors.New\<close> (or a \<^verbatim>\<open>fmt.Errorf\<close> without \<^verbatim>\<open>%w\<close>) with its text; \<open>ErrWrap pre e post\<close> is
  \<^verbatim>\<open>fmt.Errorf\<close> with one \<^verbatim>\<open>%w\<close> between the rendered texts \<open>pre\<close> and \<open>post\<close>; \<open>ErrJoin\<close> is \<^verbatim>\<open>errors.Join\<close>.
\<close>

datatype gerr =
    Sentinel sentinel
  | ErrNew string
  | ErrWrap string gerr string
  | ErrJoin "gerr list"

fun errors_is :: "gerr \<Rightarrow> sentinel \<Rightarrow> bool" where
  "errors_is (Sentinel s) t = (s = t)"
| "errors_is (ErrNew _) t = False"
| "errors_is (ErrWrap _ e _) t = errors_is e t"
| "errors_is (ErrJoin es) t = (\<exists>e \<in> set es. errors_is e t)"

text \<open>\<^verbatim>\<open>fmt.Errorf("%w: ...", sentinel, ...)\<close>\<close>

abbreviation errw :: "sentinel \<Rightarrow> string \<Rightarrow> gerr" where
  "errw s post \<equiv> ErrWrap [] (Sentinel s) ('': '' @ post)"

text \<open>\<^verbatim>\<open>errors.Join(err, maybe)\<close> drops nil arguments.\<close>

definition errors_join :: "gerr \<Rightarrow> gerr option \<Rightarrow> gerr" where
  "errors_join e m = (case m of None \<Rightarrow> ErrJoin [e] | Some e' \<Rightarrow> ErrJoin [e, e'])"

lemma errors_is_join [simp]:
  "errors_is (errors_join e m) t \<longleftrightarrow> errors_is e t \<or> (\<exists>e'. m = Some e' \<and> errors_is e' t)"
  by (auto simp: errors_join_def split: option.splits)

text \<open>The text of an error, \<^verbatim>\<open>err.Error()\<close>.\<close>

fun sentinel_text :: "sentinel \<Rightarrow> string" where
  "sentinel_text ErrSessionNotFound = ''agent session not found''"
| "sentinel_text ErrTurnNotFound = ''agent turn not found''"
| "sentinel_text ErrStepNotFound = ''agent step not found''"
| "sentinel_text ErrSessionArchived = ''agent session is archived''"
| "sentinel_text ErrTurnAlreadyActive = ''agent turn already active''"
| "sentinel_text ErrInvalidTransition = ''invalid agent state transition''"
| "sentinel_text ErrVersionConflict = ''agent aggregate version conflict''"
| "sentinel_text ErrAttachmentNotFound = ''agent attachment not found''"
| "sentinel_text ErrStepBudgetExceeded = ''agent step budget exceeded''"
| "sentinel_text ErrInvalidModelCall = ''invalid model tool call''"
| "sentinel_text ErrApprovalNotFound = ''agent approval not found''"
| "sentinel_text ErrApprovalConflict = ''agent approval state conflict''"
| "sentinel_text ErrApprovalExpired = ''agent approval expired''"
| "sentinel_text ErrEventSubscriberSlow = ''agent event subscriber is too slow''"
| "sentinel_text ErrInvalidDescriptor = ''invalid tool descriptor''"
| "sentinel_text ErrAlreadyRegistered = ''tool already registered''"
| "sentinel_text ErrToolNotFound = ''tool not found''"
| "sentinel_text ErrToolUnavailable = ''tool unavailable''"
| "sentinel_text ErrStaleSnapshot = ''stale tool snapshot''"
| "sentinel_text ErrToolNotExposed = ''tool not exposed''"
| "sentinel_text ErrApprovalRequired = ''tool approval required''"
| "sentinel_text ErrPolicyDenied = ''tool policy denied''"
| "sentinel_text ErrHandleNotFound = ''access session handle not found''"
| "sentinel_text ErrHandleMismatch = ''access session handle does not match attachment''"
| "sentinel_text ErrExecutorNotFound = ''protocol executor not found''"
| "sentinel_text ErrOperationDenied = ''protocol operation not supported''"
| "sentinel_text ErrForbidden = ''forbidden''"
| "sentinel_text ErrNotFound = ''not found''"
| "sentinel_text ErrInvalid = ''invalid request''"
| "sentinel_text ContextCanceled = ''context canceled''"
| "sentinel_text ContextDeadlineExceeded = ''context deadline exceeded''"
| "sentinel_text GormErrRecordNotFound = ''record not found''"

fun error_text :: "gerr \<Rightarrow> string" where
  "error_text (Sentinel s) = sentinel_text s"
| "error_text (ErrNew msg) = msg"
| "error_text (ErrWrap pre e post) = pre @ error_text e @ post"
| "error_text (ErrJoin es) = concat (map (\<lambda>(k, e). (if k = 0 then [] else [CHR 0x0A]) @ e) (enumerate 0 (map error_text es)))"

fun ctx_err :: "ctx_state \<Rightarrow> gerr option" where
  "ctx_err CtxLive = None"
| "ctx_err CtxCanceled = Some (Sentinel ContextCanceled)"
| "ctx_err CtxDeadlineExceeded = Some (Sentinel ContextDeadlineExceeded)"

lemma ctx_err_None_iff [simp]: "ctx_err c = None \<longleftrightarrow> c = CtxLive"
  by (cases c) auto

type_synonym ('s, 'a) outcome = "(gerr + 'a) \<times> 's"

section \<open>Go maps\<close>

type_synonym ('k, 'v) gomap = "('k \<times> 'v) list"

definition gm_get :: "('k, 'v) gomap \<Rightarrow> 'k \<Rightarrow> 'v option" where
  "gm_get m k = map_of m k"

definition gm_put :: "'k \<Rightarrow> 'v \<Rightarrow> ('k, 'v) gomap \<Rightarrow> ('k, 'v) gomap" where
  "gm_put k v m = AList.update k v m"

definition gm_del :: "'k \<Rightarrow> ('k, 'v) gomap \<Rightarrow> ('k, 'v) gomap" where
  "gm_del k m = AList.delete k m"

definition gm_wf :: "('k, 'v) gomap \<Rightarrow> bool" where
  "gm_wf m \<longleftrightarrow> distinct (map fst m)"

text \<open>The zero value of a missing key, \<^verbatim>\<open>m[k]\<close> in value position.\<close>

definition gm_getz :: "'v \<Rightarrow> ('k, 'v) gomap \<Rightarrow> 'k \<Rightarrow> 'v" where
  "gm_getz z m k = (case gm_get m k of None \<Rightarrow> z | Some v \<Rightarrow> v)"

locale go_map =
  fixes empty :: "'m"
    and get :: "'m \<Rightarrow> 'k \<Rightarrow> 'v option"
    and put :: "'k \<Rightarrow> 'v \<Rightarrow> 'm \<Rightarrow> 'm"
    and del :: "'k \<Rightarrow> 'm \<Rightarrow> 'm"
    and wf :: "'m \<Rightarrow> bool"
    and items :: "'m \<Rightarrow> ('k \<times> 'v) list"
  assumes get_empty: "get empty k = None"
    and get_put: "get (put k v m) k' = (if k' = k then Some v else get m k')"
    and get_del: "get (del k m) k' = (if k' = k then None else get m k')"
    and wf_empty: "wf empty"
    and wf_put: "wf m \<Longrightarrow> wf (put k v m)"
    and wf_del: "wf m \<Longrightarrow> wf (del k m)"
    and items_get: "wf m \<Longrightarrow> (k, v) \<in> set (items m) \<longleftrightarrow> get m k = Some v"
    and items_distinct: "wf m \<Longrightarrow> distinct (map fst (items m))"
begin

lemma put_get_same: "get (put k v m) k = Some v"
  by (simp add: get_put)

lemma put_overwrites: "get (put k v (put k w m)) k' = get (put k v m) k'"
  by (simp add: get_put)

lemma del_put: "get (del k (put k v m)) k' = get (del k m) k'"
  by (simp add: get_del get_put)

lemma items_put:
  "wf m \<Longrightarrow> set (items (put k v m)) = insert (k, v) {p \<in> set (items m). fst p \<noteq> k}"
  by (auto simp: items_get wf_put get_put split: if_splits)

lemma items_del: "wf m \<Longrightarrow> set (items (del k m)) = {p \<in> set (items m). fst p \<noteq> k}"
  by (auto simp: items_get wf_del get_del split: if_splits)

end

interpretation gm: go_map "[]" gm_get gm_put gm_del gm_wf "\<lambda>m. m"
proof unfold_locales
  fix m :: "('k, 'v) gomap" and k v
  assume "gm_wf m"
  then show "(k, v) \<in> set m \<longleftrightarrow> gm_get m k = Some v"
    by (simp add: gm_wf_def gm_get_def)
qed (simp_all add: gm_get_def gm_put_def gm_del_def gm_wf_def update_conv' delete_conv'
      distinct_update distinct_delete)

lemma gm_get_put [gomap_simps, simp]:
  "gm_get (gm_put k v m) k' = (if k' = k then Some v else gm_get m k')"
  by (rule gm.get_put)

lemma gm_get_del [gomap_simps, simp]:
  "gm_get (gm_del k m) k' = (if k' = k then None else gm_get m k')"
  by (rule gm.get_del)

lemma gm_get_Nil [gomap_simps, simp]: "gm_get [] k = None"
  by (rule gm.get_empty)

lemma gm_wf_intros [simp, intro]:
  "gm_wf []" "gm_wf m \<Longrightarrow> gm_wf (gm_put k v m)" "gm_wf m \<Longrightarrow> gm_wf (gm_del k m)"
  by (simp_all add: gm.wf_empty gm.wf_put gm.wf_del)

lemma gm_mem_iff: "gm_wf m \<Longrightarrow> (k, v) \<in> set m \<longleftrightarrow> gm_get m k = Some v"
  by (rule gm.items_get)

lemma gm_get_mem: "gm_get m k = Some v \<Longrightarrow> (k, v) \<in> set m"
  by (simp add: gm_get_def map_of_SomeD)

lemma gm_getz_put [simp]: "gm_getz z (gm_put k v m) k' = (if k' = k then v else gm_getz z m k')"
  by (simp add: gm_getz_def)

lemma gm_values: "gm_wf m \<Longrightarrow> v \<in> snd ` set m \<longleftrightarrow> (\<exists>k. gm_get m k = Some v)"
  by (force simp: gm_mem_iff[symmetric])

lemma gm_put_put [simp]: "gm_put k v (gm_put k w m) = gm_put k v m"
  unfolding gm_put_def by (induction m) auto

text \<open>A predicate on all entries, in the two forms the proofs use.\<close>

definition gm_all :: "('k \<Rightarrow> 'v \<Rightarrow> bool) \<Rightarrow> ('k, 'v) gomap \<Rightarrow> bool" where
  "gm_all P m \<longleftrightarrow> (\<forall>k v. gm_get m k = Some v \<longrightarrow> P k v)"

lemma gm_allI: "(\<And>k v. gm_get m k = Some v \<Longrightarrow> P k v) \<Longrightarrow> gm_all P m"
  by (simp add: gm_all_def)

lemma gm_allD: "gm_all P m \<Longrightarrow> gm_get m k = Some v \<Longrightarrow> P k v"
  by (simp add: gm_all_def)

lemma gm_all_Nil [simp]: "gm_all P []"
  by (simp add: gm_all_def)

lemma gm_all_put: "gm_all P m \<Longrightarrow> P k v \<Longrightarrow> gm_all P (gm_put k v m)"
  by (simp add: gm_all_def)

lemma gm_all_del: "gm_all P m \<Longrightarrow> gm_all P (gm_del k m)"
  by (simp add: gm_all_def)

lemma gm_all_mono: "gm_all P m \<Longrightarrow> (\<And>k v. gm_get m k = Some v \<Longrightarrow> P k v \<Longrightarrow> Q k v) \<Longrightarrow> gm_all Q m"
  by (simp add: gm_all_def)

section \<open>Sorting with a less function\<close>

text \<open>
  \<^verbatim>\<open>sort.Slice\<close> promises a permutation in which no element is less than an earlier one. The model is
  insertion sort; where any two distinct elements are comparable the result is unique
  (\<open>go_sort_unique\<close>), so the choice of algorithm does not matter.
\<close>

fun go_insert :: "('a \<Rightarrow> 'a \<Rightarrow> bool) \<Rightarrow> 'a \<Rightarrow> 'a list \<Rightarrow> 'a list" where
  "go_insert lt x [] = [x]"
| "go_insert lt x (y # ys) = (if lt y x then y # go_insert lt x ys else x # y # ys)"

fun go_sort :: "('a \<Rightarrow> 'a \<Rightarrow> bool) \<Rightarrow> 'a list \<Rightarrow> 'a list" where
  "go_sort lt [] = []"
| "go_sort lt (x # xs) = go_insert lt x (go_sort lt xs)"

lemma mset_go_insert [simp]: "mset (go_insert lt x xs) = add_mset x (mset xs)"
  by (induction xs) auto

lemma mset_go_sort [simp]: "mset (go_sort lt xs) = mset xs"
  by (induction xs) auto

lemma set_go_sort [simp]: "set (go_sort lt xs) = set xs"
  by (metis mset_go_sort set_mset_mset)

lemma set_go_insert [simp]: "set (go_insert lt x xs) = insert x (set xs)"
  by (metis mset_go_insert set_mset_add_mset_insert set_mset_mset)

lemma length_go_sort [simp]: "length (go_sort lt xs) = length xs"
  by (metis mset_go_sort size_mset)

lemma distinct_go_sort [simp]: "distinct (go_sort lt xs) = distinct xs"
  by (metis mset_go_sort mset_eq_imp_distinct_iff)

locale strict_weak =
  fixes lt :: "'a \<Rightarrow> 'a \<Rightarrow> bool"
  assumes asym: "lt x y \<Longrightarrow> \<not> lt y x"
    and ntrans: "lt x z \<Longrightarrow> lt x y \<or> lt y z"
begin

lemma sorted_go_insert:
  "sorted_wrt (\<lambda>a b. \<not> lt b a) xs \<Longrightarrow> sorted_wrt (\<lambda>a b. \<not> lt b a) (go_insert lt x xs)"
proof (induction xs)
  case (Cons y ys)
  show ?case
  proof (cases "lt y x")
    case True
    with Cons asym show ?thesis by auto
  next
    case False
    with Cons ntrans show ?thesis by fastforce
  qed
qed simp

lemma sorted_go_sort: "sorted_wrt (\<lambda>a b. \<not> lt b a) (go_sort lt xs)"
  by (induction xs) (simp_all add: sorted_go_insert)

lemma sorted_perm_unique:
  "sorted_wrt (\<lambda>a b. \<not> lt b a) xs \<Longrightarrow> sorted_wrt (\<lambda>a b. \<not> lt b a) ys \<Longrightarrow> mset xs = mset ys \<Longrightarrow>
   (\<And>x y. x \<in> set xs \<Longrightarrow> y \<in> set xs \<Longrightarrow> x \<noteq> y \<Longrightarrow> lt x y \<or> lt y x) \<Longrightarrow> xs = ys"
proof (induction xs arbitrary: ys)
  case (Cons x xs)
  from Cons.prems(3) obtain y ys' where ys: "ys = y # ys'"
    by (cases ys) auto
  have sets: "insert x (set xs) = insert y (set ys')"
    using Cons.prems(3) ys by (metis list.simps(15) set_mset_mset)
  have "x = y"
  proof (rule ccontr)
    assume ne: "x \<noteq> y"
    with sets have mem: "y \<in> set xs" "x \<in> set ys'" by auto
    with Cons.prems(1,2) ys have "\<not> lt y x" "\<not> lt x y" by auto
    with Cons.prems(4)[OF _ _ ne] mem show False by simp
  qed
  with Cons.prems ys have "mset xs = mset ys'" by simp
  with Cons.IH[of ys'] Cons.prems ys \<open>x = y\<close> show ?case by simp
qed simp

text \<open>Any sorted permutation is the model's result when distinct elements are comparable.\<close>

lemma go_sort_unique:
  "mset ys = mset xs \<Longrightarrow> sorted_wrt (\<lambda>a b. \<not> lt b a) ys \<Longrightarrow>
   (\<And>x y. x \<in> set ys \<Longrightarrow> y \<in> set ys \<Longrightarrow> x \<noteq> y \<Longrightarrow> lt x y \<or> lt y x) \<Longrightarrow> ys = go_sort lt xs"
  by (rule sorted_perm_unique) (simp_all add: sorted_go_sort)

end

text \<open>A comparison of keys in a linear order is a strict weak order.\<close>

lemma strict_weak_key: "(\<And>x y. lt x y \<longleftrightarrow> (k x :: 'b :: linorder) < k y) \<Longrightarrow> strict_weak lt"
  by unfold_locales (auto simp: not_less)

section \<open>Strings\<close>

fun dec_digits :: "nat \<Rightarrow> nat \<Rightarrow> string" where
  "dec_digits 0 n = []"
| "dec_digits (Suc f) n =
     (if n < 10 then [char_of (48 + n)] else dec_digits f (n div 10) @ [char_of (48 + n mod 10)])"

definition dec :: "nat \<Rightarrow> string" where
  "dec n = dec_digits (Suc n) n"

text \<open>A decimal numeral determines its number: reading the digits back.\<close>

definition undec :: "string \<Rightarrow> nat" where
  "undec = foldl (\<lambda>n c. n * 10 + (of_char c - 48)) 0"

lemma undec_dec_digits: "n < f \<Longrightarrow> undec (dec_digits f n) = n"
proof (induction f n rule: dec_digits.induct)
  case (2 f n)
  then have "n \<ge> 10 \<Longrightarrow> undec (dec_digits f (n div 10)) = n div 10" by auto
  then show ?case by (auto simp: undec_def)
qed simp

lemma dec_inj [simp]: "dec m = dec n \<longleftrightarrow> m = n"
  by (metis dec_def lessI undec_dec_digits)

definition is_space :: "char \<Rightarrow> bool" where
  "is_space c \<longleftrightarrow> c \<in> {CHR 0x20, CHR 0x09, CHR 0x0A, CHR 0x0B, CHR 0x0C, CHR 0x0D}"

text \<open>\<^verbatim>\<open>strings.TrimSpace\<close> and \<^verbatim>\<open>strings.ToLower\<close> on ASCII text.\<close>

definition trim_space :: "string \<Rightarrow> string" where
  "trim_space s = rev (dropWhile is_space (rev (dropWhile is_space s)))"

definition to_lower_char :: "char \<Rightarrow> char" where
  "to_lower_char c = (let n = of_char c :: nat in if 65 \<le> n \<and> n \<le> 90 then char_of (n + 32) else c)"

definition to_lower :: "string \<Rightarrow> string" where
  "to_lower s = map to_lower_char s"

lemma trim_space_idem [simp]: "trim_space (trim_space s) = trim_space s"
proof -
  have idem: "\<And>xs. dropWhile is_space (dropWhile is_space xs) = dropWhile is_space xs"
    by (simp add: dropWhile_eq_self_iff hd_dropWhile)
  have strip: "dropWhile is_space (rev (dropWhile is_space (rev ys))) = rev (dropWhile is_space (rev ys))"
    if "ys = [] \<or> \<not> is_space (hd ys)" for ys
  proof (cases ys)
    case (Cons a as)
    with that have a: "\<not> is_space a" by simp
    have "rev (dropWhile is_space (rev ys)) = a # rev (dropWhile is_space (rev as))"
      using Cons a by (simp add: dropWhile_append3 dropWhile_append)
    with a show ?thesis by simp
  qed simp
  have "dropWhile is_space s = [] \<or> \<not> is_space (hd (dropWhile is_space s))"
    by (metis hd_dropWhile)
  from strip[OF this] show ?thesis
    by (simp add: trim_space_def idem)
qed

text \<open>\<^verbatim>\<open>strings.Split(s, sep)\<close> for a one-byte separator: always at least one piece.\<close>

fun split_on :: "char \<Rightarrow> string \<Rightarrow> string list" where
  "split_on c [] = [[]]"
| "split_on c (x # xs) =
     (if x = c then [] # split_on c xs
      else (case split_on c xs of [] \<Rightarrow> [[x]] | p # ps \<Rightarrow> (x # p) # ps))"

lemma split_on_ne [simp]: "split_on c xs \<noteq> []"
  by (induction xs) (auto split: list.splits)

lemma split_on_single: "c \<notin> set xs \<Longrightarrow> split_on c xs = [xs]"
  by (induction xs) auto

lemma split_on_join: "c \<notin> set xs \<Longrightarrow> split_on c (xs @ c # ys) = xs # split_on c ys"
  by (induction xs) auto

text \<open>Joining the pieces gives the string back.\<close>

fun join_with :: "char \<Rightarrow> string list \<Rightarrow> string" where
  "join_with c [] = []"
| "join_with c [p] = p"
| "join_with c (p # q # ps) = p @ c # join_with c (q # ps)"

lemma join_split: "join_with c (split_on c xs) = xs"
proof (induction xs)
  case (Cons x xs)
  obtain p ps where sp: "split_on c xs = p # ps"
    by (cases "split_on c xs") auto
  with Cons show ?case by (cases ps) auto
qed simp

lemma split_on_no_sep: "p \<in> set (split_on c xs) \<Longrightarrow> c \<notin> set p"
proof (induction xs arbitrary: p)
  case (Cons x xs)
  obtain q qs where "split_on c xs = q # qs"
    by (cases "split_on c xs") auto
  with Cons show ?case by (auto split: if_splits)
qed simp

text \<open>\<^verbatim>\<open>strings.Contains\<close> and \<^verbatim>\<open>strings.Fields\<close>.\<close>

fun str_contains :: "string \<Rightarrow> string \<Rightarrow> bool" where
  "str_contains [] p = (p = [])"
| "str_contains (x # xs) p = (take (length p) (x # xs) = p \<or> str_contains xs p)"

lemma str_contains_iff: "str_contains s p \<longleftrightarrow> (\<exists>u v. s = u @ p @ v)"
proof (induction s)
  case (Cons x xs)
  have "(\<exists>u v. x # xs = u @ p @ v) \<longleftrightarrow> (\<exists>v. x # xs = p @ v) \<or> (\<exists>u v. xs = u @ p @ v)"
    by (metis append_Cons append_Nil list.exhaust list.sel(3))
  moreover have "(\<exists>v. x # xs = p @ v) \<longleftrightarrow> take (length p) (x # xs) = p"
    by (metis append_eq_conv_conj append_take_drop_id)
  ultimately show ?case using Cons by simp
qed auto

fun fields_acc :: "string \<Rightarrow> string \<Rightarrow> string list" where
  "fields_acc cur [] = (if cur = [] then [] else [rev cur])"
| "fields_acc cur (x # xs) =
     (if is_space x then (if cur = [] then fields_acc [] xs else rev cur # fields_acc [] xs)
      else fields_acc (x # cur) xs)"

definition str_fields :: "string \<Rightarrow> string list" where
  "str_fields s = fields_acc [] s"

text \<open>\<^verbatim>\<open>%q\<close> on text without control characters: quotes and backslashes are escaped.\<close>

definition go_quote :: "string \<Rightarrow> string" where
  "go_quote s = CHR 0x22 # concat (map (\<lambda>c. if c = CHR 0x22 \<or> c = CHR 0x5C then [CHR 0x5C, c] else [c]) s) @ [CHR 0x22]"

section \<open>First match and search in lists\<close>

text \<open>\<^verbatim>\<open>for _, x := range xs { if p(x) { return x } }\<close> is \<open>List.find\<close>.\<close>

lemma find_SomeD: "List.find P xs = Some x \<Longrightarrow> x \<in> set xs \<and> P x"
  by (auto simp: find_Some_iff)

lemma find_cong_set: "(\<And>x. x \<in> set xs \<Longrightarrow> P x = Q x) \<Longrightarrow> List.find P xs = List.find Q xs"
  by (induction xs) auto

lemma subseq_set_mono: "subseq xs ys \<Longrightarrow> x \<in> set xs \<Longrightarrow> x \<in> set ys"
  by (induction rule: list_emb.induct) auto

lemma map_sum_Inr_iff: "map_sum f g x = Inr y \<longleftrightarrow> (\<exists>z. x = Inr z \<and> y = g z)"
  by (cases x) auto

section \<open>Counters without wrap-around\<close>

lemma unat_inc_u64: "unat (x :: u64) + 1 < 2 ^ 64 \<Longrightarrow> unat (x + 1) = unat x + 1"
  by (simp add: unat_word_ariths)

lemma unat_inc_u32: "unat (x :: u32) + 1 < 2 ^ 32 \<Longrightarrow> unat (x + 1) = unat x + 1"
  by (simp add: unat_word_ariths)

lemma u64_inc_neq [simp]: "(x :: u64) + 1 \<noteq> x" "(x :: u64) \<noteq> x + 1"
  by auto

lemma u32_inc_neq [simp]: "(x :: u32) + 1 \<noteq> x" "(x :: u32) \<noteq> x + 1"
  by auto

lemma u64_inc_unat: "x < (-1 :: u64) \<Longrightarrow> unat (x + 1) = unat x + 1"
proof (rule unat_inc_u64)
  assume "x < -1"
  then have "unat x < unat (-1 :: u64)" by (simp add: word_less_nat_alt)
  also have "unat (-1 :: u64) = 2 ^ 64 - 1" 
    by (simp add: unsigned_minus_1_eq_mask mask_eq_exp_minus_1)
  finally show "unat x + 1 < 2 ^ 64" by simp
qed

lemma u64_inc_mono: "x < (-1 :: u64) \<Longrightarrow> y \<le> x \<Longrightarrow> y < x + 1"
  by (simp add: word_less_nat_alt word_le_nat_alt u64_inc_unat)

lemma u64_inc_le: "x < (-1 :: u64) \<Longrightarrow> y \<le> x \<Longrightarrow> y \<le> x + 1"
  using u64_inc_mono by (simp add: order_less_imp_le)

end
