(* ===== verification/Go_Json.thy ===== *)
theory Go_Json
  imports Liaison_Prelude
begin

text \<open>
  The part of Go's \<^verbatim>\<open>encoding/json\<close> the agent code depends on: the byte-by-byte scanner behind
  \<^verbatim>\<open>json.Valid\<close> and \<^verbatim>\<open>json.Compact\<close>, and \<^verbatim>\<open>json.HTMLEscape\<close>. The scanner is the library's pushdown
  machine: a step function per state and a stack of enclosing objects and arrays, at most 10000 deep.

  The lemmas show that compaction followed by HTML escaping is a canonical form: it is again valid
  JSON and a second application changes nothing. This is what makes an input digest computed
  before an approval is persisted equal to one computed after it is read back
  (\<^verbatim>\<open>InputDigest\<close> in tool/types.go).
\<close>

section \<open>The scanner\<close>

datatype scan_step =
    BeginValue | BeginValueOrEmpty | BeginStringOrEmpty | BeginString
  | EndValue | EndTop
  | InString | InStringEsc | InStringEscU | InStringEscU1 | InStringEscU12 | InStringEscU123
  | Neg | Num1 | Num0 | Dot | Dot0 | Exp | ExpSign | Exp0
  | Lit string

datatype parse_state = ParseObjectKey | ParseObjectValue | ParseArrayValue

type_synonym scanner = "scan_step \<times> parse_state list"

text \<open>What the scanner does with a byte: keep it, skip it as white space, or stop with an error.\<close>

datatype scan_op = Keep scanner | Skip scanner | ScanError

definition json_space :: "char \<Rightarrow> bool" where
  "json_space c \<longleftrightarrow> c = CHR 0x20 \<or> c = CHR 0x09 \<or> c = CHR 0x0D \<or> c = CHR 0x0A"

definition digit :: "char \<Rightarrow> bool" where
  "digit c \<longleftrightarrow> CHR ''0'' \<le> c \<and> c \<le> CHR ''9''"

definition hex_digit :: "char \<Rightarrow> bool" where
  "hex_digit c \<longleftrightarrow> digit c \<or> (CHR ''a'' \<le> c \<and> c \<le> CHR ''f'') \<or> (CHR ''A'' \<le> c \<and> c \<le> CHR ''F'')"

definition max_nesting_depth :: nat where
  "max_nesting_depth = 10000"

definition push_state :: "scan_step \<Rightarrow> parse_state \<Rightarrow> parse_state list \<Rightarrow> scan_op" where
  "push_state st p ps =
     (if length ps + 1 \<le> max_nesting_depth then Keep (st, p # ps) else ScanError)"

definition pop_state :: "parse_state list \<Rightarrow> scanner" where
  "pop_state ps = (if tl ps = [] then (EndTop, []) else (EndValue, tl ps))"

definition state_end_top :: "char \<Rightarrow> scan_op" where
  "state_end_top c = (if json_space c then Skip (EndTop, []) else ScanError)"

fun state_end_value :: "parse_state list \<Rightarrow> char \<Rightarrow> scan_op" where
  "state_end_value [] c = state_end_top c"
| "state_end_value (p # ps) c =
     (if json_space c then Skip (EndValue, p # ps)
      else case p of
        ParseObjectKey \<Rightarrow> if c = CHR '':'' then Keep (BeginValue, ParseObjectValue # ps) else ScanError
      | ParseObjectValue \<Rightarrow>
          if c = CHR '','' then Keep (BeginString, ParseObjectKey # ps)
          else if c = CHR ''}'' then Keep (pop_state (p # ps)) else ScanError
      | ParseArrayValue \<Rightarrow>
          if c = CHR '','' then Keep (BeginValue, p # ps)
          else if c = CHR '']'' then Keep (pop_state (p # ps)) else ScanError)"

definition state_begin_value :: "parse_state list \<Rightarrow> char \<Rightarrow> scan_op" where
  "state_begin_value ps c =
     (if json_space c then Skip (BeginValue, ps)
      else if c = CHR ''{'' then push_state BeginStringOrEmpty ParseObjectKey ps
      else if c = CHR ''['' then push_state BeginValueOrEmpty ParseArrayValue ps
      else if c = CHR 0x22 then Keep (InString, ps)
      else if c = CHR ''-'' then Keep (Neg, ps)
      else if c = CHR ''0'' then Keep (Num0, ps)
      else if c = CHR ''t'' then Keep (Lit ''rue'', ps)
      else if c = CHR ''f'' then Keep (Lit ''alse'', ps)
      else if c = CHR ''n'' then Keep (Lit ''ull'', ps)
      else if digit c then Keep (Num1, ps)
      else ScanError)"

definition state_begin_string :: "parse_state list \<Rightarrow> char \<Rightarrow> scan_op" where
  "state_begin_string ps c =
     (if json_space c then Skip (BeginString, ps)
      else if c = CHR 0x22 then Keep (InString, ps) else ScanError)"

definition state_0 :: "parse_state list \<Rightarrow> char \<Rightarrow> scan_op" where
  "state_0 ps c =
     (if c = CHR ''.'' then Keep (Dot, ps)
      else if c = CHR ''e'' \<or> c = CHR ''E'' then Keep (Exp, ps)
      else state_end_value ps c)"

definition state_e_sign :: "parse_state list \<Rightarrow> char \<Rightarrow> scan_op" where
  "state_e_sign ps c = (if digit c then Keep (Exp0, ps) else ScanError)"

text \<open>The literal states \<^verbatim>\<open>stateT, stateTr, ...\<close> carry the bytes still expected.\<close>

fun scan_byte :: "scanner \<Rightarrow> char \<Rightarrow> scan_op" where
  "scan_byte (BeginValue, ps) c = state_begin_value ps c"
| "scan_byte (BeginValueOrEmpty, ps) c =
     (if json_space c then Skip (BeginValueOrEmpty, ps)
      else if c = CHR '']'' then state_end_value ps c else state_begin_value ps c)"
| "scan_byte (BeginStringOrEmpty, ps) c =
     (if json_space c then Skip (BeginStringOrEmpty, ps)
      else if c = CHR ''}'' then state_end_value (ParseObjectValue # tl ps) c
      else state_begin_string ps c)"
| "scan_byte (BeginString, ps) c = state_begin_string ps c"
| "scan_byte (EndValue, ps) c = state_end_value ps c"
| "scan_byte (EndTop, ps) c = state_end_top c"
| "scan_byte (InString, ps) c =
     (if c = CHR 0x22 then Keep (EndValue, ps)
      else if c = CHR 0x5C then Keep (InStringEsc, ps)
      else if c < CHR 0x20 then ScanError else Keep (InString, ps))"
| "scan_byte (InStringEsc, ps) c =
     (if c \<in> {CHR ''b'', CHR ''f'', CHR ''n'', CHR ''r'', CHR ''t'', CHR 0x5C, CHR ''/'', CHR 0x22}
      then Keep (InString, ps)
      else if c = CHR ''u'' then Keep (InStringEscU, ps) else ScanError)"
| "scan_byte (InStringEscU, ps) c = (if hex_digit c then Keep (InStringEscU1, ps) else ScanError)"
| "scan_byte (InStringEscU1, ps) c = (if hex_digit c then Keep (InStringEscU12, ps) else ScanError)"
| "scan_byte (InStringEscU12, ps) c = (if hex_digit c then Keep (InStringEscU123, ps) else ScanError)"
| "scan_byte (InStringEscU123, ps) c = (if hex_digit c then Keep (InString, ps) else ScanError)"
| "scan_byte (Neg, ps) c =
     (if c = CHR ''0'' then Keep (Num0, ps) else if digit c then Keep (Num1, ps) else ScanError)"
| "scan_byte (Num1, ps) c = (if digit c then Keep (Num1, ps) else state_0 ps c)"
| "scan_byte (Num0, ps) c = state_0 ps c"
| "scan_byte (Dot, ps) c = (if digit c then Keep (Dot0, ps) else ScanError)"
| "scan_byte (Dot0, ps) c =
     (if digit c then Keep (Dot0, ps)
      else if c = CHR ''e'' \<or> c = CHR ''E'' then Keep (Exp, ps) else state_end_value ps c)"
| "scan_byte (Exp, ps) c =
     (if c = CHR ''+'' \<or> c = CHR ''-'' then Keep (ExpSign, ps) else state_e_sign ps c)"
| "scan_byte (ExpSign, ps) c = state_e_sign ps c"
| "scan_byte (Exp0, ps) c = (if digit c then Keep (Exp0, ps) else state_end_value ps c)"
| "scan_byte (Lit w, ps) c =
     (case w of [] \<Rightarrow> ScanError
      | x # xs \<Rightarrow> if c = x then Keep (if xs = [] then (EndValue, ps) else (Lit xs, ps)) else ScanError)"

text \<open>\<^verbatim>\<open>scanner.eof\<close>: already at the top level's end, or there after one more space.\<close>

definition scan_eof :: "scanner \<Rightarrow> bool" where
  "scan_eof s \<longleftrightarrow> fst s = EndTop \<or>
     (case scan_byte s (CHR 0x20) of Skip s' \<Rightarrow> fst s' = EndTop | _ \<Rightarrow> False)"

text \<open>Scanning a text: the final state and the bytes that were kept.\<close>

fun scan_from :: "scanner \<Rightarrow> string \<Rightarrow> (scanner \<times> string) option" where
  "scan_from s [] = Some (s, [])"
| "scan_from s (c # cs) =
     (case scan_byte s c of
        ScanError \<Rightarrow> None
      | Skip s' \<Rightarrow> scan_from s' cs
      | Keep s' \<Rightarrow> (case scan_from s' cs of None \<Rightarrow> None | Some (t, out) \<Rightarrow> Some (t, c # out)))"

definition scan_init :: scanner where
  "scan_init = (BeginValue, [])"

definition json_compact :: "bytes \<Rightarrow> bytes option" where
  "json_compact src =
     (case scan_from scan_init src of
        None \<Rightarrow> None
      | Some (s, out) \<Rightarrow> if scan_eof s then Some out else None)"

definition json_valid :: "bytes \<Rightarrow> bool" where
  "json_valid src \<longleftrightarrow> json_compact src \<noteq> None"

section \<open>HTML escaping\<close>

definition escape_char :: "char \<Rightarrow> string option" where
  "escape_char c =
     (if c = CHR ''<'' then Some (CHR 0x5C # ''u003c'')
      else if c = CHR ''>'' then Some (CHR 0x5C # ''u003e'')
      else if c = CHR ''&'' then Some (CHR 0x5C # ''u0026'')
      else None)"

text \<open>\<^verbatim>\<open><\<close>, \<^verbatim>\<open>>\<close> and \<^verbatim>\<open>&\<close>, and the UTF-8 sequences of U+2028 and U+2029 (E2 80 A8, E2 80 A9).\<close>

definition line_sep :: "bytes \<Rightarrow> string option" where
  "line_sep cs =
     (case cs of a # b # c # _ \<Rightarrow>
        if a = CHR 0xE2 \<and> b = CHR 0x80 \<and> c = CHR 0xA8 then Some (CHR 0x5C # ''u2028'')
        else if a = CHR 0xE2 \<and> b = CHR 0x80 \<and> c = CHR 0xA9 then Some (CHR 0x5C # ''u2029'')
        else None
      | _ \<Rightarrow> None)"

fun html_escape :: "bytes \<Rightarrow> bytes" where
  "html_escape [] = []"
| "html_escape (c # cs) =
     (case line_sep (c # cs) of
        Some e \<Rightarrow> e @ html_escape (drop 2 cs)
      | None \<Rightarrow>
          (case escape_char c of Some e \<Rightarrow> e @ html_escape cs | None \<Rightarrow> c # html_escape cs))"

definition json_canonical :: "bytes \<Rightarrow> bytes option" where
  "json_canonical src = map_option html_escape (json_compact src)"

section \<open>Compaction is a canonical form\<close>

lemma space_not_digit: "json_space c \<Longrightarrow> \<not> digit c"
  by (auto simp: json_space_def digit_def less_eq_char_def)

lemma end_value_Keep_not_num:
  "state_end_value ps c = Keep s \<Longrightarrow> \<not> digit c \<and> c \<noteq> CHR ''.'' \<and> c \<noteq> CHR ''e'' \<and> c \<noteq> CHR ''E''"
  by (cases ps) (auto simp: state_end_top_def digit_def less_eq_char_def split: if_splits parse_state.splits)

definition num_end :: "scan_step \<Rightarrow> bool" where
  "num_end s \<longleftrightarrow> s = EndValue \<or> s = Num0 \<or> s = Num1 \<or> s = Dot0 \<or> s = Exp0"

text \<open>
  White space after a complete value moves the scanner to its end-of-value state; without the white space
  it would still be in one of the states where a number may end.
\<close>

definition scan_sim :: "scanner \<Rightarrow> scanner \<Rightarrow> bool" where
  "scan_sim a b \<longleftrightarrow> a = b \<or>
     (num_end (fst b) \<and> a = (if snd b = [] then (EndTop, []) else (EndValue, snd b)))"

lemma scan_sim_refl [simp]: "scan_sim a a"
  by (simp add: scan_sim_def)

lemma end_value_num:
  "state_end_value ps c = Keep s \<Longrightarrow> num_end st \<Longrightarrow> scan_byte (st, ps) c = Keep s"
  using end_value_Keep_not_num[of ps c s]
  by (auto simp: num_end_def state_0_def)

lemma scan_sim_keep:
  assumes "scan_sim a b" "scan_byte a c = Keep a'"
  shows "scan_byte b c = Keep a'"
proof (cases "a = b")
  case False
  with assms(1) have b: "num_end (fst b)" "a = (if snd b = [] then (EndTop, []) else (EndValue, snd b))"
    by (auto simp: scan_sim_def)
  with assms(2) have "state_end_value (snd b) c = Keep a'"
    by (auto simp: state_end_top_def split: if_splits)
  with b(1) show ?thesis
    using end_value_num[of "snd b" c a' "fst b"] by simp
qed (use assms in simp)

lemma end_value_skip:
  "state_end_value ps c = Skip s \<Longrightarrow> s = (if ps = [] then (EndTop, []) else (EndValue, ps))"
  by (cases ps) (auto simp: state_end_top_def split: if_splits parse_state.splits)

lemma begin_value_skip: "state_begin_value ps c = Skip s \<Longrightarrow> json_space c \<and> s = (BeginValue, ps)"
  by (auto simp: state_begin_value_def push_state_def split: if_splits)

lemma begin_string_skip: "state_begin_string ps c = Skip s \<Longrightarrow> json_space c \<and> s = (BeginString, ps)"
  by (auto simp: state_begin_string_def split: if_splits)

lemma scan_byte_skip:
  assumes "scan_byte a c = Skip a'"
  shows "a' = a \<or> fst a = EndTop \<and> a' = (EndTop, []) \<or>
    num_end (fst a) \<and> a' = (if snd a = [] then (EndTop, []) else (EndValue, snd a))"
proof -
  obtain st ps where a: "a = (st, ps)" by (cases a)
  have beg: "state_end_value (ParseObjectValue # tl ps) (CHR ''}'') \<noteq> Skip a'"
    "state_end_value ps (CHR '']'') \<noteq> Skip a'"
    by (cases ps; auto simp: json_space_def state_end_top_def split: parse_state.splits)+
  show ?thesis
    using assms beg begin_value_skip[of ps c a'] begin_string_skip[of ps c a'] end_value_skip[of ps c a'] a
    by (cases st) (auto simp: num_end_def state_0_def state_e_sign_def state_end_top_def json_space_def
        split: if_splits list.splits dest: begin_value_skip begin_string_skip end_value_skip)
qed

text \<open>The stack is empty whenever the scanner is at the end of the top-level value.\<close>

definition scan_wf :: "scanner \<Rightarrow> bool" where
  "scan_wf s \<longleftrightarrow> (fst s = EndTop \<longrightarrow> snd s = [])"

lemma end_value_wf: "state_end_value ps c = Keep s \<Longrightarrow> scan_wf s"
  by (cases ps) (auto simp: state_end_top_def scan_wf_def pop_state_def split: if_splits parse_state.splits)

lemma scan_byte_wf: "scan_byte s c = Keep s' \<Longrightarrow> scan_wf s'"
  by (cases "(s, c)" rule: scan_byte.cases)
     (auto simp: scan_wf_def state_begin_value_def push_state_def state_begin_string_def state_0_def
        state_e_sign_def state_end_top_def pop_state_def split: if_splits list.splits
        dest!: end_value_wf[unfolded scan_wf_def])

lemma scan_sim_skip:
  assumes "scan_sim a b" "scan_wf b" "scan_byte a c = Skip a'"
  shows "scan_sim a' b"
  using assms scan_byte_skip[OF assms(3)]
  by (cases b) (auto simp: scan_sim_def num_end_def scan_wf_def split: if_splits)

lemma scan_sim_eof: "scan_sim a b \<Longrightarrow> scan_eof a \<Longrightarrow> scan_eof b"
  by (cases b; cases "snd b")
     (auto simp: scan_sim_def num_end_def scan_eof_def state_0_def state_end_top_def json_space_def digit_def
        less_eq_char_def split: if_splits)

lemma scan_from_compact:
  assumes "scan_from a cs = Some (t, out)" "scan_sim a b" "scan_wf b"
  shows "\<exists>t'. scan_from b out = Some (t', out) \<and> scan_sim t t'"
  using assms
proof (induction cs arbitrary: a b out)
  case Nil
  then show ?case by auto
next
  case (Cons c cs)
  show ?case
  proof (cases "scan_byte a c")
    case (Keep a')
    with Cons.prems(1) obtain out' where o: "scan_from a' cs = Some (t, out')" "out = c # out'"
      by (auto split: option.splits)
    have k: "scan_byte b c = Keep a'"
      using scan_sim_keep[OF Cons.prems(2) Keep] .
    from Cons.IH[OF o(1), of a'] scan_byte_wf[OF k] obtain t'
      where "scan_from a' out' = Some (t', out')" "scan_sim t t'" by auto
    with k o show ?thesis by auto
  next
    case (Skip a')
    with Cons.prems(1) have "scan_from a' cs = Some (t, out)" by simp
    from Cons.IH[OF this scan_sim_skip[OF Cons.prems(2,3) Skip] Cons.prems(3)] show ?thesis .
  next
    case ScanError
    with Cons.prems(1) show ?thesis by simp
  qed
qed

lemma json_compact_idem:
  assumes "json_compact src = Some out"
  shows "json_compact out = Some out"
proof -
  from assms obtain t where t: "scan_from scan_init src = Some (t, out)" "scan_eof t"
    by (auto simp: json_compact_def split: option.splits if_splits)
  from scan_from_compact[OF t(1), of scan_init] obtain t'
    where "scan_from scan_init out = Some (t', out)" "scan_sim t t'"
    by (auto simp: scan_init_def scan_wf_def)
  with scan_sim_eof t(2) show ?thesis
    by (auto simp: json_compact_def)
qed

section \<open>Escaping keeps the scan\<close>

lemma scan_from_length: "scan_from s cs = Some (t, out) \<Longrightarrow> length out \<le> length cs"
proof (induction cs arbitrary: s out)
  case (Cons c cs)
  show ?case
  proof (cases "scan_byte s c")
    case (Keep s')
    with Cons.prems Cons.IH[of s'] show ?thesis by (auto split: option.splits)
  next
    case (Skip s')
    with Cons.prems Cons.IH[of s' out] show ?thesis by simp
  qed (use Cons.prems in simp)
qed simp

lemma scan_from_tight:
  assumes "scan_from s (c # cs) = Some (t, c # cs)"
  obtains s' where "scan_byte s c = Keep s'" "scan_from s' cs = Some (t, cs)"
proof (cases "scan_byte s c")
  case (Keep s')
  with assms that show ?thesis by (auto split: option.splits)
next
  case (Skip s')
  with assms have "scan_from s' cs = Some (t, c # cs)" by simp
  from scan_from_length[OF this] show ?thesis by simp
qed (use assms in simp)

text \<open>The bytes that HTML escaping acts on are accepted inside strings only.\<close>

definition special :: "char \<Rightarrow> bool" where
  "special c \<longleftrightarrow> c = CHR ''<'' \<or> c = CHR ''>'' \<or> c = CHR ''&'' \<or> c = CHR 0xE2"

lemma special_facts:
  assumes "special c"
  shows "\<not> json_space c" "\<not> digit c" "\<not> hex_digit c" "\<not> c < CHR 0x20"
    "c \<noteq> CHR 0x22" "c \<noteq> CHR 0x5C" "c \<noteq> CHR ''{''" "c \<noteq> CHR ''[''" "c \<noteq> CHR ''}''" "c \<noteq> CHR '']''"
    "c \<noteq> CHR '':''" "c \<noteq> CHR '',''" "c \<noteq> CHR ''-''" "c \<noteq> CHR ''+''" "c \<noteq> CHR ''.''" "c \<noteq> CHR ''0''"
    "c \<noteq> CHR ''e''" "c \<noteq> CHR ''E''" "c \<noteq> CHR ''t''" "c \<noteq> CHR ''f''" "c \<noteq> CHR ''n''" "c \<noteq> CHR ''b''"
    "c \<noteq> CHR ''r''" "c \<noteq> CHR ''/''" "c \<noteq> CHR ''u''"
  using assms
  by (auto simp: special_def json_space_def digit_def hex_digit_def less_eq_char_def less_char_def)

definition lit_wf :: "scanner \<Rightarrow> bool" where
  "lit_wf s \<longleftrightarrow> (\<forall>w. fst s = Lit w \<longrightarrow> list_all (\<lambda>x. \<not> special x) w)"

lemma special_end_value: "special c \<Longrightarrow> state_end_value ps c = ScanError"
  by (cases ps) (simp_all add: special_facts state_end_top_def split: parse_state.splits)

lemma only_in_string:
  assumes "scan_byte (st, ps) c = Keep s'" "special c" "lit_wf (st, ps)"
  shows "st = InString \<and> s' = (InString, ps)"
  using assms
  by (cases st)
     (auto simp: special_facts special_end_value state_begin_value_def state_begin_string_def state_0_def
        state_e_sign_def state_end_top_def lit_wf_def split: list.splits if_splits)

lemma lit_wf_other: "(\<And>w. st \<noteq> Lit w) \<Longrightarrow> lit_wf (st, ps)"
  by (simp add: lit_wf_def)

lemma end_value_lit: "state_end_value ps c = Keep s \<Longrightarrow> lit_wf s"
  by (cases ps) (auto simp: state_end_top_def lit_wf_def pop_state_def split: if_splits parse_state.splits)

lemma begin_value_lit: "state_begin_value ps c = Keep s \<Longrightarrow> lit_wf s"
  by (auto simp: state_begin_value_def push_state_def lit_wf_def special_def split: if_splits)

lemma begin_string_lit: "state_begin_string ps c = Keep s \<Longrightarrow> lit_wf s"
  by (auto simp: state_begin_string_def lit_wf_def split: if_splits)

lemma state_0_lit: "state_0 ps c = Keep s \<Longrightarrow> lit_wf s"
  by (auto simp: state_0_def split: if_splits intro: lit_wf_other dest: end_value_lit)

lemma scan_byte_lit:
  assumes "lit_wf s" "scan_byte s c = Keep s'"
  shows "lit_wf s'"
proof -
  obtain st ps where s: "s = (st, ps)" by (cases s)
  show ?thesis
    using assms s
    by (cases st)
       (auto simp: state_e_sign_def state_end_top_def split: if_splits list.splits
          dest: end_value_lit begin_value_lit begin_string_lit state_0_lit intro: lit_wf_other,
        auto simp: lit_wf_def pop_state_def split: if_splits)
qed

definition is_escape :: "string \<Rightarrow> bool" where
  "is_escape e \<longleftrightarrow> (\<exists>a b c d. e = [CHR 0x5C, CHR ''u'', a, b, c, d] \<and>
     hex_digit a \<and> hex_digit b \<and> hex_digit c \<and> hex_digit d)"

lemma escape_char_cases: "escape_char c = Some e \<Longrightarrow> special c \<and> is_escape e"
  by (auto simp: escape_char_def special_def is_escape_def hex_digit_def digit_def less_eq_char_def
      split: if_splits)

lemma line_sep_cases:
  "line_sep (c # cs) = Some e \<Longrightarrow>
   special c \<and> is_escape e \<and> (\<exists>x ds. cs = CHR 0x80 # x # ds \<and> (x = CHR 0xA8 \<or> x = CHR 0xA9))"
  by (auto simp: line_sep_def special_def is_escape_def hex_digit_def digit_def less_eq_char_def
      split: list.splits if_splits)

lemma scan_escape:
  assumes "is_escape e"
  shows "scan_from (InString, ps) (e @ cs) =
    map_option (\<lambda>(t, out). (t, e @ out)) (scan_from (InString, ps) cs)"
  using assms
  by (auto simp: is_escape_def less_char_def split: option.splits)

lemma in_string_high:
  "scan_byte (InString, ps) (CHR 0x80) = Keep (InString, ps)"
  "scan_byte (InString, ps) (CHR 0xA8) = Keep (InString, ps)"
  "scan_byte (InString, ps) (CHR 0xA9) = Keep (InString, ps)"
  by (simp_all add: less_char_def)

lemma scan_high_pair:
  assumes "scan_from (InString, ps) (CHR 0x80 # x # ds) = Some (t, CHR 0x80 # x # ds)"
    and "x = CHR 0xA8 \<or> x = CHR 0xA9"
  shows "scan_from (InString, ps) ds = Some (t, ds)"
proof -
  from assms(1) have "scan_from (InString, ps) (x # ds) = Some (t, x # ds)"
    by (rule scan_from_tight) (simp add: in_string_high)
  then show ?thesis
    by (rule scan_from_tight) (use assms(2) in_string_high in auto)
qed

lemma scan_html_escape:
  assumes "scan_from s xs = Some (t, xs)" "lit_wf s"
  shows "scan_from s (html_escape xs) = Some (t, html_escape xs)"
  using assms
proof (induction xs arbitrary: s rule: html_escape.induct)
  case 1
  then show ?case by simp
next
  case (2 c cs)
  obtain st ps where s: "s = (st, ps)" by (cases s)
  from "2.prems"(1) obtain s' where k: "scan_byte s c = Keep s'" and r: "scan_from s' cs = Some (t, cs)"
    by (rule scan_from_tight)
  have lit': "lit_wf s'" using scan_byte_lit[OF "2.prems"(2) k] .
  have str: "special c \<Longrightarrow> s = (InString, ps) \<and> s' = (InString, ps)"
    using only_in_string[of st ps c s'] k "2.prems"(2) s by simp
  show ?case
  proof (cases "line_sep (c # cs)")
    case (Some e)
    from line_sep_cases[OF Some] obtain x ds where
      c: "special c" "is_escape e" and cs: "cs = CHR 0x80 # x # ds" "x = CHR 0xA8 \<or> x = CHR 0xA9"
      by blast
    from r cs str[OF c(1)] have "scan_from (InString, ps) ds = Some (t, ds)"
      using scan_high_pair by simp
    then have "scan_from (InString, ps) (html_escape ds) = Some (t, html_escape ds)"
      using "2.IH"(3)[OF Some, of "(InString, ps)"] cs(1) by (simp add: lit_wf_other)
    with scan_escape[OF c(2), of ps "html_escape ds"] show ?thesis
      using Some cs(1) str[OF c(1)] by simp
  next
    case none: None
    show ?thesis
    proof (cases "escape_char c")
      case (Some e)
      from escape_char_cases[OF Some] have c: "special c" "is_escape e" by auto
      from "2.IH"(2)[OF none Some r lit'] str[OF c(1)]
      have "scan_from (InString, ps) (html_escape cs) = Some (t, html_escape cs)" by simp
      with scan_escape[OF c(2), of ps "html_escape cs"] show ?thesis
        using Some none str[OF c(1)] by simp
    next
      case None
      from "2.IH"(1)[OF none None r lit'] show ?thesis
        using none None k by simp
    qed
  qed
qed

fun html_clean :: "bytes \<Rightarrow> bool" where
  "html_clean [] = True"
| "html_clean (c # cs) = (line_sep (c # cs) = None \<and> escape_char c = None \<and> html_clean cs)"

lemma html_clean_escape: "html_clean xs \<Longrightarrow> html_escape xs = xs"
  by (induction xs) auto

lemma is_escape_hd: "is_escape e \<Longrightarrow> e @ cs = x # ys \<Longrightarrow> x = CHR 0x5C"
  by (auto simp: is_escape_def)

lemma html_escape_hd:
  "html_escape cs = x # ys \<Longrightarrow> x \<noteq> CHR 0x5C \<Longrightarrow> \<exists>ds. cs = x # ds \<and> html_escape ds = ys"
  by (cases cs) (auto split: option.splits dest: escape_char_cases line_sep_cases is_escape_hd)

lemma line_sep_not_E2: "c \<noteq> CHR 0xE2 \<Longrightarrow> line_sep (c # cs) = None"
  by (auto simp: line_sep_def split: list.splits)

lemma line_sep_None_escape:
  assumes "line_sep (c # cs) = None"
  shows "line_sep (c # html_escape cs) = None"
proof (rule ccontr)
  assume "line_sep (c # html_escape cs) \<noteq> None"
  then obtain e where e: "line_sep (c # html_escape cs) = Some e" by auto
  from line_sep_cases[OF e] obtain x ds where
    h: "html_escape cs = CHR 0x80 # x # ds" and x: "x = CHR 0xA8 \<or> x = CHR 0xA9" by blast
  from html_escape_hd[OF h] obtain cs' where cs': "cs = CHR 0x80 # cs'" "html_escape cs' = x # ds"
    by auto
  from html_escape_hd[OF cs'(2)] x obtain cs'' where "cs' = x # cs''" by auto
  with e h cs'(1) assms show False by (auto simp: line_sep_def split: if_splits)
qed

lemma hex_digit_clean: "hex_digit c \<Longrightarrow> c \<noteq> CHR 0xE2 \<and> escape_char c = None"
  using special_facts(3)[of c] by (auto simp: special_def escape_char_def)

lemma clean_escape_append:
  assumes "is_escape e" "html_clean cs"
  shows "html_clean (e @ cs)"
proof -
  from assms(1) obtain a b c d where e: "e = [CHR 0x5C, CHR ''u'', a, b, c, d]"
    and h: "hex_digit a" "hex_digit b" "hex_digit c" "hex_digit d"
    by (auto simp: is_escape_def)
  have "escape_char (CHR 0x5C) = None" "escape_char (CHR ''u'') = None"
    by (simp_all add: escape_char_def)
  with e h assms(2) show ?thesis
    by (simp add: hex_digit_clean line_sep_not_E2)
qed

lemma html_clean_html_escape: "html_clean (html_escape xs)"
proof (induction xs rule: html_escape.induct)
  case (2 c cs)
  show ?case
  proof (cases "line_sep (c # cs)")
    case (Some e)
    with "2.IH"(3) line_sep_cases[OF Some] show ?thesis by (simp add: clean_escape_append)
  next
    case none: None
    show ?thesis
    proof (cases "escape_char c")
      case (Some e)
      with none "2.IH"(2) escape_char_cases[OF Some] show ?thesis by (simp add: clean_escape_append)
    next
      case None
      with none "2.IH"(1) line_sep_None_escape[OF none] show ?thesis by simp
    qed
  qed
qed simp

lemma html_escape_idem: "html_escape (html_escape xs) = html_escape xs"
  by (rule html_clean_escape[OF html_clean_html_escape])

lemma json_compact_html_escape:
  assumes "json_compact out = Some out"
  shows "json_compact (html_escape out) = Some (html_escape out)"
proof -
  from assms obtain t where t: "scan_from scan_init out = Some (t, out)" "scan_eof t"
    by (auto simp: json_compact_def split: option.splits if_splits)
  have "lit_wf scan_init" by (simp add: lit_wf_def scan_init_def)
  from scan_html_escape[OF t(1) this] t(2) show ?thesis
    by (simp add: json_compact_def)
qed

lemma json_canonical_fixpoint:
  assumes "json_canonical src = Some out"
  shows "json_canonical out = Some out" and "json_valid out"
proof -
  from assms obtain c where c: "json_compact src = Some c" "out = html_escape c"
    by (auto simp: json_canonical_def)
  from json_compact_html_escape[OF json_compact_idem[OF c(1)]] c(2)
  have j: "json_compact out = Some out" by simp
  then show "json_canonical out = Some out"
    using c(2) by (simp add: json_canonical_def html_escape_idem)
  from j show "json_valid out" by (simp add: json_valid_def)
qed

lemma json_canonical_None_iff [simp]: "json_canonical src = None \<longleftrightarrow> \<not> json_valid src"
  by (simp add: json_canonical_def json_valid_def)

end
