(* ===== verification/Tool_Types.thy ===== *)
theory Tool_Types
  imports Go_Json
begin

text \<open>
  The data model of the agent's tool subsystem (src/pkg/liaison/manager/agent/tool/types.go,
  session_kind.go, permission.go): tool identifiers with their printed form, descriptors and their
  validation, bindings, invocations, results, policy decisions, approval grants and disclosed tool
  sets. Go's \<^verbatim>\<open>clone...\<close> helpers copy slices and maps; on HOL values they are the identity and have no
  counterpart here.

  The lemmas: printing and parsing tool identifiers are inverse to each other; the input digest of a
  call does not change when the call is stored as JSON and read back; a grant accepts exactly the
  frozen call; shell sessions reach only the terminal and discovery tools.
\<close>

section \<open>Enumerations\<close>

type_synonym protocol = string
type_synonym capability = string
type_synonym session_kind = string

abbreviation ProtocolAny :: protocol where "ProtocolAny \<equiv> ''any''"
abbreviation SessionAccess :: session_kind where "SessionAccess \<equiv> ''access''"
abbreviation SessionManagement :: session_kind where "SessionManagement \<equiv> ''management''"
abbreviation SessionShell :: session_kind where "SessionShell \<equiv> ''shell''"

datatype output_kind = OutputText | OutputFacts | OutputTable | OutputImage | OutputArtifact | OutputError

datatype risk_level = RiskReadOnly | RiskLow | RiskMedium | RiskHigh | RiskCritical

fun risk_rank :: "risk_level \<Rightarrow> nat" where
  "risk_rank RiskReadOnly = 0"
| "risk_rank RiskLow = 1"
| "risk_rank RiskMedium = 2"
| "risk_rank RiskHigh = 3"
| "risk_rank RiskCritical = 4"

lemma risk_rank_inject [simp]: "risk_rank a = risk_rank b \<longleftrightarrow> a = b"
  by (cases a; cases b) auto

text \<open>The numeric order of the Go constants.\<close>

instantiation risk_level :: linorder
begin

definition less_eq_risk_level :: "risk_level \<Rightarrow> risk_level \<Rightarrow> bool" where
  "a \<le> b \<longleftrightarrow> risk_rank a \<le> risk_rank b"

definition less_risk_level :: "risk_level \<Rightarrow> risk_level \<Rightarrow> bool" where
  "a < b \<longleftrightarrow> risk_rank a < risk_rank b"

instance
  by standard (auto simp: less_eq_risk_level_def less_risk_level_def)

end

datatype approval_mode = ApprovalNever | ApprovalByPolicy | ApprovalAlways

datatype disclosure_mode = DisclosureDeferred | DisclosureAttachment | DisclosureAlways

datatype tool_status =
  ToolStatusActive | ToolStatusDisabled | ToolStatusDraining | ToolStatusFailed | ToolStatusUnloaded

datatype trust_level = TrustUntrusted | TrustRestricted | TrustTrusted | TrustBuiltin

text \<open>A decision effect is a \<^verbatim>\<open>uint8\<close>: a policy may return a value outside the three constants.\<close>

datatype decision_effect = DecisionAllow | DecisionDeny | DecisionRequireApproval | DecisionOther nat

section \<open>Tool identifiers\<close>

record tool_id =
  tid_Namespace :: string
  tid_Name :: string
  tid_Version :: string

definition tool_id_String :: "tool_id \<Rightarrow> string" where
  "tool_id_String i = tid_Namespace i @ ''.'' @ tid_Name i @ ''@'' @ tid_Version i"

definition tool_id_ModelName :: "tool_id \<Rightarrow> string" where
  "tool_id_ModelName i = tid_Namespace i @ ''.'' @ tid_Name i"

definition lower_alpha :: "char \<Rightarrow> bool" where
  "lower_alpha c \<longleftrightarrow> CHR ''a'' \<le> c \<and> c \<le> CHR ''z''"

definition upper_alpha :: "char \<Rightarrow> bool" where
  "upper_alpha c \<longleftrightarrow> CHR ''A'' \<le> c \<and> c \<le> CHR ''Z''"

text \<open>\<^verbatim>\<open>^[a-z][a-z0-9_]{0,62}$\<close>\<close>

definition tool_part_pattern :: "string \<Rightarrow> bool" where
  "tool_part_pattern s =
     (case s of [] \<Rightarrow> False
      | c # cs \<Rightarrow> lower_alpha c \<and> length cs \<le> 62 \<and>
          list_all (\<lambda>x. lower_alpha x \<or> digit x \<or> x = CHR ''_'') cs)"

text \<open>\<^verbatim>\<open>^[0-9]+\.[0-9]+\.[0-9]+(?:-[0-9A-Za-z.-]+)?$\<close>\<close>

definition version_suffix :: "string \<Rightarrow> bool" where
  "version_suffix s =
     (case s of [] \<Rightarrow> True
      | c # cs \<Rightarrow> c = CHR ''-'' \<and> cs \<noteq> [] \<and>
          list_all (\<lambda>x. digit x \<or> upper_alpha x \<or> lower_alpha x \<or> x = CHR ''.'' \<or> x = CHR ''-'') cs)"

fun version_numbers :: "nat \<Rightarrow> string \<Rightarrow> bool" where
  "version_numbers 0 s = False"
| "version_numbers (Suc 0) s = (takeWhile digit s \<noteq> [] \<and> version_suffix (dropWhile digit s))"
| "version_numbers (Suc (Suc n)) s =
     (takeWhile digit s \<noteq> [] \<and>
      (case dropWhile digit s of [] \<Rightarrow> False | c # cs \<Rightarrow> c = CHR ''.'' \<and> version_numbers (Suc n) cs))"

definition version_pattern :: "string \<Rightarrow> bool" where
  "version_pattern s = version_numbers 3 s"

definition ParseToolID :: "string \<Rightarrow> gerr + tool_id" where
  "ParseToolID value =
     (case split_on (CHR ''@'') value of
        [nm, ver] \<Rightarrow>
          (case split_on (CHR ''.'') nm of
             [ns, name] \<Rightarrow>
               (if \<not> tool_part_pattern ns \<or> \<not> tool_part_pattern name \<or> \<not> version_pattern ver
                then Inl (errw ErrInvalidDescriptor (''malformed tool ID '' @ go_quote value))
                else Inr \<lparr>tid_Namespace = ns, tid_Name = name, tid_Version = ver\<rparr>)
           | _ \<Rightarrow> Inl (errw ErrInvalidDescriptor (''malformed tool name '' @ go_quote nm)))
      | _ \<Rightarrow> Inl (errw ErrInvalidDescriptor (''malformed tool ID '' @ go_quote value)))"

definition tool_id_wf :: "tool_id \<Rightarrow> bool" where
  "tool_id_wf i \<longleftrightarrow> tool_part_pattern (tid_Namespace i) \<and> tool_part_pattern (tid_Name i) \<and>
     version_pattern (tid_Version i)"

section \<open>Session kinds\<close>

definition session_kind_Valid :: "session_kind \<Rightarrow> bool" where
  "session_kind_Valid k \<longleftrightarrow> k = [] \<or> k = SessionAccess \<or> k = SessionManagement \<or> k = SessionShell"

definition session_kind_Effective :: "session_kind \<Rightarrow> session_kind" where
  "session_kind_Effective k = (if k = [] then SessionAccess else k)"

section \<open>Descriptors\<close>

record resource_permission =
  perm_Resource :: string
  perm_Action :: string

record tool_source_ref =
  src_ID :: string
  src_Kind :: string
  src_Trust :: trust_level

record tool_descriptor =
  td_SessionKinds :: "session_kind list"
  td_Permission :: "resource_permission option"
  td_ID :: tool_id
  td_DisplayName :: string
  td_Description :: string
  td_WhenToUse :: string
  td_InputSchema :: bytes
  td_OutputKinds :: "output_kind list"
  td_Protocols :: "protocol list"
  td_Capabilities :: "capability list"
  td_Tags :: "string list"
  td_Risk :: risk_level
  td_Approval :: approval_mode
  td_Disclosure :: disclosure_mode
  td_DefaultTimeout :: int
  td_Source :: tool_source_ref

text \<open>
  \<open>'f\<close> stands for the values behind the \<^verbatim>\<open>ToolFactory\<close> interface; \<open>None\<close> is the nil interface.
\<close>

record 'f tool_registration =
  reg_Descriptor :: tool_descriptor
  reg_Factory :: "'f option"

text \<open>
  Unmarshalling valid JSON into \<^verbatim>\<open>map[string]json.RawMessage\<close> succeeds for an object and for \<^verbatim>\<open>null\<close>.
\<close>

definition json_unmarshals_to_map :: "bytes \<Rightarrow> bool" where
  "json_unmarshals_to_map s =
     (case json_compact s of Some (c # _) \<Rightarrow> c = CHR ''{'' \<or> c = CHR ''n'' | _ \<Rightarrow> False)"

definition ValidateDescriptor :: "tool_descriptor \<Rightarrow> gerr option" where
  "ValidateDescriptor d =
     (let bad = (\<lambda>msg. Some (errw ErrInvalidDescriptor msg)) in
      if \<not> tool_part_pattern (tid_Namespace (td_ID d)) then bad (''invalid namespace '' @ go_quote (tid_Namespace (td_ID d)))
      else if \<not> tool_part_pattern (tid_Name (td_ID d)) then bad (''invalid name '' @ go_quote (tid_Name (td_ID d)))
      else if \<not> version_pattern (tid_Version (td_ID d)) then bad (''invalid version '' @ go_quote (tid_Version (td_ID d)))
      else if trim_space (td_Description d) = [] then bad ''description is required''
      else if int (length (td_Description d)) > 2048 \<or> int (length (td_WhenToUse d)) > 2048
        then bad ''descriptive text is too large''
      else if td_InputSchema d = [] \<or> int (length (td_InputSchema d)) > 64 * 1024 \<or> \<not> json_valid (td_InputSchema d)
        then bad ''input schema must be valid JSON''
      else if \<not> json_unmarshals_to_map (td_InputSchema d) then bad ''input schema must be an object''
      else if src_ID (td_Source d) = [] \<or> src_Kind (td_Source d) = [] then bad ''source is required''
      else if td_DefaultTimeout d < 0 then bad ''timeout cannot be negative''
      else if list_ex (\<lambda>k. k = [] \<or> \<not> session_kind_Valid k) (td_SessionKinds d) then bad ''invalid session kind''
      else (case td_Permission d of
              Some p \<Rightarrow>
                if trim_space (perm_Resource p) = [] \<or> trim_space (perm_Action p) = []
                then bad ''resource and action are required'' else None
            | None \<Rightarrow> None))"

text \<open>
  Which session kinds may see a tool. Shell sessions inherit four named tools from access sessions;
  an empty list of kinds means access sessions only.
\<close>

definition matches_plain_session :: "tool_descriptor \<Rightarrow> session_kind \<Rightarrow> bool" where
  "matches_plain_session d kind =
     (if \<not> session_kind_Valid kind then False
      else let k = session_kind_Effective kind in
        if td_SessionKinds d = [] then k = SessionAccess else k \<in> set (td_SessionKinds d))"

definition descriptorMatchesSession :: "tool_descriptor \<Rightarrow> session_kind \<Rightarrow> bool" where
  "descriptorMatchesSession d kind =
     (if kind = SessionShell then
        (tid_Namespace (td_ID d) = ''terminal'' \<and>
           (tid_Name (td_ID d) = ''read'' \<or> tid_Name (td_ID d) = ''execute'') \<or>
         tid_Namespace (td_ID d) = ''core'' \<and>
           (tid_Name (td_ID d) = ''tool_search'' \<or> tid_Name (td_ID d) = ''tool_describe'')) \<and>
        matches_plain_session d SessionAccess
      else matches_plain_session d kind)"

section \<open>Bindings, invocations and results\<close>

record principal =
  prin_UserID :: nat
  prin_OrganizationID :: nat

record attachment_snapshot =
  att_ID :: string
  att_AccessID :: nat
  att_ApplicationID :: nat
  att_Protocol :: protocol
  att_Capabilities :: "capability list"
  att_Generation :: u64
  att_AccessHandleID :: string

definition no_attachment :: attachment_snapshot where
  "no_attachment = \<lparr>att_ID = [], att_AccessID = 0, att_ApplicationID = 0, att_Protocol = [],
     att_Capabilities = [], att_Generation = 0, att_AccessHandleID = []\<rparr>"

record tool_binding =
  bind_SessionKind :: session_kind
  bind_Principal :: principal
  bind_Attachment :: attachment_snapshot
  bind_ToolSnapshotID :: string

record tool_call =
  call_ID :: tool_id
  call_Input :: bytes

record tool_invocation =
  inv_ID :: string
  inv_Call :: tool_call
  inv_Binding :: tool_binding
  inv_RegistrationGeneration :: u64

record tool_result =
  res_Kind :: output_kind
  res_Content :: bytes
  res_IsError :: bool
  res_Truncated :: bool
  res_ArtifactID :: string

section \<open>Decisions and grants\<close>

record decision =
  dec_Effect :: decision_effect
  dec_Reason :: string
  dec_Risk :: risk_level
  dec_ApprovalPolicy :: string
  dec_NormalizedInput :: bytes

definition AllowAllPolicy_Evaluate :: "tool_invocation \<Rightarrow> tool_descriptor \<Rightarrow> gerr + decision" where
  "AllowAllPolicy_Evaluate invocation d =
     (if td_Approval d = ApprovalAlways
      then Inr \<lparr>dec_Effect = DecisionRequireApproval, dec_Reason = ''tool requires explicit approval'',
                dec_Risk = td_Risk d, dec_ApprovalPolicy = [], dec_NormalizedInput = call_Input (inv_Call invocation)\<rparr>
      else Inr \<lparr>dec_Effect = DecisionAllow, dec_Reason = [], dec_Risk = td_Risk d, dec_ApprovalPolicy = [],
                dec_NormalizedInput = call_Input (inv_Call invocation)\<rparr>)"

record exposed_tool =
  exp_Descriptor :: tool_descriptor
  exp_RegistrationGeneration :: u64
  exp_EstimatedTokens :: int

record tool_set_snapshot =
  snap_ID :: string
  snap_CatalogGeneration :: u64
  snap_PolicyRevision :: string
  snap_AttachmentGeneration :: "(string, u64) gomap"
  snap_Tools :: "exposed_tool list"
  snap_CreatedAt :: gtime

definition snapshot_Find :: "tool_set_snapshot \<Rightarrow> tool_id \<Rightarrow> exposed_tool option" where
  "snapshot_Find s i = List.find (\<lambda>e. td_ID (exp_Descriptor e) = i) (snap_Tools s)"

record approval_grant =
  grant_ApprovalID :: string
  grant_InvocationID :: string
  grant_ToolID :: tool_id
  grant_ToolSnapshotID :: string
  grant_InputSHA256 :: string
  grant_AttachmentGeneration :: u64
  grant_ExpiresAt :: gtime

text \<open>
  The digest of a call's arguments. \<open>sha\<close> is the hexadecimal SHA-256 function of the standard library,
  used as a black box.
\<close>

definition InputDigest :: "(bytes \<Rightarrow> string) \<Rightarrow> bytes \<Rightarrow> string" where
  "InputDigest sha input = (case json_canonical input of None \<Rightarrow> [] | Some c \<Rightarrow> sha c)"

definition grant_validates ::
  "(bytes \<Rightarrow> string) \<Rightarrow> approval_grant \<Rightarrow> tool_invocation \<Rightarrow> tool_set_snapshot \<Rightarrow> gtime \<Rightarrow> bool" where
  "grant_validates sha g invocation snapshot now =
     (if grant_ApprovalID g = [] \<or> grant_InvocationID g \<noteq> inv_ID invocation \<or>
         grant_ToolID g \<noteq> call_ID (inv_Call invocation) \<or> grant_ToolSnapshotID g \<noteq> snap_ID snapshot then False
      else if \<not> (grant_ExpiresAt g > now) \<or>
         grant_AttachmentGeneration g \<noteq> att_Generation (bind_Attachment (inv_Binding invocation)) then False
      else let d = InputDigest sha (call_Input (inv_Call invocation)) in d \<noteq> [] \<and> grant_InputSHA256 g = d)"

section \<open>Disclosure requests\<close>

record disclosure_budget =
  bud_MaxAlwaysVisible :: int
  bud_MaxCandidates :: int
  bud_MaxSchemas :: int
  bud_MaxTokens :: int

definition DefaultDisclosureBudget :: disclosure_budget where
  "DefaultDisclosureBudget =
     \<lparr>bud_MaxAlwaysVisible = 8, bud_MaxCandidates = 12, bud_MaxSchemas = 16, bud_MaxTokens = 6000\<rparr>"

record disclosure_request =
  dr_SessionKind :: session_kind
  dr_Principal :: principal
  dr_Attachments :: "attachment_snapshot list"
  dr_Primary :: string
  dr_Query :: string
  dr_Promoted :: "tool_id list"
  dr_RecentlyUsed :: "tool_id list"
  dr_PolicyRevision :: string
  dr_Budget :: disclosure_budget

record tool_summary =
  ts_ID :: tool_id
  ts_DisplayName :: string
  ts_Description :: string
  ts_Protocols :: "protocol list"
  ts_Risk :: risk_level
  ts_Tags :: "string list"

section \<open>Printing and parsing tool identifiers\<close>

lemma alpha_facts:
  "lower_alpha c \<Longrightarrow> c \<noteq> CHR ''.'' \<and> c \<noteq> CHR ''@''"
  "upper_alpha c \<Longrightarrow> c \<noteq> CHR ''@''"
  "digit c \<Longrightarrow> c \<noteq> CHR ''.'' \<and> c \<noteq> CHR ''@''"
  by (auto simp: lower_alpha_def upper_alpha_def digit_def less_eq_char_def)

lemma tool_part_no_sep: "tool_part_pattern s \<Longrightarrow> CHR ''.'' \<notin> set s \<and> CHR ''@'' \<notin> set s"
  by (cases s) (auto simp: tool_part_pattern_def list_all_iff dest: alpha_facts)

lemma version_suffix_no_at: "version_suffix s \<Longrightarrow> CHR ''@'' \<notin> set s"
  by (cases s) (auto simp: version_suffix_def list_all_iff dest: alpha_facts)

lemma digits_no_at: "CHR ''@'' \<notin> set (dropWhile digit s) \<Longrightarrow> CHR ''@'' \<notin> set s"
  using alpha_facts(3)[of "CHR ''@''"]
  by (metis UnE set_append set_takeWhileD takeWhile_dropWhile_id)

lemma version_numbers_no_at: "version_numbers n s \<Longrightarrow> CHR ''@'' \<notin> set s"
proof (induction n s rule: version_numbers.induct)
  case (2 s)
  then show ?case using digits_no_at version_suffix_no_at by simp
next
  case (3 n s)
  then obtain cs where "dropWhile digit s = CHR ''.'' # cs" "version_numbers (Suc n) cs"
    by (auto split: list.splits)
  with 3 have "CHR ''@'' \<notin> set (dropWhile digit s)" by simp
  then show ?case by (rule digits_no_at)
qed simp

lemma version_no_at: "version_pattern s \<Longrightarrow> CHR ''@'' \<notin> set s"
  by (simp add: version_pattern_def version_numbers_no_at)

lemma parse_print:
  assumes "tool_id_wf i"
  shows "ParseToolID (tool_id_String i) = Inr i"
proof -
  from assms have ns: "CHR ''.'' \<notin> set (tid_Namespace i)" "CHR ''@'' \<notin> set (tid_Namespace i)"
    and nm: "CHR ''.'' \<notin> set (tid_Name i)" "CHR ''@'' \<notin> set (tid_Name i)"
    and v: "CHR ''@'' \<notin> set (tid_Version i)"
    using tool_part_no_sep version_no_at by (auto simp: tool_id_wf_def)
  have "split_on (CHR ''@'') (tool_id_String i) =
      [tid_Namespace i @ ''.'' @ tid_Name i, tid_Version i]"
    using split_on_join[of "CHR ''@''" "tid_Namespace i @ ''.'' @ tid_Name i" "tid_Version i"] ns nm v
    by (simp add: tool_id_String_def split_on_single)
  moreover have "split_on (CHR ''.'') (tid_Namespace i @ ''.'' @ tid_Name i) =
      [tid_Namespace i, tid_Name i]"
    using split_on_join[of "CHR ''.''" "tid_Namespace i" "tid_Name i"] ns nm
    by (simp add: split_on_single)
  ultimately show ?thesis
    using assms by (simp add: ParseToolID_def tool_id_wf_def)
qed

lemma print_parse:
  assumes "ParseToolID v = Inr i"
  shows "tool_id_wf i \<and> v = tool_id_String i"
proof -
  from assms obtain nm ver ns n where
    sp: "split_on (CHR ''@'') v = [nm, ver]" "split_on (CHR ''.'') nm = [ns, n]" and
    i: "i = \<lparr>tid_Namespace = ns, tid_Name = n, tid_Version = ver\<rparr>" "tool_id_wf i"
    by (auto simp: ParseToolID_def tool_id_wf_def split: list.splits if_splits)
  have "v = nm @ ''@'' @ ver" using join_split[of "CHR ''@''" v] sp(1) by simp
  moreover have "nm = ns @ ''.'' @ n" using join_split[of "CHR ''.''" nm] sp(2) by simp
  ultimately show ?thesis using i by (simp add: tool_id_String_def)
qed

text \<open>C40: parsing a tool identifier succeeds exactly on the printed form of a well-formed identifier and
  returns that identifier, so printing and parsing are inverse to each other.\<close>

theorem tool_id_roundtrip: "ParseToolID v = Inr i \<longleftrightarrow> tool_id_wf i \<and> v = tool_id_String i"
  using parse_print print_parse by auto

lemma tool_id_String_inject:
  "tool_id_wf i \<Longrightarrow> tool_id_wf j \<Longrightarrow> tool_id_String i = tool_id_String j \<Longrightarrow> i = j"
  using parse_print by (metis sum.inject(2))

lemma ParseToolID_error: "ParseToolID v = Inl e \<Longrightarrow> errors_is e ErrInvalidDescriptor"
  by (auto simp: ParseToolID_def split: list.splits if_splits)

section \<open>Validation\<close>

lemma ValidateDescriptor_wf: "ValidateDescriptor d = None \<Longrightarrow> tool_id_wf (td_ID d)"
  by (auto simp: ValidateDescriptor_def tool_id_wf_def Let_def split: if_splits)

lemma ValidateDescriptor_source: "ValidateDescriptor d = None \<Longrightarrow> src_ID (td_Source d) \<noteq> []"
  by (auto simp: ValidateDescriptor_def Let_def split: if_splits)

lemma ValidateDescriptor_error: "ValidateDescriptor d = Some e \<Longrightarrow> errors_is e ErrInvalidDescriptor"
  by (auto simp: ValidateDescriptor_def Let_def split: if_splits option.splits)

section \<open>Digests and grants\<close>

text \<open>Storing a call's arguments as JSON (which compacts and escapes them) does not change their
  digest, so a grant issued before the call was persisted still matches the call read back.\<close>

lemma InputDigest_persistent:
  assumes "json_canonical input = Some stored"
  shows "InputDigest sha stored = InputDigest sha input"
  using assms json_canonical_fixpoint(1)[OF assms] by (simp add: InputDigest_def)

lemma grant_validates_iff:
  "grant_validates sha g invocation snapshot now \<longleftrightarrow>
     grant_ApprovalID g \<noteq> [] \<and> grant_InvocationID g = inv_ID invocation \<and>
     grant_ToolID g = call_ID (inv_Call invocation) \<and> grant_ToolSnapshotID g = snap_ID snapshot \<and>
     now < grant_ExpiresAt g \<and>
     grant_AttachmentGeneration g = att_Generation (bind_Attachment (inv_Binding invocation)) \<and>
     grant_InputSHA256 g = InputDigest sha (call_Input (inv_Call invocation)) \<and>
     InputDigest sha (call_Input (inv_Call invocation)) \<noteq> []"
  by (auto simp: grant_validates_def Let_def)


section \<open>Session kinds\<close>

text \<open>A shell session can only match the terminal and discovery tools, and only those an access
  session may use.\<close>

lemma shell_session_tools:
  assumes "descriptorMatchesSession d SessionShell"
  shows "tool_id_ModelName (td_ID d) \<in> {''terminal.read'', ''terminal.execute'', ''core.tool_search'', ''core.tool_describe''} \<and>
    descriptorMatchesSession d SessionAccess"
  using assms by (auto simp: descriptorMatchesSession_def tool_id_ModelName_def)

text \<open>A tool is available to management sessions only when it opts in by name.\<close>

lemma management_opt_in:
  "descriptorMatchesSession d SessionManagement \<longleftrightarrow> SessionManagement \<in> set (td_SessionKinds d)"
  by (auto simp: descriptorMatchesSession_def matches_plain_session_def session_kind_Valid_def
      session_kind_Effective_def)

lemma matches_session_effective:
  "descriptorMatchesSession d (session_kind_Effective k) = descriptorMatchesSession d k"
  by (auto simp: descriptorMatchesSession_def matches_plain_session_def session_kind_Valid_def
      session_kind_Effective_def)

lemma snapshot_Find_Some:
  "snapshot_Find s i = Some e \<Longrightarrow> e \<in> set (snap_Tools s) \<and> td_ID (exp_Descriptor e) = i"
  unfolding snapshot_Find_def by (rule find_SomeD)

section \<open>Concrete instances\<close>

definition sample_id :: "string \<Rightarrow> string \<Rightarrow> tool_id" where
  "sample_id ns nm = \<lparr>tid_Namespace = ns, tid_Name = nm, tid_Version = ''1.0.0''\<rparr>"

definition sample_descriptor :: "tool_id \<Rightarrow> tool_descriptor" where
  "sample_descriptor i =
     \<lparr>td_SessionKinds = [], td_Permission = None, td_ID = i, td_DisplayName = ''Sample'',
      td_Description = ''Sample tool'', td_WhenToUse = [], td_InputSchema = ''{}'', td_OutputKinds = [OutputText],
      td_Protocols = [ProtocolAny], td_Capabilities = [], td_Tags = [], td_Risk = RiskReadOnly,
      td_Approval = ApprovalNever, td_Disclosure = DisclosureAlways, td_DefaultTimeout = 0,
      td_Source = \<lparr>src_ID = ''builtin'', src_Kind = ''builtin'', src_Trust = TrustBuiltin\<rparr>\<rparr>"

definition sample_registration :: "tool_id \<Rightarrow> unit tool_registration" where
  "sample_registration i = \<lparr>reg_Descriptor = sample_descriptor i, reg_Factory = Some ()\<rparr>"

definition sample_invocation :: "tool_id \<Rightarrow> bytes \<Rightarrow> tool_invocation" where
  "sample_invocation i input =
     \<lparr>inv_ID = ''call-1'', inv_Call = \<lparr>call_ID = i, call_Input = input\<rparr>,
      inv_Binding = \<lparr>bind_SessionKind = SessionAccess, bind_Principal = \<lparr>prin_UserID = 1, prin_OrganizationID = 1\<rparr>,
        bind_Attachment = no_attachment, bind_ToolSnapshotID = ''snap-1''\<rparr>,
      inv_RegistrationGeneration = 1\<rparr>"

definition sample_snapshot :: "tool_id list \<Rightarrow> tool_set_snapshot" where
  "sample_snapshot is =
     \<lparr>snap_ID = ''snap-1'', snap_CatalogGeneration = 1, snap_PolicyRevision = [], snap_AttachmentGeneration = [],
      snap_Tools = map (\<lambda>i. \<lparr>exp_Descriptor = sample_descriptor i, exp_RegistrationGeneration = 1,
        exp_EstimatedTokens = 1\<rparr>) is, snap_CreatedAt = 0\<rparr>"

definition sample_grant :: "tool_id \<Rightarrow> string \<Rightarrow> approval_grant" where
  "sample_grant i digest =
     \<lparr>grant_ApprovalID = ''ap-1'', grant_InvocationID = ''call-1'', grant_ToolID = i, grant_ToolSnapshotID = ''snap-1'',
      grant_InputSHA256 = digest, grant_AttachmentGeneration = 0, grant_ExpiresAt = 100\<rparr>"

lemma sample_descriptor_valid: "tool_id_wf i \<Longrightarrow> ValidateDescriptor (sample_descriptor i) = None"
proof -
  assume "tool_id_wf i"
  moreover have "json_valid ''{}''" "json_unmarshals_to_map ''{}''" "trim_space ''Sample tool'' \<noteq> []"
    by code_simp+
  ultimately show ?thesis
    by (simp add: ValidateDescriptor_def sample_descriptor_def tool_id_wf_def)
qed


end
