(* ===== verification/Tool_Catalog.thy ===== *)
theory Tool_Catalog
  imports Tool_Types
begin

text \<open>
  The tool catalog (src/pkg/liaison/manager/agent/tool/catalog.go): the copy-on-write map from tool
  identifiers to the entries that disclosure reads, and the score of a descriptor against a query.
  A catalog is a value here, so \<^verbatim>\<open>snapshot()\<close> is the catalog itself.

  The lemmas: every operation keeps the entries keyed by their descriptor's identifier and bumps the
  generation exactly when it changes something; a query scores zero exactly when one of its words
  occurs in none of the searched fields.
\<close>

section \<open>State and operations\<close>

record catalog_entry =
  ce_descriptor :: tool_descriptor
  ce_registrationGeneration :: u64
  ce_status :: tool_status

record catalog =
  cat_generation :: u64
  cat_entries :: "(tool_id, catalog_entry) gomap"

definition NewCatalog :: catalog where
  "NewCatalog = \<lparr>cat_generation = 0, cat_entries = []\<rparr>"

definition catalog_upsert :: "tool_descriptor \<Rightarrow> u64 \<Rightarrow> tool_status \<Rightarrow> catalog \<Rightarrow> u64 \<times> catalog" where
  "catalog_upsert d g status c =
     (let c' = \<lparr>cat_generation = cat_generation c + 1,
                cat_entries = gm_put (td_ID d)
                  \<lparr>ce_descriptor = d, ce_registrationGeneration = g, ce_status = status\<rparr> (cat_entries c)\<rparr>
      in (cat_generation c', c'))"

definition catalog_setStatus :: "tool_id \<Rightarrow> tool_status \<Rightarrow> catalog \<Rightarrow> (u64 \<times> bool) \<times> catalog" where
  "catalog_setStatus i status c =
     (case gm_get (cat_entries c) i of
        None \<Rightarrow> ((cat_generation c, False), c)
      | Some e \<Rightarrow>
          let c' = \<lparr>cat_generation = cat_generation c + 1,
                    cat_entries = gm_put i (e\<lparr>ce_status := status\<rparr>) (cat_entries c)\<rparr>
          in ((cat_generation c', True), c'))"

definition catalog_remove :: "tool_id \<Rightarrow> catalog \<Rightarrow> (u64 \<times> bool) \<times> catalog" where
  "catalog_remove i c =
     (case gm_get (cat_entries c) i of
        None \<Rightarrow> ((cat_generation c, False), c)
      | Some e \<Rightarrow>
          let c' = \<lparr>cat_generation = cat_generation c + 1, cat_entries = gm_del i (cat_entries c)\<rparr>
          in ((cat_generation c', True), c'))"

definition catalog_byModelName :: "string \<Rightarrow> string \<Rightarrow> catalog \<Rightarrow> catalog_entry list" where
  "catalog_byModelName namespace name c =
     map snd (filter (\<lambda>(i, _). tid_Namespace i = namespace \<and> tid_Name i = name) (cat_entries c))"

section \<open>Matching a query\<close>

text \<open>The phrases that mean ``list everything'' (the last three are UTF-8 Chinese).\<close>

definition list_all_phrases :: "string list" where
  "list_all_phrases =
     [''list all available tools'', ''list tools'', ''all tools'', ''available tools'',
      [CHR 0xE5, CHR 0x85, CHR 0xA8, CHR 0xE9, CHR 0x83, CHR 0xA8, CHR 0xE5, CHR 0xB7, CHR 0xA5, CHR 0xE5, CHR 0x85, CHR 0xB7],
      [CHR 0xE5, CHR 0x8F, CHR 0xAF, CHR 0xE7, CHR 0x94, CHR 0xA8, CHR 0xE5, CHR 0xB7, CHR 0xA5, CHR 0xE5, CHR 0x85, CHR 0xB7],
      [CHR 0xE5, CHR 0x88, CHR 0x97, CHR 0xE5, CHR 0x87, CHR 0xBA, CHR 0xE6, CHR 0x89, CHR 0x80, CHR 0xE6, CHR 0x9C, CHR 0x89,
       CHR 0xE5, CHR 0xB7, CHR 0xA5, CHR 0xE5, CHR 0x85, CHR 0xB7]]"

definition match_haystacks :: "tool_descriptor \<Rightarrow> (string \<times> int) list" where
  "match_haystacks d =
     [(to_lower (tool_id_ModelName (td_ID d)), 8),
      (to_lower (td_DisplayName d), 6),
      (to_lower (join_with (CHR '' '') (td_Tags d)), 4),
      (to_lower (td_WhenToUse d), 3),
      (to_lower (td_Description d), 2)]"

text \<open>The inner loop: the weight one query word adds and whether it matched at all.\<close>

fun part_score :: "(string \<times> int) list \<Rightarrow> string \<Rightarrow> int \<times> bool" where
  "part_score [] part = (0, False)"
| "part_score ((v, w) # hs) part =
     (let (s, m) = part_score hs part in if str_contains v part then (s + w, True) else (s, m))"

fun match_parts :: "(string \<times> int) list \<Rightarrow> int \<Rightarrow> string list \<Rightarrow> int" where
  "match_parts hs score [] = score"
| "match_parts hs score (p # ps) =
     (let (s, m) = part_score hs p in if m then match_parts hs (score + s) ps else 0)"

definition descriptorMatchScore :: "tool_descriptor \<Rightarrow> string \<Rightarrow> int" where
  "descriptorMatchScore d query =
     (let q = to_lower (trim_space query);
          q' = (if q \<in> set list_all_phrases then [] else q)
      in if q' = [] then 1 else match_parts (match_haystacks d) 0 (str_fields q'))"

section \<open>Well-formedness\<close>

definition catalog_wf :: "catalog \<Rightarrow> bool" where
  "catalog_wf c \<longleftrightarrow> gm_wf (cat_entries c) \<and> gm_all (\<lambda>i e. td_ID (ce_descriptor e) = i) (cat_entries c)"

lemma catalog_wfD:
  assumes "catalog_wf c"
  shows "gm_wf (cat_entries c)"
    "gm_get (cat_entries c) i = Some e \<Longrightarrow> td_ID (ce_descriptor e) = i"
    "(i, e) \<in> set (cat_entries c) \<Longrightarrow> td_ID (ce_descriptor e) = i"
  using assms by (auto simp: catalog_wf_def gm_all_def gm_mem_iff)

lemma NewCatalog_wf [simp]: "catalog_wf NewCatalog"
  by (simp add: catalog_wf_def NewCatalog_def)

lemma upsert_wf: "catalog_wf c \<Longrightarrow> catalog_wf (snd (catalog_upsert d g st c))"
  by (simp add: catalog_wf_def catalog_upsert_def Let_def gm_all_put)

lemma catalog_setStatus_wf: "catalog_wf c \<Longrightarrow> catalog_wf (snd (catalog_setStatus i st c))"
  by (auto simp: catalog_wf_def catalog_setStatus_def Let_def intro!: gm_all_put dest: gm_allD split: option.splits)

lemma remove_wf: "catalog_wf c \<Longrightarrow> catalog_wf (snd (catalog_remove i c))"
  by (simp add: catalog_wf_def catalog_remove_def Let_def gm_all_del split: option.splits)

lemmas catalog_wf_ops = upsert_wf catalog_setStatus_wf remove_wf

text \<open>Reading after writing.\<close>

lemma get_upsert:
  "gm_get (cat_entries (snd (catalog_upsert d g st c))) i =
     (if i = td_ID d then Some \<lparr>ce_descriptor = d, ce_registrationGeneration = g, ce_status = st\<rparr>
      else gm_get (cat_entries c) i)"
  by (simp add: catalog_upsert_def Let_def)

lemma get_setStatus:
  "gm_get (cat_entries (snd (catalog_setStatus i st c))) j =
     (if j = i then map_option (\<lambda>e. e\<lparr>ce_status := st\<rparr>) (gm_get (cat_entries c) i)
      else gm_get (cat_entries c) j)"
  by (simp add: catalog_setStatus_def Let_def split: option.splits)

lemma get_remove:
  "gm_get (cat_entries (snd (catalog_remove i c))) j = (if j = i then None else gm_get (cat_entries c) j)"
  by (simp add: catalog_remove_def Let_def split: option.splits)

lemmas catalog_gets = get_upsert get_setStatus get_remove

lemma setStatus_found: "snd (fst (catalog_setStatus i st c)) \<longleftrightarrow> gm_get (cat_entries c) i \<noteq> None"
  by (auto simp: catalog_setStatus_def Let_def split: option.splits)

lemma byModelName_iff:
  "catalog_wf c \<Longrightarrow> e \<in> set (catalog_byModelName ns nm c) \<longleftrightarrow>
     (\<exists>i. gm_get (cat_entries c) i = Some e \<and> tid_Namespace i = ns \<and> tid_Name i = nm)"
  by (force simp: catalog_byModelName_def gm_mem_iff[OF catalog_wfD(1), symmetric])

lemma byModelName_Nil_iff:
  "catalog_wf c \<Longrightarrow> catalog_byModelName ns nm c = [] \<longleftrightarrow>
     (\<forall>i e. gm_get (cat_entries c) i = Some e \<longrightarrow> \<not> (tid_Namespace i = ns \<and> tid_Name i = nm))"
  using byModelName_iff[of c _ ns nm] by (metis list.set_intros(1) list.exhaust empty_iff list.set(1))

section \<open>The match score\<close>

lemma part_score_nonneg: "\<forall>(v, w) \<in> set hs. 0 < w \<Longrightarrow> 0 \<le> fst (part_score hs p)"
  by (induction hs p rule: part_score.induct) (auto simp: Let_def split: prod.splits)

lemma part_score_matched: "snd (part_score hs p) \<longleftrightarrow> (\<exists>(v, w) \<in> set hs. str_contains v p)"
  by (induction hs p rule: part_score.induct) (auto simp: Let_def split: prod.splits)

lemma part_score_pos:
  "\<forall>(v, w) \<in> set hs. 0 < w \<Longrightarrow> snd (part_score hs p) \<Longrightarrow> 0 < fst (part_score hs p)"
proof (induction hs p rule: part_score.induct)
  case (2 v w hs part)
  from 2(2) part_score_nonneg[of hs part] have "0 \<le> fst (part_score hs part)" by simp
  with 2 show ?case by (auto simp: Let_def split: prod.splits if_splits)
qed simp

lemma match_parts_zero:
  assumes "\<forall>(v, w) \<in> set hs. 0 < w" "0 < score \<or> ps \<noteq> []" "0 \<le> score"
  shows "match_parts hs score ps = 0 \<longleftrightarrow> (\<exists>p \<in> set ps. \<forall>(v, w) \<in> set hs. \<not> str_contains v p)"
  using assms(2,3)
proof (induction ps arbitrary: score)
  case (Cons p ps)
  obtain s m where sm: "part_score hs p = (s, m)" by (cases "part_score hs p")
  show ?case
  proof (cases m)
    case True
    with part_score_pos[OF assms(1), of p] sm have "0 < s" by simp
    with Cons.IH[of "score + s"] Cons.prems part_score_matched[of hs p] sm True show ?thesis by auto
  next
    case False
    with sm part_score_matched[of hs p] show ?thesis by auto
  qed
qed simp

lemma haystack_weights: "\<forall>(v, w) \<in> set (match_haystacks d). 0 < w"
  by (simp add: match_haystacks_def)

lemma fields_acc_Nil: "fields_acc cur s = [] \<longleftrightarrow> cur = [] \<and> list_all is_space s"
  by (induction cur s rule: fields_acc.induct) auto

lemma is_space_to_lower: "is_space (to_lower_char c) \<Longrightarrow> is_space c"
proof -
  have low: "97 \<le> (of_char (char_of (n + 32)) :: nat) \<and> of_char (char_of (n + 32)) \<le> (122 :: nat)"
    if "65 \<le> n" "n \<le> 90" for n :: nat
    using that by simp
  have "\<not> is_space c" if "97 \<le> (of_char c :: nat)" for c
    using that by (auto simp: is_space_def)
  with low[of "of_char c"] show "is_space (to_lower_char c) \<Longrightarrow> is_space c"
    by (auto simp: to_lower_char_def Let_def split: if_splits)
qed

lemma trim_space_last: "trim_space s \<noteq> [] \<Longrightarrow> \<not> is_space (last (trim_space s))"
  by (simp add: trim_space_def last_rev hd_dropWhile)

lemma query_fields_ne: "to_lower (trim_space q) \<noteq> [] \<Longrightarrow> str_fields (to_lower (trim_space q)) \<noteq> []"
proof -
  assume ne: "to_lower (trim_space q) \<noteq> []"
  then have t: "trim_space q \<noteq> []" by (auto simp: to_lower_def)
  then have "to_lower_char (last (trim_space q)) \<in> set (to_lower (trim_space q))"
    by (simp add: to_lower_def)
  moreover have "\<not> is_space (to_lower_char (last (trim_space q)))"
    using is_space_to_lower trim_space_last[OF t] by blast
  ultimately show "str_fields (to_lower (trim_space q)) \<noteq> []"
    by (auto simp: str_fields_def fields_acc_Nil list_all_iff)
qed

text \<open>A descriptor scores zero against a query, and is left out of the search results, exactly when
  the query is not one of the ``list everything'' phrases and some word of it occurs in none of the
  model name, display name, tags, usage hint and description (all compared in lower case).\<close>

lemma match_score_zero_iff:
  "descriptorMatchScore d query = 0 \<longleftrightarrow>
     to_lower (trim_space query) \<notin> set ([] # list_all_phrases) \<and>
     (\<exists>p \<in> set (str_fields (to_lower (trim_space query))). \<not> list_ex (\<lambda>(v, w). str_contains v p) (match_haystacks d))"
proof (cases "to_lower (trim_space query) \<in> set ([] # list_all_phrases)")
  case True
  then show ?thesis by (auto simp: descriptorMatchScore_def Let_def)
next
  case False
  with query_fields_ne[of query] match_parts_zero[OF haystack_weights, of 0 "str_fields (to_lower (trim_space query))" d]
  show ?thesis by (fastforce simp: descriptorMatchScore_def Let_def list_ex_iff)
qed

end
