(* ===== verification/Tool_Disclosure.thy ===== *)
theory Tool_Disclosure
  imports Tool_Catalog "HOL-Library.Product_Lexorder"
begin

text \<open>
  Progressive disclosure (src/pkg/liaison/manager/agent/tool/disclosure.go): which tools of the catalog
  a request sees with their full schema (\<open>BuildSnapshot\<close>) and which as a summary (\<open>Search\<close>).

  The visibility filter is an interface implemented elsewhere and is the parameter \<open>vis\<close>; the random
  bytes of a snapshot identifier (or the error reading them) and the clock are parameters too.

  The lemmas: a snapshot stays inside the request's budget, contains only active tools that the session
  kind, an attachment and the visibility filter admit, discloses a deferred tool only after promotion,
  and does not depend on the iteration order of the catalog map.
\<close>

type_synonym visibility = "principal \<Rightarrow> attachment_snapshot option \<Rightarrow> tool_descriptor \<Rightarrow> gerr + bool"

definition AllowAllVisibility_AllowTool :: visibility where
  "AllowAllVisibility_AllowTool p a d = Inr True"

section \<open>Attachments\<close>

definition containsProtocol :: "protocol list \<Rightarrow> protocol \<Rightarrow> bool" where
  "containsProtocol ps target = list_ex (\<lambda>p. p = target) ps"

definition attachmentHasCapabilities :: "attachment_snapshot option \<Rightarrow> capability list \<Rightarrow> bool" where
  "attachmentHasCapabilities a required =
     (if required = [] then True
      else case a of None \<Rightarrow> False
      | Some att \<Rightarrow> list_all (\<lambda>c. c \<in> set (att_Capabilities att)) required)"

definition descriptorMatchesAttachment :: "tool_descriptor \<Rightarrow> attachment_snapshot option \<Rightarrow> bool" where
  "descriptorMatchesAttachment d a =
     (if td_Protocols d = [] \<or> containsProtocol (td_Protocols d) ProtocolAny
      then td_Capabilities d = [] \<or> attachmentHasCapabilities a (td_Capabilities d)
      else case a of None \<Rightarrow> False
      | Some att \<Rightarrow>
          if \<not> containsProtocol (td_Protocols d) (att_Protocol att) then False
          else attachmentHasCapabilities a (td_Capabilities d))"

definition matchingAttachment ::
  "attachment_snapshot list \<Rightarrow> attachment_snapshot option \<Rightarrow> tool_descriptor \<Rightarrow> attachment_snapshot option" where
  "matchingAttachment attachments primary d =
     (if primary \<noteq> None \<and> descriptorMatchesAttachment d primary then primary
      else List.find (\<lambda>a. descriptorMatchesAttachment d (Some a)) attachments)"

definition findPrimaryAttachment :: "attachment_snapshot list \<Rightarrow> string \<Rightarrow> attachment_snapshot option" where
  "findPrimaryAttachment attachments primaryID =
     (case (if primaryID \<noteq> [] then List.find (\<lambda>a. att_ID a = primaryID) attachments else None) of
        Some a \<Rightarrow> Some a
      | None \<Rightarrow> (case attachments of [] \<Rightarrow> None | a # _ \<Rightarrow> Some a))"

section \<open>Budgets and scores\<close>

definition normalizeBudget :: "disclosure_budget \<Rightarrow> disclosure_budget" where
  "normalizeBudget b =
     (let d = DefaultDisclosureBudget in
      \<lparr>bud_MaxAlwaysVisible = (if bud_MaxAlwaysVisible b \<le> 0 then bud_MaxAlwaysVisible d else bud_MaxAlwaysVisible b),
       bud_MaxCandidates = (if bud_MaxCandidates b \<le> 0 then bud_MaxCandidates d else bud_MaxCandidates b),
       bud_MaxSchemas = (if bud_MaxSchemas b \<le> 0 then bud_MaxSchemas d else bud_MaxSchemas b),
       bud_MaxTokens = (if bud_MaxTokens b \<le> 0 then bud_MaxTokens d else bud_MaxTokens b)\<rparr>)"

definition estimateDescriptorTokens :: "tool_descriptor \<Rightarrow> int" where
  "estimateDescriptorTokens d =
     (let bytes = int (length (tool_id_ModelName (td_ID d)) + length (td_DisplayName d) + length (td_Description d) +
            length (td_WhenToUse d) + length (td_InputSchema d) + sum_list (map length (td_Tags d)))
      in max 1 ((bytes + 3) div 4))"

definition disclosureScore :: "tool_descriptor \<Rightarrow> string \<Rightarrow> bool \<Rightarrow> bool \<Rightarrow> bool \<Rightarrow> int" where
  "disclosureScore d query promoted recent attachmentMatched =
     descriptorMatchScore d (to_lower (trim_space query)) +
     (if td_Disclosure d = DisclosureAlways then 100 else 0) +
     (if td_Disclosure d = DisclosureAttachment \<and> attachmentMatched then 60 else 0) +
     (if promoted then 1000 else 0) + (if recent then 20 else 0)"

record ranked_tool =
  rk_entry :: catalog_entry
  rk_score :: int
  rk_promoted :: bool

section \<open>Building a snapshot\<close>

text \<open>
  The checks both loops start with: skip an entry (\<open>Inr None\<close>), fail on a visibility error, or go on
  with the attachment the entry was matched to.
\<close>

definition admit_entry ::
  "visibility \<Rightarrow> disclosure_request \<Rightarrow> catalog_entry \<Rightarrow> gerr + attachment_snapshot option option" where
  "admit_entry vis req e =
     (let d = ce_descriptor e in
      if ce_status e \<noteq> ToolStatusActive \<or> \<not> descriptorMatchesSession d (dr_SessionKind req) then Inr None
      else
        let attachment = matchingAttachment (dr_Attachments req)
              (findPrimaryAttachment (dr_Attachments req) (dr_Primary req)) d
        in if \<not> descriptorMatchesAttachment d attachment then Inr None
           else case vis (dr_Principal req) attachment d of
             Inl err \<Rightarrow> Inl (ErrWrap (''evaluate tool visibility for '' @ tool_id_String (td_ID d) @ '': '') err [])
           | Inr allowed \<Rightarrow> if allowed then Inr (Some attachment) else Inr None)"

fun snapshot_candidates ::
  "visibility \<Rightarrow> disclosure_request \<Rightarrow> catalog_entry list \<Rightarrow> gerr + ranked_tool list" where
  "snapshot_candidates vis req [] = Inr []"
| "snapshot_candidates vis req (e # es) =
     (case admit_entry vis req e of
        Inl err \<Rightarrow> Inl err
      | Inr None \<Rightarrow> snapshot_candidates vis req es
      | Inr (Some attachment) \<Rightarrow>
          let d = ce_descriptor e;
              isPromoted = (td_ID d \<in> set (dr_Promoted req));
              wasRecent = (td_ID d \<in> set (dr_RecentlyUsed req))
          in if td_Disclosure d = DisclosureDeferred \<and> \<not> isPromoted then snapshot_candidates vis req es
             else map_sum id ((#) \<lparr>rk_entry = e,
                    rk_score = disclosureScore d (dr_Query req) isPromoted wasRecent (attachment \<noteq> None),
                    rk_promoted = isPromoted\<rparr>) (snapshot_candidates vis req es))"

definition ranked_less :: "ranked_tool \<Rightarrow> ranked_tool \<Rightarrow> bool" where
  "ranked_less a b =
     (let da = ce_descriptor (rk_entry a); db = ce_descriptor (rk_entry b) in
      if rk_promoted a \<noteq> rk_promoted b then rk_promoted a
      else if rk_score a \<noteq> rk_score b then rk_score a > rk_score b
      else if td_Risk da \<noteq> td_Risk db then td_Risk da < td_Risk db
      else tool_id_String (td_ID da) < tool_id_String (td_ID db))"

text \<open>The selection loop; \<open>tools\<close> are the exposed tools so far.\<close>

fun select_tools ::
  "disclosure_budget \<Rightarrow> exposed_tool list \<Rightarrow> int \<Rightarrow> int \<Rightarrow> int \<Rightarrow> ranked_tool list \<Rightarrow> exposed_tool list" where
  "select_tools b tools tokens alwaysVisible deferred [] = tools"
| "select_tools b tools tokens alwaysVisible deferred (c # cs) =
     (let d = ce_descriptor (rk_entry c);
          isAlways = (td_Disclosure d = DisclosureAlways);
          isDeferred = (td_Disclosure d = DisclosureDeferred \<and> \<not> rk_promoted c)
      in if isAlways \<and> alwaysVisible \<ge> bud_MaxAlwaysVisible b
         then select_tools b tools tokens alwaysVisible deferred cs
         else if \<not> isAlways \<and> isDeferred \<and> deferred \<ge> bud_MaxCandidates b
         then select_tools b tools tokens alwaysVisible deferred cs
         else
           let av = (if isAlways then alwaysVisible + 1 else alwaysVisible);
               df = (if \<not> isAlways \<and> isDeferred then deferred + 1 else deferred)
           in if int (length tools) \<ge> bud_MaxSchemas b then tools
              else
                let estimated = estimateDescriptorTokens d
                in if tokens + estimated > bud_MaxTokens b then select_tools b tools tokens av df cs
                   else select_tools b
                     (tools @ [\<lparr>exp_Descriptor = d, exp_RegistrationGeneration = ce_registrationGeneration (rk_entry c),
                                exp_EstimatedTokens = estimated\<rparr>])
                     (tokens + estimated) av df cs)"

definition hex_char :: "nat \<Rightarrow> char" where
  "hex_char n = (if n < 10 then char_of (48 + n) else char_of (87 + n))"

definition hex_encode :: "bytes \<Rightarrow> string" where
  "hex_encode bs = concat (map (\<lambda>b. [hex_char (of_char b div 16), hex_char (of_char b mod 16)]) bs)"

text \<open>\<open>rnd\<close> is the result of reading twelve random bytes.\<close>

definition newSnapshotID :: "gerr + bytes \<Rightarrow> gerr + string" where
  "newSnapshotID rnd = (case rnd of Inl err \<Rightarrow> Inl err | Inr value \<Rightarrow> Inr (''tls_'' @ hex_encode value))"

definition attachment_generations :: "attachment_snapshot list \<Rightarrow> (string, u64) gomap" where
  "attachment_generations atts = fold (\<lambda>a m. gm_put (att_ID a) (att_Generation a) m) atts []"

definition BuildSnapshot ::
  "visibility \<Rightarrow> gerr + bytes \<Rightarrow> gtime \<Rightarrow> catalog \<Rightarrow> disclosure_request \<Rightarrow> gerr + tool_set_snapshot" where
  "BuildSnapshot vis rnd now cat req =
     (let budget = normalizeBudget (dr_Budget req) in
      case snapshot_candidates vis req (map snd (cat_entries cat)) of
        Inl err \<Rightarrow> Inl err
      | Inr candidates \<Rightarrow>
          let tools = select_tools budget [] 0 0 0 (go_sort ranked_less candidates)
          in case newSnapshotID rnd of
               Inl err \<Rightarrow> Inl (ErrWrap ''create tool snapshot ID: '' err [])
             | Inr snapshotID \<Rightarrow>
                 Inr \<lparr>snap_ID = snapshotID, snap_CatalogGeneration = cat_generation cat,
                      snap_PolicyRevision = dr_PolicyRevision req,
                      snap_AttachmentGeneration = attachment_generations (dr_Attachments req),
                      snap_Tools = tools, snap_CreatedAt = now\<rparr>)"

section \<open>Searching summaries\<close>

fun search_results ::
  "visibility \<Rightarrow> disclosure_request \<Rightarrow> string \<Rightarrow> catalog_entry list \<Rightarrow> gerr + (int \<times> tool_summary) list" where
  "search_results vis req query [] = Inr []"
| "search_results vis req query (e # es) =
     (case admit_entry vis req e of
        Inl err \<Rightarrow> Inl err
      | Inr None \<Rightarrow> search_results vis req query es
      | Inr (Some _) \<Rightarrow>
          let d = ce_descriptor e;
              score = descriptorMatchScore d (to_lower (trim_space query))
          in if trim_space query \<noteq> [] \<and> score = 0 then search_results vis req query es
             else map_sum id ((#) (score,
                    \<lparr>ts_ID = td_ID d, ts_DisplayName = td_DisplayName d, ts_Description = td_Description d,
                     ts_Protocols = td_Protocols d, ts_Risk = td_Risk d, ts_Tags = td_Tags d\<rparr>))
                  (search_results vis req query es))"

definition summary_less :: "int \<times> tool_summary \<Rightarrow> int \<times> tool_summary \<Rightarrow> bool" where
  "summary_less a b =
     (if fst a \<noteq> fst b then fst a > fst b else tool_id_String (ts_ID (snd a)) < tool_id_String (ts_ID (snd b)))"

definition disclosure_Search ::
  "visibility \<Rightarrow> catalog \<Rightarrow> disclosure_request \<Rightarrow> string \<Rightarrow> gerr + tool_summary list" where
  "disclosure_Search vis cat req query =
     (let budget = normalizeBudget (dr_Budget req) in
      case search_results vis req query (map snd (cat_entries cat)) of
        Inl err \<Rightarrow> Inl err
      | Inr results \<Rightarrow>
          let sorted_results = go_sort summary_less results;
              kept = (if int (length sorted_results) > bud_MaxCandidates budget
                      then take (nat (bud_MaxCandidates budget)) sorted_results else sorted_results)
          in Inr (map snd kept))"

section \<open>The orders are strict weak orders\<close>

interpretation ranked: strict_weak ranked_less
  by (rule strict_weak_key[where k = "\<lambda>c. (\<not> rk_promoted c, - rk_score c, td_Risk (ce_descriptor (rk_entry c)),
        tool_id_String (td_ID (ce_descriptor (rk_entry c))))"])
    (auto simp: ranked_less_def Let_def less_prod_simp)

interpretation summaries: strict_weak summary_less
  by (rule strict_weak_key[where k = "\<lambda>c. (- fst c, tool_id_String (ts_ID (snd c)))"])
    (auto simp: summary_less_def less_prod_simp)

section \<open>What the loops compute\<close>

definition expose :: "ranked_tool \<Rightarrow> exposed_tool" where
  "expose c = \<lparr>exp_Descriptor = ce_descriptor (rk_entry c),
     exp_RegistrationGeneration = ce_registrationGeneration (rk_entry c),
     exp_EstimatedTokens = estimateDescriptorTokens (ce_descriptor (rk_entry c))\<rparr>"

lemma expose_simps [simp]:
  "exp_Descriptor (expose c) = ce_descriptor (rk_entry c)"
  "exp_RegistrationGeneration (expose c) = ce_registrationGeneration (rk_entry c)"
  "exp_EstimatedTokens (expose c) = estimateDescriptorTokens (ce_descriptor (rk_entry c))"
  by (simp_all add: expose_def)

definition token_sum :: "exposed_tool list \<Rightarrow> int" where
  "token_sum ts = sum_list (map exp_EstimatedTokens ts)"

definition always_count :: "exposed_tool list \<Rightarrow> nat" where
  "always_count ts = length (filter (\<lambda>t. td_Disclosure (exp_Descriptor t) = DisclosureAlways) ts)"

lemma token_sum_simps [simp]: "token_sum [] = 0" "token_sum (xs @ ys) = token_sum xs + token_sum ys"
  "token_sum [t] = exp_EstimatedTokens t"
  by (simp_all add: token_sum_def)

lemma always_count_simps [simp]: "always_count [] = 0" "always_count (xs @ ys) = always_count xs + always_count ys"
  "always_count [t] = (if td_Disclosure (exp_Descriptor t) = DisclosureAlways then 1 else 0)"
  by (simp_all add: always_count_def)

lemma normalizeBudget_pos:
  "0 < bud_MaxAlwaysVisible (normalizeBudget b)" "0 < bud_MaxCandidates (normalizeBudget b)"
  "0 < bud_MaxSchemas (normalizeBudget b)" "0 < bud_MaxTokens (normalizeBudget b)"
  by (simp_all add: normalizeBudget_def DefaultDisclosureBudget_def Let_def)

definition extends :: "ranked_tool list \<Rightarrow> exposed_tool list \<Rightarrow> exposed_tool list \<Rightarrow> bool" where
  "extends cs tools x \<longleftrightarrow> (\<exists>cs'. subseq cs' cs \<and> x = tools @ map expose cs')"

lemma extends_skip: "extends cs tools x \<Longrightarrow> extends (c # cs) tools x"
  unfolding extends_def using list_emb_Cons by fast

lemma extends_take: "extends cs (tools @ [expose c]) x \<Longrightarrow> extends (c # cs) tools x"
  unfolding extends_def by (metis append.assoc append_Cons append_Nil list.simps(9) subseq_Cons2)

lemma extends_stop: "extends cs tools tools"
  unfolding extends_def by (rule exI[of _ "[]"]) simp

lemma select_tools_extends: "extends cs tools (select_tools b tools tk av df cs)"
proof (induction cs arbitrary: tools tk av df)
  case (Cons c cs)
  show ?case
    unfolding select_tools.simps Let_def expose_def[symmetric]
    by (simp add: extends_skip[OF Cons.IH] extends_take[OF Cons.IH] extends_stop)
qed (simp add: extends_stop)

definition in_budget :: "disclosure_budget \<Rightarrow> exposed_tool list \<Rightarrow> bool" where
  "in_budget b ts \<longleftrightarrow> int (length ts) \<le> bud_MaxSchemas b \<and> token_sum ts \<le> bud_MaxTokens b \<and>
     int (always_count ts) \<le> bud_MaxAlwaysVisible b"

lemma select_tools_bounds:
  assumes "in_budget b tools" "token_sum tools = tk" "int (always_count tools) \<le> av"
    "av \<le> bud_MaxAlwaysVisible b"
  shows "in_budget b (select_tools b tools tk av df cs)"
  using assms
proof (induction cs arbitrary: tools tk av df)
  case (Cons c cs)
  let ?d = "ce_descriptor (rk_entry c)"
  have new: "in_budget b (tools @ [expose c])"
    if "int (length tools) < bud_MaxSchemas b" "tk + estimateDescriptorTokens ?d \<le> bud_MaxTokens b"
      "td_Disclosure ?d = DisclosureAlways \<Longrightarrow> av < bud_MaxAlwaysVisible b"
    using that Cons.prems by (auto simp: in_budget_def expose_def)
  show ?case
    unfolding select_tools.simps Let_def expose_def[symmetric]
    using Cons.prems by (auto intro!: Cons.IH new)
qed simp

text \<open>The candidate an admitted entry gives.\<close>

definition candidate_of :: "visibility \<Rightarrow> disclosure_request \<Rightarrow> catalog_entry \<Rightarrow> ranked_tool option" where
  "candidate_of vis req e =
     (case admit_entry vis req e of
        Inr (Some attachment) \<Rightarrow>
          let d = ce_descriptor e; isPromoted = (td_ID d \<in> set (dr_Promoted req))
          in if td_Disclosure d = DisclosureDeferred \<and> \<not> isPromoted then None
             else Some \<lparr>rk_entry = e,
                    rk_score = disclosureScore d (dr_Query req) isPromoted (td_ID d \<in> set (dr_RecentlyUsed req)) (attachment \<noteq> None),
                    rk_promoted = isPromoted\<rparr>
      | _ \<Rightarrow> None)"

lemma snapshot_candidates_Cons:
  "snapshot_candidates vis req (e # es) =
     (case admit_entry vis req e of
        Inl err \<Rightarrow> Inl err
      | Inr _ \<Rightarrow> (case candidate_of vis req e of
                   None \<Rightarrow> snapshot_candidates vis req es
                 | Some c \<Rightarrow> map_sum id ((#) c) (snapshot_candidates vis req es)))"
  by (auto simp: candidate_of_def Let_def split: sum.split option.split)

lemma snapshot_candidates_Inr:
  "snapshot_candidates vis req es = Inr cs \<longleftrightarrow>
     (\<forall>e \<in> set es. \<not> isl (admit_entry vis req e)) \<and> cs = List.map_filter (candidate_of vis req) es"
proof (induction es arbitrary: cs)
  case (Cons e es)
  then show ?case
    by (auto simp del: snapshot_candidates.simps simp: snapshot_candidates_Cons map_filter_simps map_sum_Inr_iff
        split: sum.split option.split)
qed (auto simp: map_filter_simps)

lemma findPrimary_mem: "findPrimaryAttachment atts pid = Some a \<Longrightarrow> a \<in> set atts"
  by (cases atts) (auto simp: findPrimaryAttachment_def split: option.splits if_splits dest: find_SomeD)

lemma matching_mem:
  "matchingAttachment atts (findPrimaryAttachment atts pid) d = Some a \<Longrightarrow> a \<in> set atts"
  by (auto simp: matchingAttachment_def split: if_splits dest: find_SomeD findPrimary_mem)

lemma candidate_ofD:
  assumes "candidate_of vis req e = Some c"
  shows "rk_entry c = e" "ce_status e = ToolStatusActive"
    "descriptorMatchesSession (ce_descriptor e) (dr_SessionKind req)"
    "\<exists>a. descriptorMatchesAttachment (ce_descriptor e) a \<and> vis (dr_Principal req) a (ce_descriptor e) = Inr True \<and>
       (a = None \<or> (\<exists>x \<in> set (dr_Attachments req). a = Some x))"
    "td_Disclosure (ce_descriptor e) = DisclosureDeferred \<Longrightarrow> td_ID (ce_descriptor e) \<in> set (dr_Promoted req)"
proof -
  from assms obtain a where a: "admit_entry vis req e = Inr (Some a)"
    by (auto simp: candidate_of_def split: sum.splits option.splits)
  then show "ce_status e = ToolStatusActive" "descriptorMatchesSession (ce_descriptor e) (dr_SessionKind req)"
    "\<exists>a. descriptorMatchesAttachment (ce_descriptor e) a \<and> vis (dr_Principal req) a (ce_descriptor e) = Inr True \<and>
       (a = None \<or> (\<exists>x \<in> set (dr_Attachments req). a = Some x))"
    using matching_mem[of "dr_Attachments req" "dr_Primary req" "ce_descriptor e"]
    by (simp_all add: admit_entry_def Let_def split: if_splits sum.splits) (metis not_None_eq)
  from assms a show "rk_entry c = e"
    "td_Disclosure (ce_descriptor e) = DisclosureDeferred \<Longrightarrow> td_ID (ce_descriptor e) \<in> set (dr_Promoted req)"
    by (auto simp: candidate_of_def Let_def split: if_splits)
qed

lemma BuildSnapshot_Inr:
  "BuildSnapshot vis rnd now cat req = Inr s \<longleftrightarrow>
     (\<forall>e \<in> set (map snd (cat_entries cat)). \<not> isl (admit_entry vis req e)) \<and>
     (\<exists>bytes. rnd = Inr bytes \<and>
       s = \<lparr>snap_ID = ''tls_'' @ hex_encode bytes, snap_CatalogGeneration = cat_generation cat,
            snap_PolicyRevision = dr_PolicyRevision req,
            snap_AttachmentGeneration = attachment_generations (dr_Attachments req),
            snap_Tools = select_tools (normalizeBudget (dr_Budget req)) [] 0 0 0
              (go_sort ranked_less (List.map_filter (candidate_of vis req) (map snd (cat_entries cat)))),
            snap_CreatedAt = now\<rparr>)"
  (is "?l \<longleftrightarrow> ?r")
proof (cases "snapshot_candidates vis req (map snd (cat_entries cat))")
  case (Inl err)
  then have "\<not> (\<forall>e \<in> set (map snd (cat_entries cat)). \<not> isl (admit_entry vis req e))"
    using snapshot_candidates_Inr[of vis req "map snd (cat_entries cat)"] by auto
  with Inl show ?thesis by (simp add: BuildSnapshot_def)
next
  case (Inr cs)
  with snapshot_candidates_Inr[of vis req "map snd (cat_entries cat)" cs] show ?thesis
    by (auto simp: BuildSnapshot_def Let_def newSnapshotID_def split: sum.splits)
qed

lemma map_filter_mem: "c \<in> set (List.map_filter f xs) \<longleftrightarrow> (\<exists>x \<in> set xs. f x = Some c)"
  by (auto simp: map_filter_def) force

lemma snapshot_tool_candidate:
  assumes "BuildSnapshot vis rnd now cat req = Inr s" "t \<in> set (snap_Tools s)"
  shows "\<exists>e c. e \<in> snd ` set (cat_entries cat) \<and> candidate_of vis req e = Some c \<and> t = expose c"
proof -
  let ?cs = "go_sort ranked_less (List.map_filter (candidate_of vis req) (map snd (cat_entries cat)))"
  from assms(1) obtain cs' where "subseq cs' ?cs" "snap_Tools s = map expose cs'"
    using select_tools_extends[of ?cs "[]" "normalizeBudget (dr_Budget req)" 0 0 0]
    by (auto simp: BuildSnapshot_Inr extends_def)
  with assms(2) obtain c where c: "c \<in> set ?cs" "t = expose c"
    by (auto dest: subseq_set_mono)
  then show ?thesis by (auto simp: map_filter_mem)
qed

lemma snapshot_tool_entry:
  assumes "catalog_wf cat" "BuildSnapshot vis rnd now cat req = Inr s" "t \<in> set (snap_Tools s)"
  shows "\<exists>e c. gm_get (cat_entries cat) (td_ID (exp_Descriptor t)) = Some e \<and> candidate_of vis req e = Some c \<and>
    t = expose c \<and> rk_entry c = e"
proof -
  from snapshot_tool_candidate[OF assms(2,3)] obtain e c where
    e: "e \<in> snd ` set (cat_entries cat)" "candidate_of vis req e = Some c" "t = expose c" by auto
  then obtain i where "(i, e) \<in> set (cat_entries cat)" by auto
  with catalog_wfD[OF assms(1)] have "gm_get (cat_entries cat) (td_ID (ce_descriptor e)) = Some e"
    by (auto simp: gm_mem_iff)
  with candidate_ofD(1)[OF e(2)] e show ?thesis by auto
qed

section \<open>Properties of a snapshot\<close>

text \<open>C36: a snapshot never exceeds the request's budget (with the defaults in place of non-positive
  fields): it has at most \<^verbatim>\<open>MaxSchemas\<close> tools, their token estimates add up to at most \<^verbatim>\<open>MaxTokens\<close>, and at
  most \<^verbatim>\<open>MaxAlwaysVisible\<close> of them are always-visible tools.\<close>

theorem snapshot_in_budget:
  assumes "BuildSnapshot vis rnd now cat req = Inr s"
  shows "in_budget (normalizeBudget (dr_Budget req)) (snap_Tools s)"
  using assms select_tools_bounds[of "normalizeBudget (dr_Budget req)" "[]" 0 0]
    normalizeBudget_pos[of "dr_Budget req"]
  by (auto simp: BuildSnapshot_Inr in_budget_def)

text \<open>C37: every tool of a snapshot comes from an active catalog entry with that registration generation,
  fits the request's session kind, was admitted by the visibility filter for one of the request's own
  attachments (or for none), and, when it is a deferred tool, was promoted explicitly.\<close>

theorem snapshot_only_admitted:
  assumes "catalog_wf cat" "BuildSnapshot vis rnd now cat req = Inr s" "t \<in> set (snap_Tools s)"
  shows "\<exists>e. gm_get (cat_entries cat) (td_ID (exp_Descriptor t)) = Some e \<and> ce_status e = ToolStatusActive \<and>
    ce_descriptor e = exp_Descriptor t \<and> ce_registrationGeneration e = exp_RegistrationGeneration t \<and>
    descriptorMatchesSession (exp_Descriptor t) (dr_SessionKind req) \<and>
    (\<exists>a \<in> insert None (Some ` set (dr_Attachments req)).
       descriptorMatchesAttachment (exp_Descriptor t) a \<and> vis (dr_Principal req) a (exp_Descriptor t) = Inr True) \<and>
    (td_Disclosure (exp_Descriptor t) = DisclosureDeferred \<longrightarrow> td_ID (exp_Descriptor t) \<in> set (dr_Promoted req))"
proof -
  from snapshot_tool_entry[OF assms] obtain e c where
    e: "gm_get (cat_entries cat) (td_ID (exp_Descriptor t)) = Some e" "candidate_of vis req e = Some c" "t = expose c" by auto
  with candidate_ofD[OF e(2)] show ?thesis by auto
qed

lemma mset_map_filter: "mset xs = mset ys \<Longrightarrow> mset (List.map_filter f xs) = mset (List.map_filter f ys)"
  by (simp add: map_filter_def mset_filter)

lemma ranked_comparable:
  assumes wf: "catalog_wf cat" and ids: "gm_all (\<lambda>i e. tool_id_wf i) (cat_entries cat)"
    and c: "c \<in> set (List.map_filter (candidate_of vis req) (map snd (cat_entries cat)))"
    and d: "d \<in> set (List.map_filter (candidate_of vis req) (map snd (cat_entries cat)))"
    and ne: "c \<noteq> d"
  shows "ranked_less c d \<or> ranked_less d c"
proof -
  have ent: "\<exists>i. gm_get (cat_entries cat) i = Some (rk_entry x) \<and> tool_id_wf i \<and>
      td_ID (ce_descriptor (rk_entry x)) = i \<and> candidate_of vis req (rk_entry x) = Some x"
    if "x \<in> set (List.map_filter (candidate_of vis req) (map snd (cat_entries cat)))" for x
  proof -
    from that obtain i e where "(i, e) \<in> set (cat_entries cat)" "candidate_of vis req e = Some x"
      by (auto simp: map_filter_mem)
    with candidate_ofD(1) catalog_wfD[OF wf] gm_allD[OF ids] show ?thesis
      by (metis gm_mem_iff)
  qed
  from ent[OF c] ent[OF d] ne
  have "td_ID (ce_descriptor (rk_entry c)) \<noteq> td_ID (ce_descriptor (rk_entry d))"
    by (metis option.inject)
  with ent[OF c] ent[OF d] have "tool_id_String (td_ID (ce_descriptor (rk_entry c))) \<noteq>
      tool_id_String (td_ID (ce_descriptor (rk_entry d)))"
    using tool_id_String_inject by blast
  then show ?thesis by (auto simp: ranked_less_def Let_def)
qed

text \<open>A snapshot does not depend on the order in which Go iterates over the catalog map, nor on how
  \<^verbatim>\<open>sort.Slice\<close> breaks ties: for two catalogs that differ only in the order of their entries the
  snapshots are equal, and every sorted arrangement of the candidates is the one selected from.\<close>

lemma snapshot_order_independent:
  assumes "catalog_wf cat" "gm_all (\<lambda>i e. tool_id_wf i) (cat_entries cat)"
    "mset (cat_entries cat) = mset (cat_entries cat')" "cat_generation cat' = cat_generation cat"
    "BuildSnapshot vis rnd now cat req = Inr s"
  shows "BuildSnapshot vis rnd now cat' req = Inr s \<and>
    (mset ys = mset (List.map_filter (candidate_of vis req) (map snd (cat_entries cat'))) \<and>
       sorted_wrt (\<lambda>a b. \<not> ranked_less b a) ys \<longrightarrow>
     snap_Tools s = select_tools (normalizeBudget (dr_Budget req)) [] 0 0 0 ys)"
proof -
  let ?cs = "\<lambda>cat. List.map_filter (candidate_of vis req) (map snd (cat_entries cat))"
  have eq: "mset (?cs cat) = mset (?cs cat')" using assms(3) by (intro mset_map_filter) simp
  have uniq: "ys = go_sort ranked_less (?cs cat)"
    if "mset ys = mset (?cs cat')" "sorted_wrt (\<lambda>a b. \<not> ranked_less b a) ys" for ys
  proof (rule ranked.go_sort_unique)
    fix x y assume "x \<in> set ys" "y \<in> set ys" "x \<noteq> y"
    moreover have "set ys = set (?cs cat)" using that(1) eq by (metis mset_eq_setD)
    ultimately show "ranked_less x y \<or> ranked_less y x"
      using ranked_comparable[OF assms(1,2)] by blast
  qed (use that eq in simp_all)
  have "go_sort ranked_less (?cs cat') = go_sort ranked_less (?cs cat)"
    by (rule uniq) (simp_all add: ranked.sorted_go_sort)
  moreover have "set (cat_entries cat) = set (cat_entries cat')" using assms(3) by (rule mset_eq_setD)
  ultimately have "BuildSnapshot vis rnd now cat' req = Inr s"
    using assms(4,5) by (auto simp: BuildSnapshot_Inr)
  moreover have "snap_Tools s = select_tools (normalizeBudget (dr_Budget req)) [] 0 0 0 ys"
    if "mset ys = mset (?cs cat') \<and> sorted_wrt (\<lambda>a b. \<not> ranked_less b a) ys"
    using uniq[of ys] that assms(5) by (auto simp: BuildSnapshot_Inr)
  ultimately show ?thesis by blast
qed

section \<open>Properties of a search\<close>

definition summary_of :: "visibility \<Rightarrow> disclosure_request \<Rightarrow> string \<Rightarrow> catalog_entry \<Rightarrow> (int \<times> tool_summary) option" where
  "summary_of vis req query e =
     (case admit_entry vis req e of
        Inr (Some _) \<Rightarrow>
          let d = ce_descriptor e; score = descriptorMatchScore d (to_lower (trim_space query))
          in if trim_space query \<noteq> [] \<and> score = 0 then None
             else Some (score, \<lparr>ts_ID = td_ID d, ts_DisplayName = td_DisplayName d, ts_Description = td_Description d,
                     ts_Protocols = td_Protocols d, ts_Risk = td_Risk d, ts_Tags = td_Tags d\<rparr>)
      | _ \<Rightarrow> None)"

lemma search_results_Cons:
  "search_results vis req query (e # es) =
     (case admit_entry vis req e of
        Inl err \<Rightarrow> Inl err
      | Inr _ \<Rightarrow> (case summary_of vis req query e of
                   None \<Rightarrow> search_results vis req query es
                 | Some c \<Rightarrow> map_sum id ((#) c) (search_results vis req query es)))"
  by (auto simp: summary_of_def Let_def split: sum.split option.split)

lemma search_results_Inr:
  "search_results vis req query es = Inr cs \<longleftrightarrow>
     (\<forall>e \<in> set es. \<not> isl (admit_entry vis req e)) \<and> cs = List.map_filter (summary_of vis req query) es"
proof (induction es arbitrary: cs)
  case (Cons e es)
  then show ?case
    by (auto simp del: search_results.simps simp: search_results_Cons map_filter_simps map_sum_Inr_iff
        split: sum.split option.split)
qed (auto simp: map_filter_simps)

lemma search_members:
  assumes "disclosure_Search vis cat req query = Inr rs" "sm \<in> set rs"
  obtains i e score where "(i, e) \<in> set (cat_entries cat)" "summary_of vis req query e = Some (score, sm)"
proof -
  let ?max = "bud_MaxCandidates (normalizeBudget (dr_Budget req))"
  from assms(1) obtain results where results: "search_results vis req query (map snd (cat_entries cat)) = Inr results"
    and rs: "rs = map snd (if int (length results) > ?max then take (nat ?max) (go_sort summary_less results) else go_sort summary_less results)"
    by (auto simp: disclosure_Search_def Let_def split: sum.splits)
  have "set rs \<subseteq> snd ` set results"
    using image_mono[OF set_take_subset[of "nat ?max" "go_sort summary_less results"], of snd] by (simp add: rs)
  with assms(2) obtain score where "(score, sm) \<in> set results" by auto
  with results show ?thesis
    by (auto simp: search_results_Inr map_filter_mem intro: that)
qed

text \<open>A search returns at most \<^verbatim>\<open>MaxCandidates\<close> summaries, each of an active tool of the catalog that
  the session kind and the visibility filter admit and that matches the query (unless the query is
  blank), and when the candidates fit the budget none is left out.\<close>

lemma search_sound_complete:
  assumes "catalog_wf cat" "disclosure_Search vis cat req query = Inr rs"
  shows "int (length rs) \<le> bud_MaxCandidates (normalizeBudget (dr_Budget req)) \<and>
    set rs \<subseteq> {sm. \<exists>i e score. gm_get (cat_entries cat) i = Some e \<and> summary_of vis req query e = Some (score, sm)} \<and>
    (int (length (cat_entries cat)) \<le> bud_MaxCandidates (normalizeBudget (dr_Budget req)) \<longrightarrow>
     set rs = {sm. \<exists>i e score. gm_get (cat_entries cat) i = Some e \<and> summary_of vis req query e = Some (score, sm)})"
proof -
  let ?res = "List.map_filter (summary_of vis req query) (map snd (cat_entries cat))"
  let ?max = "bud_MaxCandidates (normalizeBudget (dr_Budget req))"
  let ?sorted = "go_sort summary_less ?res"
  obtain results where "search_results vis req query (map snd (cat_entries cat)) = Inr results"
    using assms(2) by (auto simp: disclosure_Search_def Let_def split: sum.splits)
  with assms(2) have rs: "rs = map snd (if int (length ?sorted) > ?max then take (nat ?max) ?sorted else ?sorted)"
    using search_results_Inr by (auto simp: disclosure_Search_def Let_def)
  have mem: "{sm. \<exists>i e score. gm_get (cat_entries cat) i = Some e \<and> summary_of vis req query e = Some (score, sm)} = snd ` set ?res"
    using gm_mem_iff[OF catalog_wfD(1)[OF assms(1)]] by (force simp: map_filter_mem)
  have "int (length rs) \<le> ?max"
    using normalizeBudget_pos(2)[of "dr_Budget req"] by (auto simp: rs)
  moreover have "set rs \<subseteq> snd ` set ?res"
    using image_mono[OF set_take_subset[of "nat ?max" ?sorted], of snd] by (simp add: rs)
  moreover have "set rs = snd ` set ?res" if "int (length (cat_entries cat)) \<le> ?max"
  proof -
    have "length ?res \<le> length (cat_entries cat)"
      using length_filter_le[of "\<lambda>x. summary_of vis req query x \<noteq> None" "map snd (cat_entries cat)"]
      by (simp add: map_filter_def)
    with that show ?thesis by (simp add: rs)
  qed
  ultimately show ?thesis unfolding mem by simp
qed

section \<open>Concrete instances\<close>

definition sample_catalog :: catalog where
  "sample_catalog =
     snd (catalog_upsert (sample_descriptor (sample_id ''terminal'' ''read'')) 1 ToolStatusActive
       (snd (catalog_upsert (sample_descriptor (sample_id ''core'' ''tool_search'')) 2 ToolStatusActive NewCatalog)))"

definition sample_request :: disclosure_request where
  "sample_request = \<lparr>dr_SessionKind = SessionAccess, dr_Principal = \<lparr>prin_UserID = 1, prin_OrganizationID = 1\<rparr>,
     dr_Attachments = [], dr_Primary = [], dr_Query = [], dr_Promoted = [], dr_RecentlyUsed = [],
     dr_PolicyRevision = [], dr_Budget = DefaultDisclosureBudget\<rparr>"

definition sample_built :: tool_set_snapshot where
  "sample_built = projr (BuildSnapshot AllowAllVisibility_AllowTool (Inr ''seed'') 5 sample_catalog sample_request)"

lemma sample_catalog_wf: "catalog_wf sample_catalog"
  by (simp add: sample_catalog_def upsert_wf)

lemma sample_catalog_ids: "gm_all (\<lambda>i e. tool_id_wf i) (cat_entries sample_catalog)"
proof -
  have "tool_id_wf (sample_id ''terminal'' ''read'')" "tool_id_wf (sample_id ''core'' ''tool_search'')"
    by code_simp+
  then show ?thesis
    by (auto simp: gm_all_def sample_catalog_def get_upsert NewCatalog_def sample_descriptor_def split: if_splits)
qed

lemma sample_build:
  "BuildSnapshot AllowAllVisibility_AllowTool (Inr ''seed'') 5 sample_catalog sample_request = Inr sample_built"
  by code_simp

lemma sample_built_tools: "map (td_ID \<circ> exp_Descriptor) (snap_Tools sample_built) =
    [sample_id ''core'' ''tool_search'', sample_id ''terminal'' ''read'']"
  by code_simp

theorem snapshot_in_budget_witness:
  "snap_Tools sample_built \<noteq> [] \<and> in_budget (normalizeBudget DefaultDisclosureBudget) (snap_Tools sample_built)"
  using snapshot_in_budget[OF sample_build] sample_built_tools by (auto simp: sample_request_def)

theorem snapshot_only_admitted_witness:
  "\<exists>e. gm_get (cat_entries sample_catalog) (td_ID (exp_Descriptor (hd (snap_Tools sample_built)))) = Some e \<and>
     ce_status e = ToolStatusActive"
proof -
  have "hd (snap_Tools sample_built) \<in> set (snap_Tools sample_built)"
    using sample_built_tools by (intro hd_in_set) auto
  from snapshot_only_admitted[OF sample_catalog_wf sample_build this] show ?thesis by blast
qed

end
