(* ===== verification/Agent_Types.thy ===== *)
theory Agent_Types
  imports Tool_Disclosure
begin

text \<open>
  The data of the agent runtime (src/pkg/liaison/manager/agent/runtime/types.go and model.go): sessions,
  attachments, turns, steps, messages, model requests and responses, and their validity checks and
  transition tables.
\<close>

section \<open>Status types\<close>

text \<open>Session and attachment states arrive from callers as numbers and have an explicit ``unknown'' branch.\<close>

datatype session_status = SessionActive | SessionArchived | SessionStatusOther nat

datatype turn_status =
  TurnQueued | TurnRunning | TurnWaitingApproval | TurnCompleted | TurnCancelled | TurnFailed

datatype step_kind = StepModel | StepTool | StepApproval

datatype step_status =
  StepPending | StepRunning | StepWaitingApproval | StepCompleted | StepCancelled | StepFailed

datatype attachment_state = AttachmentConnected | AttachmentDisconnected | AttachmentRemoved | AttachmentStateOther nat

fun session_status_num :: "session_status \<Rightarrow> nat" where
  "session_status_num SessionActive = 0"
| "session_status_num SessionArchived = 1"
| "session_status_num (SessionStatusOther n) = n"

fun attachment_state_num :: "attachment_state \<Rightarrow> nat" where
  "attachment_state_num AttachmentConnected = 0"
| "attachment_state_num AttachmentDisconnected = 1"
| "attachment_state_num AttachmentRemoved = 2"
| "attachment_state_num (AttachmentStateOther n) = n"

fun turn_status_num :: "turn_status \<Rightarrow> nat" where
  "turn_status_num TurnQueued = 0"
| "turn_status_num TurnRunning = 1"
| "turn_status_num TurnWaitingApproval = 2"
| "turn_status_num TurnCompleted = 3"
| "turn_status_num TurnCancelled = 4"
| "turn_status_num TurnFailed = 5"

fun step_status_num :: "step_status \<Rightarrow> nat" where
  "step_status_num StepPending = 0"
| "step_status_num StepRunning = 1"
| "step_status_num StepWaitingApproval = 2"
| "step_status_num StepCompleted = 3"
| "step_status_num StepCancelled = 4"
| "step_status_num StepFailed = 5"

definition turn_Terminal :: "turn_status \<Rightarrow> bool" where
  "turn_Terminal status \<longleftrightarrow> status = TurnCompleted \<or> status = TurnCancelled \<or> status = TurnFailed"

definition step_terminal :: "step_status \<Rightarrow> bool" where
  "step_terminal status \<longleftrightarrow> status = StepCompleted \<or> status = StepCancelled \<or> status = StepFailed"

definition validStepTransition :: "step_status \<Rightarrow> step_status \<Rightarrow> bool" where
  "validStepTransition from to =
     (if from = to then True
      else case from of
        StepPending \<Rightarrow> to = StepRunning \<or> to = StepCancelled \<or> to = StepFailed
      | StepRunning \<Rightarrow> to = StepWaitingApproval \<or> to = StepCompleted \<or> to = StepCancelled \<or> to = StepFailed
      | StepWaitingApproval \<Rightarrow> to = StepRunning \<or> to = StepCancelled \<or> to = StepFailed
      | StepCompleted \<Rightarrow> False | StepCancelled \<Rightarrow> False | StepFailed \<Rightarrow> False)"

definition validTurnTransition :: "turn_status \<Rightarrow> turn_status \<Rightarrow> bool" where
  "validTurnTransition from to =
     (if from = to then True
      else case from of
        TurnQueued \<Rightarrow> to = TurnRunning \<or> to = TurnCancelled \<or> to = TurnFailed
      | TurnRunning \<Rightarrow> to = TurnWaitingApproval \<or> to = TurnCompleted \<or> to = TurnCancelled \<or> to = TurnFailed
      | TurnWaitingApproval \<Rightarrow> to = TurnRunning \<or> to = TurnCancelled \<or> to = TurnFailed
      | TurnCompleted \<Rightarrow> False | TurnCancelled \<Rightarrow> False | TurnFailed \<Rightarrow> False)"

lemma terminal_turn_stuck: "turn_Terminal from \<Longrightarrow> validTurnTransition from to \<longleftrightarrow> to = from"
  by (auto simp: turn_Terminal_def validTurnTransition_def)

lemma terminal_step_stuck: "step_terminal from \<Longrightarrow> validStepTransition from to \<longleftrightarrow> to = from"
  by (auto simp: step_terminal_def validStepTransition_def)

section \<open>Records\<close>

record session =
  ses_Kind :: session_kind
  ses_ID :: string
  ses_OrganizationID :: nat
  ses_CreatedBy :: nat
  ses_Title :: string
  ses_Status :: session_status
  ses_ActiveTurnID :: string
  ses_ActiveAttachmentID :: string
  ses_Summary :: string
  ses_Version :: u64
  ses_CreatedAt :: gtime
  ses_UpdatedAt :: gtime

record attachment =
  at_AccessHandleID :: string
  at_ID :: string
  at_AgentSessionID :: string
  at_AccessID :: nat
  at_ApplicationID :: nat
  at_Protocol :: protocol
  at_Capabilities :: "capability list"
  at_Generation :: u64
  at_State :: attachment_state
  at_CreatedAt :: gtime
  at_UpdatedAt :: gtime

record turn =
  tn_ID :: string
  tn_AgentSessionID :: string
  tn_Status :: turn_status
  tn_ActiveStepID :: string
  tn_ErrorCode :: string
  tn_ErrorMessage :: string
  tn_Version :: u64
  tn_StartedAt :: gtime
  tn_CompletedAt :: "gtime option"
  tn_CreatedAt :: gtime
  tn_UpdatedAt :: gtime

record step =
  sp_ID :: string
  sp_TurnID :: string
  sp_Sequence :: u32
  sp_Kind :: step_kind
  sp_Status :: step_status
  sp_ToolID :: "tool_id option"
  sp_ToolSnapshotID :: string
  sp_Input :: bytes
  sp_Output :: bytes
  sp_ErrorCode :: string
  sp_ErrorMessage :: string
  sp_Version :: u64
  sp_StartedAt :: "gtime option"
  sp_CompletedAt :: "gtime option"
  sp_CreatedAt :: gtime
  sp_UpdatedAt :: gtime

type_synonym message_role = string

abbreviation RoleSystem :: message_role where "RoleSystem \<equiv> ''system''"
abbreviation RoleUser :: message_role where "RoleUser \<equiv> ''user''"
abbreviation RoleAssistant :: message_role where "RoleAssistant \<equiv> ''assistant''"
abbreviation RoleTool :: message_role where "RoleTool \<equiv> ''tool''"

record resource_reference =
  ref_Type :: string
  ref_ID :: string
  ref_Name :: string

record model_tool_call =
  mc_ID :: string
  mc_Name :: string
  mc_Input :: bytes

record model_message =
  mm_References :: "resource_reference list"
  mm_Role :: message_role
  mm_Content :: string
  mm_ToolCalls :: "model_tool_call list"
  mm_ToolCallID :: string
  mm_ToolName :: string

record message =
  msg_ID :: string
  msg_AgentSessionID :: string
  msg_TurnID :: string
  msg_Sequence :: u32
  msg_Value :: model_message
  msg_CreatedAt :: gtime

record model_tool =
  mt_Name :: string
  mt_Description :: string
  mt_InputSchema :: bytes

record model_selection =
  sel_ProviderID :: string
  sel_Model :: string

record model_request =
  mr_Selection :: model_selection
  mr_SessionID :: string
  mr_TurnID :: string
  mr_Messages :: "model_message list"
  mr_Tools :: "model_tool list"
  mr_ToolSnapshotID :: string

record model_response =
  rsp_Text :: string
  rsp_ToolCalls :: "model_tool_call list"
  rsp_InputTokens :: int
  rsp_OutputTokens :: int

definition modelTools :: "tool_set_snapshot \<Rightarrow> model_tool list" where
  "modelTools snapshot =
     map (\<lambda>e. \<lparr>mt_Name = tool_id_ModelName (td_ID (exp_Descriptor e)), mt_Description = td_Description (exp_Descriptor e),
              mt_InputSchema = td_InputSchema (exp_Descriptor e)\<rparr>) (snap_Tools snapshot)"

section \<open>Validation\<close>

definition attachment_HandleID :: "attachment \<Rightarrow> string" where
  "attachment_HandleID a = (if at_AccessHandleID a \<noteq> [] then at_AccessHandleID a else at_ID a)"

definition validateAttachment :: "attachment \<Rightarrow> gerr option" where
  "validateAttachment a =
     (if at_ID a = [] \<or> at_AgentSessionID a = [] \<or> at_AccessID a = 0 \<or> at_ApplicationID a = 0
      then Some (ErrNew ''attachment ID, session, access and application are required'')
      else if at_Protocol a = [] \<or> at_Capabilities a = []
      then Some (ErrNew ''attachment protocol and capabilities are required'')
      else if at_State a \<noteq> AttachmentConnected \<and> at_State a \<noteq> AttachmentDisconnected \<and> at_State a \<noteq> AttachmentRemoved
      then Some (ErrNew (''unknown attachment state '' @ dec (attachment_state_num (at_State a))))
      else None)"

definition validateSession :: "session \<Rightarrow> gerr option" where
  "validateSession s =
     (if \<not> session_kind_Valid (ses_Kind s) then Some (ErrNew ''invalid session kind'')
      else if ses_Kind s = SessionManagement \<and> ses_ActiveAttachmentID s \<noteq> []
      then Some (ErrNew ''management sessions cannot have an active access attachment'')
      else if ses_ID s = [] \<or> ses_OrganizationID s = 0 \<or> ses_CreatedBy s = 0
      then Some (ErrNew ''session ID, organization and creator are required'')
      else if ses_Status s \<noteq> SessionActive \<and> ses_Status s \<noteq> SessionArchived
      then Some (ErrNew (''unknown session status '' @ dec (session_status_num (ses_Status s))))
      else None)"

lemma validateSession_management:
  "validateSession s = None \<Longrightarrow> ses_Kind s = SessionManagement \<Longrightarrow> ses_ActiveAttachmentID s = []"
  by (auto simp: validateSession_def split: if_splits)

end
