(* ===== verification/Agent_Store.thy ===== *)
theory Agent_Store
  imports Agent_Types
begin

text \<open>
  The in-memory store of the agent runtime (src/pkg/liaison/manager/agent/runtime/store.go): sessions,
  attachments, turns, steps, messages and tool snapshots with optimistic versions. Every operation takes
  the state of its context and the clock reading as arguments; each runs under the store's mutex and is
  one atomic function, except \<open>store_finishStep\<close>, which takes the lock twice
  (\<open>store_transitionStep\<close>, then \<open>store_writeStepError\<close>).

  The lemmas, for every sequence of operations: a session has at most one turn that is not terminal; a
  terminal turn or step keeps its status; a stale version is refused; the messages of a turn are numbered
  without gaps; an attachment never moves to another resource and a removed one is frozen; management
  sessions never get an attachment; archived sessions get no new turn.
\<close>

section \<open>State\<close>

record memory_store =
  ms_sessions :: "(string, session) gomap"
  ms_turns :: "(string, turn) gomap"
  ms_steps :: "(string, step) gomap"
  ms_messages :: "(string, message list) gomap"
  ms_snapshots :: "(string, tool_set_snapshot) gomap"
  ms_attachments :: "(string, attachment) gomap"

definition NewMemoryStore :: memory_store where
  "NewMemoryStore = \<lparr>ms_sessions = [], ms_turns = [], ms_steps = [], ms_messages = [], ms_snapshots = [],
     ms_attachments = []\<rparr>"

type_synonym 'a store_result = "(memory_store, 'a) outcome"

definition versionConflict :: "string \<Rightarrow> string \<Rightarrow> gerr" where
  "versionConflict kind ident = errw ErrVersionConflict (kind @ '' '' @ ident)"

definition gen_or_one :: "u64 \<Rightarrow> u64" where
  "gen_or_one g = (if g = 0 then 1 else g)"

section \<open>Attachments\<close>

definition store_CreateAttachment :: "ctx_state \<Rightarrow> gtime \<Rightarrow> attachment \<Rightarrow> memory_store \<Rightarrow> attachment store_result" where
  "store_CreateAttachment ctx now a st =
     (case ctx_err ctx of Some err \<Rightarrow> (Inl err, st)
      | None \<Rightarrow> (case validateAttachment a of Some err \<Rightarrow> (Inl err, st)
      | None \<Rightarrow> (case gm_get (ms_sessions st) (at_AgentSessionID a) of
          None \<Rightarrow> (Inl (errw ErrSessionNotFound (at_AgentSessionID a)), st)
        | Some s \<Rightarrow>
            if ses_Kind s = SessionManagement
            then (Inl (ErrNew ''management sessions cannot have access attachments''), st)
            else if ses_Status s = SessionArchived then (Inl (errw ErrSessionArchived (ses_ID s)), st)
            else if gm_get (ms_attachments st) (at_ID a) \<noteq> None
            then (Inl (ErrNew (''attachment '' @ go_quote (at_ID a) @ '' already exists'')), st)
            else
              let a' = a\<lparr>at_Generation := gen_or_one (at_Generation a), at_CreatedAt := now, at_UpdatedAt := now\<rparr>
              in (Inr a', st\<lparr>ms_attachments := gm_put (at_ID a) a' (ms_attachments st)\<rparr>))))"

definition store_GetAttachment :: "ctx_state \<Rightarrow> string \<Rightarrow> memory_store \<Rightarrow> gerr + attachment" where
  "store_GetAttachment ctx aid st =
     (case ctx_err ctx of Some err \<Rightarrow> Inl err
      | None \<Rightarrow> (case gm_get (ms_attachments st) aid of
          None \<Rightarrow> Inl (errw ErrAttachmentNotFound aid) | Some a \<Rightarrow> Inr a))"

definition attachment_less :: "attachment \<Rightarrow> attachment \<Rightarrow> bool" where
  "attachment_less a b = (if at_CreatedAt a = at_CreatedAt b then at_ID a < at_ID b else at_CreatedAt a < at_CreatedAt b)"

definition store_ListAttachments :: "ctx_state \<Rightarrow> string \<Rightarrow> memory_store \<Rightarrow> gerr + attachment list" where
  "store_ListAttachments ctx sid st =
     (case ctx_err ctx of Some err \<Rightarrow> Inl err
      | None \<Rightarrow>
          if gm_get (ms_sessions st) sid = None then Inl (errw ErrSessionNotFound sid)
          else Inr (go_sort attachment_less (filter (\<lambda>a. at_AgentSessionID a = sid) (map snd (ms_attachments st)))))"

definition store_UpdateAttachment ::
  "ctx_state \<Rightarrow> gtime \<Rightarrow> attachment \<Rightarrow> u64 \<Rightarrow> memory_store \<Rightarrow> attachment store_result" where
  "store_UpdateAttachment ctx now a expectedGeneration st =
     (case ctx_err ctx of Some err \<Rightarrow> (Inl err, st)
      | None \<Rightarrow> (case validateAttachment a of Some err \<Rightarrow> (Inl err, st)
      | None \<Rightarrow> (case gm_get (ms_attachments st) (at_ID a) of
          None \<Rightarrow> (Inl (errw ErrAttachmentNotFound (at_ID a)), st)
        | Some current \<Rightarrow>
            if at_Generation current \<noteq> expectedGeneration then (Inl (versionConflict ''attachment'' (at_ID a)), st)
            else if at_AgentSessionID current \<noteq> at_AgentSessionID a \<or> at_AccessID current \<noteq> at_AccessID a \<or>
                    at_ApplicationID current \<noteq> at_ApplicationID a \<or> at_Protocol current \<noteq> at_Protocol a
            then (Inl (ErrNew ''attachment resource binding is immutable''), st)
            else if at_State current = AttachmentRemoved
            then (Inl (errw ErrInvalidTransition (''removed attachment '' @ at_ID a)), st)
            else
              let a' = a\<lparr>at_Generation := expectedGeneration + 1, at_CreatedAt := at_CreatedAt current, at_UpdatedAt := now\<rparr>
              in (Inr a', st\<lparr>ms_attachments := gm_put (at_ID a) a' (ms_attachments st)\<rparr>))))"

definition store_SetActiveAttachment ::
  "ctx_state \<Rightarrow> gtime \<Rightarrow> string \<Rightarrow> string \<Rightarrow> u64 \<Rightarrow> memory_store \<Rightarrow> session store_result" where
  "store_SetActiveAttachment ctx now sid aid expectedVersion st =
     (case ctx_err ctx of Some err \<Rightarrow> (Inl err, st)
      | None \<Rightarrow> (case gm_get (ms_sessions st) sid of
          None \<Rightarrow> (Inl (errw ErrSessionNotFound sid), st)
        | Some s \<Rightarrow>
            if ses_Version s \<noteq> expectedVersion then (Inl (versionConflict ''session'' sid), st)
            else if ses_Kind s = SessionManagement \<and> aid \<noteq> []
            then (Inl (ErrNew ''management sessions cannot activate access attachments''), st)
            else if ses_Status s = SessionArchived then (Inl (errw ErrSessionArchived sid), st)
            else if aid \<noteq> [] \<and> (case gm_get (ms_attachments st) aid of
                      None \<Rightarrow> True | Some a \<Rightarrow> at_AgentSessionID a \<noteq> sid \<or> at_State a = AttachmentRemoved)
            then (Inl (errw ErrAttachmentNotFound aid), st)
            else
              let s' = s\<lparr>ses_ActiveAttachmentID := aid, ses_Version := ses_Version s + 1, ses_UpdatedAt := now\<rparr>
              in (Inr s', st\<lparr>ms_sessions := gm_put sid s' (ms_sessions st)\<rparr>)))"

section \<open>Sessions\<close>

definition store_CreateSession :: "ctx_state \<Rightarrow> gtime \<Rightarrow> session \<Rightarrow> memory_store \<Rightarrow> unit store_result" where
  "store_CreateSession ctx now s st =
     (case ctx_err ctx of Some err \<Rightarrow> (Inl err, st)
      | None \<Rightarrow> (case validateSession s of Some err \<Rightarrow> (Inl err, st)
      | None \<Rightarrow>
          if gm_get (ms_sessions st) (ses_ID s) \<noteq> None
          then (Inl (ErrNew (''session '' @ go_quote (ses_ID s) @ '' already exists'')), st)
          else (Inr (), st\<lparr>ms_sessions := gm_put (ses_ID s)
                  (s\<lparr>ses_Version := 1, ses_CreatedAt := now, ses_UpdatedAt := now\<rparr>) (ms_sessions st)\<rparr>)))"

definition store_CreateSessionWithAttachment ::
  "ctx_state \<Rightarrow> gtime \<Rightarrow> session \<Rightarrow> attachment \<Rightarrow> memory_store \<Rightarrow> (session \<times> attachment) store_result" where
  "store_CreateSessionWithAttachment ctx now s a st =
     (if ses_Kind s = SessionManagement
      then (Inl (ErrNew ''management sessions cannot have access attachments''), st)
      else case ctx_err ctx of Some err \<Rightarrow> (Inl err, st)
      | None \<Rightarrow> (case validateSession s of Some err \<Rightarrow> (Inl err, st)
      | None \<Rightarrow>
          if at_AgentSessionID a \<noteq> ses_ID s then (Inl (ErrNew ''attachment session does not match session''), st)
          else case validateAttachment a of Some err \<Rightarrow> (Inl err, st)
          | None \<Rightarrow>
              if gm_get (ms_sessions st) (ses_ID s) \<noteq> None
              then (Inl (ErrNew (''session '' @ go_quote (ses_ID s) @ '' already exists'')), st)
              else if gm_get (ms_attachments st) (at_ID a) \<noteq> None
              then (Inl (ErrNew (''attachment '' @ go_quote (at_ID a) @ '' already exists'')), st)
              else
                let s' = s\<lparr>ses_Version := 1, ses_CreatedAt := now, ses_UpdatedAt := now, ses_ActiveAttachmentID := at_ID a\<rparr>;
                    a' = a\<lparr>at_CreatedAt := now, at_UpdatedAt := now, at_Generation := gen_or_one (at_Generation a)\<rparr>
                in (Inr (s', a'), st\<lparr>ms_sessions := gm_put (ses_ID s) s' (ms_sessions st),
                                     ms_attachments := gm_put (at_ID a) a' (ms_attachments st)\<rparr>)))"

definition store_GetSession :: "ctx_state \<Rightarrow> string \<Rightarrow> memory_store \<Rightarrow> gerr + session" where
  "store_GetSession ctx sid st =
     (case ctx_err ctx of Some err \<Rightarrow> Inl err
      | None \<Rightarrow> (case gm_get (ms_sessions st) sid of None \<Rightarrow> Inl (errw ErrSessionNotFound sid) | Some s \<Rightarrow> Inr s))"

definition session_less :: "session \<Rightarrow> session \<Rightarrow> bool" where
  "session_less a b = (if ses_UpdatedAt a = ses_UpdatedAt b then ses_ID a < ses_ID b else ses_UpdatedAt a > ses_UpdatedAt b)"

definition store_ListSessions :: "ctx_state \<Rightarrow> nat \<Rightarrow> memory_store \<Rightarrow> gerr + session list" where
  "store_ListSessions ctx createdBy st =
     (case ctx_err ctx of Some err \<Rightarrow> Inl err
      | None \<Rightarrow> Inr (go_sort session_less
          (filter (\<lambda>s. createdBy = 0 \<or> ses_CreatedBy s = createdBy) (map snd (ms_sessions st)))))"

definition store_ArchiveSession :: "ctx_state \<Rightarrow> gtime \<Rightarrow> string \<Rightarrow> u64 \<Rightarrow> memory_store \<Rightarrow> session store_result" where
  "store_ArchiveSession ctx now sid expectedVersion st =
     (case ctx_err ctx of Some err \<Rightarrow> (Inl err, st)
      | None \<Rightarrow> (case gm_get (ms_sessions st) sid of
          None \<Rightarrow> (Inl (errw ErrSessionNotFound sid), st)
        | Some s \<Rightarrow>
            if ses_Version s \<noteq> expectedVersion then (Inl (errw ErrVersionConflict (''session '' @ sid)), st)
            else if ses_ActiveTurnID s \<noteq> []
            then (Inl (errw ErrTurnAlreadyActive (''session '' @ sid @ '' has active turn '' @ ses_ActiveTurnID s)), st)
            else
              let s' = s\<lparr>ses_Status := SessionArchived, ses_Version := ses_Version s + 1, ses_UpdatedAt := now\<rparr>
              in (Inr s', st\<lparr>ms_sessions := gm_put sid s' (ms_sessions st)\<rparr>)))"

section \<open>Turns\<close>

definition store_StartTurn :: "ctx_state \<Rightarrow> gtime \<Rightarrow> string \<Rightarrow> turn \<Rightarrow> memory_store \<Rightarrow> (session \<times> turn) store_result" where
  "store_StartTurn ctx now sid t st =
     (case ctx_err ctx of Some err \<Rightarrow> (Inl err, st)
      | None \<Rightarrow>
          if tn_ID t = [] then (Inl (ErrNew ''turn ID is required''), st)
          else case gm_get (ms_sessions st) sid of
            None \<Rightarrow> (Inl (errw ErrSessionNotFound sid), st)
          | Some s \<Rightarrow>
              if ses_Status s = SessionArchived then (Inl (errw ErrSessionArchived sid), st)
              else if ses_ActiveTurnID s \<noteq> [] then (Inl (errw ErrTurnAlreadyActive (ses_ActiveTurnID s)), st)
              else if gm_get (ms_turns st) (tn_ID t) \<noteq> None
              then (Inl (ErrNew (''turn '' @ go_quote (tn_ID t) @ '' already exists'')), st)
              else
                let t' = t\<lparr>tn_AgentSessionID := sid, tn_Status := TurnQueued, tn_Version := 1, tn_CreatedAt := now, tn_UpdatedAt := now\<rparr>;
                    s' = s\<lparr>ses_ActiveTurnID := tn_ID t, ses_Version := ses_Version s + 1, ses_UpdatedAt := now\<rparr>
                in (Inr (s', t'), st\<lparr>ms_sessions := gm_put sid s' (ms_sessions st), ms_turns := gm_put (tn_ID t) t' (ms_turns st)\<rparr>))"

definition store_GetTurn :: "ctx_state \<Rightarrow> string \<Rightarrow> memory_store \<Rightarrow> gerr + turn" where
  "store_GetTurn ctx tid st =
     (case ctx_err ctx of Some err \<Rightarrow> Inl err
      | None \<Rightarrow> (case gm_get (ms_turns st) tid of None \<Rightarrow> Inl (errw ErrTurnNotFound tid) | Some t \<Rightarrow> Inr t))"

definition turn_less :: "turn \<Rightarrow> turn \<Rightarrow> bool" where
  "turn_less a b = (if tn_CreatedAt a = tn_CreatedAt b then tn_ID a < tn_ID b else tn_CreatedAt a < tn_CreatedAt b)"

definition store_ListTurns :: "ctx_state \<Rightarrow> string \<Rightarrow> memory_store \<Rightarrow> gerr + turn list" where
  "store_ListTurns ctx sid st =
     (case ctx_err ctx of Some err \<Rightarrow> Inl err
      | None \<Rightarrow>
          if gm_get (ms_sessions st) sid = None then Inl (errw ErrSessionNotFound sid)
          else Inr (go_sort turn_less (filter (\<lambda>t. tn_AgentSessionID t = sid) (map snd (ms_turns st)))))"

text \<open>The session update at the end of a turn; a missing session is Go's zero value, which never matches.\<close>

definition release_session :: "gtime \<Rightarrow> turn \<Rightarrow> (string, session) gomap \<Rightarrow> (string, session) gomap" where
  "release_session now t sessions =
     (case gm_get sessions (tn_AgentSessionID t) of
        None \<Rightarrow> sessions
      | Some s \<Rightarrow>
          if ses_ActiveTurnID s = tn_ID t
          then gm_put (ses_ID s) (s\<lparr>ses_ActiveTurnID := [], ses_Version := ses_Version s + 1, ses_UpdatedAt := now\<rparr>) sessions
          else sessions)"

definition store_TransitionTurn ::
  "ctx_state \<Rightarrow> gtime \<Rightarrow> string \<Rightarrow> u64 \<Rightarrow> turn_status \<Rightarrow> string \<Rightarrow> string \<Rightarrow> memory_store \<Rightarrow> turn store_result" where
  "store_TransitionTurn ctx now tid expectedVersion to code message st =
     (case ctx_err ctx of Some err \<Rightarrow> (Inl err, st)
      | None \<Rightarrow> (case gm_get (ms_turns st) tid of
          None \<Rightarrow> (Inl (errw ErrTurnNotFound tid), st)
        | Some t \<Rightarrow>
            if tn_Version t \<noteq> expectedVersion then (Inl (errw ErrVersionConflict (''turn '' @ tid)), st)
            else if \<not> validTurnTransition (tn_Status t) to
            then (Inl (errw ErrInvalidTransition (''turn '' @ tid @ '' from '' @ dec (turn_status_num (tn_Status t)) @
                    '' to '' @ dec (turn_status_num to))), st)
            else
              let t1 = t\<lparr>tn_Status := to, tn_ErrorCode := code, tn_ErrorMessage := message,
                         tn_Version := tn_Version t + 1, tn_UpdatedAt := now\<rparr>;
                  t2 = (if to = TurnRunning \<and> tn_StartedAt t1 = 0 then t1\<lparr>tn_StartedAt := now\<rparr> else t1);
                  t3 = (if turn_Terminal to then t2\<lparr>tn_CompletedAt := Some now\<rparr> else t2)
              in (Inr t3, st\<lparr>ms_sessions := (if turn_Terminal to then release_session now t (ms_sessions st) else ms_sessions st),
                             ms_turns := gm_put tid t3 (ms_turns st)\<rparr>)))"

section \<open>Steps\<close>

text \<open>\<^verbatim>\<open>nextStepSequenceLocked\<close>: the loop over all steps, in 32-bit arithmetic.\<close>

definition nextStepSequence :: "string \<Rightarrow> (string, step) gomap \<Rightarrow> u32" where
  "nextStepSequence tid steps =
     fold (\<lambda>s next. if sp_TurnID s = tid \<and> sp_Sequence s \<ge> next then sp_Sequence s + 1 else next) (map snd steps) 1"

definition store_AppendStep ::
  "ctx_state \<Rightarrow> gtime \<Rightarrow> string \<Rightarrow> u64 \<Rightarrow> step \<Rightarrow> memory_store \<Rightarrow> (turn \<times> step) store_result" where
  "store_AppendStep ctx now tid expectedTurnVersion s st =
     (case ctx_err ctx of Some err \<Rightarrow> (Inl err, st)
      | None \<Rightarrow>
          if sp_ID s = [] then (Inl (ErrNew ''step ID is required''), st)
          else case gm_get (ms_turns st) tid of
            None \<Rightarrow> (Inl (errw ErrTurnNotFound tid), st)
          | Some t \<Rightarrow>
              if tn_Version t \<noteq> expectedTurnVersion then (Inl (errw ErrVersionConflict (''turn '' @ tid)), st)
              else if turn_Terminal (tn_Status t)
              then (Inl (errw ErrInvalidTransition (''cannot append to terminal turn '' @ tid)), st)
              else if gm_get (ms_steps st) (sp_ID s) \<noteq> None
              then (Inl (ErrNew (''step '' @ go_quote (sp_ID s) @ '' already exists'')), st)
              else
                let s1 = s\<lparr>sp_TurnID := tid, sp_Sequence := nextStepSequence tid (ms_steps st), sp_Version := 1,
                           sp_CreatedAt := now, sp_UpdatedAt := now\<rparr>;
                    s2 = (if sp_Status s1 = StepRunning then s1\<lparr>sp_StartedAt := Some now\<rparr> else s1);
                    t' = t\<lparr>tn_ActiveStepID := sp_ID s, tn_Version := tn_Version t + 1, tn_UpdatedAt := now\<rparr>
                in (Inr (t', s2), st\<lparr>ms_steps := gm_put (sp_ID s) s2 (ms_steps st), ms_turns := gm_put tid t' (ms_turns st)\<rparr>))"

definition store_transitionStep ::
  "ctx_state \<Rightarrow> gtime \<Rightarrow> string \<Rightarrow> step_status \<Rightarrow> bytes \<Rightarrow> memory_store \<Rightarrow> step store_result" where
  "store_transitionStep ctx now sid to output st =
     (case ctx_err ctx of Some err \<Rightarrow> (Inl err, st)
      | None \<Rightarrow> (case gm_get (ms_steps st) sid of
          None \<Rightarrow> (Inl (errw ErrStepNotFound sid), st)
        | Some s \<Rightarrow>
            if \<not> validStepTransition (sp_Status s) to
            then (Inl (errw ErrInvalidTransition (''step '' @ sid @ '' from '' @ dec (step_status_num (sp_Status s)) @
                    '' to '' @ dec (step_status_num to))), st)
            else
              let s1 = s\<lparr>sp_Status := to, sp_Version := sp_Version s + 1, sp_UpdatedAt := now\<rparr>;
                  s2 = (if output \<noteq> [] then s1\<lparr>sp_Output := output\<rparr> else s1);
                  s3 = (if to = StepCompleted \<or> to = StepCancelled \<or> to = StepFailed then s2\<lparr>sp_CompletedAt := Some now\<rparr> else s2)
              in (Inr s3, st\<lparr>ms_steps := gm_put sid s3 (ms_steps st)\<rparr>)))"

definition store_CompleteStep :: "ctx_state \<Rightarrow> gtime \<Rightarrow> string \<Rightarrow> bytes \<Rightarrow> memory_store \<Rightarrow> step store_result" where
  "store_CompleteStep ctx now sid output st = store_transitionStep ctx now sid StepCompleted output st"

definition store_WaitStepApproval :: "ctx_state \<Rightarrow> gtime \<Rightarrow> string \<Rightarrow> memory_store \<Rightarrow> step store_result" where
  "store_WaitStepApproval ctx now sid st = store_transitionStep ctx now sid StepWaitingApproval [] st"

definition store_ResumeStep :: "ctx_state \<Rightarrow> gtime \<Rightarrow> string \<Rightarrow> memory_store \<Rightarrow> step store_result" where
  "store_ResumeStep ctx now sid st = store_transitionStep ctx now sid StepRunning [] st"

text \<open>The second critical section of \<^verbatim>\<open>finishStep\<close>. The step exists: the transition before it succeeded and
  no operation deletes steps.\<close>

definition store_writeStepError :: "string \<Rightarrow> string \<Rightarrow> string \<Rightarrow> memory_store \<Rightarrow> step store_result" where
  "store_writeStepError sid code message st =
     (case gm_get (ms_steps st) sid of
        None \<Rightarrow> (Inl (errw ErrStepNotFound sid), st)
      | Some s \<Rightarrow>
          let s' = s\<lparr>sp_ErrorCode := code, sp_ErrorMessage := message\<rparr>
          in (Inr s', st\<lparr>ms_steps := gm_put sid s' (ms_steps st)\<rparr>))"

definition store_finishStep ::
  "ctx_state \<Rightarrow> gtime \<Rightarrow> string \<Rightarrow> step_status \<Rightarrow> string \<Rightarrow> string \<Rightarrow> memory_store \<Rightarrow> step store_result" where
  "store_finishStep ctx now sid status code message st =
     (case store_transitionStep ctx now sid status [] st of
        (Inl err, st1) \<Rightarrow> (Inl err, st1)
      | (Inr _, st1) \<Rightarrow> store_writeStepError sid code message st1)"

definition store_CancelStep :: "ctx_state \<Rightarrow> gtime \<Rightarrow> string \<Rightarrow> string \<Rightarrow> string \<Rightarrow> memory_store \<Rightarrow> step store_result" where
  "store_CancelStep ctx now sid code message st = store_finishStep ctx now sid StepCancelled code message st"

definition store_FailStep :: "ctx_state \<Rightarrow> gtime \<Rightarrow> string \<Rightarrow> string \<Rightarrow> string \<Rightarrow> memory_store \<Rightarrow> step store_result" where
  "store_FailStep ctx now sid code message st = store_finishStep ctx now sid StepFailed code message st"

definition store_GetStep :: "ctx_state \<Rightarrow> string \<Rightarrow> memory_store \<Rightarrow> gerr + step" where
  "store_GetStep ctx sid st =
     (case ctx_err ctx of Some err \<Rightarrow> Inl err
      | None \<Rightarrow> (case gm_get (ms_steps st) sid of None \<Rightarrow> Inl (errw ErrStepNotFound sid) | Some s \<Rightarrow> Inr s))"

definition step_less :: "step \<Rightarrow> step \<Rightarrow> bool" where
  "step_less a b =
     (if sp_CreatedAt a = sp_CreatedAt b
      then (if sp_TurnID a = sp_TurnID b then sp_Sequence a < sp_Sequence b else sp_TurnID a < sp_TurnID b)
      else sp_CreatedAt a < sp_CreatedAt b)"

definition store_ListSessionSteps :: "ctx_state \<Rightarrow> string \<Rightarrow> memory_store \<Rightarrow> gerr + step list" where
  "store_ListSessionSteps ctx sid st =
     (case ctx_err ctx of Some err \<Rightarrow> Inl err
      | None \<Rightarrow>
          if gm_get (ms_sessions st) sid = None then Inl (errw ErrSessionNotFound sid)
          else
            let turnIDs = map tn_ID (filter (\<lambda>t. tn_AgentSessionID t = sid) (map snd (ms_turns st)))
            in Inr (go_sort step_less (filter (\<lambda>s. sp_TurnID s \<in> set turnIDs) (map snd (ms_steps st)))))"

section \<open>Messages and snapshots\<close>

definition store_AppendMessage :: "ctx_state \<Rightarrow> gtime \<Rightarrow> message \<Rightarrow> memory_store \<Rightarrow> message store_result" where
  "store_AppendMessage ctx now m st =
     (case ctx_err ctx of Some err \<Rightarrow> (Inl err, st)
      | None \<Rightarrow>
          if msg_ID m = [] \<or> msg_AgentSessionID m = [] \<or> msg_TurnID m = []
          then (Inl (ErrNew ''message ID, session and turn are required''), st)
          else
            let messages = gm_getz [] (ms_messages st) (msg_TurnID m)
            in if list_ex (\<lambda>c. msg_ID c = msg_ID m) messages
               then (Inl (ErrNew (''message '' @ go_quote (msg_ID m) @ '' already exists'')), st)
               else
                 let m' = m\<lparr>msg_Sequence := of_nat (length messages + 1), msg_CreatedAt := now\<rparr>
                 in (Inr m', st\<lparr>ms_messages := gm_put (msg_TurnID m) (messages @ [m']) (ms_messages st)\<rparr>))"

definition store_ListMessages :: "ctx_state \<Rightarrow> string \<Rightarrow> memory_store \<Rightarrow> gerr + message list" where
  "store_ListMessages ctx tid st =
     (case ctx_err ctx of Some err \<Rightarrow> Inl err | None \<Rightarrow> Inr (gm_getz [] (ms_messages st) tid))"

definition message_less :: "message \<Rightarrow> message \<Rightarrow> bool" where
  "message_less a b =
     (if msg_CreatedAt a = msg_CreatedAt b
      then (if msg_TurnID a = msg_TurnID b then msg_Sequence a < msg_Sequence b else msg_TurnID a < msg_TurnID b)
      else msg_CreatedAt a < msg_CreatedAt b)"

definition store_ListSessionMessages :: "ctx_state \<Rightarrow> string \<Rightarrow> memory_store \<Rightarrow> gerr + message list" where
  "store_ListSessionMessages ctx sid st =
     (case ctx_err ctx of Some err \<Rightarrow> Inl err
      | None \<Rightarrow>
          if gm_get (ms_sessions st) sid = None then Inl (errw ErrSessionNotFound sid)
          else Inr (go_sort message_less
            (filter (\<lambda>m. msg_AgentSessionID m = sid) (concat (map snd (ms_messages st))))))"

definition store_SaveToolSnapshot ::
  "ctx_state \<Rightarrow> string \<Rightarrow> string \<Rightarrow> tool_set_snapshot \<Rightarrow> memory_store \<Rightarrow> unit store_result" where
  "store_SaveToolSnapshot ctx tid modelStepID snapshot st =
     (case ctx_err ctx of Some err \<Rightarrow> (Inl err, st)
      | None \<Rightarrow>
          if tid = [] \<or> modelStepID = [] \<or> snap_ID snapshot = []
          then (Inl (ErrNew ''turn, model step and snapshot IDs are required''), st)
          else if gm_get (ms_snapshots st) (snap_ID snapshot) \<noteq> None
          then (Inl (ErrNew (''tool snapshot '' @ go_quote (snap_ID snapshot) @ '' already exists'')), st)
          else (Inr (), st\<lparr>ms_snapshots := gm_put (snap_ID snapshot) snapshot (ms_snapshots st)\<rparr>))"

definition store_GetToolSnapshot :: "ctx_state \<Rightarrow> string \<Rightarrow> memory_store \<Rightarrow> gerr + tool_set_snapshot" where
  "store_GetToolSnapshot ctx sid st =
     (case ctx_err ctx of Some err \<Rightarrow> Inl err
      | None \<Rightarrow> (case gm_get (ms_snapshots st) sid of
          None \<Rightarrow> Inl (ErrNew (''tool snapshot '' @ go_quote sid @ '' not found'')) | Some s \<Rightarrow> Inr s))"

section \<open>Sequences of operations\<close>

text \<open>The state-changing operations with their arguments, and what one of them does to the store.\<close>

datatype store_op =
    OpCreateAttachment ctx_state gtime attachment
  | OpUpdateAttachment ctx_state gtime attachment u64
  | OpSetActiveAttachment ctx_state gtime string string u64
  | OpCreateSession ctx_state gtime session
  | OpCreateSessionWithAttachment ctx_state gtime session attachment
  | OpArchiveSession ctx_state gtime string u64
  | OpStartTurn ctx_state gtime string turn
  | OpTransitionTurn ctx_state gtime string u64 turn_status string string
  | OpAppendStep ctx_state gtime string u64 step
  | OpTransitionStep ctx_state gtime string step_status bytes
  | OpWriteStepError string string string
  | OpAppendMessage ctx_state gtime message
  | OpSaveToolSnapshot ctx_state string string tool_set_snapshot

fun apply_op :: "store_op \<Rightarrow> memory_store \<Rightarrow> memory_store" where
  "apply_op (OpCreateAttachment ctx now a) st = snd (store_CreateAttachment ctx now a st)"
| "apply_op (OpUpdateAttachment ctx now a g) st = snd (store_UpdateAttachment ctx now a g st)"
| "apply_op (OpSetActiveAttachment ctx now sid aid v) st = snd (store_SetActiveAttachment ctx now sid aid v st)"
| "apply_op (OpCreateSession ctx now s) st = snd (store_CreateSession ctx now s st)"
| "apply_op (OpCreateSessionWithAttachment ctx now s a) st = snd (store_CreateSessionWithAttachment ctx now s a st)"
| "apply_op (OpArchiveSession ctx now sid v) st = snd (store_ArchiveSession ctx now sid v st)"
| "apply_op (OpStartTurn ctx now sid t) st = snd (store_StartTurn ctx now sid t st)"
| "apply_op (OpTransitionTurn ctx now tid v to code msg) st = snd (store_TransitionTurn ctx now tid v to code msg st)"
| "apply_op (OpAppendStep ctx now tid v s) st = snd (store_AppendStep ctx now tid v s st)"
| "apply_op (OpTransitionStep ctx now sid to output) st = snd (store_transitionStep ctx now sid to output st)"
| "apply_op (OpWriteStepError sid code msg) st = snd (store_writeStepError sid code msg st)"
| "apply_op (OpAppendMessage ctx now m) st = snd (store_AppendMessage ctx now m st)"
| "apply_op (OpSaveToolSnapshot ctx tid ms s) st = snd (store_SaveToolSnapshot ctx tid ms s st)"

definition run_ops :: "store_op list \<Rightarrow> memory_store \<Rightarrow> memory_store" where
  "run_ops ops st = fold apply_op ops st"

lemma run_ops_simps [simp]: "run_ops [] st = st" "run_ops (x # xs) st = run_ops xs (apply_op x st)"
  "run_ops (xs @ ys) st = run_ops ys (run_ops xs st)"
  by (simp_all add: run_ops_def)

text \<open>A state predicate that every operation keeps holds after every sequence of operations.\<close>

locale store_invariant =
  fixes inv :: "memory_store \<Rightarrow> bool"
  assumes init: "inv NewMemoryStore"
    and step: "inv st \<Longrightarrow> inv (apply_op x st)"
begin

lemma run: "inv st \<Longrightarrow> inv (run_ops xs st)"
  by (induction xs arbitrary: st) (auto intro: step)

lemma reachable: "inv (run_ops xs NewMemoryStore)"
  by (rule run[OF init])

end

text \<open>A relation between states that is reflexive, transitive and holds across every operation holds
  across every sequence of operations.\<close>

locale store_relation = store_invariant +
  fixes rel :: "memory_store \<Rightarrow> memory_store \<Rightarrow> bool"
  assumes rel_refl: "rel st st"
    and rel_trans: "rel a b \<Longrightarrow> rel b c \<Longrightarrow> rel a c"
    and rel_step: "inv st \<Longrightarrow> rel st (apply_op x st)"
begin

lemma rel_run: "inv st \<Longrightarrow> rel st (run_ops xs st)"
proof (induction xs arbitrary: st)
  case (Cons x xs)
  from Cons.IH[OF step[OF Cons.prems]] rel_step[OF Cons.prems] show ?case by (auto intro: rel_trans)
qed (simp add: rel_refl)

end

lemmas store_op_defs = store_CreateAttachment_def store_UpdateAttachment_def store_SetActiveAttachment_def
  store_CreateSession_def store_CreateSessionWithAttachment_def store_ArchiveSession_def store_StartTurn_def
  store_TransitionTurn_def store_AppendStep_def store_transitionStep_def store_writeStepError_def
  store_AppendMessage_def store_SaveToolSnapshot_def Let_def

lemmas op_splits = option.split if_split sum.split

section \<open>Sessions and attachments\<close>

definition session_ok :: "string \<Rightarrow> session \<Rightarrow> bool" where
  "session_ok k s \<longleftrightarrow> ses_ID s = k \<and> (ses_Kind s = SessionManagement \<longrightarrow> ses_ActiveAttachmentID s = [])"

definition attachment_ok :: "(string, session) gomap \<Rightarrow> string \<Rightarrow> attachment \<Rightarrow> bool" where
  "attachment_ok ss k a \<longleftrightarrow> at_ID a = k \<and>
     (\<exists>s. gm_get ss (at_AgentSessionID a) = Some s \<and> ses_Kind s \<noteq> SessionManagement)"

definition turn_ok :: "(string, session) gomap \<Rightarrow> string \<Rightarrow> turn \<Rightarrow> bool" where
  "turn_ok ss k t \<longleftrightarrow> tn_ID t = k \<and> k \<noteq> [] \<and>
     (\<exists>s. gm_get ss (tn_AgentSessionID t) = Some s \<and> (\<not> turn_Terminal (tn_Status t) \<longrightarrow> ses_ActiveTurnID s = k))"

definition core_inv :: "memory_store \<Rightarrow> bool" where
  "core_inv st \<longleftrightarrow> gm_all session_ok (ms_sessions st) \<and>
     gm_all (attachment_ok (ms_sessions st)) (ms_attachments st) \<and>
     gm_all (turn_ok (ms_sessions st)) (ms_turns st)"

lemma core_invD:
  assumes "core_inv st"
  shows "gm_get (ms_sessions st) k = Some s \<Longrightarrow> session_ok k s"
    "gm_get (ms_attachments st) k = Some a \<Longrightarrow> attachment_ok (ms_sessions st) k a"
    "gm_get (ms_turns st) k = Some t \<Longrightarrow> turn_ok (ms_sessions st) k t"
  using assms by (auto simp: core_inv_def dest: gm_allD)

text \<open>Replacing a session by one of the same kind and with the same active turn, or adding a session,
  disturbs neither attachments nor turns.\<close>

lemma core_inv_put_session:
  assumes "core_inv st" "session_ok k s'"
    "case gm_get (ms_sessions st) k of None \<Rightarrow> True
     | Some s \<Rightarrow> ses_Kind s' = ses_Kind s \<and> ses_ActiveTurnID s' = ses_ActiveTurnID s"
  shows "core_inv (st\<lparr>ms_sessions := gm_put k s' (ms_sessions st)\<rparr>)"
proof -
  have "attachment_ok (gm_put k s' (ms_sessions st)) i a" if "gm_get (ms_attachments st) i = Some a" for i a
    using core_invD(2)[OF assms(1) that] assms(3) by (auto simp: attachment_ok_def split: option.splits)
  moreover have "turn_ok (gm_put k s' (ms_sessions st)) i t" if "gm_get (ms_turns st) i = Some t" for i t
    using core_invD(3)[OF assms(1) that] assms(3) by (auto simp: turn_ok_def split: option.splits)
  ultimately show ?thesis
    using core_invD(1)[OF assms(1)] assms(2) by (auto simp: core_inv_def intro!: gm_allI gm_all_put split: if_splits)
qed

lemma core_inv_put_attachment:
  assumes "core_inv st" "attachment_ok (ms_sessions st) k a"
  shows "core_inv (st\<lparr>ms_attachments := gm_put k a (ms_attachments st)\<rparr>)"
  using assms by (simp add: core_inv_def gm_all_put)

lemma core_inv_put_turn:
  assumes "core_inv st" "turn_ok (ms_sessions st) k t"
  shows "core_inv (st\<lparr>ms_turns := gm_put k t (ms_turns st)\<rparr>)"
  using assms by (simp add: core_inv_def gm_all_put)

lemma core_inv_frame:
  "ms_sessions st' = ms_sessions st \<Longrightarrow> ms_attachments st' = ms_attachments st \<Longrightarrow> ms_turns st' = ms_turns st \<Longrightarrow>
   core_inv st \<Longrightarrow> core_inv st'"
  by (simp add: core_inv_def)

lemma core_CreateAttachment: "core_inv st \<Longrightarrow> core_inv (snd (store_CreateAttachment ctx now a st))"
  by (auto simp: store_CreateAttachment_def Let_def attachment_ok_def intro!: core_inv_put_attachment
      split: option.split)

lemma core_UpdateAttachment: "core_inv st \<Longrightarrow> core_inv (snd (store_UpdateAttachment ctx now a g st))"
  by (auto simp: store_UpdateAttachment_def Let_def attachment_ok_def intro!: core_inv_put_attachment
      split: option.split dest: core_invD(2))

lemma core_SetActiveAttachment: "core_inv st \<Longrightarrow> core_inv (snd (store_SetActiveAttachment ctx now sid aid v st))"
  by (auto simp: store_SetActiveAttachment_def Let_def intro!: core_inv_put_session split: option.split)
    (auto simp: session_ok_def dest!: core_invD(1))

lemma core_CreateSession: "core_inv st \<Longrightarrow> core_inv (snd (store_CreateSession ctx now s st))"
  by (auto simp: store_CreateSession_def session_ok_def intro!: core_inv_put_session split: option.split
      dest: validateSession_management)

lemma core_CreateSessionWithAttachment:
  assumes "core_inv st"
  shows "core_inv (snd (store_CreateSessionWithAttachment ctx now s a st))"
proof -
  let ?s = "s\<lparr>ses_Version := 1, ses_CreatedAt := now, ses_UpdatedAt := now, ses_ActiveAttachmentID := at_ID a\<rparr>"
  let ?a = "a\<lparr>at_CreatedAt := now, at_UpdatedAt := now, at_Generation := gen_or_one (at_Generation a)\<rparr>"
  let ?st = "st\<lparr>ms_sessions := gm_put (ses_ID s) ?s (ms_sessions st)\<rparr>"
  have "core_inv (?st\<lparr>ms_attachments := gm_put (at_ID a) ?a (ms_attachments ?st)\<rparr>)"
    if "gm_get (ms_sessions st) (ses_ID s) = None" "ses_Kind s \<noteq> SessionManagement" "at_AgentSessionID a = ses_ID s"
    by (rule core_inv_put_attachment[OF core_inv_put_session[OF assms]])
      (use that in \<open>simp_all add: session_ok_def attachment_ok_def\<close>)
  with assms show ?thesis
    by (auto simp: store_CreateSessionWithAttachment_def Let_def split: option.split)
qed

lemma core_ArchiveSession: "core_inv st \<Longrightarrow> core_inv (snd (store_ArchiveSession ctx now sid v st))"
  by (auto simp: store_ArchiveSession_def Let_def intro!: core_inv_put_session split: option.split)
    (auto simp: session_ok_def dest!: core_invD(1))

lemma core_inv_sessions_turn:
  assumes "core_inv st" "gm_get (ms_sessions st) sid = Some s" "ses_Kind s' = ses_Kind s" "session_ok sid s'"
    "turn_ok (gm_put sid s' (ms_sessions st)) k t"
    "\<And>i u. gm_get (ms_turns st) i = Some u \<Longrightarrow> i \<noteq> k \<Longrightarrow> tn_AgentSessionID u = sid \<Longrightarrow> turn_Terminal (tn_Status u)"
  shows "core_inv (st\<lparr>ms_sessions := gm_put sid s' (ms_sessions st), ms_turns := gm_put k t (ms_turns st)\<rparr>)"
proof -
  have "attachment_ok (gm_put sid s' (ms_sessions st)) i a" if "gm_get (ms_attachments st) i = Some a" for i a
    using core_invD(2)[OF assms(1) that] assms(2,3) by (auto simp: attachment_ok_def)
  moreover have "turn_ok (gm_put sid s' (ms_sessions st)) i u" if "gm_get (ms_turns st) i = Some u" "i \<noteq> k" for i u
    using core_invD(3)[OF assms(1) that(1)] assms(6)[OF that] by (auto simp: turn_ok_def)
  ultimately show ?thesis
    using core_invD(1)[OF assms(1)] assms(4,5)
    by (auto simp: core_inv_def intro!: gm_allI split: if_splits)
qed

lemma open_turn_active:
  assumes "core_inv st" "gm_get (ms_turns st) i = Some u" "\<not> turn_Terminal (tn_Status u)"
    "gm_get (ms_sessions st) (tn_AgentSessionID u) = Some s"
  shows "ses_ActiveTurnID s = i \<and> i \<noteq> []"
  using core_invD(3)[OF assms(1,2)] assms(3,4) by (auto simp: turn_ok_def)

lemma core_StartTurn:
  assumes "core_inv st"
  shows "core_inv (snd (store_StartTurn ctx now sid t st))"
proof -
  let ?t = "t\<lparr>tn_AgentSessionID := sid, tn_Status := TurnQueued, tn_Version := 1, tn_CreatedAt := now, tn_UpdatedAt := now\<rparr>"
  let ?s = "\<lambda>s. s\<lparr>ses_ActiveTurnID := tn_ID t, ses_Version := ses_Version s + 1, ses_UpdatedAt := now\<rparr>"
  have "core_inv (st\<lparr>ms_sessions := gm_put sid (?s s) (ms_sessions st), ms_turns := gm_put (tn_ID t) ?t (ms_turns st)\<rparr>)"
    if s: "gm_get (ms_sessions st) sid = Some s" "ses_ActiveTurnID s = []" "tn_ID t \<noteq> []" for s
  proof (rule core_inv_sessions_turn[OF assms s(1)])
    show "turn_Terminal (tn_Status u)" if "gm_get (ms_turns st) i = Some u" "tn_AgentSessionID u = sid" for i u
      using open_turn_active[OF assms that(1)] that(2) s by auto
  qed (use core_invD(1)[OF assms s(1)] s in \<open>simp_all add: session_ok_def turn_ok_def\<close>)
  with assms show ?thesis
    by (auto simp: store_StartTurn_def Let_def split: option.split)
qed

lemma core_TransitionTurn:
  assumes inv: "core_inv st"
  shows "core_inv (snd (store_TransitionTurn ctx now tid v to code msg st))"
proof -
  have keep: "core_inv (st\<lparr>ms_turns := gm_put tid t' (ms_turns st)\<rparr>)"
    if t: "gm_get (ms_turns st) tid = Some t" "validTurnTransition (tn_Status t) to" "tn_ID t' = tn_ID t"
      "tn_AgentSessionID t' = tn_AgentSessionID t" "tn_Status t' = to" for t t'
    by (rule core_inv_put_turn[OF inv])
      (use core_invD(3)[OF inv t(1)] t terminal_turn_stuck in \<open>auto simp: turn_ok_def\<close>)
  have ended: "core_inv (st\<lparr>ms_sessions := release_session now t (ms_sessions st), ms_turns := gm_put tid t' (ms_turns st)\<rparr>)"
    if t: "gm_get (ms_turns st) tid = Some t" "validTurnTransition (tn_Status t) to" "tn_ID t' = tn_ID t"
      "tn_AgentSessionID t' = tn_AgentSessionID t" "tn_Status t' = to" and fin: "turn_Terminal to" for t t'
  proof -
    from core_invD(3)[OF inv t(1)] obtain s where
      s: "tn_ID t = tid" "tid \<noteq> []" "gm_get (ms_sessions st) (tn_AgentSessionID t) = Some s"
      by (auto simp: turn_ok_def)
    note sok = core_invD(1)[OF inv s(3)]
    show ?thesis
    proof (cases "ses_ActiveTurnID s = tid")
      case True
      have "core_inv (st\<lparr>ms_sessions := gm_put (tn_AgentSessionID t)
            (s\<lparr>ses_ActiveTurnID := [], ses_Version := ses_Version s + 1, ses_UpdatedAt := now\<rparr>) (ms_sessions st),
          ms_turns := gm_put tid t' (ms_turns st)\<rparr>)"
      proof (rule core_inv_sessions_turn[OF inv s(3)])
        show "turn_Terminal (tn_Status u)" if "gm_get (ms_turns st) i = Some u" "i \<noteq> tid" "tn_AgentSessionID u = tn_AgentSessionID t" for i u
          using open_turn_active[OF inv that(1)] that(2,3) s(3) True by auto
      qed (use sok t s fin in \<open>simp_all add: session_ok_def turn_ok_def\<close>)
      with sok s True show ?thesis by (simp add: release_session_def session_ok_def)
    next
      case False
      with keep[OF t] s show ?thesis by (simp add: release_session_def)
    qed
  qed
  show ?thesis
    using inv keep ended by (auto simp: store_TransitionTurn_def Let_def split: option.split)
qed

lemma core_AppendStep:
  assumes "core_inv st"
  shows "core_inv (snd (store_AppendStep ctx now tid v s st))"
proof -
  have "core_inv (st\<lparr>ms_steps := x, ms_turns := gm_put tid t' (ms_turns st)\<rparr>)"
    if "gm_get (ms_turns st) tid = Some t" "tn_ID t' = tn_ID t" "tn_AgentSessionID t' = tn_AgentSessionID t"
      "tn_Status t' = tn_Status t" for t t' x
    using core_inv_put_turn[OF assms, of tid t'] core_invD(3)[OF assms that(1)] that
    by (simp add: core_inv_def turn_ok_def)
  with assms show ?thesis by (auto simp: store_AppendStep_def Let_def split: option.split)
qed

lemma core_other:
  assumes "core_inv st"
  shows "core_inv (snd (store_transitionStep ctx now sid to output st))"
    "core_inv (snd (store_writeStepError sid code msg st))"
    "core_inv (snd (store_AppendMessage ctx now m st))"
    "core_inv (snd (store_SaveToolSnapshot ctx sid ms snap st))"
  by (rule core_inv_frame[OF _ _ _ assms];
      simp add: store_transitionStep_def store_writeStepError_def store_AppendMessage_def
        store_SaveToolSnapshot_def Let_def split: option.split)+

interpretation core: store_invariant core_inv
proof
  show "core_inv NewMemoryStore" by (simp add: core_inv_def NewMemoryStore_def)
  show "core_inv (apply_op x st)" if "core_inv st" for st x
    using that
    by (cases x) (simp_all add: core_CreateAttachment core_UpdateAttachment core_SetActiveAttachment core_CreateSession
        core_CreateSessionWithAttachment core_ArchiveSession core_StartTurn core_TransitionTurn core_AppendStep core_other)
qed

text \<open>After any sequence of store operations a session has at most one turn that has not ended, and that
  turn is the session's active turn; so no two turns of a session ever run side by side.\<close>

lemma one_open_turn:
  assumes "gm_get (ms_turns (run_ops ops NewMemoryStore)) i = Some t" "\<not> turn_Terminal (tn_Status t)"
    "gm_get (ms_turns (run_ops ops NewMemoryStore)) j = Some u" "\<not> turn_Terminal (tn_Status u)"
    "tn_AgentSessionID t = tn_AgentSessionID u"
  shows "i = j \<and> (\<exists>s. gm_get (ms_sessions (run_ops ops NewMemoryStore)) (tn_AgentSessionID t) = Some s \<and> ses_ActiveTurnID s = i)"
  using core_invD(3)[OF core.reachable assms(1)] core_invD(3)[OF core.reachable assms(3)] assms(2,4,5)
  by (auto simp: turn_ok_def)

text \<open>Management sessions never reach a target system: after any sequence of operations a management
  session has no active attachment and no attachment of any state belongs to it.\<close>

lemma management_session_detached:
  assumes "gm_get (ms_sessions (run_ops ops NewMemoryStore)) sid = Some s" "ses_Kind s = SessionManagement"
  shows "ses_ActiveAttachmentID s = [] \<and>
    (\<nexists>k a. gm_get (ms_attachments (run_ops ops NewMemoryStore)) k = Some a \<and> at_AgentSessionID a = sid)"
  using core_invD(1)[OF core.reachable assms(1)] core_invD(2)[OF core.reachable, of ops] assms
  by (fastforce simp: session_ok_def attachment_ok_def)

section \<open>What never changes\<close>

text \<open>What a later state keeps of an earlier one: every object stays, a terminal turn or step keeps its
  status, a turn stays in its session and a step in its turn, an attachment keeps its resource binding
  and is frozen once removed, a session keeps kind, organization and creator and stays archived.\<close>

definition turn_kept :: "turn \<Rightarrow> turn \<Rightarrow> bool" where
  "turn_kept t t' \<longleftrightarrow> tn_AgentSessionID t' = tn_AgentSessionID t \<and>
     (turn_Terminal (tn_Status t) \<longrightarrow> tn_Status t' = tn_Status t)"

definition step_kept :: "step \<Rightarrow> step \<Rightarrow> bool" where
  "step_kept s s' \<longleftrightarrow> sp_TurnID s' = sp_TurnID s \<and> sp_Sequence s' = sp_Sequence s \<and> sp_Input s' = sp_Input s \<and>
     sp_ToolID s' = sp_ToolID s \<and> sp_Kind s' = sp_Kind s \<and>
     (step_terminal (sp_Status s) \<longrightarrow> sp_Status s' = sp_Status s)"

definition attachment_kept :: "attachment \<Rightarrow> attachment \<Rightarrow> bool" where
  "attachment_kept a a' \<longleftrightarrow> at_AgentSessionID a' = at_AgentSessionID a \<and> at_AccessID a' = at_AccessID a \<and>
     at_ApplicationID a' = at_ApplicationID a \<and> at_Protocol a' = at_Protocol a \<and>
     (at_State a = AttachmentRemoved \<longrightarrow> a' = a)"

definition session_kept :: "session \<Rightarrow> session \<Rightarrow> bool" where
  "session_kept s s' \<longleftrightarrow> ses_Kind s' = ses_Kind s \<and> ses_OrganizationID s' = ses_OrganizationID s \<and>
     ses_CreatedBy s' = ses_CreatedBy s \<and> (ses_Status s = SessionArchived \<longrightarrow> ses_Status s' = SessionArchived)"

definition map_kept :: "('v \<Rightarrow> 'v \<Rightarrow> bool) \<Rightarrow> ('k, 'v) gomap \<Rightarrow> ('k, 'v) gomap \<Rightarrow> bool" where
  "map_kept P m m' \<longleftrightarrow> (\<forall>k v. gm_get m k = Some v \<longrightarrow> (\<exists>v'. gm_get m' k = Some v' \<and> P v v'))"

lemma map_keptD: "map_kept P m m' \<Longrightarrow> gm_get m k = Some v \<Longrightarrow> \<exists>v'. gm_get m' k = Some v' \<and> P v v'"
  by (simp add: map_kept_def)

lemma map_kept_refl: "(\<And>v. P v v) \<Longrightarrow> map_kept P m m"
  by (simp add: map_kept_def)

lemma map_kept_trans: "(\<And>x y z. P x y \<Longrightarrow> P y z \<Longrightarrow> P x z) \<Longrightarrow> map_kept P a b \<Longrightarrow> map_kept P b c \<Longrightarrow> map_kept P a c"
  unfolding map_kept_def by meson

lemma map_kept_put:
  "(\<And>v. P v v) \<Longrightarrow> (\<And>v. gm_get m k = Some v \<Longrightarrow> P v w) \<Longrightarrow> map_kept P m (gm_put k w m)"
  by (simp add: map_kept_def)

lemma kept_refl [simp]: "turn_kept t t" "step_kept s s" "attachment_kept a a" "session_kept x x"
  by (simp_all add: turn_kept_def step_kept_def attachment_kept_def session_kept_def)

lemma kept_trans:
  "turn_kept a b \<Longrightarrow> turn_kept b c \<Longrightarrow> turn_kept a c" "step_kept a1 b1 \<Longrightarrow> step_kept b1 c1 \<Longrightarrow> step_kept a1 c1"
  "attachment_kept a2 b2 \<Longrightarrow> attachment_kept b2 c2 \<Longrightarrow> attachment_kept a2 c2"
  "session_kept a3 b3 \<Longrightarrow> session_kept b3 c3 \<Longrightarrow> session_kept a3 c3"
  by (auto simp: turn_kept_def step_kept_def attachment_kept_def session_kept_def)

definition store_kept :: "memory_store \<Rightarrow> memory_store \<Rightarrow> bool" where
  "store_kept st st' \<longleftrightarrow> map_kept turn_kept (ms_turns st) (ms_turns st') \<and> map_kept step_kept (ms_steps st) (ms_steps st') \<and>
     map_kept attachment_kept (ms_attachments st) (ms_attachments st') \<and>
     map_kept session_kept (ms_sessions st) (ms_sessions st')"

lemma store_kept_refl [simp]: "store_kept st st"
  by (simp add: store_kept_def map_kept_refl)

lemma store_kept_trans: "store_kept a b \<Longrightarrow> store_kept b c \<Longrightarrow> store_kept a c"
  unfolding store_kept_def by (blast intro: map_kept_trans kept_trans)

text \<open>One lemma per map that an operation writes.\<close>

lemma kept_put_attachment:
  "(\<And>v. gm_get (ms_attachments st) k = Some v \<Longrightarrow> attachment_kept v a) \<Longrightarrow>
   store_kept st (st\<lparr>ms_attachments := gm_put k a (ms_attachments st)\<rparr>)"
  by (simp add: store_kept_def map_kept_refl map_kept_put)

lemma kept_put_session:
  "(\<And>v. gm_get (ms_sessions st) k = Some v \<Longrightarrow> session_kept v s) \<Longrightarrow>
   store_kept st (st\<lparr>ms_sessions := gm_put k s (ms_sessions st)\<rparr>)"
  by (simp add: store_kept_def map_kept_refl map_kept_put)

lemma kept_put_turn:
  "(\<And>v. gm_get (ms_turns st) k = Some v \<Longrightarrow> turn_kept v t) \<Longrightarrow>
   store_kept st (st\<lparr>ms_turns := gm_put k t (ms_turns st)\<rparr>)"
  by (simp add: store_kept_def map_kept_refl map_kept_put)

lemma kept_put_step:
  "(\<And>v. gm_get (ms_steps st) k = Some v \<Longrightarrow> step_kept v s) \<Longrightarrow>
   store_kept st (st\<lparr>ms_steps := gm_put k s (ms_steps st)\<rparr>)"
  by (simp add: store_kept_def map_kept_refl map_kept_put)

lemma kept_put_session_turn:
  "(\<And>v. gm_get (ms_sessions st) k = Some v \<Longrightarrow> session_kept v s) \<Longrightarrow> (\<And>v. gm_get (ms_turns st) i = Some v \<Longrightarrow> turn_kept v t) \<Longrightarrow>
   store_kept st (st\<lparr>ms_sessions := gm_put k s (ms_sessions st), ms_turns := gm_put i t (ms_turns st)\<rparr>)"
  by (simp add: store_kept_def map_kept_refl map_kept_put)

lemma kept_ops1:
  "store_kept st (snd (store_CreateAttachment ctx now a st))"
  "store_kept st (snd (store_UpdateAttachment ctx now a g st))"
  "store_kept st (snd (store_SetActiveAttachment ctx now sid aid v st))"
  "store_kept st (snd (store_CreateSession ctx now s st))"
  "store_kept st (snd (store_ArchiveSession ctx now sid v st))"
  by (auto simp: store_CreateAttachment_def store_UpdateAttachment_def store_SetActiveAttachment_def
      store_CreateSession_def store_ArchiveSession_def Let_def attachment_kept_def session_kept_def
      intro!: kept_put_attachment kept_put_session split: option.split)

lemma kept_CreateSessionWithAttachment: "store_kept st (snd (store_CreateSessionWithAttachment ctx now s a st))"
  by (auto simp: store_CreateSessionWithAttachment_def Let_def store_kept_def map_kept_refl
      intro!: map_kept_put split: option.split)

lemma kept_StartTurn: "store_kept st (snd (store_StartTurn ctx now sid t st))"
  by (auto simp: store_StartTurn_def Let_def session_kept_def intro!: kept_put_session_turn split: option.split)

lemma kept_release: "gm_all session_ok ss \<Longrightarrow> map_kept session_kept ss (release_session now t ss)"
  by (auto simp: release_session_def session_kept_def session_ok_def map_kept_refl intro!: map_kept_put
      split: option.split dest!: gm_allD)

lemma kept_TransitionTurn:
  assumes "core_inv st"
  shows "store_kept st (snd (store_TransitionTurn ctx now tid v to code msg st))"
proof -
  have rel: "map_kept session_kept (ms_sessions st) (release_session now t (ms_sessions st))" for t
    using assms by (intro kept_release) (simp add: core_inv_def)
  have "turn_kept t t'" if "tn_AgentSessionID t' = tn_AgentSessionID t" "tn_Status t' = to"
    "validTurnTransition (tn_Status t) to" for t t'
    using that terminal_turn_stuck by (auto simp: turn_kept_def)
  then show ?thesis
    by (auto simp: store_TransitionTurn_def Let_def store_kept_def map_kept_refl rel
        intro!: map_kept_put split: option.split)
qed

lemma kept_AppendStep: "store_kept st (snd (store_AppendStep ctx now tid v s st))"
  by (auto simp: store_AppendStep_def Let_def store_kept_def map_kept_refl turn_kept_def
      intro!: map_kept_put split: option.split)

lemma kept_transitionStep: "store_kept st (snd (store_transitionStep ctx now sid to output st))"
proof -
  have "step_kept s s'" if "sp_TurnID s' = sp_TurnID s" "sp_Sequence s' = sp_Sequence s" "sp_Input s' = sp_Input s"
    "sp_ToolID s' = sp_ToolID s" "sp_Kind s' = sp_Kind s" "sp_Status s' = to" "validStepTransition (sp_Status s) to" for s s'
    using that terminal_step_stuck by (auto simp: step_kept_def)
  then show ?thesis
    by (auto simp: store_transitionStep_def Let_def intro!: kept_put_step split: option.split)
qed

lemma kept_other:
  "store_kept st (snd (store_writeStepError sid code msg st))"
  "store_kept st (snd (store_AppendMessage ctx now m st))"
  "store_kept st (snd (store_SaveToolSnapshot ctx sid ms snap st))"
  by (auto simp: store_writeStepError_def store_AppendMessage_def store_SaveToolSnapshot_def Let_def
      step_kept_def store_kept_def map_kept_refl intro!: map_kept_put split: option.split)

interpretation kept: store_relation core_inv store_kept
proof
  show "store_kept st (apply_op x st)" if "core_inv st" for st x
    using that by (cases x) (simp_all add: kept_ops1 kept_CreateSessionWithAttachment kept_StartTurn
        kept_TransitionTurn kept_AppendStep kept_transitionStep kept_other)
qed (auto intro: store_kept_trans)

text \<open>What has ended stays ended: once a turn or a step is completed, cancelled or failed, no later
  sequence of operations, valid or not, gives it another status, removes it or moves it to another
  session or turn.\<close>

lemma ended_stays_ended:
  "(gm_get (ms_turns (run_ops ops NewMemoryStore)) tid = Some t \<and> turn_Terminal (tn_Status t) \<longrightarrow>
     (\<exists>t'. gm_get (ms_turns (run_ops (ops @ later) NewMemoryStore)) tid = Some t' \<and>
        tn_Status t' = tn_Status t \<and> tn_AgentSessionID t' = tn_AgentSessionID t)) \<and>
   (gm_get (ms_steps (run_ops ops NewMemoryStore)) sid = Some s \<and> step_terminal (sp_Status s) \<longrightarrow>
     (\<exists>s'. gm_get (ms_steps (run_ops (ops @ later) NewMemoryStore)) sid = Some s' \<and>
        sp_Status s' = sp_Status s \<and> sp_TurnID s' = sp_TurnID s))"
proof -
  have "store_kept (run_ops ops NewMemoryStore) (run_ops (ops @ later) NewMemoryStore)"
    using kept.rel_run[OF core.reachable, of ops later] by simp
  then show ?thesis
    by (fastforce simp: store_kept_def turn_kept_def step_kept_def dest: map_keptD)
qed

text \<open>An attachment never comes to stand for another resource: its session, access entry, application
  and protocol are the same after any later operations, and a removed attachment is not touched again.\<close>

lemma attachment_binding_immutable:
  assumes "gm_get (ms_attachments (run_ops ops NewMemoryStore)) aid = Some a"
  shows "\<exists>a'. gm_get (ms_attachments (run_ops (ops @ later) NewMemoryStore)) aid = Some a' \<and>
    at_AgentSessionID a' = at_AgentSessionID a \<and> at_AccessID a' = at_AccessID a \<and>
    at_ApplicationID a' = at_ApplicationID a \<and> at_Protocol a' = at_Protocol a \<and>
    (at_State a = AttachmentRemoved \<longrightarrow> a' = a)"
proof -
  have "store_kept (run_ops ops NewMemoryStore) (run_ops (ops @ later) NewMemoryStore)"
    using kept.rel_run[OF core.reachable, of ops later] by simp
  with map_keptD[OF _ assms, of attachment_kept] show ?thesis
    by (fastforce simp: store_kept_def attachment_kept_def)
qed

section \<open>Optimistic versions\<close>

lemma TransitionTurn_version:
  assumes "store_TransitionTurn ctx now tid v to code msg st = (Inr t', st')"
  shows "gm_get (ms_turns st') tid = Some t' \<and> tn_Version t' = v + 1"
  using assms by (auto simp: store_TransitionTurn_def Let_def split: option.splits if_splits)

lemma AppendStep_version:
  assumes "store_AppendStep ctx now tid v s st = (Inr (t', s'), st')"
  shows "gm_get (ms_turns st') tid = Some t' \<and> tn_Version t' = v + 1"
  using assms by (auto simp: store_AppendStep_def Let_def split: option.splits if_splits)

lemma stale_turn_version:
  assumes "gm_get (ms_turns st) tid = Some t" "tn_Version t \<noteq> v" "sp_ID s \<noteq> []"
  shows "store_TransitionTurn CtxLive now tid v to code msg st = (Inl (errw ErrVersionConflict (''turn '' @ tid)), st)"
    "store_AppendStep CtxLive now tid v s st = (Inl (errw ErrVersionConflict (''turn '' @ tid)), st)"
  using assms by (simp_all add: store_TransitionTurn_def store_AppendStep_def)

text \<open>Of two writers that read a turn at the same version at most one succeeds: after a transition or
  an appended step under version \<open>v\<close>, every further write under \<open>v\<close> is refused with a version conflict and
  leaves the store unchanged.\<close>

lemma stale_turn_write_refused:
  assumes "(\<exists>t'. store_TransitionTurn ctx now tid v to code msg st = (Inr t', st')) \<or>
    (\<exists>t' s'. store_AppendStep ctx now tid v s st = (Inr (t', s'), st'))" "sp_ID s2 \<noteq> []"
  shows "store_TransitionTurn CtxLive now2 tid v to2 code2 msg2 st' = (Inl (errw ErrVersionConflict (''turn '' @ tid)), st') \<and>
    store_AppendStep CtxLive now2 tid v s2 st' = (Inl (errw ErrVersionConflict (''turn '' @ tid)), st')"
proof -
  from assms(1) obtain t' where "gm_get (ms_turns st') tid = Some t'" "tn_Version t' = v + 1"
    using TransitionTurn_version AppendStep_version by blast
  then show ?thesis using stale_turn_version[of st' tid t' v s2] assms(2) by simp
qed

section \<open>Messages\<close>

definition messages_ok :: "string \<Rightarrow> message list \<Rightarrow> bool" where
  "messages_ok tid ms \<longleftrightarrow> distinct (map msg_ID ms) \<and>
     (\<forall>k < length ms. msg_Sequence (ms ! k) = of_nat (k + 1) \<and> msg_TurnID (ms ! k) = tid)"

definition msg_inv :: "memory_store \<Rightarrow> bool" where
  "msg_inv st \<longleftrightarrow> gm_all messages_ok (ms_messages st)"

lemma messages_ok_append:
  "messages_ok tid ms \<Longrightarrow> msg_ID m \<notin> msg_ID ` set ms \<Longrightarrow> msg_Sequence m = of_nat (length ms + 1) \<Longrightarrow> msg_TurnID m = tid \<Longrightarrow>
   messages_ok tid (ms @ [m])"
  by (auto simp: messages_ok_def nth_append less_Suc_eq)

lemma msg_AppendMessage:
  assumes "msg_inv st"
  shows "msg_inv (snd (store_AppendMessage ctx now m st))"
proof -
  let ?ms = "gm_getz [] (ms_messages st) (msg_TurnID m)"
  have ok: "messages_ok (msg_TurnID m) ?ms"
    using gm_allD[OF assms[unfolded msg_inv_def]] by (auto simp: gm_getz_def messages_ok_def split: option.splits)
  have "messages_ok (msg_TurnID m) (?ms @ [m\<lparr>msg_Sequence := of_nat (length ?ms + 1), msg_CreatedAt := now\<rparr>])"
    if "\<not> list_ex (\<lambda>c. msg_ID c = msg_ID m) ?ms"
    by (rule messages_ok_append[OF ok]) (use that in \<open>auto simp: list_ex_iff\<close>)
  with assms show ?thesis
    by (auto simp: store_AppendMessage_def Let_def msg_inv_def intro!: gm_all_put split: option.split)
qed

lemma msg_frame: "ms_messages st' = ms_messages st \<Longrightarrow> msg_inv st \<Longrightarrow> msg_inv st'"
  by (simp add: msg_inv_def)

interpretation msgs: store_invariant msg_inv
proof
  show "msg_inv NewMemoryStore" by (simp add: msg_inv_def NewMemoryStore_def)
  show "msg_inv (apply_op x st)" if "msg_inv st" for st x
  proof (cases x)
    case (OpAppendMessage ctx now m)
    with msg_AppendMessage[OF that] show ?thesis by simp
  qed (rule msg_frame[OF _ that]; simp add: store_op_defs split: op_splits)+
qed

text \<open>The messages of a turn are numbered 1, 2, 3, ... in the order they were appended and have pairwise
  different identifiers, after any sequence of operations (the numbers are 32-bit, so the numbering
  repeats after \<open>2 ^ 32\<close> messages).\<close>

lemma messages_numbered:
  assumes "store_ListMessages CtxLive tid (run_ops ops NewMemoryStore) = Inr ms" "k < length ms"
  shows "msg_Sequence (ms ! k) = of_nat (k + 1) \<and> msg_TurnID (ms ! k) = tid \<and> distinct (map msg_ID ms)"
proof -
  have "messages_ok tid (gm_getz [] (ms_messages (run_ops ops NewMemoryStore)) tid)"
    using gm_allD[OF msgs.reachable[unfolded msg_inv_def]] by (auto simp: gm_getz_def messages_ok_def split: option.splits)
  with assms show ?thesis by (auto simp: store_ListMessages_def messages_ok_def)
qed

section \<open>Step numbers\<close>

lemma u32_lt: "unat (x :: u32) < 2 ^ 32 - 1 \<Longrightarrow> unat (x + 1) = unat x + 1"
  by (rule unat_inc_u32) simp

lemma next_sequence_fold:
  assumes "\<forall>s \<in> set xs. sp_TurnID s = tid \<longrightarrow> unat (sp_Sequence s) \<le> b" "unat acc \<le> b + 1" "b < 2 ^ 32 - 1"
  shows "unat (fold (\<lambda>s next. if sp_TurnID s = tid \<and> sp_Sequence s \<ge> next then sp_Sequence s + 1 else next) xs acc) \<le> b + 1 \<and>
    acc \<le> fold (\<lambda>s next. if sp_TurnID s = tid \<and> sp_Sequence s \<ge> next then sp_Sequence s + 1 else next) xs acc \<and>
    (\<forall>s \<in> set xs. sp_TurnID s = tid \<longrightarrow>
      sp_Sequence s < fold (\<lambda>s next. if sp_TurnID s = tid \<and> sp_Sequence s \<ge> next then sp_Sequence s + 1 else next) xs acc)"
  using assms
proof (induction xs arbitrary: acc)
  case (Cons x xs)
  let ?f = "\<lambda>s next. if sp_TurnID s = tid \<and> sp_Sequence s \<ge> next then sp_Sequence s + 1 else next"
  have x: "sp_TurnID x = tid \<Longrightarrow> unat (sp_Sequence x + 1) = unat (sp_Sequence x) + 1 \<and> unat (sp_Sequence x) \<le> b"
    using Cons.prems(1,3) u32_lt[of "sp_Sequence x"] by simp
  have acc: "unat (?f x acc) \<le> b + 1" "acc \<le> ?f x acc" "sp_TurnID x = tid \<Longrightarrow> sp_Sequence x < ?f x acc"
    using x Cons.prems(2) by (auto simp: word_le_nat_alt word_less_nat_alt)
  from Cons.IH[OF _ acc(1) Cons.prems(3)] Cons.prems(1) acc(2,3) show ?case by fastforce
qed simp

definition steps_ok :: "(string, step) gomap \<Rightarrow> bool" where
  "steps_ok m \<longleftrightarrow> gm_wf m \<and> (\<forall>k s. gm_get m k = Some s \<longrightarrow> unat (sp_Sequence s) \<le> length m) \<and>
     (\<forall>k l s u. gm_get m k = Some s \<longrightarrow> gm_get m l = Some u \<longrightarrow> sp_TurnID s = sp_TurnID u \<longrightarrow>
        sp_Sequence s = sp_Sequence u \<longrightarrow> k = l)"

definition step_inv :: "memory_store \<Rightarrow> bool" where
  "step_inv st \<longleftrightarrow> (length (ms_steps st) < 2 ^ 32 - 1 \<longrightarrow> steps_ok (ms_steps st))"

lemma length_gm_put: "length (gm_put k v m) = (if gm_get m k = None then Suc (length m) else length m)"
  unfolding gm_put_def gm_get_def by (induction m) auto

lemma steps_ok_put_same:
  assumes "steps_ok m" "gm_get m k = Some s" "sp_TurnID s' = sp_TurnID s" "sp_Sequence s' = sp_Sequence s"
  shows "steps_ok (gm_put k s' m)"
  using assms unfolding steps_ok_def by (auto simp: length_gm_put split: if_splits)

lemma steps_ok_append:
  assumes ok: "steps_ok m" and new: "gm_get m k = None" and len: "length m < 2 ^ 32 - 1"
    and s: "sp_TurnID s = tid" "sp_Sequence s = nextStepSequence tid m"
  shows "steps_ok (gm_put k s m)"
proof -
  have b: "\<forall>x \<in> set (map snd m). sp_TurnID x = tid \<longrightarrow> unat (sp_Sequence x) \<le> length m"
    using ok gm_values[of m] by (auto simp: steps_ok_def)
  have one: "unat (1 :: u32) \<le> length m + 1" by simp
  note f = next_sequence_fold[OF b one len, folded nextStepSequence_def]
  have "sp_Sequence u < nextStepSequence tid m" if "gm_get m l = Some u" "sp_TurnID u = tid" for l u
    using f that gm_get_mem[OF that(1)] by force
  then show ?thesis
    using ok new s f unfolding steps_ok_def
    by (auto simp: length_gm_put split: if_splits; fastforce)
qed

lemma step_frame: "ms_steps st' = ms_steps st \<Longrightarrow> step_inv st \<Longrightarrow> step_inv st'"
  by (simp add: step_inv_def)

lemma step_AppendStep: "step_inv st \<Longrightarrow> step_inv (snd (store_AppendStep ctx now tid v s st))"
  by (auto simp: store_AppendStep_def Let_def step_inv_def length_gm_put intro!: steps_ok_append split: option.split)

lemma step_transitionStep: "step_inv st \<Longrightarrow> step_inv (snd (store_transitionStep ctx now sid to output st))"
  by (auto simp: store_transitionStep_def Let_def step_inv_def length_gm_put intro: steps_ok_put_same split: option.split)

lemma step_writeStepError: "step_inv st \<Longrightarrow> step_inv (snd (store_writeStepError sid code msg st))"
  by (auto simp: store_writeStepError_def Let_def step_inv_def length_gm_put intro: steps_ok_put_same split: option.split)

interpretation stepnum: store_invariant step_inv
proof
  show "step_inv NewMemoryStore" by (simp add: step_inv_def NewMemoryStore_def steps_ok_def)
  show "step_inv (apply_op x st)" if "step_inv st" for st x
  proof (cases x)
    case (OpAppendStep ctx now tid v s)
    with step_AppendStep[OF that] show ?thesis by simp
  next
    case (OpTransitionStep ctx now sid to outp)
    with step_transitionStep[OF that] show ?thesis by simp
  next
    case (OpWriteStepError sid code msg)
    with step_writeStepError[OF that] show ?thesis by simp
  qed (rule step_frame[OF _ that]; simp add: store_op_defs split: op_splits)+
qed

text \<open>Two different steps of a turn never carry the same sequence number, after any sequence of
  operations that creates fewer than \<open>2 ^ 32 - 1\<close> steps.\<close>

lemma step_numbers_distinct:
  assumes "length (ms_steps (run_ops ops NewMemoryStore)) < 2 ^ 32 - 1"
    "gm_get (ms_steps (run_ops ops NewMemoryStore)) k = Some s" "gm_get (ms_steps (run_ops ops NewMemoryStore)) l = Some u"
    "sp_TurnID s = sp_TurnID u" "sp_Sequence s = sp_Sequence u"
  shows "k = l"
  using stepnum.reachable[of ops] assms unfolding step_inv_def steps_ok_def by blast

section \<open>A concrete run\<close>

definition sample_session :: "string \<Rightarrow> session_kind \<Rightarrow> session" where
  "sample_session sid kind = \<lparr>ses_Kind = kind, ses_ID = sid, ses_OrganizationID = 1, ses_CreatedBy = 1, ses_Title = [],
     ses_Status = SessionActive, ses_ActiveTurnID = [], ses_ActiveAttachmentID = [], ses_Summary = [], ses_Version = 0,
     ses_CreatedAt = 0, ses_UpdatedAt = 0\<rparr>"

definition new_turn :: "string \<Rightarrow> turn" where
  "new_turn tid = \<lparr>tn_ID = tid, tn_AgentSessionID = [], tn_Status = TurnQueued, tn_ActiveStepID = [], tn_ErrorCode = [],
     tn_ErrorMessage = [], tn_Version = 0, tn_StartedAt = 0, tn_CompletedAt = None, tn_CreatedAt = 0, tn_UpdatedAt = 0\<rparr>"

definition new_step :: "string \<Rightarrow> step_kind \<Rightarrow> step" where
  "new_step sid kind = \<lparr>sp_ID = sid, sp_TurnID = [], sp_Sequence = 0, sp_Kind = kind, sp_Status = StepRunning, sp_ToolID = None,
     sp_ToolSnapshotID = [], sp_Input = [], sp_Output = [], sp_ErrorCode = [], sp_ErrorMessage = [], sp_Version = 0,
     sp_StartedAt = None, sp_CompletedAt = None, sp_CreatedAt = 0, sp_UpdatedAt = 0\<rparr>"

definition new_model_message :: "message_role \<Rightarrow> string \<Rightarrow> model_message" where
  "new_model_message role content = \<lparr>mm_References = [], mm_Role = role, mm_Content = content, mm_ToolCalls = [],
     mm_ToolCallID = [], mm_ToolName = []\<rparr>"

definition sample_message :: "string \<Rightarrow> message" where
  "sample_message mid = \<lparr>msg_ID = mid, msg_AgentSessionID = ''s1'', msg_TurnID = ''t1'', msg_Sequence = 0,
     msg_Value = new_model_message RoleUser ''hello'', msg_CreatedAt = 0\<rparr>"

definition sample_attachment :: attachment where
  "sample_attachment = \<lparr>at_AccessHandleID = [], at_ID = ''a1'', at_AgentSessionID = ''s1'', at_AccessID = 7,
     at_ApplicationID = 9, at_Protocol = ''ssh'', at_Capabilities = [''exec''], at_Generation = 0,
     at_State = AttachmentConnected, at_CreatedAt = 0, at_UpdatedAt = 0\<rparr>"

definition sample_ops :: "store_op list" where
  "sample_ops =
     [OpCreateSession CtxLive 1 (sample_session ''s1'' SessionAccess),
      OpCreateSession CtxLive 1 (sample_session ''s2'' SessionManagement),
      OpCreateAttachment CtxLive 2 sample_attachment,
      OpStartTurn CtxLive 3 ''s1'' (new_turn ''t1''),
      OpTransitionTurn CtxLive 4 ''t1'' 1 TurnRunning [] [],
      OpAppendStep CtxLive 5 ''t1'' 2 (new_step ''p1'' StepModel),
      OpTransitionStep CtxLive 6 ''p1'' StepCompleted ''{}'',
      OpAppendMessage CtxLive 6 (sample_message ''m1''),
      OpAppendMessage CtxLive 7 (sample_message ''m2'')]"

definition sample_finish :: "store_op list" where
  "sample_finish = [OpTransitionTurn CtxLive 8 ''t1'' 3 TurnCompleted [] []]"

definition sample_store :: memory_store where
  "sample_store = run_ops sample_ops NewMemoryStore"

definition sample_done :: memory_store where
  "sample_done = run_ops (sample_ops @ sample_finish) NewMemoryStore"

lemma sample_store_eval:
  "\<exists>t. gm_get (ms_turns sample_store) ''t1'' = Some t \<and> tn_Status t = TurnRunning"
  "\<exists>s. gm_get (ms_sessions sample_store) ''s2'' = Some s \<and> ses_Kind s = SessionManagement"
  "\<exists>a. gm_get (ms_attachments sample_store) ''a1'' = Some a \<and> at_AccessID a = 7"
  "\<exists>p. gm_get (ms_steps sample_store) ''p1'' = Some p \<and> sp_Status p = StepCompleted"
  "\<exists>t. gm_get (ms_turns sample_done) ''t1'' = Some t \<and> tn_Status t = TurnCompleted"
proof -
  have "map_option tn_Status (gm_get (ms_turns sample_store) ''t1'') = Some TurnRunning"
    "map_option ses_Kind (gm_get (ms_sessions sample_store) ''s2'') = Some SessionManagement"
    "map_option at_AccessID (gm_get (ms_attachments sample_store) ''a1'') = Some 7"
    "map_option sp_Status (gm_get (ms_steps sample_store) ''p1'') = Some StepCompleted"
    "map_option tn_Status (gm_get (ms_turns sample_done) ''t1'') = Some TurnCompleted"
    by code_simp+
  then show "\<exists>t. gm_get (ms_turns sample_store) ''t1'' = Some t \<and> tn_Status t = TurnRunning"
    "\<exists>s. gm_get (ms_sessions sample_store) ''s2'' = Some s \<and> ses_Kind s = SessionManagement"
    "\<exists>a. gm_get (ms_attachments sample_store) ''a1'' = Some a \<and> at_AccessID a = 7"
    "\<exists>p. gm_get (ms_steps sample_store) ''p1'' = Some p \<and> sp_Status p = StepCompleted"
    "\<exists>t. gm_get (ms_turns sample_done) ''t1'' = Some t \<and> tn_Status t = TurnCompleted"
    by auto
qed

end
