(* ===== verification/Agent_Context.thy ===== *)
theory Agent_Context
  imports Agent_Store
begin

text \<open>
  What a model is shown besides the current turn (src/pkg/liaison/manager/agent/runtime/context.go and
  shell_context.go): the system message that describes the attachments, and the messages of earlier turns. The fixed
  prompt texts are the parameter \<open>prompt_texts\<close>; everything that depends on the state is written out.

  The lemmas: the restored history is a suffix of the session's messages of completed turns, holds at most
  sixteen groups and 64 KiB, and is the longest such suffix of whole groups; the shell memory holds at most eight
  conclusions and 8192 bytes.
\<close>

section \<open>System messages\<close>

record prompt_texts =
  pt_management :: string
  pt_connection :: string
  pt_s3 :: string
  pt_shell :: string
  pt_shell_advice :: string
  pt_shell_analysis :: string
  pt_references :: string
  pt_conclusions :: string

definition system_message :: "string \<Rightarrow> model_message" where
  "system_message content = new_model_message RoleSystem content"

definition managementContext :: "prompt_texts \<Rightarrow> model_message" where
  "managementContext tx = system_message (pt_management tx)"

definition go_bool :: "bool \<Rightarrow> string" where
  "go_bool b = (if b then ''true'' else ''false'')"

text \<open>\<^verbatim>\<open>%v\<close> of a slice of strings.\<close>

definition go_slice :: "string list \<Rightarrow> string" where
  "go_slice xs = ''['' @ concat (map (\<lambda>(k, x). (if k = 0 then [] else '' '') @ x) (enumerate 0 xs)) @ '']''"

definition attachment_line :: "string \<Rightarrow> attachment_snapshot \<Rightarrow> string" where
  "attachment_line primary a =
     ''protocol='' @ att_Protocol a @ '' access_id='' @ dec (att_AccessID a) @ '' application_id='' @ dec (att_ApplicationID a) @
     '' active='' @ go_bool (att_ID a = primary)"

definition connectionContext :: "prompt_texts \<Rightarrow> attachment_snapshot list \<Rightarrow> string \<Rightarrow> model_message" where
  "connectionContext tx attachments primary =
     system_message (pt_connection tx @
       concat (map (\<lambda>a. (if att_Protocol a = ''s3'' then pt_s3 tx else []) @ attachment_line primary a @
                        '' capabilities='' @ go_slice (att_Capabilities a) @ [CHR 0x0A]) attachments) @
       (if attachments = [] then ''No live attachment. Do not claim to be connected.'' @ [CHR 0x0A] else []))"

definition shellContext :: "prompt_texts \<Rightarrow> attachment_snapshot list \<Rightarrow> string \<Rightarrow> model_message" where
  "shellContext tx attachments primary =
     system_message (pt_shell tx @ concat (map (\<lambda>a. attachment_line primary a @ [CHR 0x0A]) attachments) @ pt_shell_advice tx)"

section \<open>History of completed turns\<close>

definition completed_turns :: "turn list \<Rightarrow> string \<Rightarrow> string list" where
  "completed_turns turns currentTurnID =
     map tn_ID (filter (\<lambda>t. tn_ID t \<noteq> currentTurnID \<and> tn_Status t = TurnCompleted) turns)"

definition replayable :: "string list \<Rightarrow> message \<Rightarrow> bool" where
  "replayable completed m \<longleftrightarrow> msg_TurnID m \<in> set completed \<and> mm_Role (msg_Value m) \<noteq> RoleSystem"

text \<open>The grouping loop; the last group of the accumulator is the current one, and \<open>lastID\<close> starts as the empty
  string.\<close>

fun group_messages :: "string list \<Rightarrow> string \<Rightarrow> model_message list list \<Rightarrow> message list \<Rightarrow> model_message list list" where
  "group_messages completed lastID groups [] = groups"
| "group_messages completed lastID groups (m # ms) =
     (if \<not> replayable completed m then group_messages completed lastID groups ms
      else
        let groups' = (if msg_TurnID m \<noteq> lastID then groups @ [[]] else groups)
        in group_messages completed (msg_TurnID m) (butlast groups' @ [last groups' @ [msg_Value m]]) ms)"

definition message_size :: "model_message \<Rightarrow> int" where
  "message_size m = int (length (mm_Content m)) + sum_list (map (int \<circ> length \<circ> mc_Input) (mm_ToolCalls m))"

definition group_size :: "model_message list \<Rightarrow> int" where
  "group_size g = sum_list (map message_size g)"

text \<open>The loop that lowers \<^verbatim>\<open>start\<close>, on the groups from the last one down.\<close>

fun recent_groups :: "int \<Rightarrow> int \<Rightarrow> model_message list list \<Rightarrow> model_message list list" where
  "recent_groups n sz [] = []"
| "recent_groups n sz (g # gs) =
     (if n < 16 \<and> \<not> (sz + group_size g > 64 * 1024) then g # recent_groups (n + 1) (sz + group_size g) gs else [])"

definition select_history :: "turn list \<Rightarrow> string \<Rightarrow> message list \<Rightarrow> model_message list" where
  "select_history turns currentTurnID stored =
     (let groups = group_messages (completed_turns turns currentTurnID) [] [] stored
      in concat (rev (recent_groups 0 0 (rev groups))))"

section \<open>Shell memory\<close>

definition is_conclusion :: "model_message \<Rightarrow> bool" where
  "is_conclusion m \<longleftrightarrow> \<not> (mm_Role m \<noteq> RoleAssistant \<or> mm_ToolCalls m \<noteq> [] \<or> mm_Content m = [])"

fun collect_conclusions :: "string list \<Rightarrow> int \<Rightarrow> model_message list \<Rightarrow> string list" where
  "collect_conclusions conclusions sz [] = conclusions"
| "collect_conclusions conclusions sz (m # ms) =
     (if int (length conclusions) < 8
      then if \<not> is_conclusion m then collect_conclusions conclusions sz ms
           else if sz + int (length (mm_Content m)) > 8192 then collect_conclusions conclusions sz ms
           else collect_conclusions (mm_Content m # conclusions) (sz + int (length (mm_Content m))) ms
      else conclusions)"

definition shell_conclusions :: "model_message list \<Rightarrow> string list" where
  "shell_conclusions history = collect_conclusions [] 0 (rev history)"


section \<open>Bounds and completeness\<close>

lemma group_messages_concat:
  assumes "groups = [] \<longrightarrow> lastID = []" "[] \<notin> set completed"
  shows "concat (group_messages completed lastID groups ms) =
     concat groups @ map msg_Value (filter (replayable completed) ms)"
  using assms
proof (induction completed lastID groups ms rule: group_messages.induct)
  case (2 completed lastID groups m ms)
  show ?case
  proof (cases "replayable completed m")
    case True
    define groups' where "groups' = (if msg_TurnID m \<noteq> lastID then groups @ [[]] else groups)"
    have "msg_TurnID m \<noteq> []" using True 2(4) by (auto simp: replayable_def)
    with 2(3) have ne: "groups' \<noteq> []" by (auto simp: groups'_def)
    have "concat groups' = concat (butlast groups') @ last groups'"
      using arg_cong[OF append_butlast_last_id[OF ne], of concat] by simp
    moreover have "concat groups' = concat groups" by (simp add: groups'_def)
    ultimately have "concat (butlast groups' @ [last groups' @ [msg_Value m]]) = concat groups @ [msg_Value m]" by simp
    with 2(2)[OF _ groups'_def] True 2(4) show ?thesis
      by (simp add: Let_def groups'_def[symmetric] del: concat_append)
  next
    case False
    with 2(1)[OF _ 2(3,4)] show ?thesis by simp
  qed
qed simp

lemma group_size_simps [simp]:
  "group_size [] = 0" "group_size (m # g) = message_size m + group_size g" "group_size (g @ h) = group_size g + group_size h"
  by (simp_all add: group_size_def)

lemma message_size_nonneg: "0 \<le> message_size m"
  by (auto simp: message_size_def intro!: add_nonneg_nonneg sum_list_nonneg)

text \<open>The chosen groups are the longest run from the newest one that respects both limits.\<close>

lemma recent_groups_split:
  assumes "n \<le> 16" "sz \<le> 64 * 1024"
  obtains rest where "gs = recent_groups n sz gs @ rest" "n + int (length (recent_groups n sz gs)) \<le> 16"
    "sz + group_size (concat (recent_groups n sz gs)) \<le> 64 * 1024"
    "rest = [] \<or> n + int (length (recent_groups n sz gs)) = 16 \<or>
       sz + group_size (concat (recent_groups n sz gs)) + group_size (hd rest) > 64 * 1024"
  using assms
proof (induction gs arbitrary: n sz thesis)
  case (Cons g gs)
  show ?case
  proof (cases "n < 16 \<and> sz + group_size g \<le> 64 * 1024")
    case True
    then have "n + 1 \<le> 16" "sz + group_size g \<le> 64 * 1024" by auto
    from Cons.IH[OF _ this] obtain rest where rest: "gs = recent_groups (n + 1) (sz + group_size g) gs @ rest"
      "n + 1 + int (length (recent_groups (n + 1) (sz + group_size g) gs)) \<le> 16"
      "sz + group_size g + group_size (concat (recent_groups (n + 1) (sz + group_size g) gs)) \<le> 64 * 1024"
      "rest = [] \<or> n + 1 + int (length (recent_groups (n + 1) (sz + group_size g) gs)) = 16 \<or>
        sz + group_size g + group_size (concat (recent_groups (n + 1) (sz + group_size g) gs)) + group_size (hd rest) > 64 * 1024"
      by blast
    show ?thesis
      by (rule Cons.prems(1)[of rest]) (use True rest in \<open>simp_all add: ac_simps\<close>)
  next
    case False
    then show ?thesis using Cons.prems by (intro Cons.prems(1)[of "g # gs"]) auto
  qed
qed (simp add: that)


text \<open>The history shown to the model is a suffix of the session's non-system messages of completed turns
  other than the current one; it consists of whole groups of consecutive messages of one turn, at most sixteen of
  them and at most 64 KiB of content and tool input, and it stops only at one of these limits or at the beginning.\<close>

lemma history_recent_completed:
  assumes "\<And>t. t \<in> set turns \<Longrightarrow> tn_ID t \<noteq> []"
  shows "\<exists>older recent.
     group_messages (completed_turns turns currentTurnID) [] [] stored = older @ recent \<and>
     select_history turns currentTurnID stored = concat recent \<and>
     length recent \<le> 16 \<and> group_size (concat recent) \<le> 64 * 1024 \<and>
     (older \<noteq> [] \<longrightarrow> length recent = 16 \<or> group_size (last older) + group_size (concat recent) > 64 * 1024) \<and>
     suffix (concat recent) (map msg_Value (filter (replayable (completed_turns turns currentTurnID)) stored))"
proof -
  let ?groups = "group_messages (completed_turns turns currentTurnID) [] [] stored"
  let ?recent = "rev (recent_groups 0 0 (rev ?groups))"
  obtain rest where rest: "rev ?groups = recent_groups 0 0 (rev ?groups) @ rest"
    "int (length (recent_groups 0 0 (rev ?groups))) \<le> 16"
    "group_size (concat (recent_groups 0 0 (rev ?groups))) \<le> 64 * 1024"
    "rest = [] \<or> int (length (recent_groups 0 0 (rev ?groups))) = 16 \<or>
       group_size (concat (recent_groups 0 0 (rev ?groups))) + group_size (hd rest) > 64 * 1024"
    using recent_groups_split[of 0 0 "rev ?groups"] by auto
  have split: "?groups = rev rest @ ?recent"
    using arg_cong[OF rest(1), of rev] by simp
  have sz: "group_size (concat ?recent) = group_size (concat (recent_groups 0 0 (rev ?groups)))"
  proof -
    have "group_size (concat (rev xs)) = group_size (concat xs)" for xs by (induction xs) simp_all
    then show ?thesis .
  qed
  have "concat ?groups = map msg_Value (filter (replayable (completed_turns turns currentTurnID)) stored)"
    using group_messages_concat[of "[]" "[]" "completed_turns turns currentTurnID" stored] assms
    by (force simp: completed_turns_def)
  with arg_cong[OF split, of concat]
  have "suffix (concat ?recent) (map msg_Value (filter (replayable (completed_turns turns currentTurnID)) stored))"
    by (metis concat_append suffixI)
  with split rest(2-4) sz show ?thesis
    by (intro exI[of _ "rev rest"] exI[of _ ?recent]) (auto simp: select_history_def Let_def last_rev)
qed

text \<open>The shell memory: at most eight texts and 8192 bytes, all of them finished answers of the assistant.\<close>

lemma collect_conclusions_bounds:
  assumes "int (length acc) \<le> 8" "sz = sum_list (map (int \<circ> length) acc)" "sz \<le> 8192"
  shows "int (length (collect_conclusions acc sz ms)) \<le> 8 \<and>
    sum_list (map (int \<circ> length) (collect_conclusions acc sz ms)) \<le> 8192 \<and>
    set (collect_conclusions acc sz ms) \<subseteq> set acc \<union> mm_Content ` {m \<in> set ms. is_conclusion m}"
  using assms
proof (induction acc sz ms rule: collect_conclusions.induct)
  case (2 acc sz m ms)
  show ?case
  proof (cases "int (length acc) < 8 \<and> is_conclusion m \<and> sz + int (length (mm_Content m)) \<le> 8192")
    case True
    have "int (length (collect_conclusions (mm_Content m # acc) (sz + int (length (mm_Content m))) ms)) \<le> 8 \<and>
      sum_list (map (int \<circ> length) (collect_conclusions (mm_Content m # acc) (sz + int (length (mm_Content m))) ms)) \<le> 8192 \<and>
      set (collect_conclusions (mm_Content m # acc) (sz + int (length (mm_Content m))) ms)
        \<subseteq> set (mm_Content m # acc) \<union> mm_Content ` {m \<in> set ms. is_conclusion m}"
      using True "2.prems" by (intro "2.IH"(3)) auto
    with True show ?thesis by (auto simp: comp_def)
  next
    case False
    then consider "\<not> int (length acc) < 8" | "int (length acc) < 8" "\<not> is_conclusion m"
      | "int (length acc) < 8" "is_conclusion m" "sz + int (length (mm_Content m)) > 8192" by linarith
    then show ?thesis
    proof cases
      case 1
      then show ?thesis using 2(4-6) by auto
    next
      case 2
      then show ?thesis using "2.IH"(1) "2.prems" by auto
    next
      case 3
      then show ?thesis using "2.IH"(2) "2.prems" by auto
    qed
  qed
qed auto

lemma shell_conclusions_bounds:
  "length (shell_conclusions history) \<le> 8" "sum_list (map (int \<circ> length) (shell_conclusions history)) \<le> 8192"
  "set (shell_conclusions history) \<subseteq> mm_Content ` {m \<in> set history. is_conclusion m}"
  using collect_conclusions_bounds[of "[]" 0 "rev history"] by (auto simp: shell_conclusions_def)

definition sample_turns :: "turn list" where
  "sample_turns = [(new_turn ''t1'')\<lparr>tn_Status := TurnCompleted\<rparr>, (new_turn ''t2'')\<lparr>tn_Status := TurnFailed\<rparr>, new_turn ''t3'']"

definition sample_stored :: "message list" where
  "sample_stored = [sample_message ''m1'', (sample_message ''m2'')\<lparr>msg_TurnID := ''t2''\<rparr>, (sample_message ''m3'')\<lparr>msg_TurnID := ''t3''\<rparr>]"

end
