(* ===== verification/Agent_Approval.thy ===== *)
theory Agent_Approval
  imports Agent_Types
begin

text \<open>
  Durable approvals (src/pkg/liaison/manager/agent/runtime/durable_approval.go, with the four statements of
  src/pkg/liaison/repo/dao/dao_agent_runtime.go it runs). The table maps approval identifiers to rows; a
  statement either runs or fails with a driver error, which is the parameter \<open>db\<close>. The encodings of the
  frozen call and its tool snapshot are the parameter \<open>codec\<close>.

  \<^verbatim>\<open>Decide\<close> and \<^verbatim>\<open>Consume\<close> read a row, check it and then update it with a compare-and-set on the status column.
  Other requests run between the two statements, so each operation is split at that point, and
  \<open>approval_step\<close> interleaves the halves of any number of concurrent operations. The result: however
  they interleave, one approval is decided at most once and consumed at most once, and only after it was
  approved.
\<close>

section \<open>Rows and requests\<close>

datatype approval_status = ApprovalPending | ApprovalApproved | ApprovalDenied | ApprovalExpired | ApprovalConsumed

fun approval_status_num :: "approval_status \<Rightarrow> nat" where
  "approval_status_num ApprovalPending = 0"
| "approval_status_num ApprovalApproved = 1"
| "approval_status_num ApprovalDenied = 2"
| "approval_status_num ApprovalExpired = 3"
| "approval_status_num ApprovalConsumed = 4"

record approval_request =
  aq_ID :: string
  aq_SessionID :: string
  aq_TurnID :: string
  aq_StepID :: string
  aq_RequestedBy :: nat
  aq_Invocation :: tool_invocation
  aq_Snapshot :: tool_set_snapshot
  aq_InputSHA256 :: string
  aq_Reason :: string
  aq_Risk :: risk_level
  aq_ExpiresAt :: gtime
  aq_AttachmentEpoch :: u64

record agent_approval =
  ap_ID :: string
  ap_CreatedAt :: gtime
  ap_UpdatedAt :: gtime
  ap_AgentSessionID :: string
  ap_TurnID :: string
  ap_StepID :: string
  ap_RequestedBy :: nat
  ap_DecidedBy :: "nat option"
  ap_Status :: approval_status
  ap_Risk :: risk_level
  ap_InputSHA256 :: string
  ap_AttachmentGeneration :: u64
  ap_Reason :: string
  ap_DecisionNote :: string
  ap_ExpiresAt :: gtime
  ap_DecidedAt :: "gtime option"
  ap_Invocation :: string
  ap_Snapshot :: string

record approval_view =
  av_ID :: string
  av_TurnID :: string
  av_StepID :: string
  av_Status :: approval_status
  av_ToolID :: tool_id
  av_Input :: bytes
  av_InputSHA256 :: string
  av_Reason :: string
  av_Risk :: risk_level
  av_ExpiresAt :: gtime
  av_DecisionNote :: string
  av_DecidedAt :: "gtime option"

type_synonym approval_table = "(string, agent_approval) gomap"

record approval_codec =
  enc_invocation :: "tool_invocation \<Rightarrow> gerr + string"
  dec_invocation :: "string \<Rightarrow> gerr + tool_invocation"
  enc_snapshot :: "tool_set_snapshot \<Rightarrow> gerr + string"
  dec_snapshot :: "string \<Rightarrow> gerr + tool_set_snapshot"

section \<open>Statements\<close>

definition CreateAgentApproval :: "gerr option \<Rightarrow> agent_approval \<Rightarrow> approval_table \<Rightarrow> (approval_table, unit) outcome" where
  "CreateAgentApproval db a t =
     (case db of Some err \<Rightarrow> (Inl err, t)
      | None \<Rightarrow>
          if gm_get t (ap_ID a) \<noteq> None then (Inl (ErrNew ''UNIQUE constraint failed: agent_approvals.id''), t)
          else if list_ex (\<lambda>b. ap_StepID b = ap_StepID a) (map snd t)
          then (Inl (ErrNew ''UNIQUE constraint failed: agent_approvals.step_id''), t)
          else (Inr (), gm_put (ap_ID a) a t))"

definition GetAgentApproval :: "gerr option \<Rightarrow> string \<Rightarrow> approval_table \<Rightarrow> gerr + agent_approval" where
  "GetAgentApproval db i t =
     (case db of Some err \<Rightarrow> Inl err
      | None \<Rightarrow> (case gm_get t i of None \<Rightarrow> Inl (Sentinel GormErrRecordNotFound) | Some a \<Rightarrow> Inr a))"

definition approval_less :: "agent_approval \<Rightarrow> agent_approval \<Rightarrow> bool" where
  "approval_less a b = (if ap_CreatedAt a = ap_CreatedAt b then ap_ID a < ap_ID b else ap_CreatedAt a < ap_CreatedAt b)"

definition ListAgentApprovals :: "gerr option \<Rightarrow> string \<Rightarrow> approval_table \<Rightarrow> gerr + agent_approval list" where
  "ListAgentApprovals db sid t =
     (case db of Some err \<Rightarrow> Inl err
      | None \<Rightarrow> Inr (go_sort approval_less (filter (\<lambda>a. ap_AgentSessionID a = sid) (map snd t))))"

text \<open>\<^verbatim>\<open>UPDATE ... WHERE id = ? AND status = ?\<close>, writing the selected columns only; the result says whether a row
  matched.\<close>

definition UpdateAgentApprovalCAS ::
  "gerr option \<Rightarrow> agent_approval \<Rightarrow> approval_status \<Rightarrow> approval_table \<Rightarrow> (approval_table, bool) outcome" where
  "UpdateAgentApprovalCAS db a expected t =
     (case db of Some err \<Rightarrow> (Inl err, t)
      | None \<Rightarrow>
          (case gm_get t (ap_ID a) of
             None \<Rightarrow> (Inr False, t)
           | Some row \<Rightarrow>
               if ap_Status row \<noteq> expected then (Inr False, t)
               else (Inr True, gm_put (ap_ID a) (row\<lparr>ap_Status := ap_Status a, ap_DecidedBy := ap_DecidedBy a,
                       ap_DecisionNote := ap_DecisionNote a, ap_DecidedAt := ap_DecidedAt a,
                       ap_UpdatedAt := ap_UpdatedAt a\<rparr>) t)))"

definition mapApprovalNotFound :: "gerr \<Rightarrow> string \<Rightarrow> gerr" where
  "mapApprovalNotFound err i = (if errors_is err GormErrRecordNotFound then errw ErrApprovalNotFound i else err)"

section \<open>Operations\<close>

definition approval_row :: "gtime \<Rightarrow> approval_request \<Rightarrow> string \<Rightarrow> string \<Rightarrow> agent_approval" where
  "approval_row now q invocation snapshot =
     \<lparr>ap_ID = aq_ID q, ap_CreatedAt = now, ap_UpdatedAt = now, ap_AgentSessionID = aq_SessionID q,
      ap_TurnID = aq_TurnID q, ap_StepID = aq_StepID q, ap_RequestedBy = aq_RequestedBy q,
      ap_DecidedBy = None, ap_Status = ApprovalPending, ap_Risk = aq_Risk q,
      ap_InputSHA256 = aq_InputSHA256 q, ap_AttachmentGeneration = aq_AttachmentEpoch q,
      ap_Reason = aq_Reason q, ap_DecisionNote = [], ap_ExpiresAt = aq_ExpiresAt q,
      ap_DecidedAt = None, ap_Invocation = invocation, ap_Snapshot = snapshot\<rparr>"

definition approval_Request ::
  "approval_codec \<Rightarrow> gtime \<Rightarrow> gerr option \<Rightarrow> approval_request \<Rightarrow> approval_table \<Rightarrow> (approval_table, unit) outcome" where
  "approval_Request codec now db q t =
     (if aq_ID q = [] \<or> aq_SessionID q = [] \<or> aq_TurnID q = [] \<or> aq_StepID q = [] \<or> aq_RequestedBy q = 0
      then (Inl (ErrNew ''approval ID, session, turn, step and requester are required''), t)
      else case enc_invocation codec (aq_Invocation q) of
        Inl err \<Rightarrow> (Inl (ErrWrap ''encode approval invocation: '' err []), t)
      | Inr invocation \<Rightarrow>
          (case enc_snapshot codec (aq_Snapshot q) of
             Inl err \<Rightarrow> (Inl (ErrWrap ''encode approval tool snapshot: '' err []), t)
           | Inr snapshot \<Rightarrow>
               (case CreateAgentApproval db
                       (approval_row now q invocation snapshot) t of
                  (Inl err, t') \<Rightarrow> (Inl (ErrWrap ''create agent approval: '' err []), t')
                | (Inr u, t') \<Rightarrow> (Inr (), t'))))"

text \<open>\<^verbatim>\<open>Decide\<close> up to its update: the row to write, or the error.\<close>

definition decide_read ::
  "gtime \<Rightarrow> gerr option \<Rightarrow> string \<Rightarrow> nat \<Rightarrow> bool \<Rightarrow> string \<Rightarrow> approval_table \<Rightarrow> gerr + agent_approval" where
  "decide_read now db i decidedBy approve note t =
     (if i = [] \<or> decidedBy = 0 then Inl (ErrNew ''approval ID and decider are required'')
      else case GetAgentApproval db i t of
        Inl err \<Rightarrow> Inl (mapApprovalNotFound err i)
      | Inr row \<Rightarrow>
          if ap_Status row \<noteq> ApprovalPending
          then Inl (errw ErrApprovalConflict (''approval '' @ i @ '' is '' @ dec (approval_status_num (ap_Status row))))
          else
            let status = (if \<not> (ap_ExpiresAt row > now) then ApprovalExpired
                          else if approve then ApprovalApproved else ApprovalDenied)
            in Inr (row\<lparr>ap_Status := status, ap_DecidedBy := Some decidedBy, ap_DecisionNote := note,
                       ap_DecidedAt := Some now, ap_UpdatedAt := now\<rparr>))"

definition decide_write ::
  "gerr option \<Rightarrow> string \<Rightarrow> agent_approval \<Rightarrow> approval_table \<Rightarrow> (approval_table, unit) outcome" where
  "decide_write db i row t =
     (case UpdateAgentApprovalCAS db row ApprovalPending t of
        (Inl err, t') \<Rightarrow> (Inl (ErrWrap ''decide agent approval: '' err []), t')
      | (Inr updated, t') \<Rightarrow>
          if \<not> updated then (Inl (errw ErrApprovalConflict (''approval '' @ i @ '' changed concurrently'')), t')
          else if ap_Status row = ApprovalExpired then (Inl (errw ErrApprovalExpired i), t')
          else (Inr (), t'))"

definition approval_Decide ::
  "gtime \<Rightarrow> gerr option \<Rightarrow> gerr option \<Rightarrow> string \<Rightarrow> nat \<Rightarrow> bool \<Rightarrow> string \<Rightarrow> approval_table \<Rightarrow> (approval_table, unit) outcome" where
  "approval_Decide now db db' i decidedBy approve note t =
     (case decide_read now db i decidedBy approve note t of
        Inl err \<Rightarrow> (Inl err, t) | Inr row \<Rightarrow> decide_write db' i row t)"

definition decode_approval :: "approval_codec \<Rightarrow> agent_approval \<Rightarrow> gerr + approval_request" where
  "decode_approval codec row =
     (case dec_invocation codec (ap_Invocation row) of
        Inl err \<Rightarrow> Inl (ErrWrap ''decode approval invocation: '' err [])
      | Inr invocation \<Rightarrow>
          (case dec_snapshot codec (ap_Snapshot row) of
             Inl err \<Rightarrow> Inl (ErrWrap ''decode approval tool snapshot: '' err [])
           | Inr snapshot \<Rightarrow>
               Inr \<lparr>aq_ID = ap_ID row, aq_SessionID = ap_AgentSessionID row, aq_TurnID = ap_TurnID row,
                    aq_StepID = ap_StepID row, aq_RequestedBy = ap_RequestedBy row, aq_Invocation = invocation,
                    aq_Snapshot = snapshot, aq_InputSHA256 = ap_InputSHA256 row, aq_Reason = ap_Reason row,
                    aq_Risk = ap_Risk row, aq_ExpiresAt = ap_ExpiresAt row,
                    aq_AttachmentEpoch = ap_AttachmentGeneration row\<rparr>))"

definition approval_Get :: "approval_codec \<Rightarrow> gerr option \<Rightarrow> string \<Rightarrow> approval_table \<Rightarrow> gerr + approval_request \<times> approval_status" where
  "approval_Get codec db i t =
     (case GetAgentApproval db i t of
        Inl err \<Rightarrow> Inl (mapApprovalNotFound err i)
      | Inr row \<Rightarrow> map_sum id (\<lambda>request. (request, ap_Status row)) (decode_approval codec row))"

definition approval_GetApproved ::
  "approval_codec \<Rightarrow> gtime \<Rightarrow> gerr option \<Rightarrow> string \<Rightarrow> principal \<Rightarrow> approval_table \<Rightarrow> gerr + approval_request" where
  "approval_GetApproved codec now db i prin t =
     (case approval_Get codec db i t of
        Inl err \<Rightarrow> Inl err
      | Inr (request, status) \<Rightarrow>
          if status \<noteq> ApprovalApproved
          then Inl (errw ErrApprovalConflict (''approval '' @ i @ '' is '' @ dec (approval_status_num status)))
          else if \<not> (aq_ExpiresAt request > now) then Inl (errw ErrApprovalExpired i)
          else if aq_RequestedBy request \<noteq> prin_UserID prin then Inl (ErrNew ''approval does not belong to principal'')
          else if bind_Principal (inv_Binding (aq_Invocation request)) \<noteq> prin
          then Inl (ErrNew ''approval principal binding changed'')
          else Inr request)"

text \<open>\<^verbatim>\<open>Consume\<close> up to its update. Its two reads are two statements: \<open>t\<close> is the table at the first, \<open>t'\<close> at the
  second.\<close>

definition consume_read ::
  "approval_codec \<Rightarrow> gtime \<Rightarrow> gtime \<Rightarrow> gerr option \<Rightarrow> gerr option \<Rightarrow> string \<Rightarrow> principal \<Rightarrow> approval_table \<Rightarrow> approval_table \<Rightarrow>
   gerr + approval_request \<times> agent_approval" where
  "consume_read codec now now' db db' i prin t t' =
     (case approval_GetApproved codec now db i prin t of
        Inl err \<Rightarrow> Inl err
      | Inr request \<Rightarrow>
          (case GetAgentApproval db' i t' of
             Inl err \<Rightarrow> Inl (mapApprovalNotFound err i)
           | Inr row \<Rightarrow> Inr (request, row\<lparr>ap_Status := ApprovalConsumed, ap_UpdatedAt := now'\<rparr>)))"

definition consume_write ::
  "gerr option \<Rightarrow> string \<Rightarrow> approval_request \<Rightarrow> agent_approval \<Rightarrow> approval_table \<Rightarrow> (approval_table, approval_request) outcome" where
  "consume_write db i request row t =
     (case UpdateAgentApprovalCAS db row ApprovalApproved t of
        (Inl err, t') \<Rightarrow> (Inl (ErrWrap ''consume agent approval: '' err []), t')
      | (Inr updated, t') \<Rightarrow>
          if \<not> updated then (Inl (errw ErrApprovalConflict (''approval '' @ i @ '' changed concurrently'')), t')
          else (Inr request, t'))"

definition approval_Consume ::
  "approval_codec \<Rightarrow> gtime \<Rightarrow> gtime \<Rightarrow> gerr option \<Rightarrow> gerr option \<Rightarrow> gerr option \<Rightarrow> string \<Rightarrow> principal \<Rightarrow> approval_table \<Rightarrow>
   (approval_table, approval_request) outcome" where
  "approval_Consume codec now now' db db' db'' i prin t =
     (case consume_read codec now now' db db' i prin t t of
        Inl err \<Rightarrow> (Inl err, t) | Inr (request, row) \<Rightarrow> consume_write db'' i request row t)"

fun approval_views :: "approval_codec \<Rightarrow> agent_approval list \<Rightarrow> gerr + approval_view list" where
  "approval_views codec [] = Inr []"
| "approval_views codec (row # rows) =
     (case dec_invocation codec (ap_Invocation row) of
        Inl err \<Rightarrow> Inl (ErrWrap (''decode approval invocation '' @ ap_ID row @ '': '') err [])
      | Inr invocation \<Rightarrow>
          map_sum id ((#) \<lparr>av_ID = ap_ID row, av_TurnID = ap_TurnID row, av_StepID = ap_StepID row,
            av_Status = ap_Status row, av_ToolID = call_ID (inv_Call invocation), av_Input = call_Input (inv_Call invocation),
            av_InputSHA256 = ap_InputSHA256 row, av_Reason = ap_Reason row, av_Risk = ap_Risk row,
            av_ExpiresAt = ap_ExpiresAt row, av_DecisionNote = ap_DecisionNote row, av_DecidedAt = ap_DecidedAt row\<rparr>)
            (approval_views codec rows))"

definition approval_List :: "approval_codec \<Rightarrow> gerr option \<Rightarrow> string \<Rightarrow> approval_table \<Rightarrow> gerr + approval_view list" where
  "approval_List codec db sid t =
     (if sid = [] then Inl (ErrNew ''agent session ID is required'')
      else case ListAgentApprovals db sid t of
        Inl err \<Rightarrow> Inl (ErrWrap ''list agent approvals: '' err [])
      | Inr rows \<Rightarrow> approval_views codec rows)"


section \<open>Interleaved operations\<close>

datatype approval_call =
    Deciding string agent_approval
  | ConsumeChecked string approval_request
  | Consuming string approval_request agent_approval

record approval_sys =
  as_table :: approval_table
  as_calls :: "approval_call list"
  as_decided :: "(string \<times> approval_status) list"
  as_consumed :: "(string \<times> approval_request) list"

inductive approval_step :: "approval_codec \<Rightarrow> approval_sys \<Rightarrow> approval_sys \<Rightarrow> bool" for codec where
  step_request: "approval_Request codec now db q (as_table s) = (r, t') \<Longrightarrow> approval_step codec s (s\<lparr>as_table := t'\<rparr>)"
| step_decide_read: "decide_read now db i decidedBy approve note (as_table s) = Inr row \<Longrightarrow>
     approval_step codec s (s\<lparr>as_calls := Deciding i row # as_calls s\<rparr>)"
| step_decide_write: "Deciding i row \<in> set (as_calls s) \<Longrightarrow> decide_write db i row (as_table s) = (r, t') \<Longrightarrow>
     approval_step codec s (s\<lparr>as_table := t', as_calls := remove1 (Deciding i row) (as_calls s),
       as_decided := as_decided s @ (if fst (UpdateAgentApprovalCAS db row ApprovalPending (as_table s)) = Inr True
                                     then [(i, ap_Status row)] else [])\<rparr>)"
| step_consume_check: "approval_GetApproved codec now db i prin (as_table s) = Inr q \<Longrightarrow>
     approval_step codec s (s\<lparr>as_calls := ConsumeChecked i q # as_calls s\<rparr>)"
| step_consume_read: "ConsumeChecked i q \<in> set (as_calls s) \<Longrightarrow> GetAgentApproval db i (as_table s) = Inr row \<Longrightarrow>
     approval_step codec s (s\<lparr>as_calls := Consuming i q (row\<lparr>ap_Status := ApprovalConsumed, ap_UpdatedAt := now\<rparr>)
       # remove1 (ConsumeChecked i q) (as_calls s)\<rparr>)"
| step_consume_write: "Consuming i q row \<in> set (as_calls s) \<Longrightarrow> consume_write db i q row (as_table s) = (r, t') \<Longrightarrow>
     approval_step codec s (s\<lparr>as_table := t', as_calls := remove1 (Consuming i q row) (as_calls s),
       as_consumed := as_consumed s @ (case r of Inl _ \<Rightarrow> [] | Inr q' \<Rightarrow> [(i, q')])\<rparr>)"

inductive approval_reachable :: "approval_codec \<Rightarrow> approval_sys \<Rightarrow> bool" for codec where
  "approval_reachable codec \<lparr>as_table = [], as_calls = [], as_decided = [], as_consumed = []\<rparr>"
| "approval_reachable codec s \<Longrightarrow> approval_step codec s t \<Longrightarrow> approval_reachable codec t"

definition decisions :: "approval_sys \<Rightarrow> string \<Rightarrow> approval_status list" where
  "decisions s i = map snd (filter (\<lambda>p. fst p = i) (as_decided s))"

definition consumptions :: "approval_sys \<Rightarrow> string \<Rightarrow> approval_request list" where
  "consumptions s i = map snd (filter (\<lambda>p. fst p = i) (as_consumed s))"

section \<open>Decided once, consumed once\<close>

definition row_ok :: "approval_codec \<Rightarrow> approval_status list \<Rightarrow> approval_request list \<Rightarrow> string \<Rightarrow> agent_approval \<Rightarrow> bool" where
  "row_ok codec ds cs i row \<longleftrightarrow> ap_ID row = i \<and>
     (case ap_Status row of
        ApprovalPending \<Rightarrow> ds = [] \<and> cs = []
      | ApprovalConsumed \<Rightarrow> ds = [ApprovalApproved] \<and> (\<exists>q. cs = [q] \<and> decode_approval codec row = Inr q)
      | st \<Rightarrow> ds = [st] \<and> cs = [])"

fun call_ok :: "approval_codec \<Rightarrow> approval_table \<Rightarrow> approval_call \<Rightarrow> bool" where
  "call_ok codec t (Deciding i row) = (ap_ID row = i \<and> ap_Status row \<in> {ApprovalApproved, ApprovalDenied, ApprovalExpired})"
| "call_ok codec t (ConsumeChecked i q) = (\<exists>row. gm_get t i = Some row \<and> decode_approval codec row = Inr q)"
| "call_ok codec t (Consuming i q row) = (ap_ID row = i \<and> ap_Status row = ApprovalConsumed \<and>
     (\<exists>row. gm_get t i = Some row \<and> decode_approval codec row = Inr q))"

definition approval_inv :: "approval_codec \<Rightarrow> approval_sys \<Rightarrow> bool" where
  "approval_inv codec s \<longleftrightarrow>
     (\<forall>i row. gm_get (as_table s) i = Some row \<longrightarrow> row_ok codec (decisions s i) (consumptions s i) i row) \<and>
     (\<forall>i. gm_get (as_table s) i = None \<longrightarrow> decisions s i = [] \<and> consumptions s i = []) \<and>
     (\<forall>c \<in> set (as_calls s). call_ok codec (as_table s) c)"

text \<open>Rows keep what was frozen in them: no statement touches the columns that \<open>decode_approval\<close> reads.\<close>

definition rows_kept :: "approval_codec \<Rightarrow> approval_table \<Rightarrow> approval_table \<Rightarrow> bool" where
  "rows_kept codec t t' \<longleftrightarrow> (\<forall>i row. gm_get t i = Some row \<longrightarrow>
     (\<exists>row'. gm_get t' i = Some row' \<and> decode_approval codec row' = decode_approval codec row))"

lemma call_ok_kept: "call_ok codec t c \<Longrightarrow> rows_kept codec t t' \<Longrightarrow> call_ok codec t' c"
  by (cases c) (fastforce simp: rows_kept_def)+

lemma decode_update [simp]:
  "decode_approval codec (row\<lparr>ap_Status := a, ap_DecidedBy := b, ap_DecisionNote := c, ap_DecidedAt := d, ap_UpdatedAt := e\<rparr>) =
   decode_approval codec row"
  by (simp add: decode_approval_def split: sum.split)

lemma rows_kept_refl [simp]: "rows_kept codec t t"
  by (simp add: rows_kept_def)

lemma rows_kept_cas:
  "UpdateAgentApprovalCAS db row expected t = (r, t') \<Longrightarrow> rows_kept codec t t'"
  by (auto simp: UpdateAgentApprovalCAS_def rows_kept_def split: option.splits if_splits)

lemma create_effect:
  "CreateAgentApproval db row t = (r, t') \<Longrightarrow> t' \<noteq> t \<Longrightarrow> gm_get t (ap_ID row) = None \<and> t' = gm_put (ap_ID row) row t"
  by (auto simp: CreateAgentApproval_def split: option.splits if_splits)

lemma Request_creates:
  assumes "approval_Request codec now db q t = (r, t')" "t' \<noteq> t"
  obtains inv snap r' where "CreateAgentApproval db (approval_row now q inv snap) t = (r', t')"
  using assms by (auto simp: approval_Request_def split: if_splits sum.splits prod.splits)

text \<open>A compare-and-set that reports success found the expected status and installed the new one.\<close>

lemma cas_True:
  assumes "UpdateAgentApprovalCAS db row expected t = (Inr True, t')"
  obtains old where "gm_get t (ap_ID row) = Some old" "ap_Status old = expected"
    "t' = gm_put (ap_ID row) (old\<lparr>ap_Status := ap_Status row, ap_DecidedBy := ap_DecidedBy row,
       ap_DecisionNote := ap_DecisionNote row, ap_DecidedAt := ap_DecidedAt row, ap_UpdatedAt := ap_UpdatedAt row\<rparr>) t"
  using assms by (auto simp: UpdateAgentApprovalCAS_def split: option.splits if_splits)

lemma cas_other: "UpdateAgentApprovalCAS db row expected t = (r, t') \<Longrightarrow> r \<noteq> Inr True \<Longrightarrow> t' = t"
  by (auto simp: UpdateAgentApprovalCAS_def split: option.splits if_splits)


lemma approval_invD:
  assumes "approval_inv codec s"
  shows "gm_get (as_table s) i = Some row \<Longrightarrow> row_ok codec (decisions s i) (consumptions s i) i row"
    "gm_get (as_table s) i = None \<Longrightarrow> decisions s i = [] \<and> consumptions s i = []"
    "c \<in> set (as_calls s) \<Longrightarrow> call_ok codec (as_table s) c"
  using assms unfolding approval_inv_def by blast+

lemma approval_invI:
  assumes "\<And>i row. gm_get (as_table s) i = Some row \<Longrightarrow> row_ok codec (decisions s i) (consumptions s i) i row"
    "\<And>i. gm_get (as_table s) i = None \<Longrightarrow> decisions s i = [] \<and> consumptions s i = []"
    "\<And>c. c \<in> set (as_calls s) \<Longrightarrow> call_ok codec (as_table s) c"
  shows "approval_inv codec s"
  unfolding approval_inv_def using assms by blast

lemma logs_simps [simp]:
  "decisions (s\<lparr>as_calls := cs\<rparr>) i = decisions s i" "consumptions (s\<lparr>as_calls := cs\<rparr>) i = consumptions s i"
  "decisions (s\<lparr>as_table := t\<rparr>) i = decisions s i" "consumptions (s\<lparr>as_table := t\<rparr>) i = consumptions s i"
  "decisions (s\<lparr>as_table := t, as_calls := cs, as_decided := as_decided s @ ds\<rparr>) i = decisions s i @ map snd (filter (\<lambda>p. fst p = i) ds)"
  "consumptions (s\<lparr>as_table := t, as_calls := cs, as_decided := ds\<rparr>) i = consumptions s i"
  "consumptions (s\<lparr>as_table := t, as_calls := cs, as_consumed := as_consumed s @ qs\<rparr>) i = consumptions s i @ map snd (filter (\<lambda>p. fst p = i) qs)"
  "decisions (s\<lparr>as_table := t, as_calls := cs, as_consumed := qs\<rparr>) i = decisions s i"
  by (simp_all add: decisions_def consumptions_def)

text \<open>A successful compare-and-set on one row, with the log entry it makes.\<close>

lemma approval_inv_write:
  assumes inv: "approval_inv codec s" and t: "as_table s' = gm_put i row' (as_table s)"
    and row: "row_ok codec (decisions s' i) (consumptions s' i) i row'"
    and logs: "\<And>j. j \<noteq> i \<Longrightarrow> decisions s' j = decisions s j \<and> consumptions s' j = consumptions s j"
    and calls: "set (as_calls s') \<subseteq> set (as_calls s)" and kept: "rows_kept codec (as_table s) (as_table s')"
  shows "approval_inv codec s'"
proof (rule approval_invI)
  show "row_ok codec (decisions s' j) (consumptions s' j) j x" if "gm_get (as_table s') j = Some x" for j x
    using that row logs approval_invD(1)[OF inv, of j x] by (cases "j = i") (simp_all add: t)
  show "decisions s' j = [] \<and> consumptions s' j = []" if "gm_get (as_table s') j = None" for j
    using that logs approval_invD(2)[OF inv, of j] by (cases "j = i") (simp_all add: t)
  show "call_ok codec (as_table s') c" if "c \<in> set (as_calls s')" for c
    using that calls approval_invD(3)[OF inv, of c] call_ok_kept[OF _ kept] by blast
qed

text \<open>Steps that only read.\<close>

lemma approval_inv_calls:
  assumes inv: "approval_inv codec s" and c: "\<And>c. c \<in> set cs \<Longrightarrow> c \<in> set (as_calls s) \<or> call_ok codec (as_table s) c"
  shows "approval_inv codec (s\<lparr>as_calls := cs\<rparr>)"
  using approval_invD[OF inv] c by (intro approval_invI) (simp_all, blast)

lemma approval_inv_request:
  assumes inv: "approval_inv codec s" and r: "approval_Request codec now db q (as_table s) = (r, t')"
  shows "approval_inv codec (s\<lparr>as_table := t'\<rparr>)"
proof (cases "t' = as_table s")
  case False
  with Request_creates[OF r] obtain inv snap r'
    where c: "CreateAgentApproval db (approval_row now q inv snap) (as_table s) = (r', t')" by metis
  define row where "row = approval_row now q inv snap"
  have row: "ap_Status row = ApprovalPending" "gm_get (as_table s) (ap_ID row) = None"
      "t' = gm_put (ap_ID row) row (as_table s)"
    using create_effect[OF c] False by (simp_all add: row_def approval_row_def)
  then have "rows_kept codec (as_table s) t'" by (auto simp: rows_kept_def)
  then show ?thesis using approval_invD(2)[OF inv row(2)] row
    by (intro approval_inv_write[OF inv, of _ "ap_ID row" row]) (simp_all add: row_ok_def)
qed (use inv in simp)

lemma approval_inv_decide:
  assumes inv: "approval_inv codec s" and c: "Deciding i row \<in> set (as_calls s)"
    and w: "decide_write db i row (as_table s) = (r, t')"
  shows "approval_inv codec (s\<lparr>as_table := t', as_calls := remove1 (Deciding i row) (as_calls s),
       as_decided := as_decided s @ (if fst (UpdateAgentApprovalCAS db row ApprovalPending (as_table s)) = Inr True
                                     then [(i, ap_Status row)] else [])\<rparr>)"
proof -
  obtain u t where u: "UpdateAgentApprovalCAS db row ApprovalPending (as_table s) = (u, t)" by (cases "UpdateAgentApprovalCAS db row ApprovalPending (as_table s)")
  with w have t: "t = t'" by (auto simp: decide_write_def split: sum.splits if_splits)
  have row: "ap_ID row = i" "ap_Status row \<in> {ApprovalApproved, ApprovalDenied, ApprovalExpired}"
    using approval_invD(3)[OF inv c] by auto
  note kept = rows_kept_cas[OF u, of codec]
  show ?thesis
  proof (cases "u = Inr True")
    case True
    from cas_True[OF u[unfolded True]] obtain old where old: "gm_get (as_table s) i = Some old" "ap_Status old = ApprovalPending"
      "t = gm_put i (old\<lparr>ap_Status := ap_Status row, ap_DecidedBy := ap_DecidedBy row, ap_DecisionNote := ap_DecisionNote row,
        ap_DecidedAt := ap_DecidedAt row, ap_UpdatedAt := ap_UpdatedAt row\<rparr>) (as_table s)" by (auto simp: row)
    from approval_invD(1)[OF inv old(1)] old(2) have "ap_ID old = i" "decisions s i = []" "consumptions s i = []"
      by (auto simp: row_ok_def)
    then show ?thesis using row(2) kept u True
      by (intro approval_inv_write[OF inv, of _ i "the (gm_get t i)"])
        (auto simp: t[symmetric] old(3) row_ok_def dest: set_remove1_subset[THEN subsetD])
  next
    case False
    with cas_other[OF u] t u show ?thesis using approval_invD[OF inv]
      by (intro approval_invI) (auto dest: set_remove1_subset[THEN subsetD])
  qed
qed

lemma approval_inv_consume:
  assumes inv: "approval_inv codec s" and c: "Consuming i q row \<in> set (as_calls s)"
    and w: "consume_write db i q row (as_table s) = (r, t')"
  shows "approval_inv codec (s\<lparr>as_table := t', as_calls := remove1 (Consuming i q row) (as_calls s),
       as_consumed := as_consumed s @ (case r of Inl _ \<Rightarrow> [] | Inr q' \<Rightarrow> [(i, q')])\<rparr>)"
proof -
  obtain u t where u: "UpdateAgentApprovalCAS db row ApprovalApproved (as_table s) = (u, t)" by (cases "UpdateAgentApprovalCAS db row ApprovalApproved (as_table s)")
  with w have t: "t = t'" and r: "u \<noteq> Inr True \<Longrightarrow> \<exists>e. r = Inl e" "u = Inr True \<Longrightarrow> r = Inr q"
    by (auto simp: consume_write_def split: sum.splits if_splits)
  have row: "ap_ID row = i" "ap_Status row = ApprovalConsumed"
    and frozen: "\<And>x. gm_get (as_table s) i = Some x \<Longrightarrow> decode_approval codec x = Inr q"
    using approval_invD(3)[OF inv c] by auto
  note kept = rows_kept_cas[OF u, of codec]
  show ?thesis
  proof (cases "u = Inr True")
    case True
    from cas_True[OF u[unfolded True]] obtain old where old: "gm_get (as_table s) i = Some old" "ap_Status old = ApprovalApproved"
      "t = gm_put i (old\<lparr>ap_Status := ap_Status row, ap_DecidedBy := ap_DecidedBy row, ap_DecisionNote := ap_DecisionNote row,
        ap_DecidedAt := ap_DecidedAt row, ap_UpdatedAt := ap_UpdatedAt row\<rparr>) (as_table s)" by (auto simp: row)
    from approval_invD(1)[OF inv old(1)] old(2) have "ap_ID old = i" "decisions s i = [ApprovalApproved]" "consumptions s i = []"
      by (auto simp: row_ok_def)
    then show ?thesis using row(2) kept r(2)[OF True] frozen[OF old(1)]
      by (intro approval_inv_write[OF inv, of _ i "the (gm_get t i)"])
        (auto simp: t[symmetric] old(3) row_ok_def dest: set_remove1_subset[THEN subsetD])
  next
    case False
    with cas_other[OF u] t r(1) show ?thesis using approval_invD[OF inv]
      by (intro approval_invI) (auto dest: set_remove1_subset[THEN subsetD])
  qed
qed


lemma decide_read_call:
  assumes "approval_inv codec s" "decide_read now db i by approve note (as_table s) = Inr row"
  shows "call_ok codec (as_table s) (Deciding i row)"
proof -
  from assms(2) obtain old where old: "gm_get (as_table s) i = Some old"
    "row = old\<lparr>ap_Status := (if \<not> (ap_ExpiresAt old > now) then ApprovalExpired
       else if approve then ApprovalApproved else ApprovalDenied), ap_DecidedBy := Some by, ap_DecisionNote := note,
       ap_DecidedAt := Some now, ap_UpdatedAt := now\<rparr>"
    by (auto simp: decide_read_def GetAgentApproval_def Let_def split: if_splits sum.splits option.splits)
  with approval_invD(1)[OF assms(1) old(1)] show ?thesis by (simp add: row_ok_def)
qed

lemma GetApproved_row:
  assumes "approval_GetApproved codec now db i prin t = Inr q"
  obtains row where "gm_get t i = Some row" "decode_approval codec row = Inr q" "ap_Status row = ApprovalApproved"
    "aq_ExpiresAt q > now" "aq_RequestedBy q = prin_UserID prin" "bind_Principal (inv_Binding (aq_Invocation q)) = prin"
  using assms
  by (auto simp: approval_GetApproved_def approval_Get_def GetAgentApproval_def map_sum_Inr_iff
      split: if_splits sum.splits option.splits)

lemma approval_inv_step: "approval_step codec s t \<Longrightarrow> approval_inv codec s \<Longrightarrow> approval_inv codec t"
proof (induction rule: approval_step.induct)
  case (step_decide_read now db i decidedBy approve nt s row)
  then show ?case by (intro approval_inv_calls) (auto intro: decide_read_call simp del: call_ok.simps)
next
  case (step_consume_check now db i prin s q)
  then show ?case by (intro approval_inv_calls) (auto elim: GetApproved_row)
next
  case (step_consume_read i q s db row now)
  then have "gm_get (as_table s) i = Some row" by (auto simp: GetAgentApproval_def split: option.splits)
  with approval_invD(1)[OF step_consume_read(3) this] approval_invD(3)[OF step_consume_read(3,1)] step_consume_read show ?case
    by (intro approval_inv_calls) (auto simp: row_ok_def dest: set_remove1_subset[THEN subsetD])
qed (blast intro: approval_inv_request approval_inv_decide approval_inv_consume)+

lemma approval_reachable_inv: "approval_reachable codec s \<Longrightarrow> approval_inv codec s"
proof (induction rule: approval_reachable.induct)
  case 1
  show ?case by (simp add: approval_inv_def decisions_def consumptions_def)
qed (rule approval_inv_step)

text \<open>C9: However requests, decisions and consumptions interleave between their statements, an approval
  is decided at most once and consumed at most once; it is consumed only if its one decision was an approval, and
  the consumer received exactly the call that was frozen in the row.\<close>

theorem approval_consumed_once:
  assumes "approval_reachable codec s"
  shows "length (decisions s i) \<le> 1 \<and> length (consumptions s i) \<le> 1 \<and>
    (consumptions s i \<noteq> [] \<longrightarrow> decisions s i = [ApprovalApproved] \<and>
       (\<exists>q. consumptions s i = [q] \<and> approval_Get codec None i (as_table s) = Inr (q, ApprovalConsumed)))"
proof (cases "gm_get (as_table s) i")
  case None
  with approval_invD(2)[OF approval_reachable_inv[OF assms]] show ?thesis by simp
next
  case (Some row)
  with approval_invD(1)[OF approval_reachable_inv[OF assms] Some] show ?thesis
    by (cases "ap_Status row") (auto simp: row_ok_def approval_Get_def GetAgentApproval_def)
qed

text \<open>An approval that is approved in time can be consumed: requesting, approving before the expiry and
  consuming as the requesting principal returns the frozen call, and every further attempt to consume or
  decide it is refused with a state conflict.\<close>

lemma approval_life_cycle:
  assumes req: "approval_Request codec now db q t = (Inr (), t1)"
    and decoded: "\<And>x. enc_invocation codec (aq_Invocation q) = Inr x \<Longrightarrow> dec_invocation codec x = Inr frozen"
      "\<And>x. enc_snapshot codec (aq_Snapshot q) = Inr x \<Longrightarrow> dec_snapshot codec x = Inr snap"
    and decide: "now1 < aq_ExpiresAt q" "by \<noteq> 0"
    and consume: "now2 < aq_ExpiresAt q" "prin_UserID prin = aq_RequestedBy q" "bind_Principal (inv_Binding frozen) = prin"
  shows "\<exists>t2 t3. approval_Decide now1 None None (aq_ID q) by True note t1 = (Inr (), t2) \<and>
     approval_Consume codec now2 now3 None None None (aq_ID q) prin t2 =
       (Inr (q\<lparr>aq_Invocation := frozen, aq_Snapshot := snap\<rparr>), t3) \<and>
     (\<exists>e. approval_Consume codec now4 now5 None None None (aq_ID q) prin t3 = (Inl e, t3) \<and> errors_is e ErrApprovalConflict) \<and>
     (\<exists>e. approval_Decide now4 None None (aq_ID q) by approve note' t3 = (Inl e, t3) \<and> errors_is e ErrApprovalConflict)"
proof -
  from req obtain x y where x: "enc_invocation codec (aq_Invocation q) = Inr x" "enc_snapshot codec (aq_Snapshot q) = Inr y"
    and q: "aq_ID q \<noteq> []" and c: "CreateAgentApproval db (approval_row now q x y) t = (Inr (), t1)"
    by (auto simp: approval_Request_def split: if_splits sum.splits prod.splits)
  let ?row = "approval_row now q x y"
  from c have t1: "gm_get t1 (aq_ID q) = Some ?row"
    by (auto simp: CreateAgentApproval_def approval_row_def split: option.splits if_splits)
  let ?row2 = "?row\<lparr>ap_Status := ApprovalApproved, ap_DecidedBy := Some by, ap_DecisionNote := note, ap_DecidedAt := Some now1, ap_UpdatedAt := now1\<rparr>"
  let ?row3 = "?row2\<lparr>ap_Status := ApprovalConsumed, ap_UpdatedAt := now3\<rparr>"
  let ?t2 = "gm_put (aq_ID q) ?row2 t1"
  let ?t3 = "gm_put (aq_ID q) ?row3 ?t2"
  have 2: "approval_Decide now1 None None (aq_ID q) by True note t1 = (Inr (), ?t2)"
    using t1 q decide by (simp add: approval_Decide_def decide_read_def decide_write_def GetAgentApproval_def
        UpdateAgentApprovalCAS_def approval_row_def Let_def)
  have dec: "decode_approval codec ?row2 = Inr (q\<lparr>aq_Invocation := frozen, aq_Snapshot := snap\<rparr>)"
    using decoded(1)[OF x(1)] decoded(2)[OF x(2)] by (simp add: decode_approval_def approval_row_def)
  have got: "approval_GetApproved codec now2 None (aq_ID q) prin ?t2 = Inr (q\<lparr>aq_Invocation := frozen, aq_Snapshot := snap\<rparr>)"
    using dec consume by (simp add: approval_GetApproved_def approval_Get_def GetAgentApproval_def)
  have 3: "approval_Consume codec now2 now3 None None None (aq_ID q) prin ?t2 =
      (Inr (q\<lparr>aq_Invocation := frozen, aq_Snapshot := snap\<rparr>), ?t3)"
    using got by (simp add: approval_Consume_def consume_read_def consume_write_def GetAgentApproval_def
        UpdateAgentApprovalCAS_def approval_row_def)
  have dec3: "decode_approval codec ?row3 = Inr (q\<lparr>aq_Invocation := frozen, aq_Snapshot := snap\<rparr>)"
    using dec by (simp add: decode_approval_def split: sum.splits)
  have 4: "\<exists>e. approval_Consume codec now4 now5 None None None (aq_ID q) prin ?t3 = (Inl e, ?t3) \<and> errors_is e ErrApprovalConflict"
    using dec3 by (simp add: approval_Consume_def consume_read_def approval_GetApproved_def approval_Get_def GetAgentApproval_def)
  have 5: "\<exists>e. approval_Decide now4 None None (aq_ID q) by approve note' ?t3 = (Inl e, ?t3) \<and> errors_is e ErrApprovalConflict"
    using q decide(2) by (simp add: approval_Decide_def decide_read_def GetAgentApproval_def)
  from 2 3 4 5 show ?thesis by blast
qed


section \<open>A run with two competing consumers\<close>

definition sample_frozen :: tool_invocation where
  "sample_frozen = sample_invocation (sample_id ''data'' ''query'') ''{}''"

definition sample_toolset :: tool_set_snapshot where
  "sample_toolset = sample_snapshot [sample_id ''data'' ''query'']"

definition sample_codec :: approval_codec where
  "sample_codec = \<lparr>enc_invocation = (\<lambda>i. Inr (inv_ID i)), dec_invocation = (\<lambda>x. Inr sample_frozen),
     enc_snapshot = (\<lambda>n. Inr (snap_ID n)), dec_snapshot = (\<lambda>x. Inr sample_toolset)\<rparr>"

definition sample_approval :: approval_request where
  "sample_approval = \<lparr>aq_ID = ''a1'', aq_SessionID = ''s1'', aq_TurnID = ''t1'', aq_StepID = ''p1'',
     aq_RequestedBy = prin_UserID (bind_Principal (inv_Binding sample_frozen)), aq_Invocation = sample_frozen,
     aq_Snapshot = sample_toolset, aq_InputSHA256 = ''d'', aq_Reason = ''changes data'', aq_Risk = RiskReadOnly,
     aq_ExpiresAt = 100, aq_AttachmentEpoch = 1\<rparr>"

text \<open>The moves of the run; a move whose operation fails leaves the system alone.\<close>

definition sample_move :: "nat \<Rightarrow> approval_sys \<Rightarrow> approval_sys" where
  "sample_move k s =
     (if k = 0 then s\<lparr>as_table := snd (approval_Request sample_codec 1 None sample_approval (as_table s))\<rparr>
      else if k = 1 then
        (case decide_read 2 None ''a1'' 7 True [] (as_table s) of Inl _ \<Rightarrow> s
         | Inr row \<Rightarrow> s\<lparr>as_calls := Deciding ''a1'' row # as_calls s\<rparr>)
      else if k = 2 then
        (case approval_GetApproved sample_codec 3 None ''a1'' (bind_Principal (inv_Binding sample_frozen)) (as_table s) of
           Inl _ \<Rightarrow> s | Inr q \<Rightarrow> s\<lparr>as_calls := ConsumeChecked ''a1'' q # as_calls s\<rparr>)
      else
        (case as_calls s of
           Deciding i row # cs \<Rightarrow>
             s\<lparr>as_table := snd (decide_write None i row (as_table s)), as_calls := cs,
               as_decided := as_decided s @ (if fst (UpdateAgentApprovalCAS None row ApprovalPending (as_table s)) = Inr True
                                             then [(i, ap_Status row)] else [])\<rparr>
         | ConsumeChecked i q # cs \<Rightarrow>
             (case GetAgentApproval None i (as_table s) of Inl _ \<Rightarrow> s
              | Inr row \<Rightarrow> s\<lparr>as_calls := Consuming i q (row\<lparr>ap_Status := ApprovalConsumed, ap_UpdatedAt := 4\<rparr>) # cs\<rparr>)
         | Consuming i q row # cs \<Rightarrow>
             s\<lparr>as_table := snd (consume_write None i q row (as_table s)), as_calls := cs,
               as_consumed := as_consumed s @ (case fst (consume_write None i q row (as_table s)) of Inl _ \<Rightarrow> [] | Inr q' \<Rightarrow> [(i, q')])\<rparr>
         | [] \<Rightarrow> s))"

lemma sample_calls_reachable:
  assumes s: "approval_reachable sample_codec s" and k: "k \<notin> {0, 1, 2}" and c: "as_calls s = c # cs"
  shows "approval_reachable sample_codec (sample_move k s)"
proof (cases c)
  case (Deciding i row)
  obtain r t where w: "decide_write None i row (as_table s) = (r, t)" by (cases "decide_write None i row (as_table s)")
  show ?thesis using approval_reachable.intros(2)[OF s step_decide_write[OF _ w]] k c w
    by (simp add: sample_move_def Deciding)
next
  case (ConsumeChecked i q)
  show ?thesis
  proof (cases "GetAgentApproval None i (as_table s)")
    case (Inr row)
    show ?thesis using approval_reachable.intros(2)[OF s step_consume_read[OF _ Inr, where now = 4 and q = q]] k c Inr
      by (simp add: sample_move_def ConsumeChecked)
  qed (use s k c in \<open>simp add: sample_move_def ConsumeChecked\<close>)
next
  case (Consuming i q row)
  obtain r t where w: "consume_write None i q row (as_table s) = (r, t)" by (cases "consume_write None i q row (as_table s)")
  show ?thesis using approval_reachable.intros(2)[OF s step_consume_write[OF _ w]] k c w
    by (simp add: sample_move_def Consuming)
qed

lemma sample_move_reachable:
  assumes s: "approval_reachable sample_codec s"
  shows "approval_reachable sample_codec (sample_move k s)"
proof -
  consider "k = 0" | "k = 1" | "k = 2" | "k \<notin> {0, 1, 2}" by auto
  then show ?thesis
  proof cases
    case 1
    obtain r t where w: "approval_Request sample_codec 1 None sample_approval (as_table s) = (r, t)"
      by (cases "approval_Request sample_codec 1 None sample_approval (as_table s)")
    show ?thesis using approval_reachable.intros(2)[OF s step_request[OF w]] w by (simp add: sample_move_def 1)
  next
    case 2
    show ?thesis using s approval_reachable.intros(2)[OF s step_decide_read]
      by (auto simp: sample_move_def 2 split: sum.split)
  next
    case 3
    show ?thesis using s approval_reachable.intros(2)[OF s step_consume_check]
      by (auto simp: sample_move_def 3 split: sum.split)
  next
    case 4
    show ?thesis using s sample_calls_reachable[OF s 4] 4 by (cases "as_calls s") (auto simp: sample_move_def)
  qed
qed

definition sample_race :: approval_sys where
  "sample_race = fold sample_move [0, 1, 3, 2, 3, 2, 3, 3, 3]
     \<lparr>as_table = [], as_calls = [], as_decided = [], as_consumed = []\<rparr>"

lemma sample_race_reachable: "approval_reachable sample_codec sample_race"
proof -
  have "approval_reachable sample_codec (fold sample_move ks s)" if "approval_reachable sample_codec s" for ks s
    using that by (induction ks arbitrary: s) (simp_all add: sample_move_reachable)
  then show ?thesis unfolding sample_race_def by (blast intro: approval_reachable.intros(1))
qed

theorem approval_consumed_once_witness:
  "approval_reachable sample_codec sample_race \<and> as_calls sample_race = [] \<and> decisions sample_race ''a1'' = [ApprovalApproved] \<and>
   (\<exists>q. consumptions sample_race ''a1'' = [q] \<and> approval_Get sample_codec None ''a1'' (as_table sample_race) = Inr (q, ApprovalConsumed))"
proof -
  have "as_calls sample_race = []" "consumptions sample_race ''a1'' \<noteq> []" by code_simp+
  with approval_consumed_once[OF sample_race_reachable, of "''a1''"] sample_race_reachable show ?thesis by simp
qed

end
