(* ===== verification/Agent_Events.thy ===== *)
theory Agent_Events
  imports Agent_Types
begin

text \<open>
  The event broker (src/pkg/liaison/manager/agent/runtime/events.go): fan-out of runtime events to
  subscribers over bounded channels. A channel is its queue of undelivered events; a subscriber whose
  queue is full is removed with \<^verbatim>\<open>ErrEventSubscriberSlow\<close> instead of blocking the publisher. Closed channels
  stay readable in Go, so a removed subscriber moves to \<open>eb_closed\<close> with its remaining queue and the reason
  sent on its \<^verbatim>\<open>Done\<close> channel.

  The lemma: in every interleaving of publishers, subscribers and readers, what a subscriber has
  received so far followed by what is queued for it is exactly the sequence of events published for
  its session since it subscribed, without gaps, repetitions or reordering (a prefix of it once the
  subscriber is closed), and no queue exceeds its buffer.
\<close>

section \<open>State and operations\<close>

type_synonym event_type = string

record event =
  ev_Sequence :: u64
  ev_SessionID :: string
  ev_TurnID :: string
  ev_StepID :: string
  ev_Type :: event_type
  ev_Payload :: bytes
  ev_Occurred :: gtime

record event_subscriber =
  sub_sessionID :: string
  sub_events :: "event list"

record event_broker =
  eb_bufferSize :: int
  eb_nextID :: u64
  eb_subscribers :: "(u64, event_subscriber) gomap"
  eb_closed :: "(u64, event_subscriber \<times> gerr option) gomap"

definition NewEventBroker :: "int \<Rightarrow> event_broker" where
  "NewEventBroker bufferSize = \<lparr>eb_bufferSize = (if bufferSize \<le> 0 then 64 else bufferSize), eb_nextID = 0,
     eb_subscribers = [], eb_closed = []\<rparr>"

definition removeSubscriberLocked :: "u64 \<Rightarrow> gerr option \<Rightarrow> event_broker \<Rightarrow> event_broker" where
  "removeSubscriberLocked i reason b =
     (case gm_get (eb_subscribers b) i of
        None \<Rightarrow> b
      | Some s \<Rightarrow> b\<lparr>eb_subscribers := gm_del i (eb_subscribers b), eb_closed := gm_put i (s, reason) (eb_closed b)\<rparr>)"

definition removeSubscriber :: "u64 \<Rightarrow> gerr option \<Rightarrow> event_broker \<Rightarrow> event_broker" where
  "removeSubscriber i reason b = removeSubscriberLocked i reason b"

text \<open>One round of the delivery loop: the \<^verbatim>\<open>select\<close> sends when there is room and removes the subscriber
  otherwise.\<close>

definition deliver :: "event \<Rightarrow> u64 \<times> event_subscriber \<Rightarrow> event_broker \<Rightarrow> event_broker" where
  "deliver e p b =
     (case p of (i, s) \<Rightarrow>
        if sub_sessionID s \<noteq> ev_SessionID e then b
        else if int (length (sub_events s)) < eb_bufferSize b
        then b\<lparr>eb_subscribers := gm_put i (s\<lparr>sub_events := sub_events s @ [e]\<rparr>) (eb_subscribers b)\<rparr>
        else removeSubscriberLocked i (Some (Sentinel ErrEventSubscriberSlow)) b)"

definition broker_Publish :: "ctx_state \<Rightarrow> event \<Rightarrow> event_broker \<Rightarrow> (event_broker, unit) outcome" where
  "broker_Publish ctx e b =
     (case ctx_err ctx of Some err \<Rightarrow> (Inl err, b)
      | None \<Rightarrow>
          if ev_SessionID e = [] \<or> ev_Type e = []
          then (Inl (ErrNew ''agent event session and type are required''), b)
          else
            let n = eb_nextID b + 1; e' = e\<lparr>ev_Sequence := n\<rparr>
            in (Inr (), fold (deliver e') (eb_subscribers b) (b\<lparr>eb_nextID := n\<rparr>)))"

definition broker_Subscribe :: "ctx_state \<Rightarrow> string \<Rightarrow> event_broker \<Rightarrow> (event_broker, u64) outcome" where
  "broker_Subscribe ctx sid b =
     (if sid = [] then (Inl (ErrNew ''agent event subscription session is required''), b)
      else case ctx_err ctx of Some err \<Rightarrow> (Inl err, b)
      | None \<Rightarrow>
          let i = eb_nextID b + 1
          in (Inr i, b\<lparr>eb_nextID := i,
                eb_subscribers := gm_put i \<lparr>sub_sessionID = sid, sub_events = []\<rparr> (eb_subscribers b)\<rparr>))"

text \<open>The subscriber's side: \<^verbatim>\<open><-subscription.Events\<close> takes the first queued event, from an open or a closed
  channel; \<open>None\<close> when there is nothing to take.\<close>

definition broker_receive :: "u64 \<Rightarrow> event_broker \<Rightarrow> event option \<times> event_broker" where
  "broker_receive i b =
     (case gm_get (eb_subscribers b) i of
        Some s \<Rightarrow>
          (case sub_events s of [] \<Rightarrow> (None, b)
           | e # es \<Rightarrow> (Some e, b\<lparr>eb_subscribers := gm_put i (s\<lparr>sub_events := es\<rparr>) (eb_subscribers b)\<rparr>))
      | None \<Rightarrow>
          (case gm_get (eb_closed b) i of
             None \<Rightarrow> (None, b)
           | Some (s, reason) \<Rightarrow>
               (case sub_events s of [] \<Rightarrow> (None, b)
                | e # es \<Rightarrow> (Some e, b\<lparr>eb_closed := gm_put i (s\<lparr>sub_events := es\<rparr>, reason) (eb_closed b)\<rparr>))))"

section \<open>Histories\<close>

text \<open>
  The broker with the history of a run: all published events in order, and for each subscription its
  session, the length of the log when it was made, and the events its owner has received.
\<close>

record subscription_history =
  sh_session :: string
  sh_start :: nat
  sh_received :: "event list"

record broker_sys =
  bs_broker :: event_broker
  bs_log :: "event list"
  bs_subs :: "(u64, subscription_history) gomap"

inductive broker_step :: "broker_sys \<Rightarrow> broker_sys \<Rightarrow> bool" where
  step_publish: "eb_nextID (bs_broker s) < -1 \<Longrightarrow> broker_Publish ctx e (bs_broker s) = (Inr u, b') \<Longrightarrow>
     broker_step s (s\<lparr>bs_broker := b', bs_log := bs_log s @ [e\<lparr>ev_Sequence := eb_nextID (bs_broker s) + 1\<rparr>]\<rparr>)"
| step_subscribe: "eb_nextID (bs_broker s) < -1 \<Longrightarrow> broker_Subscribe ctx sid (bs_broker s) = (Inr i, b') \<Longrightarrow>
     broker_step s (s\<lparr>bs_broker := b',
       bs_subs := gm_put i \<lparr>sh_session = sid, sh_start = length (bs_log s), sh_received = []\<rparr> (bs_subs s)\<rparr>)"
| step_cancel: "broker_step s (s\<lparr>bs_broker := removeSubscriber i None (bs_broker s)\<rparr>)"
| step_receive: "broker_receive i (bs_broker s) = (Some e, b') \<Longrightarrow> gm_get (bs_subs s) i = Some h \<Longrightarrow>
     broker_step s (s\<lparr>bs_broker := b', bs_subs := gm_put i (h\<lparr>sh_received := sh_received h @ [e]\<rparr>) (bs_subs s)\<rparr>)"

inductive broker_reachable :: "broker_sys \<Rightarrow> bool" where
  "broker_reachable \<lparr>bs_broker = NewEventBroker n, bs_log = [], bs_subs = []\<rparr>"
| "broker_reachable s \<Longrightarrow> broker_step s t \<Longrightarrow> broker_reachable t"

definition relevant :: "broker_sys \<Rightarrow> subscription_history \<Rightarrow> event list" where
  "relevant s h = filter (\<lambda>e. ev_SessionID e = sh_session h) (drop (sh_start h) (bs_log s))"

section \<open>No gaps\<close>

definition history_ok :: "broker_sys \<Rightarrow> u64 \<Rightarrow> event_subscriber \<Rightarrow> subscription_history \<Rightarrow> bool" where
  "history_ok s i sub h \<longleftrightarrow> gm_get (bs_subs s) i = Some h \<and> sh_session h = sub_sessionID sub \<and>
     sh_start h \<le> length (bs_log s) \<and> int (length (sub_events sub)) \<le> eb_bufferSize (bs_broker s)"

definition open_ok :: "broker_sys \<Rightarrow> u64 \<Rightarrow> event_subscriber \<Rightarrow> bool" where
  "open_ok s i sub \<longleftrightarrow> i \<le> eb_nextID (bs_broker s) \<and>
     (\<exists>h. history_ok s i sub h \<and> sh_received h @ sub_events sub = relevant s h)"

definition closed_ok :: "broker_sys \<Rightarrow> u64 \<Rightarrow> event_subscriber \<times> gerr option \<Rightarrow> bool" where
  "closed_ok s i p \<longleftrightarrow> i \<le> eb_nextID (bs_broker s) \<and> gm_get (eb_subscribers (bs_broker s)) i = None \<and>
     (\<exists>h. history_ok s i (fst p) h \<and> prefix (sh_received h @ sub_events (fst p)) (relevant s h))"

definition broker_inv :: "broker_sys \<Rightarrow> bool" where
  "broker_inv s \<longleftrightarrow> gm_wf (eb_subscribers (bs_broker s)) \<and> 0 < eb_bufferSize (bs_broker s) \<and>
     gm_all (open_ok s) (eb_subscribers (bs_broker s)) \<and> gm_all (closed_ok s) (eb_closed (bs_broker s)) \<and>
     gm_all (\<lambda>i h. i \<le> eb_nextID (bs_broker s)) (bs_subs s)"

lemma broker_invD:
  assumes "broker_inv s"
  shows "gm_wf (eb_subscribers (bs_broker s))" "0 < eb_bufferSize (bs_broker s)"
    "gm_get (eb_subscribers (bs_broker s)) i = Some sub \<Longrightarrow> open_ok s i sub"
    "gm_get (eb_closed (bs_broker s)) i = Some p \<Longrightarrow> closed_ok s i p"
    "gm_get (bs_subs s) i = Some h \<Longrightarrow> i \<le> eb_nextID (bs_broker s)"
  using assms unfolding broker_inv_def by (blast dest: gm_allD)+

lemma broker_invI:
  assumes "gm_wf (eb_subscribers (bs_broker s))" "0 < eb_bufferSize (bs_broker s)"
    "\<And>i sub. gm_get (eb_subscribers (bs_broker s)) i = Some sub \<Longrightarrow> open_ok s i sub"
    "\<And>i p. gm_get (eb_closed (bs_broker s)) i = Some p \<Longrightarrow> closed_ok s i p"
    "\<And>i h. gm_get (bs_subs s) i = Some h \<Longrightarrow> i \<le> eb_nextID (bs_broker s)"
  shows "broker_inv s"
  unfolding broker_inv_def gm_all_def using assms by blast

text \<open>What one publication does to each subscriber.\<close>

definition delivered :: "int \<Rightarrow> event \<Rightarrow> event_subscriber \<Rightarrow> event_subscriber option" where
  "delivered n e s =
     (if sub_sessionID s \<noteq> ev_SessionID e then Some s
      else if int (length (sub_events s)) < n then Some (s\<lparr>sub_events := sub_events s @ [e]\<rparr>) else None)"

lemma fold_deliver:
  assumes "distinct (map fst xs)" "\<And>i s. (i, s) \<in> set xs \<Longrightarrow> gm_get (eb_subscribers b) i = Some s" "gm_wf (eb_subscribers b)"
  shows "gm_get (eb_subscribers (fold (deliver e) xs b)) i =
      (case map_of xs i of None \<Rightarrow> gm_get (eb_subscribers b) i | Some s \<Rightarrow> delivered (eb_bufferSize b) e s) \<and>
    gm_get (eb_closed (fold (deliver e) xs b)) i =
      (case map_of xs i of None \<Rightarrow> gm_get (eb_closed b) i
       | Some s \<Rightarrow> if delivered (eb_bufferSize b) e s = None then Some (s, Some (Sentinel ErrEventSubscriberSlow)) else gm_get (eb_closed b) i) \<and>
    gm_wf (eb_subscribers (fold (deliver e) xs b)) \<and> eb_bufferSize (fold (deliver e) xs b) = eb_bufferSize b \<and>
    eb_nextID (fold (deliver e) xs b) = eb_nextID b"
  using assms
proof (induction xs arbitrary: b)
  case (Cons x xs)
  obtain k s where x: "x = (k, s)" by (cases x)
  let ?b = "deliver e (k, s) b"
  from Cons.prems(2) have ks: "gm_get (eb_subscribers b) k = Some s" by (simp add: x)
  have one: "gm_get (eb_subscribers ?b) j = (if j = k then delivered (eb_bufferSize b) e s else gm_get (eb_subscribers b) j)"
    "gm_get (eb_closed ?b) j = (if j = k \<and> delivered (eb_bufferSize b) e s = None then Some (s, Some (Sentinel ErrEventSubscriberSlow)) else gm_get (eb_closed b) j)"
    "gm_wf (eb_subscribers ?b)" "eb_bufferSize ?b = eb_bufferSize b" "eb_nextID ?b = eb_nextID b" for j
    using ks Cons.prems(3) by (auto simp: deliver_def delivered_def removeSubscriberLocked_def)
  have k: "k \<notin> fst ` set xs" "distinct (map fst xs)" using Cons.prems(1) by (auto simp: x)
  have mem: "gm_get (eb_subscribers ?b) i = Some u" if "(i, u) \<in> set xs" for i u
    using Cons.prems(2)[of i u] that k(1) one(1)[of i] by (force simp: x)
  have "map_of xs k = None" using k(1) by (simp add: map_of_eq_None_iff)
  with Cons.IH[OF k(2) mem one(3)] one show ?case by (auto simp: x split: option.splits)
qed auto

lemma publish_effect:
  assumes "gm_wf (eb_subscribers b)" "broker_Publish ctx e b = (Inr u, b')"
  shows "gm_get (eb_subscribers b') i =
      (case gm_get (eb_subscribers b) i of None \<Rightarrow> None
       | Some s \<Rightarrow> delivered (eb_bufferSize b) (e\<lparr>ev_Sequence := eb_nextID b + 1\<rparr>) s)"
    "gm_get (eb_closed b') i =
      (case gm_get (eb_subscribers b) i of None \<Rightarrow> gm_get (eb_closed b) i
       | Some s \<Rightarrow> if delivered (eb_bufferSize b) (e\<lparr>ev_Sequence := eb_nextID b + 1\<rparr>) s = None
                   then Some (s, Some (Sentinel ErrEventSubscriberSlow)) else gm_get (eb_closed b) i)"
    "gm_wf (eb_subscribers b')" "eb_bufferSize b' = eb_bufferSize b" "eb_nextID b' = eb_nextID b + 1"
proof -
  let ?e = "e\<lparr>ev_Sequence := eb_nextID b + 1\<rparr>" and ?b = "b\<lparr>eb_nextID := eb_nextID b + 1\<rparr>"
  from assms(2) have b': "b' = fold (deliver ?e) (eb_subscribers b) ?b"
    by (auto simp: broker_Publish_def Let_def split: option.splits if_splits)
  have "distinct (map fst (eb_subscribers b))" using assms(1) by (simp add: gm_wf_def)
  from fold_deliver[OF this, of ?b ?e i] assms(1) gm_mem_iff[OF assms(1)]
  show "gm_get (eb_subscribers b') i =
      (case gm_get (eb_subscribers b) i of None \<Rightarrow> None | Some s \<Rightarrow> delivered (eb_bufferSize b) ?e s)"
    "gm_get (eb_closed b') i =
      (case gm_get (eb_subscribers b) i of None \<Rightarrow> gm_get (eb_closed b) i
       | Some s \<Rightarrow> if delivered (eb_bufferSize b) ?e s = None then Some (s, Some (Sentinel ErrEventSubscriberSlow)) else gm_get (eb_closed b) i)"
    "gm_wf (eb_subscribers b')" "eb_bufferSize b' = eb_bufferSize b" "eb_nextID b' = eb_nextID b + 1"
    by (auto simp: b' gm_get_def split: option.splits)
qed


lemma relevant_append:
  "sh_start h \<le> length (bs_log s) \<Longrightarrow> bs_log t = bs_log s @ [e] \<Longrightarrow>
     relevant t h = relevant s h @ (if ev_SessionID e = sh_session h then [e] else [])"
  by (simp add: relevant_def)

lemma relevant_same: "bs_log t = bs_log s \<Longrightarrow> sh_start h' = sh_start h \<Longrightarrow> sh_session h' = sh_session h \<Longrightarrow>
    relevant t h' = relevant s h"
  by (simp add: relevant_def)

lemma broker_inv_publish:
  assumes inv: "broker_inv s" and n: "eb_nextID (bs_broker s) < -1"
    and p: "broker_Publish ctx e (bs_broker s) = (Inr u, b')"
    and t: "t = s\<lparr>bs_broker := b', bs_log := bs_log s @ [e\<lparr>ev_Sequence := eb_nextID (bs_broker s) + 1\<rparr>]\<rparr>"
  shows "broker_inv t"
proof -
  let ?b = "bs_broker s" and ?e = "e\<lparr>ev_Sequence := eb_nextID (bs_broker s) + 1\<rparr>"
  note eff = publish_effect[OF broker_invD(1)[OF inv] p]
  have le: "i \<le> eb_nextID ?b + 1" if "i \<le> eb_nextID ?b" for i
    using u64_inc_le[OF n that] .
  have rel: "relevant t h = relevant s h @ (if ev_SessionID e = sh_session h then [?e] else [])"
    if "sh_start h \<le> length (bs_log s)" for h
    using relevant_append[of h s t ?e] that by (simp add: t)
  have "open_ok t i sub" if "gm_get (eb_subscribers b') i = Some sub" for i sub
  proof -
    from that eff(1)[of i] obtain s0 where s0: "gm_get (eb_subscribers ?b) i = Some s0"
      "delivered (eb_bufferSize ?b) ?e s0 = Some sub" by (auto split: option.splits)
    from broker_invD(3)[OF inv s0(1)] obtain h where h: "i \<le> eb_nextID ?b" "history_ok s i s0 h"
      "sh_received h @ sub_events s0 = relevant s h" by (auto simp: open_ok_def)
    then have "history_ok t i sub h" "sh_received h @ sub_events sub = relevant t h"
      using s0(2) rel[of h] by (auto simp: history_ok_def t eff(4) delivered_def split: if_splits)
    with le[OF h(1)] show ?thesis by (auto simp: open_ok_def t eff(5))
  qed
  moreover have "closed_ok t i q" if q: "gm_get (eb_closed b') i = Some q" for i q
  proof (cases "gm_get (eb_subscribers ?b) i")
    case None
    with q eff(2)[of i] have "gm_get (eb_closed ?b) i = Some q" by simp
    from broker_invD(4)[OF inv this] obtain h where h: "i \<le> eb_nextID ?b" "history_ok s i (fst q) h"
      "prefix (sh_received h @ sub_events (fst q)) (relevant s h)" by (auto simp: closed_ok_def)
    then have "history_ok t i (fst q) h" "prefix (sh_received h @ sub_events (fst q)) (relevant t h)"
      using rel[of h] by (auto simp: history_ok_def t eff(4) prefix_append)
    with le[OF h(1)] None eff(1)[of i] show ?thesis by (auto simp: closed_ok_def t eff(5))
  next
    case (Some s0)
    from broker_invD(3)[OF inv Some] obtain h where h: "i \<le> eb_nextID ?b" "history_ok s i s0 h"
      "sh_received h @ sub_events s0 = relevant s h" by (auto simp: open_ok_def)
    have nc: "gm_get (eb_closed ?b) i = None"
    proof (rule ccontr)
      assume "gm_get (eb_closed ?b) i \<noteq> None"
      then obtain q' where "gm_get (eb_closed ?b) i = Some q'" by auto
      from broker_invD(4)[OF inv this] Some show False by (simp add: closed_ok_def)
    qed
    with q eff(2)[of i] Some have d: "delivered (eb_bufferSize ?b) ?e s0 = None" "fst q = s0"
      by (auto split: if_splits)
    from h(2) rel[of h] have "history_ok t i s0 h" "prefix (relevant s h) (relevant t h)"
      by (auto simp: history_ok_def t eff(4))
    with le[OF h(1)] h(3) d Some eff(1)[of i] show ?thesis by (auto simp: closed_ok_def t eff(5))
  qed
  moreover have "gm_all (\<lambda>i h. i \<le> eb_nextID b') (bs_subs s)"
    using broker_invD(5)[OF inv] le by (auto simp: gm_all_def eff(5))
  ultimately show ?thesis
    using broker_invD(2)[OF inv] by (simp add: broker_inv_def t eff gm_all_def)
qed


text \<open>The steps other than a publication touch one subscription and leave the log alone.\<close>

lemma broker_inv_subscribe:
  assumes inv: "broker_inv s" and n: "eb_nextID (bs_broker s) < -1"
    and p: "broker_Subscribe ctx sid (bs_broker s) = (Inr i, b')"
    and t: "t = s\<lparr>bs_broker := b',
       bs_subs := gm_put i \<lparr>sh_session = sid, sh_start = length (bs_log s), sh_received = []\<rparr> (bs_subs s)\<rparr>"
  shows "broker_inv t"
proof -
  let ?b = "bs_broker s"
  from p have i: "i = eb_nextID ?b + 1" and b': "b' = ?b\<lparr>eb_nextID := i,
      eb_subscribers := gm_put i \<lparr>sub_sessionID = sid, sub_events = []\<rparr> (eb_subscribers ?b)\<rparr>"
    by (auto simp: broker_Subscribe_def Let_def split: if_splits option.splits)
  have old: "j \<noteq> i" "j \<le> i" if "j \<le> eb_nextID ?b" for j
    using u64_inc_mono[OF n that] u64_inc_le[OF n that] by (auto simp: i)
  have hist: "history_ok t j sub h" if "history_ok s j sub h" "j \<le> eb_nextID ?b" for j sub h
    using that old(1)[of j] by (simp add: history_ok_def t b')
  have rel: "relevant t h = relevant s h" for h by (rule relevant_same) (simp_all add: t)
  have "open_ok t j sub" if j: "gm_get (eb_subscribers b') j = Some sub" for j sub
  proof (cases "j = i")
    case True
    then show ?thesis using j broker_invD(2)[OF inv]
      by (auto simp: open_ok_def history_ok_def relevant_def t b' i)
  next
    case False
    with j b' have "open_ok s j sub" by (intro broker_invD(3)[OF inv]) simp
    then show ?thesis using hist rel old by (fastforce simp: open_ok_def t b')
  qed
  moreover have "closed_ok t j q" if "gm_get (eb_closed b') j = Some q" for j q
  proof -
    from that b' have "closed_ok s j q" by (intro broker_invD(4)[OF inv]) simp
    then show ?thesis using hist rel old by (fastforce simp: closed_ok_def t b')
  qed
  moreover have "j \<le> eb_nextID b'" if "gm_get (bs_subs t) j = Some h" for j h
    using that broker_invD(5)[OF inv, of j] old(2)[of j] by (auto simp: t b' split: if_splits)
  moreover have "bs_broker t = b'" "gm_wf (eb_subscribers b')" "0 < eb_bufferSize b'"
    using broker_invD(1,2)[OF inv] by (simp_all add: t b')
  ultimately show ?thesis by (intro broker_invI) auto
qed

lemma broker_inv_cancel:
  assumes inv: "broker_inv s" and t: "t = s\<lparr>bs_broker := removeSubscriber i None (bs_broker s)\<rparr>"
  shows "broker_inv t"
proof (cases "gm_get (eb_subscribers (bs_broker s)) i")
  case None
  then show ?thesis using inv by (simp add: t removeSubscriber_def removeSubscriberLocked_def)
next
  case (Some sub)
  let ?b = "bs_broker s"
  have b': "bs_broker t = ?b\<lparr>eb_subscribers := gm_del i (eb_subscribers ?b), eb_closed := gm_put i (sub, None) (eb_closed ?b)\<rparr>"
    by (simp add: t removeSubscriber_def removeSubscriberLocked_def Some)
  have hist: "history_ok t j x h = history_ok s j x h" for j x h by (simp add: history_ok_def b') (simp add: t)
  have rel: "relevant t h = relevant s h" for h by (rule relevant_same) (simp_all add: t)
  have "open_ok t j x" if "gm_get (eb_subscribers (bs_broker t)) j = Some x" for j x
    using that broker_invD(3)[OF inv, of j x] by (auto simp: open_ok_def hist rel b' split: if_splits)
  moreover have "closed_ok t j q" if q: "gm_get (eb_closed (bs_broker t)) j = Some q" for j q
  proof (cases "j = i")
    case True
    with q broker_invD(3)[OF inv Some] show ?thesis by (auto simp: open_ok_def closed_ok_def hist rel b')
  next
    case False
    with q broker_invD(4)[OF inv, of j q] show ?thesis by (auto simp: closed_ok_def hist rel b')
  qed
  moreover have "j \<le> eb_nextID (bs_broker t)" if "gm_get (bs_subs t) j = Some h" for j h
    using that broker_invD(5)[OF inv, of j] by (simp add: b') (simp add: t)
  moreover have "gm_wf (eb_subscribers (bs_broker t))" "0 < eb_bufferSize (bs_broker t)"
    using broker_invD(1,2)[OF inv] by (simp_all add: b')
  ultimately show ?thesis by (intro broker_invI) auto
qed

lemma broker_inv_receive:
  assumes inv: "broker_inv s" and r: "broker_receive i (bs_broker s) = (Some e, b')"
    and h: "gm_get (bs_subs s) i = Some h"
    and t: "t = s\<lparr>bs_broker := b', bs_subs := gm_put i (h\<lparr>sh_received := sh_received h @ [e]\<rparr>) (bs_subs s)\<rparr>"
  shows "broker_inv t"
proof -
  let ?b = "bs_broker s" and ?h = "h\<lparr>sh_received := sh_received h @ [e]\<rparr>"
  have rel: "relevant t h' = relevant s h'" "relevant t ?h = relevant s h" for h'
    by (rule relevant_same; simp add: t)+
  have bt: "bs_broker t = b'" "bs_log t = bs_log s" "bs_subs t = gm_put i ?h (bs_subs s)" by (simp_all add: t)
  have other: "history_ok t j x h' \<longleftrightarrow> history_ok s j x h'" if "j \<noteq> i" "eb_bufferSize b' = eb_bufferSize ?b" for j x h'
    using that by (simp add: history_ok_def bt)
  have ids: "j \<le> eb_nextID ?b" if "gm_get (bs_subs t) j = Some h'" for j h'
    using that broker_invD(5)[OF inv] h by (auto simp: bt split: if_splits)
  show ?thesis
  proof (cases "gm_get (eb_subscribers ?b) i")
    case (Some sub)
    with r obtain es where es: "sub_events sub = e # es"
      and b': "b' = ?b\<lparr>eb_subscribers := gm_put i (sub\<lparr>sub_events := es\<rparr>) (eb_subscribers ?b)\<rparr>"
      by (auto simp: broker_receive_def split: list.splits)
    from broker_invD(3)[OF inv Some] h have i: "i \<le> eb_nextID ?b" "history_ok s i sub h" "sh_received h @ e # es = relevant s h"
      by (auto simp: open_ok_def history_ok_def es)
    then have new: "open_ok t i (sub\<lparr>sub_events := es\<rparr>)" using rel
      by (auto simp: open_ok_def history_ok_def bt b' es)
    have "open_ok t j x" if "gm_get (eb_subscribers b') j = Some x" for j x
      using that new broker_invD(3)[OF inv, of j x]
      by (cases "j = i") (auto simp: open_ok_def other rel b' bt)
    moreover have "closed_ok t j q" if "gm_get (eb_closed b') j = Some q" for j q
    proof -
      from that b' have c: "closed_ok s j q" by (intro broker_invD(4)[OF inv]) simp
      then have "j \<noteq> i" using Some by (auto simp: closed_ok_def)
      with c show ?thesis by (auto simp: closed_ok_def other rel b' bt)
    qed
    ultimately show ?thesis using ids broker_invD(1,2)[OF inv] by (intro broker_invI) (auto simp: bt b')
  next
    case None
    with r obtain sub reason es where c: "gm_get (eb_closed ?b) i = Some (sub, reason)" and es: "sub_events sub = e # es"
      and b': "b' = ?b\<lparr>eb_closed := gm_put i (sub\<lparr>sub_events := es\<rparr>, reason) (eb_closed ?b)\<rparr>"
      by (auto simp: broker_receive_def split: list.splits option.splits)
    from broker_invD(4)[OF inv c] h have i: "i \<le> eb_nextID ?b" "history_ok s i sub h" "prefix (sh_received h @ e # es) (relevant s h)"
      by (auto simp: closed_ok_def history_ok_def es)
    then have new: "closed_ok t i (sub\<lparr>sub_events := es\<rparr>, reason)" using rel None
      by (auto simp: closed_ok_def history_ok_def bt b' es)
    have "closed_ok t j q" if "gm_get (eb_closed b') j = Some q" for j q
      using that new broker_invD(4)[OF inv, of j q]
      by (cases "j = i") (auto simp: closed_ok_def other rel b' bt)
    moreover have "open_ok t j x" if "gm_get (eb_subscribers b') j = Some x" for j x
    proof -
      from that b' have c: "open_ok s j x" by (intro broker_invD(3)[OF inv]) simp
      have "j \<noteq> i" using None that b' by auto
      with c show ?thesis by (auto simp: open_ok_def other rel b' bt)
    qed
    ultimately show ?thesis using ids broker_invD(1,2)[OF inv] by (intro broker_invI) (auto simp: bt b')
  qed
qed

lemma broker_inv_step: "broker_step s t \<Longrightarrow> broker_inv s \<Longrightarrow> broker_inv t"
  by (induction rule: broker_step.induct)
    (blast intro: broker_inv_publish broker_inv_subscribe broker_inv_cancel broker_inv_receive)+

lemma broker_reachable_inv: "broker_reachable s \<Longrightarrow> broker_inv s"
proof (induction rule: broker_reachable.induct)
  case (1 n)
  then show ?case by (simp add: broker_inv_def NewEventBroker_def)
qed (rule broker_inv_step)


text \<open>C24: In every interleaving of publishing, subscribing, receiving and cancelling, an open
  subscription's received events followed by its queue are exactly the events published for its session
  since it subscribed, and the queue never exceeds the configured buffer; once the subscription is closed
  (cancelled or too slow) received and queued events are a prefix of that sequence, so an event is never
  skipped.\<close>

theorem no_event_lost:
  assumes "broker_reachable s" "gm_get (bs_subs s) i = Some h"
  shows "(\<forall>sub. gm_get (eb_subscribers (bs_broker s)) i = Some sub \<longrightarrow>
       sh_received h @ sub_events sub = relevant s h \<and> int (length (sub_events sub)) \<le> eb_bufferSize (bs_broker s)) \<and>
     (\<forall>sub reason. gm_get (eb_closed (bs_broker s)) i = Some (sub, reason) \<longrightarrow>
       prefix (sh_received h @ sub_events sub) (relevant s h))"
  using broker_invD(3,4)[OF broker_reachable_inv[OF assms(1)], of i] assms(2)
  by (fastforce simp: open_ok_def closed_ok_def history_ok_def)

definition sample_event :: "string \<Rightarrow> event" where
  "sample_event sid = \<lparr>ev_Sequence = 0, ev_SessionID = sid, ev_TurnID = ''t1'', ev_StepID = [],
     ev_Type = ''turn.started'', ev_Payload = [], ev_Occurred = 7\<rparr>"

text \<open>A run with a buffer of one: subscribe, publish, receive, publish for another session, publish.\<close>

definition sample_published :: "string \<Rightarrow> broker_sys \<Rightarrow> broker_sys" where
  "sample_published sid s = s\<lparr>bs_broker := snd (broker_Publish CtxLive (sample_event sid) (bs_broker s)),
     bs_log := bs_log s @ [(sample_event sid)\<lparr>ev_Sequence := eb_nextID (bs_broker s) + 1\<rparr>]\<rparr>"

definition sample_subscribed :: broker_sys where
  "sample_subscribed = \<lparr>bs_broker = snd (broker_Subscribe CtxLive ''s1'' (NewEventBroker 1)), bs_log = [],
     bs_subs = gm_put 1 \<lparr>sh_session = ''s1'', sh_start = 0, sh_received = []\<rparr> []\<rparr>"

definition sample_received :: broker_sys where
  "sample_received =
     (let s = sample_published ''s1'' sample_subscribed; e = (sample_event ''s1'')\<lparr>ev_Sequence := 2\<rparr>
      in s\<lparr>bs_broker := snd (broker_receive 1 (bs_broker s)),
           bs_subs := gm_put 1 \<lparr>sh_session = ''s1'', sh_start = 0, sh_received = [e]\<rparr> (bs_subs s)\<rparr>)"

definition sample_broker_run :: broker_sys where
  "sample_broker_run = sample_published ''s1'' (sample_published ''s2'' sample_received)"

lemma sample_published_reachable:
  assumes "broker_reachable s" "sid \<noteq> []" "eb_nextID (bs_broker s) < -1"
  shows "broker_reachable (sample_published sid s)"
proof -
  obtain u b' where p: "broker_Publish CtxLive (sample_event sid) (bs_broker s) = (Inr u, b')"
    using assms(2) by (simp add: broker_Publish_def sample_event_def Let_def)
  from broker_reachable.intros(2)[OF assms(1) step_publish[OF assms(3) p]] show ?thesis
    by (simp add: sample_published_def p)
qed

lemma sample_broker_run_reachable: "broker_reachable sample_broker_run"
proof -
  have sub: "broker_Subscribe CtxLive ''s1'' (NewEventBroker 1) = (Inr 1, bs_broker sample_subscribed)"
    by code_simp
  have 1: "broker_reachable sample_subscribed"
  proof (rule broker_reachable.intros(2))
    let ?s = "\<lparr>bs_broker = NewEventBroker 1, bs_log = [], bs_subs = []\<rparr>"
    show "broker_reachable ?s" by (rule broker_reachable.intros(1))
    have "(0 :: u64) < -1" by code_simp
    then show "broker_step ?s sample_subscribed"
      using step_subscribe[of ?s CtxLive "''s1''" 1 "bs_broker sample_subscribed"] sub
      by (simp add: NewEventBroker_def) (simp add: sample_subscribed_def)
  qed
  have 2: "broker_reachable (sample_published ''s1'' sample_subscribed)"
    by (rule sample_published_reachable[OF 1]) (simp, code_simp)
  have rec: "broker_receive 1 (bs_broker (sample_published ''s1'' sample_subscribed)) =
      (Some ((sample_event ''s1'')\<lparr>ev_Sequence := 2\<rparr>), bs_broker sample_received)"
    "gm_get (bs_subs (sample_published ''s1'' sample_subscribed)) 1 = Some \<lparr>sh_session = ''s1'', sh_start = 0, sh_received = []\<rparr>"
    by code_simp+
  have eq: "(sample_published ''s1'' sample_subscribed)\<lparr>bs_broker := bs_broker sample_received,
      bs_subs := gm_put 1 (\<lparr>sh_session = ''s1'', sh_start = 0, sh_received = []\<rparr>\<lparr>sh_received :=
        sh_received \<lparr>sh_session = ''s1'', sh_start = 0, sh_received = []\<rparr> @ [(sample_event ''s1'')\<lparr>ev_Sequence := 2\<rparr>]\<rparr>)
        (bs_subs (sample_published ''s1'' sample_subscribed))\<rparr> = sample_received"
    by code_simp
  have 3: "broker_reachable sample_received"
    using broker_reachable.intros(2)[OF 2 step_receive[OF rec]]
    by (simp only: eq)
  show ?thesis unfolding sample_broker_run_def
    by (intro sample_published_reachable 3) (code_simp)+
qed

theorem no_event_lost_witness:
  "broker_reachable sample_broker_run \<and>
   (\<exists>h sub. gm_get (bs_subs sample_broker_run) 1 = Some h \<and>
      gm_get (eb_subscribers (bs_broker sample_broker_run)) 1 = Some sub \<and>
      map ev_Sequence (sh_received h) = [2] \<and> map ev_Sequence (sub_events sub) = [4] \<and>
      sh_received h @ sub_events sub = relevant sample_broker_run h \<and>
      int (length (sub_events sub)) \<le> eb_bufferSize (bs_broker sample_broker_run))"
proof -
  let ?h = "\<lparr>sh_session = ''s1'', sh_start = 0, sh_received = [(sample_event ''s1'')\<lparr>ev_Sequence := 2\<rparr>]\<rparr>"
  let ?sub = "\<lparr>sub_sessionID = ''s1'', sub_events = [(sample_event ''s1'')\<lparr>ev_Sequence := 4\<rparr>]\<rparr>"
  have "gm_get (bs_subs sample_broker_run) 1 = Some ?h" "gm_get (eb_subscribers (bs_broker sample_broker_run)) 1 = Some ?sub"
    by code_simp+
  with no_event_lost[OF sample_broker_run_reachable this(1)] sample_broker_run_reachable show ?thesis by simp
qed

end
