(* ===== verification/Tool_Registry.thy ===== *)
theory Tool_Registry
  imports Tool_Types
begin

text \<open>
  The tool registry (src/pkg/liaison/manager/agent/tool/registry.go): registrations with a generation
  and a life-cycle status, and leases that keep a registration alive while a call runs on it.

  Leases hold a pointer to the registration they were taken from, which may have been replaced in the
  map since. The model therefore keeps the \<^verbatim>\<open>*managedRegistration\<close> objects in an explicit store
  (\<open>rg_entries\<close>, addresses are natural numbers) and the map holds addresses. Cancelling a lease's
  context is recorded in \<open>rg_cancelled\<close>. Every operation runs under the registry's mutex and is one
  atomic function.

  The lemmas: the well-formedness invariant of the store and its preservation, what each operation
  does on every branch, and, over the step relation of a registry together with the leases handed
  out, that a registration is unloaded only when no call holds a lease on it, that a drained
  registration disappears with its last lease, and that an old generation is never leased again.
\<close>

section \<open>State\<close>

record 'f managed_registration =
  mr_registration :: "'f tool_registration"
  mr_generation :: u64
  mr_status :: tool_status
  mr_inFlight :: "u64 list"
  mr_nextLeaseID :: u64

record 'f registry =
  rg_generation :: u64
  rg_registrations :: "(tool_id, nat) gomap"
  rg_entries :: "(nat, 'f managed_registration) gomap"
  rg_next :: nat
  rg_cancelled :: "(nat \<times> u64) list"

record 'f tool_lease =
  lease_entry :: nat
  lease_leaseID :: u64
  lease_registration :: "'f tool_registration"

definition NewRegistry :: "'f registry" where
  "NewRegistry = \<lparr>rg_generation = 0, rg_registrations = [], rg_entries = [], rg_next = 0, rg_cancelled = []\<rparr>"

abbreviation reg_id :: "'f tool_registration \<Rightarrow> tool_id" where
  "reg_id rn \<equiv> td_ID (reg_Descriptor rn)"

abbreviation entry_id :: "'f managed_registration \<Rightarrow> tool_id" where
  "entry_id e \<equiv> reg_id (mr_registration e)"

text \<open>\<^verbatim>\<open>registry.registrations[id]\<close>: the address and the object it points to.\<close>

definition registry_lookup :: "'f registry \<Rightarrow> tool_id \<Rightarrow> (nat \<times> 'f managed_registration) option" where
  "registry_lookup r i =
     (case gm_get (rg_registrations r) i of
        None \<Rightarrow> None
      | Some a \<Rightarrow> map_option (Pair a) (gm_get (rg_entries r) a))"

fun tool_status_String :: "tool_status \<Rightarrow> string" where
  "tool_status_String ToolStatusActive = ''active''"
| "tool_status_String ToolStatusDisabled = ''disabled''"
| "tool_status_String ToolStatusDraining = ''draining''"
| "tool_status_String ToolStatusFailed = ''failed''"
| "tool_status_String ToolStatusUnloaded = ''unloaded''"

section \<open>Operations\<close>

definition registry_register ::
  "'f tool_registration \<Rightarrow> bool \<Rightarrow> 'f registry \<Rightarrow> ('f registry, u64) outcome" where
  "registry_register rn replace r =
     (if (case registry_lookup r (reg_id rn) of
            Some (_, existing) \<Rightarrow> \<not> replace \<and> mr_status existing \<noteq> ToolStatusUnloaded
          | None \<Rightarrow> False)
      then (Inl (errw ErrAlreadyRegistered (tool_id_String (reg_id rn))), r)
      else (Inr (rg_generation r + 1),
        r\<lparr>rg_generation := rg_generation r + 1,
          rg_registrations := gm_put (reg_id rn) (rg_next r) (rg_registrations r),
          rg_entries := gm_put (rg_next r)
             \<lparr>mr_registration = rn, mr_generation = rg_generation r + 1, mr_status = ToolStatusActive,
              mr_inFlight = [], mr_nextLeaseID = 0\<rparr> (rg_entries r),
          rg_next := Suc (rg_next r)\<rparr>))"

definition validStatusTransition :: "tool_status \<Rightarrow> tool_status \<Rightarrow> bool" where
  "validStatusTransition from to =
     (if from = to then True
      else case from of
        ToolStatusActive \<Rightarrow> to = ToolStatusDisabled \<or> to = ToolStatusDraining \<or> to = ToolStatusFailed
      | ToolStatusDisabled \<Rightarrow> to = ToolStatusActive \<or> to = ToolStatusDraining \<or> to = ToolStatusFailed
      | ToolStatusFailed \<Rightarrow> to = ToolStatusActive \<or> to = ToolStatusDisabled \<or> to = ToolStatusDraining
      | ToolStatusDraining \<Rightarrow> False
      | ToolStatusUnloaded \<Rightarrow> False)"

definition registry_setStatus ::
  "tool_id \<Rightarrow> tool_status \<Rightarrow> 'f registry \<Rightarrow> ('f registry, u64) outcome" where
  "registry_setStatus i status r =
     (case registry_lookup r i of
        None \<Rightarrow> (Inl (errw ErrToolNotFound (tool_id_String i)), r)
      | Some (a, e) \<Rightarrow>
          if mr_status e = ToolStatusUnloaded then (Inl (errw ErrToolNotFound (tool_id_String i)), r)
          else if \<not> validStatusTransition (mr_status e) status
          then (Inl (errw ErrToolUnavailable (''cannot transition '' @ tool_id_String i @ '' from '' @
                  tool_status_String (mr_status e) @ '' to '' @ tool_status_String status)), r)
          else (Inr (rg_generation r + 1),
            r\<lparr>rg_generation := rg_generation r + 1,
              rg_entries := gm_put a (e\<lparr>mr_status := status\<rparr>) (rg_entries r)\<rparr>))"

definition registry_unload ::
  "tool_id \<Rightarrow> bool \<Rightarrow> 'f registry \<Rightarrow> ('f registry, u64 \<times> bool) outcome" where
  "registry_unload i force r =
     (case registry_lookup r i of
        None \<Rightarrow> (Inl (errw ErrToolNotFound (tool_id_String i)), r)
      | Some (a, e) \<Rightarrow>
          if mr_status e = ToolStatusUnloaded then (Inl (errw ErrToolNotFound (tool_id_String i)), r)
          else
            let r1 = r\<lparr>rg_generation := rg_generation r + 1,
                       rg_cancelled := (if force then map (Pair a) (mr_inFlight e) else []) @ rg_cancelled r\<rparr>
            in if mr_inFlight e = []
               then (Inr (rg_generation r1, True),
                     r1\<lparr>rg_entries := gm_put a (e\<lparr>mr_status := ToolStatusUnloaded\<rparr>) (rg_entries r),
                        rg_registrations := gm_del i (rg_registrations r)\<rparr>)
               else (Inr (rg_generation r1, False),
                     r1\<lparr>rg_entries := gm_put a (e\<lparr>mr_status := ToolStatusDraining\<rparr>) (rg_entries r)\<rparr>))"

definition registry_acquire ::
  "tool_id \<Rightarrow> u64 \<Rightarrow> 'f registry \<Rightarrow> ('f registry, 'f tool_lease) outcome" where
  "registry_acquire i generation r =
     (case registry_lookup r i of
        None \<Rightarrow> (Inl (errw ErrToolNotFound (tool_id_String i)), r)
      | Some (a, e) \<Rightarrow>
          if mr_status e \<noteq> ToolStatusActive
          then (Inl (errw ErrToolUnavailable (tool_id_String i @ '' is '' @ tool_status_String (mr_status e))), r)
          else if mr_generation e \<noteq> generation
          then (Inl (errw ErrStaleSnapshot (tool_id_String i @ '' generation '' @ dec (unat generation) @
                  '' is now '' @ dec (unat (mr_generation e)))), r)
          else
            let l = mr_nextLeaseID e + 1
            in (Inr \<lparr>lease_entry = a, lease_leaseID = l, lease_registration = mr_registration e\<rparr>,
                r\<lparr>rg_entries := gm_put a (e\<lparr>mr_nextLeaseID := l, mr_inFlight := List.insert l (mr_inFlight e)\<rparr>)
                    (rg_entries r)\<rparr>))"

text \<open>\<^verbatim>\<open>release(entry, leaseID)\<close>, with the entry given by its address.\<close>

definition registry_release :: "nat \<Rightarrow> u64 \<Rightarrow> 'f registry \<Rightarrow> 'f registry" where
  "registry_release a l r =
     (case gm_get (rg_entries r) a of
        None \<Rightarrow> r
      | Some e \<Rightarrow>
          if l \<notin> set (mr_inFlight e) then r
          else
            let e1 = e\<lparr>mr_inFlight := removeAll l (mr_inFlight e)\<rparr>;
                r1 = r\<lparr>rg_cancelled := (a, l) # rg_cancelled r\<rparr>
            in if mr_status e1 = ToolStatusDraining \<and> mr_inFlight e1 = []
               then let r2 = r1\<lparr>rg_entries := gm_put a (e1\<lparr>mr_status := ToolStatusUnloaded\<rparr>) (rg_entries r)\<rparr>
                    in if gm_get (rg_registrations r) (entry_id e) = Some a
                       then r2\<lparr>rg_registrations := gm_del (entry_id e) (rg_registrations r),
                               rg_generation := rg_generation r + 1\<rparr>
                       else r2
               else r1\<lparr>rg_entries := gm_put a e1 (rg_entries r)\<rparr>)"

definition registry_status :: "tool_id \<Rightarrow> 'f registry \<Rightarrow> tool_status \<times> u64 \<times> nat \<times> bool" where
  "registry_status i r =
     (case registry_lookup r i of
        None \<Rightarrow> (ToolStatusUnloaded, 0, 0, False)
      | Some (_, e) \<Rightarrow> (mr_status e, mr_generation e, length (mr_inFlight e), True))"

text \<open>\<^verbatim>\<open>ToolLease.Release\<close>: the \<^verbatim>\<open>sync.Once\<close> runs the release at most once; \<open>released\<close> is its flag.\<close>

definition lease_Release :: "'f tool_lease \<Rightarrow> bool \<Rightarrow> 'f registry \<Rightarrow> bool \<times> 'f registry" where
  "lease_Release l released r =
     (if released then (True, r) else (True, registry_release (lease_entry l) (lease_leaseID l) r))"

section \<open>Well-formedness\<close>

definition reg_wf ::
  "(tool_id, nat) gomap \<Rightarrow> (nat, 'f managed_registration) gomap \<Rightarrow> nat \<Rightarrow> bool" where
  "reg_wf regs ents n \<longleftrightarrow>
     gm_wf regs \<and> gm_wf ents \<and>
     (\<forall>i a. gm_get regs i = Some a \<longrightarrow>
        (\<exists>e. gm_get ents a = Some e \<and> entry_id e = i \<and> mr_status e \<noteq> ToolStatusUnloaded)) \<and>
     (\<forall>a e. gm_get ents a = Some e \<longrightarrow> a < n \<and> distinct (mr_inFlight e))"

definition registry_wf :: "'f registry \<Rightarrow> bool" where
  "registry_wf r \<longleftrightarrow> reg_wf (rg_registrations r) (rg_entries r) (rg_next r)"

lemma reg_wfD:
  assumes "reg_wf regs ents n"
  shows "gm_wf regs" "gm_wf ents"
    "gm_get regs i = Some a \<Longrightarrow>
       \<exists>e. gm_get ents a = Some e \<and> entry_id e = i \<and> mr_status e \<noteq> ToolStatusUnloaded"
    "gm_get ents a = Some e \<Longrightarrow> a < n \<and> distinct (mr_inFlight e)"
  using assms unfolding reg_wf_def by blast+

lemmas registry_wfD = reg_wfD[OF registry_wf_def[THEN iffD1]]

text \<open>The four ways in which the operations change the store.\<close>

lemma reg_wf_put:
  assumes "reg_wf regs ents n" "gm_get ents a = Some e" "entry_id e' = entry_id e"
    "mr_status e' \<noteq> ToolStatusUnloaded" "distinct (mr_inFlight e')"
  shows "reg_wf regs (gm_put a e' ents) n"
  unfolding reg_wf_def
proof (intro conjI allI impI)
  fix i b
  assume "gm_get regs i = Some b"
  from reg_wfD(3)[OF assms(1) this] assms(2-4)
  show "\<exists>x. gm_get (gm_put a e' ents) b = Some x \<and> entry_id x = i \<and> mr_status x \<noteq> ToolStatusUnloaded"
    by auto
qed (use assms reg_wfD[OF assms(1)] in \<open>auto split: if_splits\<close>)

lemma reg_wf_put_orphan:
  assumes "reg_wf regs ents n" "gm_get ents a = Some e" "\<And>i. gm_get regs i \<noteq> Some a"
    "distinct (mr_inFlight e')"
  shows "reg_wf regs (gm_put a e' ents) n"
  unfolding reg_wf_def
proof (intro conjI allI impI)
  fix i b
  assume b: "gm_get regs i = Some b"
  with assms(3)[of i] have "b \<noteq> a" by auto
  with reg_wfD(3)[OF assms(1) b]
  show "\<exists>x. gm_get (gm_put a e' ents) b = Some x \<and> entry_id x = i \<and> mr_status x \<noteq> ToolStatusUnloaded"
    by auto
qed (use assms reg_wfD[OF assms(1)] in \<open>auto split: if_splits\<close>)

lemma reg_wf_del:
  assumes "reg_wf regs ents n"
  shows "reg_wf (gm_del i regs) ents n"
  unfolding reg_wf_def
proof (intro conjI allI impI)
  fix j b
  assume "gm_get (gm_del i regs) j = Some b"
  then have "gm_get regs j = Some b" by (simp split: if_splits)
  from reg_wfD(3)[OF assms this]
  show "\<exists>x. gm_get ents b = Some x \<and> entry_id x = j \<and> mr_status x \<noteq> ToolStatusUnloaded" .
qed (use reg_wfD[OF assms] in auto)

lemma reg_wf_alloc:
  assumes "reg_wf regs ents n" "mr_inFlight e = []" "mr_status e \<noteq> ToolStatusUnloaded"
  shows "reg_wf (gm_put (entry_id e) n regs) (gm_put n e ents) (Suc n)"
  unfolding reg_wf_def
proof (intro conjI allI impI)
  fix i b
  assume b: "gm_get (gm_put (entry_id e) n regs) i = Some b"
  show "\<exists>x. gm_get (gm_put n e ents) b = Some x \<and> entry_id x = i \<and> mr_status x \<noteq> ToolStatusUnloaded"
  proof (cases "i = entry_id e")
    case False
    with b have "gm_get regs i = Some b" by simp
    from reg_wfD(3)[OF assms(1) this] obtain x where
      x: "gm_get ents b = Some x" "entry_id x = i" "mr_status x \<noteq> ToolStatusUnloaded" by auto
    with reg_wfD(4)[OF assms(1) x(1)] show ?thesis by auto
  qed (use b assms(3) in simp)
next
  fix b x
  assume "gm_get (gm_put n e ents) b = Some x"
  with assms reg_wfD(4)[OF assms(1), of b x] show "b < Suc n" "distinct (mr_inFlight x)"
    by (auto split: if_splits)
qed (use reg_wfD[OF assms(1)] in auto)

lemma registry_lookup_Some_iff:
  "registry_lookup r i = Some (a, e) \<longleftrightarrow>
     gm_get (rg_registrations r) i = Some a \<and> gm_get (rg_entries r) a = Some e"
  by (auto simp: registry_lookup_def split: option.splits)

lemma registry_lookup_None_iff:
  "registry_wf r \<Longrightarrow> registry_lookup r i = None \<longleftrightarrow> gm_get (rg_registrations r) i = None"
  by (auto simp: registry_lookup_def split: option.splits dest: registry_wfD(3))

lemma registry_lookup_wf:
  assumes "registry_wf r" "registry_lookup r i = Some (a, e)"
  shows "gm_get (rg_registrations r) i = Some a" "gm_get (rg_entries r) a = Some e" "entry_id e = i"
    "mr_status e \<noteq> ToolStatusUnloaded" "a < rg_next r" "distinct (mr_inFlight e)"
proof -
  from assms(2) show g: "gm_get (rg_registrations r) i = Some a" "gm_get (rg_entries r) a = Some e"
    by (simp_all add: registry_lookup_Some_iff)
  from registry_wfD(3)[OF assms(1) g(1)] g(2) show "entry_id e = i" "mr_status e \<noteq> ToolStatusUnloaded"
    by auto
  from registry_wfD(4)[OF assms(1) g(2)] show "a < rg_next r" "distinct (mr_inFlight e)" by auto
qed

lemma registry_addr_unique:
  assumes "registry_wf r" "gm_get (rg_registrations r) i = Some a" "gm_get (rg_registrations r) j = Some a"
  shows "i = j"
  using registry_wfD(3)[OF assms(1,2)] registry_wfD(3)[OF assms(1,3)] by auto

lemma NewRegistry_wf [simp]: "registry_wf NewRegistry"
  by (simp add: registry_wf_def reg_wf_def NewRegistry_def)

lemma register_wf: "registry_wf r \<Longrightarrow> registry_wf (snd (registry_register rn replace r))"
  by (simp add: registry_register_def registry_wf_def
      reg_wf_alloc[where e = "\<lparr>mr_registration = rn, mr_generation = g, mr_status = ToolStatusActive,
        mr_inFlight = [], mr_nextLeaseID = 0\<rparr>" for g, simplified])

lemma validStatusTransition_unloaded [simp]:
  "from \<noteq> ToolStatusUnloaded \<Longrightarrow> \<not> validStatusTransition from ToolStatusUnloaded"
  by (cases "from") (auto simp: validStatusTransition_def)

lemma setStatus_wf:
  assumes "registry_wf r"
  shows "registry_wf (snd (registry_setStatus i status r))"
proof (cases "registry_lookup r i")
  case (Some p)
  then obtain a e where l: "registry_lookup r i = Some (a, e)" by (cases p) auto
  note lw = registry_lookup_wf[OF assms(1) l]
  from reg_wf_put[OF assms[unfolded registry_wf_def] lw(2), of "e\<lparr>mr_status := status\<rparr>"] lw assms
  show ?thesis by (cases "status = ToolStatusUnloaded") (simp_all add: registry_setStatus_def l registry_wf_def)
qed (use assms in \<open>simp add: registry_setStatus_def\<close>)

lemma unload_wf:
  assumes "registry_wf r"
  shows "registry_wf (snd (registry_unload i force r))"
proof (cases "registry_lookup r i")
  case (Some p)
  then obtain a e where l: "registry_lookup r i = Some (a, e)" by (cases p) auto
  note lw = registry_lookup_wf[OF assms l]
  note w = assms[unfolded registry_wf_def]
  show ?thesis
  proof (cases "mr_inFlight e = []")
    case True
    have "gm_get (gm_del i (rg_registrations r)) j \<noteq> Some a" for j
      using registry_addr_unique[OF assms _ lw(1)] by auto
    from reg_wf_put_orphan[OF reg_wf_del[OF w] lw(2) this, where e' = "e\<lparr>mr_status := ToolStatusUnloaded\<rparr>"] True
    show ?thesis by (simp add: registry_unload_def l lw Let_def registry_wf_def)
  next
    case False
    with reg_wf_put[OF w lw(2), of "e\<lparr>mr_status := ToolStatusDraining\<rparr>"] lw
    show ?thesis by (simp add: registry_unload_def l Let_def registry_wf_def)
  qed
qed (use assms in \<open>simp add: registry_unload_def\<close>)

lemma acquire_wf:
  assumes "registry_wf r"
  shows "registry_wf (snd (registry_acquire i g r))"
proof (cases "registry_lookup r i")
  case (Some p)
  then obtain a e where l: "registry_lookup r i = Some (a, e)" by (cases p) auto
  note lw = registry_lookup_wf[OF assms l]
  from reg_wf_put[OF assms[unfolded registry_wf_def] lw(2),
      of "e\<lparr>mr_nextLeaseID := k, mr_inFlight := List.insert k (mr_inFlight e)\<rparr>" for k] lw assms
  show ?thesis by (simp add: registry_acquire_def l Let_def registry_wf_def)
qed (use assms in \<open>simp add: registry_acquire_def\<close>)

lemma release_wf:
  assumes "registry_wf r"
  shows "registry_wf (registry_release a l r)"
proof (cases "gm_get (rg_entries r) a")
  case (Some e)
  note w = assms[unfolded registry_wf_def]
  let ?e1 = "e\<lparr>mr_inFlight := removeAll l (mr_inFlight e)\<rparr>"
  have only: "gm_get (rg_registrations r) j = Some a \<Longrightarrow> j = entry_id e \<and> mr_status e \<noteq> ToolStatusUnloaded" for j
    using registry_wfD(3)[OF assms, of j a] Some by auto
  have dist: "distinct (mr_inFlight ?e1)"
    using registry_wfD(4)[OF assms Some] by (simp add: distinct_removeAll)
  have gone: "reg_wf (gm_del (entry_id e) (rg_registrations r))
      (gm_put a (?e1\<lparr>mr_status := ToolStatusUnloaded\<rparr>) (rg_entries r)) (rg_next r)"
    by (rule reg_wf_put_orphan[OF reg_wf_del[OF w] Some]) (use only dist in auto)
  have orphan: "reg_wf (rg_registrations r) (gm_put a e' (rg_entries r)) (rg_next r)"
    if "gm_get (rg_registrations r) (entry_id e) \<noteq> Some a" "distinct (mr_inFlight e')" for e'
    by (rule reg_wf_put_orphan[OF w Some]) (use only that in blast)+
  have kept: "reg_wf (rg_registrations r) (gm_put a ?e1 (rg_entries r)) (rg_next r)"
  proof (cases "mr_status e = ToolStatusUnloaded")
    case True
    with only have "gm_get (rg_registrations r) (entry_id e) \<noteq> Some a" by auto
    from orphan[OF this dist] show ?thesis .
  next
    case False
    then show ?thesis by (intro reg_wf_put[OF w Some]) (use dist in simp_all)
  qed
  show ?thesis
    using gone orphan[of "?e1\<lparr>mr_status := ToolStatusUnloaded\<rparr>"] kept dist assms
    by (auto simp: registry_release_def Some Let_def registry_wf_def)
qed (use assms in \<open>simp add: registry_release_def\<close>)

lemmas registry_wf_ops = register_wf setStatus_wf unload_wf acquire_wf release_wf

section \<open>A registry and the leases handed out\<close>

text \<open>
  The registry with the leases its callers hold (address and lease number). One step is one operation;
  the side condition \<open>counters_ok\<close> keeps the 64-bit generation and lease counters from wrapping.
\<close>

record 'f reg_sys =
  rs_reg :: "'f registry"
  rs_leases :: "(nat \<times> u64) list"

definition counters_ok :: "'f registry \<Rightarrow> bool" where
  "counters_ok r \<longleftrightarrow> rg_generation r < -1 \<and>
     (\<forall>a e. gm_get (rg_entries r) a = Some e \<longrightarrow> mr_nextLeaseID e < -1)"

inductive reg_step :: "'f reg_sys \<Rightarrow> 'f reg_sys \<Rightarrow> bool" where
  step_register: "counters_ok (rs_reg s) \<Longrightarrow>
     reg_step s (s\<lparr>rs_reg := snd (registry_register rn replace (rs_reg s))\<rparr>)"
| step_setStatus: "counters_ok (rs_reg s) \<Longrightarrow>
     reg_step s (s\<lparr>rs_reg := snd (registry_setStatus i status (rs_reg s))\<rparr>)"
| step_unload: "counters_ok (rs_reg s) \<Longrightarrow>
     reg_step s (s\<lparr>rs_reg := snd (registry_unload i force (rs_reg s))\<rparr>)"
| step_acquire: "counters_ok (rs_reg s) \<Longrightarrow> registry_acquire i g (rs_reg s) = (Inr l, r') \<Longrightarrow>
     reg_step s (s\<lparr>rs_reg := r', rs_leases := (lease_entry l, lease_leaseID l) # rs_leases s\<rparr>)"
| step_release: "counters_ok (rs_reg s) \<Longrightarrow> (a, n) \<in> set (rs_leases s) \<Longrightarrow>
     reg_step s (s\<lparr>rs_reg := registry_release a n (rs_reg s), rs_leases := removeAll (a, n) (rs_leases s)\<rparr>)"

inductive reg_reachable :: "'f reg_sys \<Rightarrow> bool" where
  reach_init: "reg_reachable \<lparr>rs_reg = NewRegistry, rs_leases = []\<rparr>"
| reach_step: "reg_reachable s \<Longrightarrow> reg_step s t \<Longrightarrow> reg_reachable t"

inductive reg_run :: "'f reg_sys \<Rightarrow> 'f reg_sys \<Rightarrow> bool" where
  run_refl: "reg_run s s"
| run_step: "reg_run s t \<Longrightarrow> reg_step t u \<Longrightarrow> reg_run s u"

text \<open>What holds of one object: its in-flight calls are the leases on it, all numbered at most the last
  number given; an unloaded object has none; its generation has been handed out.\<close>

definition entry_ok :: "u64 \<Rightarrow> (nat \<times> u64) list \<Rightarrow> nat \<Rightarrow> 'f managed_registration \<Rightarrow> bool" where
  "entry_ok gen leases a e \<longleftrightarrow>
     set (mr_inFlight e) = {n. (a, n) \<in> set leases} \<and> (\<forall>n \<in> set (mr_inFlight e). n \<le> mr_nextLeaseID e) \<and>
     mr_generation e \<le> gen \<and> (mr_status e = ToolStatusUnloaded \<longrightarrow> mr_inFlight e = [])"

definition gens_distinct :: "(nat, 'f managed_registration) gomap \<Rightarrow> bool" where
  "gens_distinct ents \<longleftrightarrow> (\<forall>a b e f. gm_get ents a = Some e \<longrightarrow> gm_get ents b = Some f \<longrightarrow>
     mr_generation e = mr_generation f \<longrightarrow> a = b)"

definition reg_sys_inv :: "'f reg_sys \<Rightarrow> bool" where
  "reg_sys_inv s \<longleftrightarrow>
     registry_wf (rs_reg s) \<and>
     gm_all (entry_ok (rg_generation (rs_reg s)) (rs_leases s)) (rg_entries (rs_reg s)) \<and>
     gens_distinct (rg_entries (rs_reg s)) \<and>
     (\<forall>(a, n) \<in> set (rs_leases s). gm_get (rg_entries (rs_reg s)) a \<noteq> None)"

lemma reg_sys_invD:
  assumes "reg_sys_inv s"
  shows "registry_wf (rs_reg s)"
    "gm_get (rg_entries (rs_reg s)) a = Some e \<Longrightarrow> entry_ok (rg_generation (rs_reg s)) (rs_leases s) a e"
    "gens_distinct (rg_entries (rs_reg s))"
    "(a, n) \<in> set (rs_leases s) \<Longrightarrow> gm_get (rg_entries (rs_reg s)) a \<noteq> None"
  using assms by (auto simp: reg_sys_inv_def dest: gm_allD)

lemma counters_okD:
  assumes "counters_ok r"
  shows "rg_generation r < -1" "gm_get (rg_entries r) a = Some e \<Longrightarrow> mr_nextLeaseID e < -1"
  using assms by (auto simp: counters_ok_def)

text \<open>The invariant survives replacing one object by one of the same generation, with the leases
  adjusted for that object only.\<close>

lemma inv_update_entry:
  assumes inv: "reg_sys_inv s" and e: "gm_get (rg_entries (rs_reg s)) a = Some e"
    and gen: "mr_generation e' = mr_generation e"
    and wf: "registry_wf r'" and ents: "rg_entries r' = gm_put a e' (rg_entries (rs_reg s))"
    and le: "rg_generation (rs_reg s) \<le> rg_generation r'"
    and others: "\<And>b n. b \<noteq> a \<Longrightarrow> (b, n) \<in> set ls \<longleftrightarrow> (b, n) \<in> set (rs_leases s)"
    and ok: "entry_ok (rg_generation r') ls a e'"
  shows "reg_sys_inv (s\<lparr>rs_reg := r', rs_leases := ls\<rparr>)"
proof -
  have "entry_ok (rg_generation r') ls b f" if "gm_get (rg_entries r') b = Some f" for b f
  proof (cases "b = a")
    case False
    with that ents have "entry_ok (rg_generation (rs_reg s)) (rs_leases s) b f"
      using reg_sys_invD(2)[OF inv] by simp
    with False le others[OF False] show ?thesis by (auto simp: entry_ok_def)
  qed (use that ents ok in simp)
  moreover have "gens_distinct (rg_entries r')"
    using reg_sys_invD(3)[OF inv] e gen unfolding ents gens_distinct_def
    by (auto split: if_splits)
  moreover have "gm_get (rg_entries r') b \<noteq> None" if "(b, n) \<in> set ls" for b n
    using that others[of b n] reg_sys_invD(4)[OF inv, of b n] ents by auto
  ultimately show ?thesis using wf by (auto simp: reg_sys_inv_def intro: gm_allI)
qed

lemma inv_register:
  assumes inv: "reg_sys_inv s" and c: "counters_ok (rs_reg s)"
  shows "reg_sys_inv (s\<lparr>rs_reg := snd (registry_register rn replace (rs_reg s))\<rparr>)"
proof -
  let ?r = "rs_reg s" and ?r' = "snd (registry_register rn replace (rs_reg s))"
  let ?e = "\<lparr>mr_registration = rn, mr_generation = rg_generation ?r + 1, mr_status = ToolStatusActive,
              mr_inFlight = [], mr_nextLeaseID = 0\<rparr>"
  have wf: "registry_wf ?r" by (rule reg_sys_invD(1)[OF inv])
  have "?r' = ?r \<or> rg_entries ?r' = gm_put (rg_next ?r) ?e (rg_entries ?r) \<and>
      rg_generation ?r' = rg_generation ?r + 1"
    by (simp add: registry_register_def)
  then consider "?r' = ?r" | "rg_entries ?r' = gm_put (rg_next ?r) ?e (rg_entries ?r)"
      "rg_generation ?r' = rg_generation ?r + 1"
    by blast
  then show ?thesis
  proof cases
    case 1
    then show ?thesis using inv by simp
  next
    case 2
    have fresh: "gm_get (rg_entries ?r) (rg_next ?r) = None"
      using registry_wfD(4)[OF wf, of "rg_next ?r"] by (cases "gm_get (rg_entries ?r) (rg_next ?r)") auto
    then have nolease: "(rg_next ?r, n) \<notin> set (rs_leases s)" for n
      using reg_sys_invD(4)[OF inv] by blast
    have old: "mr_generation f \<noteq> rg_generation ?r + 1" if "gm_get (rg_entries ?r) b = Some f" for b f
      using reg_sys_invD(2)[OF inv that] u64_inc_mono[OF counters_okD(1)[OF c], of "mr_generation f"]
      by (auto simp: entry_ok_def)
    have "entry_ok (rg_generation ?r') (rs_leases s) b f" if "gm_get (rg_entries ?r') b = Some f" for b f
      using that 2 nolease reg_sys_invD(2)[OF inv, of b f] u64_inc_le[OF counters_okD(1)[OF c]]
      by (auto simp: entry_ok_def split: if_splits)
    moreover have "gens_distinct (rg_entries ?r')"
      using reg_sys_invD(3)[OF inv] old old[symmetric] unfolding 2(1) gens_distinct_def
      by (auto split: if_splits)
    moreover have "gm_get (rg_entries ?r') b \<noteq> None" if "(b, n) \<in> set (rs_leases s)" for b n
      using reg_sys_invD(4)[OF inv that] 2 by auto
    ultimately show ?thesis
      using register_wf[OF wf] by (auto simp: reg_sys_inv_def intro: gm_allI)
  qed
qed

lemma inv_same_leases:
  assumes "reg_sys_inv s" "gm_get (rg_entries (rs_reg s)) a = Some e"
    "mr_generation e' = mr_generation e" "mr_inFlight e' = mr_inFlight e" "mr_nextLeaseID e' = mr_nextLeaseID e"
    "mr_status e' = ToolStatusUnloaded \<Longrightarrow> mr_inFlight e = []"
    "registry_wf r'" "rg_entries r' = gm_put a e' (rg_entries (rs_reg s))"
    "rg_generation (rs_reg s) \<le> rg_generation r'"
  shows "reg_sys_inv (s\<lparr>rs_reg := r'\<rparr>)"
proof -
  from reg_sys_invD(2)[OF assms(1,2)] assms(3-6,9) have "entry_ok (rg_generation r') (rs_leases s) a e'"
    by (auto simp: entry_ok_def)
  from inv_update_entry[OF assms(1,2,3,7,8,9) refl this] show ?thesis by simp
qed

lemma inv_setStatus:
  assumes inv: "reg_sys_inv s" and c: "counters_ok (rs_reg s)"
  shows "reg_sys_inv (s\<lparr>rs_reg := snd (registry_setStatus i status (rs_reg s))\<rparr>)"
proof (cases "registry_lookup (rs_reg s) i")
  case (Some p)
  then obtain a e where l: "registry_lookup (rs_reg s) i = Some (a, e)" by (cases p) auto
  note wf = reg_sys_invD(1)[OF inv]
  note lw = registry_lookup_wf[OF wf l]
  show ?thesis
  proof (cases "validStatusTransition (mr_status e) status")
    case True
    with lw(4) have st: "status \<noteq> ToolStatusUnloaded" by auto
    show ?thesis
      by (rule inv_same_leases[OF inv lw(2), of "e\<lparr>mr_status := status\<rparr>"])
        (use st True setStatus_wf[OF wf, of i status] u64_inc_le[OF counters_okD(1)[OF c] order_refl] lw(4)
          in \<open>simp_all add: registry_setStatus_def l\<close>)
  qed (use inv l lw in \<open>simp add: registry_setStatus_def\<close>)
qed (use inv in \<open>simp add: registry_setStatus_def\<close>)

lemma inv_unload:
  assumes inv: "reg_sys_inv s" and c: "counters_ok (rs_reg s)"
  shows "reg_sys_inv (s\<lparr>rs_reg := snd (registry_unload i force (rs_reg s))\<rparr>)"
proof (cases "registry_lookup (rs_reg s) i")
  case (Some p)
  then obtain a e where l: "registry_lookup (rs_reg s) i = Some (a, e)" by (cases p) auto
  note wf = reg_sys_invD(1)[OF inv]
  note lw = registry_lookup_wf[OF wf l]
  let ?st = "if mr_inFlight e = [] then ToolStatusUnloaded else ToolStatusDraining"
  show ?thesis
    by (rule inv_same_leases[OF inv lw(2), of "e\<lparr>mr_status := ?st\<rparr>"])
      (use unload_wf[OF wf, of i force] u64_inc_le[OF counters_okD(1)[OF c] order_refl] lw(4)
        in \<open>simp_all add: registry_unload_def l Let_def split: if_splits\<close>)
qed (use inv in \<open>simp add: registry_unload_def\<close>)

lemma registry_acquire_Inr_iff:
  "registry_acquire i g r = (Inr l, r') \<longleftrightarrow>
     (\<exists>a e. registry_lookup r i = Some (a, e) \<and> mr_status e = ToolStatusActive \<and> mr_generation e = g \<and>
       l = \<lparr>lease_entry = a, lease_leaseID = mr_nextLeaseID e + 1, lease_registration = mr_registration e\<rparr> \<and>
       r' = r\<lparr>rg_entries := gm_put a (e\<lparr>mr_nextLeaseID := mr_nextLeaseID e + 1,
               mr_inFlight := List.insert (mr_nextLeaseID e + 1) (mr_inFlight e)\<rparr>) (rg_entries r)\<rparr>)"
  by (auto simp: registry_acquire_def Let_def split: option.splits if_splits)

lemma registry_acquire_Inl: "registry_acquire i g r = (Inl err, r') \<Longrightarrow> r' = r"
  by (auto simp: registry_acquire_def Let_def split: option.splits if_splits)

lemma acquire_fresh:
  assumes inv: "reg_sys_inv s" and c: "counters_ok (rs_reg s)" and acq: "registry_acquire i g (rs_reg s) = (Inr l, r')"
  shows "(lease_entry l, lease_leaseID l) \<notin> set (rs_leases s)"
proof
  assume mem: "(lease_entry l, lease_leaseID l) \<in> set (rs_leases s)"
  from acq obtain a e where lk: "registry_lookup (rs_reg s) i = Some (a, e)"
    and l: "lease_entry l = a" "lease_leaseID l = mr_nextLeaseID e + 1"
    unfolding registry_acquire_Inr_iff by auto
  note e = registry_lookup_wf(2)[OF reg_sys_invD(1)[OF inv] lk]
  from reg_sys_invD(2)[OF inv e] mem l have "mr_nextLeaseID e + 1 \<le> mr_nextLeaseID e" by (auto simp: entry_ok_def)
  moreover have "mr_nextLeaseID e < mr_nextLeaseID e + 1"
    by (rule u64_inc_mono[OF counters_okD(2)[OF c e]]) simp
  ultimately show False by simp
qed

lemma inv_acquire:
  assumes inv: "reg_sys_inv s" and c: "counters_ok (rs_reg s)" and acq: "registry_acquire i g (rs_reg s) = (Inr l, r')"
  shows "reg_sys_inv (s\<lparr>rs_reg := r', rs_leases := (lease_entry l, lease_leaseID l) # rs_leases s\<rparr>)"
proof -
  from acq obtain a e where lk: "registry_lookup (rs_reg s) i = Some (a, e)" and st: "mr_status e = ToolStatusActive"
    and l: "lease_entry l = a" "lease_leaseID l = mr_nextLeaseID e + 1"
    and r': "r' = (rs_reg s)\<lparr>rg_entries := gm_put a (e\<lparr>mr_nextLeaseID := mr_nextLeaseID e + 1,
               mr_inFlight := List.insert (mr_nextLeaseID e + 1) (mr_inFlight e)\<rparr>) (rg_entries (rs_reg s))\<rparr>"
    unfolding registry_acquire_Inr_iff by auto
  note wf = reg_sys_invD(1)[OF inv]
  note lw = registry_lookup_wf[OF wf lk]
  have wf': "registry_wf r'" using acquire_wf[OF wf, of i g] acq by simp
  have n: "k \<le> mr_nextLeaseID e \<Longrightarrow> k \<le> mr_nextLeaseID e + 1" for k
    by (rule u64_inc_le[OF counters_okD(2)[OF c lw(2)]])
  show ?thesis
    by (rule inv_update_entry[OF inv lw(2) _ wf'])
      (use reg_sys_invD(2)[OF inv lw(2)] st n in \<open>auto simp: l r' entry_ok_def\<close>)
qed

text \<open>What a release does to the object, in one equation.\<close>

lemma release_entries:
  assumes "gm_get (rg_entries r) a = Some e" "n \<in> set (mr_inFlight e)"
  shows "rg_entries (registry_release a n r) = gm_put a (e\<lparr>mr_inFlight := removeAll n (mr_inFlight e),
     mr_status := (if mr_status e = ToolStatusDraining \<and> removeAll n (mr_inFlight e) = []
                   then ToolStatusUnloaded else mr_status e)\<rparr>) (rg_entries r)"
    "rg_generation (registry_release a n r) = rg_generation r \<or>
     rg_generation (registry_release a n r) = rg_generation r + 1"
  using assms by (auto simp: registry_release_def Let_def)

lemma inv_release:
  assumes inv: "reg_sys_inv s" and c: "rg_generation (rs_reg s) < -1" and mem: "(a, n) \<in> set (rs_leases s)"
  shows "reg_sys_inv (s\<lparr>rs_reg := registry_release a n (rs_reg s), rs_leases := removeAll (a, n) (rs_leases s)\<rparr>)"
proof -
  from reg_sys_invD(4)[OF inv mem] obtain e where e: "gm_get (rg_entries (rs_reg s)) a = Some e" by auto
  have ok: "entry_ok (rg_generation (rs_reg s)) (rs_leases s) a e" by (rule reg_sys_invD(2)[OF inv e])
  with mem have n: "n \<in> set (mr_inFlight e)" by (simp add: entry_ok_def)
  note rel = release_entries[OF e n]
  have le: "rg_generation (rs_reg s) \<le> rg_generation (registry_release a n (rs_reg s))"
    using rel(2) u64_inc_le[OF c order_refl] by auto
  show ?thesis
    by (rule inv_update_entry[OF inv e _ release_wf[OF reg_sys_invD(1)[OF inv]] rel(1) le])
      (use ok le in \<open>auto simp: entry_ok_def split: if_splits\<close>)
qed

lemma reg_step_inv: "reg_step s t \<Longrightarrow> reg_sys_inv s \<Longrightarrow> reg_sys_inv t"
  by (induction rule: reg_step.induct)
    (auto intro: inv_register inv_setStatus inv_unload inv_acquire inv_release dest: counters_okD(1))

lemma reg_sys_inv_init: "reg_sys_inv \<lparr>rs_reg = NewRegistry, rs_leases = []\<rparr>"
  by (simp add: reg_sys_inv_def gens_distinct_def NewRegistry_def registry_wf_def reg_wf_def)

lemma reg_reachable_inv: "reg_reachable s \<Longrightarrow> reg_sys_inv s"
  by (induction rule: reg_reachable.induct) (auto intro: reg_step_inv reg_sys_inv_init)

lemma reg_reachable_run: "reg_run s t \<Longrightarrow> reg_reachable s \<Longrightarrow> reg_reachable t"
  by (induction rule: reg_run.induct) (auto intro: reach_step)

section \<open>Leases and the life cycle\<close>

text \<open>An address no identifier maps to stays that way: only \<open>registry_register\<close> adds an address, and
  it takes a fresh one.\<close>

definition orphaned :: "nat \<Rightarrow> 'f registry \<Rightarrow> bool" where
  "orphaned a r \<longleftrightarrow> (\<forall>i. gm_get (rg_registrations r) i \<noteq> Some a)"

lemma registrations_mono:
  "gm_get (rg_registrations (snd (registry_register rn replace r))) i = Some a \<Longrightarrow>
     gm_get (rg_registrations r) i = Some a \<or> a = rg_next r"
  "rg_registrations (snd (registry_setStatus i' status r)) = rg_registrations r"
  "gm_get (rg_registrations (snd (registry_unload i' force r))) i = Some a \<Longrightarrow>
     gm_get (rg_registrations r) i = Some a"
  "registry_acquire i' g r = (Inr l, r') \<Longrightarrow> rg_registrations r' = rg_registrations r"
  "gm_get (rg_registrations (registry_release b n r)) i = Some a \<Longrightarrow> gm_get (rg_registrations r) i = Some a"
  by (auto simp: registry_register_def registry_setStatus_def registry_unload_def registry_acquire_Inr_iff
      registry_release_def Let_def split: if_splits option.splits)

lemma entry_kept:
  "registry_wf r \<Longrightarrow> gm_get (rg_entries r) a = Some e \<Longrightarrow>
     \<exists>e'. gm_get (rg_entries (snd (registry_register rn replace r))) a = Some e' \<and> mr_generation e' = mr_generation e"
  "gm_get (rg_entries r) a = Some e \<Longrightarrow>
     \<exists>e'. gm_get (rg_entries (snd (registry_setStatus i status r))) a = Some e' \<and> mr_generation e' = mr_generation e"
  "gm_get (rg_entries r) a = Some e \<Longrightarrow>
     \<exists>e'. gm_get (rg_entries (snd (registry_unload i force r))) a = Some e' \<and> mr_generation e' = mr_generation e"
  "gm_get (rg_entries r) a = Some e \<Longrightarrow> registry_acquire i g r = (Inr l, r') \<Longrightarrow>
     \<exists>e'. gm_get (rg_entries r') a = Some e' \<and> mr_generation e' = mr_generation e"
  "gm_get (rg_entries r) a = Some e \<Longrightarrow>
     \<exists>e'. gm_get (rg_entries (registry_release b n r)) a = Some e' \<and> mr_generation e' = mr_generation e"
  by (auto simp: registry_register_def registry_setStatus_def registry_unload_def registry_acquire_Inr_iff
      registry_release_def registry_lookup_Some_iff Let_def dest: registry_wfD(4) split: option.splits)

lemma orphan_step:
  assumes "reg_step s t" "registry_wf (rs_reg s)" "orphaned a (rs_reg s)"
    "gm_get (rg_entries (rs_reg s)) a = Some e"
  shows "orphaned a (rs_reg t) \<and> (\<exists>e'. gm_get (rg_entries (rs_reg t)) a = Some e' \<and> mr_generation e' = mr_generation e)"
  using assms
proof (cases rule: reg_step.cases)
  case (step_register rn replace)
  then have t: "rs_reg t = snd (registry_register rn replace (rs_reg s))" by simp
  from registry_wfD(4)[OF assms(2,4)] have "a \<noteq> rg_next (rs_reg s)" by simp
  with assms(3) registrations_mono(1)[of rn replace "rs_reg s" _ a] have "orphaned a (rs_reg t)"
    unfolding t orphaned_def by blast
  with entry_kept(1)[OF assms(2,4)] step_register show ?thesis by simp
next
  case (step_setStatus i status)
  with assms(3) entry_kept(2)[OF assms(4)] show ?thesis by (simp add: orphaned_def registrations_mono(2))
next
  case (step_unload i force)
  then have t: "rs_reg t = snd (registry_unload i force (rs_reg s))" by simp
  from assms(3) registrations_mono(3)[of i force "rs_reg s" _ a] have "orphaned a (rs_reg t)"
    unfolding t orphaned_def by blast
  with entry_kept(3)[OF assms(4)] step_unload show ?thesis by simp
next
  case (step_acquire i g l r')
  with assms(3) entry_kept(4)[OF assms(4) step_acquire(3)] show ?thesis
    by (simp add: orphaned_def registrations_mono(4)[OF step_acquire(3)])
next
  case (step_release b n)
  then have t: "rs_reg t = registry_release b n (rs_reg s)" by simp
  from assms(3) registrations_mono(5)[of b n "rs_reg s" _ a] have "orphaned a (rs_reg t)"
    unfolding t orphaned_def by blast
  with entry_kept(5)[OF assms(4)] step_release show ?thesis by simp
qed

lemma orphan_run:
  assumes "reg_run s t" "reg_reachable s" "orphaned a (rs_reg s)" "gm_get (rg_entries (rs_reg s)) a = Some e"
  shows "orphaned a (rs_reg t) \<and> (\<exists>e'. gm_get (rg_entries (rs_reg t)) a = Some e' \<and> mr_generation e' = mr_generation e)"
  using assms
proof (induction rule: reg_run.induct)
  case (run_step s t u)
  then obtain e' where e': "gm_get (rg_entries (rs_reg t)) a = Some e'" "mr_generation e' = mr_generation e"
    and o: "orphaned a (rs_reg t)" by auto
  have "registry_wf (rs_reg t)"
    using reg_reachable_inv[OF reg_reachable_run[OF run_step(1) run_step(4)]] by (rule reg_sys_invD(1))
  from orphan_step[OF run_step(2) this o e'(1)] e'(2) show ?case by auto
qed simp

text \<open>C23: in every reachable state of the registry a lease keeps its registration alive: an object that
  has reached the status unloaded has no outstanding lease, and an object with an outstanding lease is
  the one the lease was taken from, with that lease recorded as in flight.\<close>

theorem lease_keeps_registration:
  assumes "reg_reachable s" "gm_get (rg_entries (rs_reg s)) a = Some e"
  shows "set (mr_inFlight e) = {n. (a, n) \<in> set (rs_leases s)} \<and>
    (mr_status e = ToolStatusUnloaded \<longrightarrow> (\<forall>n. (a, n) \<notin> set (rs_leases s)) \<and> orphaned a (rs_reg s))"
proof -
  note inv = reg_reachable_inv[OF assms(1)]
  from reg_sys_invD(2)[OF inv assms(2)] have ok: "entry_ok (rg_generation (rs_reg s)) (rs_leases s) a e" .
  have "orphaned a (rs_reg s)" if "mr_status e = ToolStatusUnloaded"
    using registry_wfD(3)[OF reg_sys_invD(1)[OF inv]] assms(2) that by (force simp: orphaned_def)
  with ok show ?thesis by (auto simp: entry_ok_def)
qed

text \<open>Once a registration has left the registry's map (it was replaced or unloaded), no later
  operation leases it again: for every run from there, acquiring its generation fails under every tool
  identifier.\<close>

lemma old_generation_never_leased:
  assumes "reg_reachable s" "gm_get (rg_entries (rs_reg s)) a = Some e" "orphaned a (rs_reg s)" "reg_run s t"
  shows "\<exists>err. fst (registry_acquire i (mr_generation e) (rs_reg t)) = Inl err"
proof (rule ccontr)
  assume "\<nexists>err. fst (registry_acquire i (mr_generation e) (rs_reg t)) = Inl err"
  then obtain l r' where "registry_acquire i (mr_generation e) (rs_reg t) = (Inr l, r')"
    by (metis prod.collapse sumE)
  then obtain b f where f: "registry_lookup (rs_reg t) i = Some (b, f)" "mr_generation f = mr_generation e"
    unfolding registry_acquire_Inr_iff by auto
  from orphan_run[OF assms(4,1,3,2)] obtain e' where
    e': "orphaned a (rs_reg t)" "gm_get (rg_entries (rs_reg t)) a = Some e'" "mr_generation e' = mr_generation e" by auto
  have "gens_distinct (rg_entries (rs_reg t))"
    using reg_reachable_inv[OF reg_reachable_run[OF assms(4,1)]] by (rule reg_sys_invD(3))
  with f e' have "b = a" by (auto simp: gens_distinct_def registry_lookup_Some_iff)
  with f(1) e'(1) show False by (simp add: orphaned_def registry_lookup_Some_iff)
qed

text \<open>Releasing every in-flight call of a draining registration, in any order.\<close>

lemma release_one_draining:
  assumes "registry_wf r" "registry_lookup r i = Some (a, e)" "mr_status e = ToolStatusDraining"
    "n \<in> set (mr_inFlight e)" "set (mr_inFlight e) \<noteq> {n}"
  shows "registry_lookup (registry_release a n r) i =
    Some (a, e\<lparr>mr_inFlight := removeAll n (mr_inFlight e)\<rparr>)"
proof -
  note lw = registry_lookup_wf[OF assms(1,2)]
  from assms(4,5) have "removeAll n (mr_inFlight e) \<noteq> []" by (auto simp: removeAll_filter_not_eq filter_empty_conv)
  with lw assms(3,4) show ?thesis
    by (simp add: registry_release_def registry_lookup_def Let_def)
qed

lemma release_last_draining:
  assumes "registry_wf r" "registry_lookup r i = Some (a, e)" "mr_status e = ToolStatusDraining"
    "set (mr_inFlight e) = {n}"
  shows "registry_lookup (registry_release a n r) i = None"
proof -
  note lw = registry_lookup_wf[OF assms(1,2)]
  from assms(4) have "removeAll n (mr_inFlight e) = []" by (auto simp: removeAll_filter_not_eq filter_empty_conv)
  with lw assms(3,4) show ?thesis
    by (simp add: registry_release_def registry_lookup_def Let_def)
qed

text \<open>A draining registration disappears with its last lease and not before: releasing its in-flight
  calls, in any order, removes it from the registry, and releasing only some of them does not.\<close>

lemma draining_ends_with_last_lease:
  assumes "registry_wf r" "registry_lookup r i = Some (a, e)" "mr_status e = ToolStatusDraining"
    "distinct ns" "set ns \<subseteq> set (mr_inFlight e)" "ns \<noteq> []"
  shows "registry_lookup (fold (registry_release a) ns r) i = None \<longleftrightarrow> set ns = set (mr_inFlight e)"
  using assms
proof (induction ns arbitrary: r e)
  case (Cons n ns)
  note lw = registry_lookup_wf[OF Cons.prems(1,2)]
  show ?case
  proof (cases "set (mr_inFlight e) = {n}")
    case True
    with Cons.prems(4,5) have "ns = []" by (cases ns) auto
    with release_last_draining[OF Cons.prems(1,2,3) True] True show ?thesis by simp
  next
    case False
    let ?e = "e\<lparr>mr_inFlight := removeAll n (mr_inFlight e)\<rparr>"
    from Cons.prems(5) have n: "n \<in> set (mr_inFlight e)" by simp
    note one = release_one_draining[OF Cons.prems(1,2,3) n False]
    show ?thesis
    proof (cases "ns = []")
      case True
      with one False n show ?thesis by auto
    next
      case ns: False
      have "set ns \<subseteq> set (mr_inFlight ?e)" using Cons.prems(4,5) by auto
      with Cons.IH[OF release_wf[OF Cons.prems(1)] one _ _ _ ns] Cons.prems(3,4) n
      show ?thesis by auto
    qed
  qed
qed simp

lemma release_idem: "registry_release a n (registry_release a n r) = registry_release a n r"
  by (auto simp: registry_release_def Let_def split: option.splits)

lemma unload_empty:
  assumes "registry_wf r" "registry_lookup r i = Some (a, e)" "mr_inFlight e = []"
  shows "fst (registry_unload i force r) = Inr (rg_generation r + 1, True)"
    "registry_lookup (snd (registry_unload i force r)) i = None"
  using registry_lookup_wf[OF assms(1,2)] assms(3)
  by (simp_all add: registry_unload_def assms(2) Let_def registry_lookup_def)

section \<open>Concrete runs\<close>

text \<open>One registration, one lease on it, then a replacement of the registration.\<close>

abbreviation sample_tool :: tool_id where
  "sample_tool \<equiv> sample_id ''terminal'' ''read''"

definition sample_sys :: "unit reg_sys" where
  "sample_sys = \<lparr>rs_reg = snd (registry_register (sample_registration sample_tool) False NewRegistry), rs_leases = []\<rparr>"

definition sample_leased :: "unit reg_sys" where
  "sample_leased = \<lparr>rs_reg = snd (registry_acquire sample_tool 1 (rs_reg sample_sys)), rs_leases = [(0, 1)]\<rparr>"

definition sample_replaced :: "unit reg_sys" where
  "sample_replaced = sample_leased\<lparr>rs_reg := snd (registry_register (sample_registration sample_tool) True (rs_reg sample_leased))\<rparr>"

lemma sample_entry_def: "rg_entries (rs_reg sample_replaced) =
   [(0, \<lparr>mr_registration = sample_registration sample_tool, mr_generation = 1, mr_status = ToolStatusActive,
         mr_inFlight = [1], mr_nextLeaseID = 1\<rparr>),
    (1, \<lparr>mr_registration = sample_registration sample_tool, mr_generation = 2, mr_status = ToolStatusActive,
         mr_inFlight = [], mr_nextLeaseID = 0\<rparr>)]"
  "rg_registrations (rs_reg sample_replaced) = [(sample_tool, 1)]"
  by code_simp+

lemma u64_small: "(0 :: u64) < - 1" "(1 :: u64) < - 1"
  by code_simp+

lemma sample_reachable: "reg_reachable sample_leased" "reg_reachable sample_replaced" "reg_reachable sample_sys"
  "counters_ok (rs_reg sample_sys)"
proof -
  have r0: "reg_reachable \<lparr>rs_reg = NewRegistry :: unit registry, rs_leases = []\<rparr>" by (rule reach_init)
  show r1: "reg_reachable sample_sys"
    using reach_step[OF r0 step_register, of "sample_registration sample_tool" False]
    by (simp add: sample_sys_def counters_ok_def NewRegistry_def u64_small)
  have lk: "rg_entries (rs_reg sample_sys) = [(0, \<lparr>mr_registration = sample_registration sample_tool,
      mr_generation = 1, mr_status = ToolStatusActive, mr_inFlight = [], mr_nextLeaseID = 0\<rparr>)]"
    "rg_generation (rs_reg sample_sys) = 1" by code_simp+
  then show "counters_ok (rs_reg sample_sys)" by (simp add: counters_ok_def gm_get_def u64_small)
  have acq: "registry_acquire sample_tool 1 (rs_reg sample_sys) =
    (Inr \<lparr>lease_entry = 0, lease_leaseID = 1, lease_registration = sample_registration sample_tool\<rparr>, rs_reg sample_leased)"
    by code_simp
  show r2: "reg_reachable sample_leased"
    using reach_step[OF r1 step_acquire[OF _ acq]] lk
    by (simp add: counters_ok_def gm_get_def sample_leased_def sample_sys_def u64_small)
  have lk2: "rg_entries (rs_reg sample_leased) = [(0, \<lparr>mr_registration = sample_registration sample_tool,
      mr_generation = 1, mr_status = ToolStatusActive, mr_inFlight = [1], mr_nextLeaseID = 1\<rparr>)]"
    "rg_generation (rs_reg sample_leased) = 1" by code_simp+
  show "reg_reachable sample_replaced"
    using reach_step[OF r2 step_register, of "sample_registration sample_tool" True] lk2
    by (simp add: counters_ok_def gm_get_def sample_replaced_def u64_small)
qed

theorem lease_keeps_registration_witness:
  "\<exists>e. gm_get (rg_entries (rs_reg sample_replaced)) 0 = Some e \<and> set (mr_inFlight e) = {n. (0, n) \<in> set (rs_leases sample_replaced)}"
proof -
  obtain e where e: "gm_get (rg_entries (rs_reg sample_replaced)) 0 = Some e"
    by (simp add: sample_entry_def gm_get_def)
  from lease_keeps_registration[OF sample_reachable(2) e] e show ?thesis by auto
qed

definition sample_draining :: "unit registry" where
  "sample_draining = snd (registry_unload sample_tool False (rs_reg sample_leased))"

end
