(* ===== verification/Tool_Engine.thy ===== *)
theory Tool_Engine
  imports Tool_Registry Tool_Disclosure
begin

text \<open>
  The tool engine (src/pkg/liaison/manager/agent/tool/engine.go, pipeline.go): the life-cycle operations,
  which keep the registry and the catalog in step, and the execution of a call.

  The policy evaluator, the tool factories and executors and the middleware are interfaces implemented
  elsewhere: parameters \<open>policy\<close>, \<open>bind\<close> and \<open>middleware\<close>. A call is split at the points where other
  operations can run: \<open>execute_begin\<close> (\<open>execute_check\<close>, then the lease), \<open>execute_run\<close> (outside every
  lock) and \<open>registry_release\<close>; \<open>engine_execute\<close> is their composition.

  The lemmas: registry and catalog agree in every reachable state, so that a tool of a fresh snapshot can
  be leased; at most one tool per model-visible name is not draining; a call reaches its executor only
  with an allowing decision or a matching grant, on the exposed generation; a refused call changes
  nothing; a call that ends leaves no lease behind.
\<close>

section \<open>State\<close>

record 'f engine =
  eng_catalog :: catalog
  eng_registry :: "'f registry"

definition NewEngine :: "'f engine" where
  "NewEngine = \<lparr>eng_catalog = NewCatalog, eng_registry = NewRegistry\<rparr>"

type_synonym policy_evaluator = "tool_invocation \<Rightarrow> tool_descriptor \<Rightarrow> gerr + decision"

section \<open>Life cycle\<close>

definition foreign_source_err :: "'f tool_registration \<Rightarrow> tool_descriptor \<Rightarrow> gerr" where
  "foreign_source_err rn d =
     errw ErrToolUnavailable (''source '' @ go_quote (src_ID (td_Source (reg_Descriptor rn))) @
       '' cannot replace '' @ tool_id_String (td_ID d) @ '' owned by '' @ go_quote (src_ID (td_Source d)))"

text \<open>The loop of a replacement: refuse entries of another source, drain the other versions.\<close>

fun drain_replaced ::
  "'f tool_registration \<Rightarrow> catalog_entry list \<Rightarrow> 'f engine \<Rightarrow> ('f engine, unit) outcome" where
  "drain_replaced rn [] g = (Inr (), g)"
| "drain_replaced rn (entry # rest) g =
     (let d = ce_descriptor entry; i = td_ID d in
      if src_ID (td_Source d) \<noteq> src_ID (td_Source (reg_Descriptor rn))
      then (Inl (foreign_source_err rn d), g)
      else if i = reg_id rn then drain_replaced rn rest g
      else (case registry_setStatus i ToolStatusDraining (eng_registry g) of
              (Inl err, r') \<Rightarrow>
                if \<not> errors_is err ErrToolNotFound
                then (Inl (ErrWrap (''drain replaced tool '' @ tool_id_String i @ '': '') err []), g\<lparr>eng_registry := r'\<rparr>)
                else drain_replaced rn rest
                  (g\<lparr>eng_registry := r', eng_catalog := snd (catalog_setStatus i ToolStatusDraining (eng_catalog g))\<rparr>)
            | (Inr _, r') \<Rightarrow> drain_replaced rn rest
                  (g\<lparr>eng_registry := r', eng_catalog := snd (catalog_setStatus i ToolStatusDraining (eng_catalog g))\<rparr>)))"

definition engine_register :: "'f tool_registration \<Rightarrow> bool \<Rightarrow> 'f engine \<Rightarrow> ('f engine, unit) outcome" where
  "engine_register rn replace g =
     (if reg_Factory rn = None then (Inl (errw ErrInvalidDescriptor ''factory is required''), g)
      else case ValidateDescriptor (reg_Descriptor rn) of
        Some err \<Rightarrow> (Inl err, g)
      | None \<Rightarrow>
          let existing = catalog_byModelName (tid_Namespace (reg_id rn)) (tid_Name (reg_id rn)) (eng_catalog g)
          in if \<not> replace \<and> existing \<noteq> []
             then (Inl (errw ErrAlreadyRegistered (''model-visible name '' @ tool_id_ModelName (reg_id rn))), g)
             else case (if replace then drain_replaced rn existing g else (Inr (), g)) of
               (Inl err, g1) \<Rightarrow> (Inl err, g1)
             | (Inr _, g1) \<Rightarrow>
                 (case registry_register rn replace (eng_registry g1) of
                    (Inl err, r') \<Rightarrow> (Inl err, g1\<lparr>eng_registry := r'\<rparr>)
                  | (Inr generation, r') \<Rightarrow>
                      (Inr (), g1\<lparr>eng_registry := r',
                        eng_catalog := snd (catalog_upsert (reg_Descriptor rn) generation ToolStatusActive (eng_catalog g1))\<rparr>)))"

definition engine_Register :: "'f tool_registration \<Rightarrow> 'f engine \<Rightarrow> ('f engine, unit) outcome" where
  "engine_Register rn g = engine_register rn False g"

definition engine_Replace :: "'f tool_registration \<Rightarrow> 'f engine \<Rightarrow> ('f engine, unit) outcome" where
  "engine_Replace rn g = engine_register rn True g"

text \<open>The body shared by Enable, Disable and Drain.\<close>

definition engine_setStatus :: "string \<Rightarrow> tool_status \<Rightarrow> tool_id \<Rightarrow> 'f engine \<Rightarrow> ('f engine, unit) outcome" where
  "engine_setStatus verb status i g =
     (case registry_setStatus i status (eng_registry g) of
        (Inl err, r') \<Rightarrow> (Inl err, g\<lparr>eng_registry := r'\<rparr>)
      | (Inr _, r') \<Rightarrow>
          (case catalog_setStatus i status (eng_catalog g) of
             ((_, ok), c') \<Rightarrow>
               if \<not> ok then (Inl (ErrWrap (verb @ '' catalog entry '' @ tool_id_String i @ '': '') (Sentinel ErrToolNotFound) []),
                  g\<lparr>eng_registry := r', eng_catalog := c'\<rparr>)
               else (Inr (), g\<lparr>eng_registry := r', eng_catalog := c'\<rparr>)))"

definition engine_Enable :: "tool_id \<Rightarrow> 'f engine \<Rightarrow> ('f engine, unit) outcome" where
  "engine_Enable i g = engine_setStatus ''enable'' ToolStatusActive i g"

definition engine_Disable :: "tool_id \<Rightarrow> 'f engine \<Rightarrow> ('f engine, unit) outcome" where
  "engine_Disable i g = engine_setStatus ''disable'' ToolStatusDisabled i g"

definition engine_Drain :: "tool_id \<Rightarrow> 'f engine \<Rightarrow> ('f engine, unit) outcome" where
  "engine_Drain i g = engine_setStatus ''drain'' ToolStatusDraining i g"

definition engine_Unload :: "tool_id \<Rightarrow> bool \<Rightarrow> 'f engine \<Rightarrow> ('f engine, bool) outcome" where
  "engine_Unload i force g =
     (case registry_unload i force (eng_registry g) of
        (Inl err, r') \<Rightarrow> (Inl err, g\<lparr>eng_registry := r'\<rparr>)
      | (Inr (_, complete), r') \<Rightarrow>
          (Inr complete,
           g\<lparr>eng_registry := r',
             eng_catalog := (if complete then snd (catalog_remove i (eng_catalog g))
                             else snd (catalog_setStatus i ToolStatusDraining (eng_catalog g)))\<rparr>))"

definition engine_Status :: "tool_id \<Rightarrow> 'f engine \<Rightarrow> tool_status \<times> u64 \<times> nat \<times> bool" where
  "engine_Status i g = registry_status i (eng_registry g)"

section \<open>Disclosure\<close>

definition engine_BuildSnapshot ::
  "visibility \<Rightarrow> gerr + bytes \<Rightarrow> gtime \<Rightarrow> 'f engine \<Rightarrow> disclosure_request \<Rightarrow> gerr + tool_set_snapshot" where
  "engine_BuildSnapshot vis rnd now g req = BuildSnapshot vis rnd now (eng_catalog g) req"

definition engine_Search ::
  "visibility \<Rightarrow> 'f engine \<Rightarrow> disclosure_request \<Rightarrow> string \<Rightarrow> gerr + tool_summary list" where
  "engine_Search vis g req query = disclosure_Search vis (eng_catalog g) req query"

definition engine_Describe ::
  "visibility \<Rightarrow> gerr + bytes \<Rightarrow> gtime \<Rightarrow> 'f engine \<Rightarrow> disclosure_request \<Rightarrow> tool_id list \<Rightarrow> gerr + tool_descriptor list" where
  "engine_Describe vis rnd now g req ids =
     (if ids = [] then Inr []
      else
        let req' = req\<lparr>dr_Promoted := dr_Promoted req @ ids,
                       dr_Budget := (dr_Budget req)\<lparr>bud_MaxSchemas := max (bud_MaxSchemas (dr_Budget req))
                         (int (length ids) + bud_MaxAlwaysVisible DefaultDisclosureBudget)\<rparr>\<rparr>
        in case BuildSnapshot vis rnd now (eng_catalog g) req' of
             Inl err \<Rightarrow> Inl err
           | Inr snapshot \<Rightarrow>
               Inr (map exp_Descriptor (filter (\<lambda>t. td_ID (exp_Descriptor t) \<in> set ids) (snap_Tools snapshot))))"

section \<open>Execution\<close>

text \<open>An error of a call is an ordinary error or the \<^verbatim>\<open>*ApprovalRequiredError\<close> with the frozen call.\<close>

datatype exec_error = ExecErr gerr | ExecApproval tool_invocation decision

definition validateAttachmentGeneration :: "tool_set_snapshot \<Rightarrow> attachment_snapshot \<Rightarrow> gerr option" where
  "validateAttachmentGeneration snapshot attachment =
     (if att_ID attachment = [] then None
      else case gm_get (snap_AttachmentGeneration snapshot) (att_ID attachment) of
        None \<Rightarrow> Some (errw ErrStaleSnapshot (''attachment '' @ go_quote (att_ID attachment) @ '' was not present''))
      | Some generation \<Rightarrow>
          if generation \<noteq> att_Generation attachment
          then Some (errw ErrStaleSnapshot (''attachment '' @ go_quote (att_ID attachment) @ '' generation '' @
                 dec (unat generation) @ '' is now '' @ dec (unat (att_Generation attachment))))
          else None)"

text \<open>The switch over the decision; \<open>None\<close> lets the call through.\<close>

definition decision_blocks ::
  "(bytes \<Rightarrow> string) \<Rightarrow> gtime \<Rightarrow> tool_set_snapshot \<Rightarrow> approval_grant option \<Rightarrow> tool_invocation \<Rightarrow> decision \<Rightarrow> exec_error option" where
  "decision_blocks sha now snapshot grant invocation decision =
     (case dec_Effect decision of
        DecisionDeny \<Rightarrow> Some (ExecErr (errw ErrPolicyDenied (dec_Reason decision)))
      | DecisionRequireApproval \<Rightarrow>
          (if (case grant of None \<Rightarrow> True | Some gr \<Rightarrow> \<not> grant_validates sha gr invocation snapshot now)
           then Some (ExecApproval invocation decision) else None)
      | DecisionAllow \<Rightarrow> None
      | DecisionOther n \<Rightarrow> Some (ExecErr (ErrNew (''policy returned unknown decision effect '' @ dec n))))"

text \<open>All checks before the lease; the result carries the call with its generation and its normalized
  input filled in.\<close>

definition execute_check ::
  "policy_evaluator \<Rightarrow> (bytes \<Rightarrow> string) \<Rightarrow> gtime \<Rightarrow> tool_set_snapshot \<Rightarrow> tool_invocation \<Rightarrow> approval_grant option \<Rightarrow>
   exec_error + tool_invocation \<times> exposed_tool" where
  "execute_check policy sha now snapshot invocation grant =
     (if inv_ID invocation = [] then Inl (ExecErr (ErrNew ''tool invocation ID is required''))
      else if bind_ToolSnapshotID (inv_Binding invocation) \<noteq> snap_ID snapshot
      then Inl (ExecErr (errw ErrStaleSnapshot (''binding references snapshot '' @
             go_quote (bind_ToolSnapshotID (inv_Binding invocation)) @ '', got '' @ go_quote (snap_ID snapshot))))
      else case snapshot_Find snapshot (call_ID (inv_Call invocation)) of
        None \<Rightarrow> Inl (ExecErr (errw ErrToolNotExposed (tool_id_String (call_ID (inv_Call invocation)))))
      | Some exposed \<Rightarrow>
          if \<not> descriptorMatchesSession (exp_Descriptor exposed) (bind_SessionKind (inv_Binding invocation))
          then Inl (ExecErr (errw ErrPolicyDenied ''tool is not available for this session kind''))
          else if inv_RegistrationGeneration invocation \<noteq> 0 \<and>
                  inv_RegistrationGeneration invocation \<noteq> exp_RegistrationGeneration exposed
          then Inl (ExecErr (errw ErrStaleSnapshot ''invocation generation does not match exposure''))
          else
            let inv1 = invocation\<lparr>inv_RegistrationGeneration := exp_RegistrationGeneration exposed\<rparr> in
            case validateAttachmentGeneration snapshot (bind_Attachment (inv_Binding inv1)) of
              Some err \<Rightarrow> Inl (ExecErr err)
            | None \<Rightarrow>
              (case policy inv1 (exp_Descriptor exposed) of
                 Inl err \<Rightarrow> Inl (ExecErr (ErrWrap (''evaluate policy for '' @ tool_id_String (call_ID (inv_Call inv1)) @ '': '') err []))
               | Inr decision \<Rightarrow>
                   if dec_NormalizedInput decision \<noteq> [] \<and> \<not> json_valid (dec_NormalizedInput decision)
                   then Inl (ExecErr (ErrNew ''policy returned invalid normalized input''))
                   else
                     let inv2 = (if dec_NormalizedInput decision \<noteq> []
                                 then inv1\<lparr>inv_Call := (inv_Call inv1)\<lparr>call_Input := dec_NormalizedInput decision\<rparr>\<rparr>
                                 else inv1)
                     in case decision_blocks sha now snapshot grant inv2 decision of
                          Some err \<Rightarrow> Inl err
                        | None \<Rightarrow> Inr (inv2, exposed)))"

definition execute_begin ::
  "policy_evaluator \<Rightarrow> (bytes \<Rightarrow> string) \<Rightarrow> gtime \<Rightarrow> tool_set_snapshot \<Rightarrow> tool_invocation \<Rightarrow> approval_grant option \<Rightarrow>
   'f engine \<Rightarrow> (exec_error + tool_invocation \<times> exposed_tool \<times> 'f tool_lease) \<times> 'f engine" where
  "execute_begin policy sha now snapshot invocation grant g =
     (case execute_check policy sha now snapshot invocation grant of
        Inl err \<Rightarrow> (Inl err, g)
      | Inr (inv2, exposed) \<Rightarrow>
          (case registry_acquire (call_ID (inv_Call inv2)) (exp_RegistrationGeneration exposed) (eng_registry g) of
             (Inl err, r') \<Rightarrow> (Inl (ExecErr err), g\<lparr>eng_registry := r'\<rparr>)
           | (Inr lease, r') \<Rightarrow> (Inr (inv2, exposed, lease), g\<lparr>eng_registry := r'\<rparr>)))"

type_synonym tool_handler = "tool_invocation \<Rightarrow> gerr + tool_result"

text \<open>A bound executor: \<^verbatim>\<open>Execute\<close> on the input, or \<^verbatim>\<open>ExecuteInvocation\<close> where it implements that too.\<close>

record tool_executor =
  ex_Execute :: "bytes \<Rightarrow> gerr + tool_result"
  ex_ExecuteInvocation :: "tool_handler option"

definition base_handler :: "tool_executor \<Rightarrow> tool_handler" where
  "base_handler executor call =
     (case (case ex_ExecuteInvocation executor of
              Some f \<Rightarrow> f call | None \<Rightarrow> ex_Execute executor (call_Input (inv_Call call))) of
        Inl err \<Rightarrow> Inl (ErrWrap (''execute tool '' @ tool_id_String (call_ID (inv_Call call)) @ '': '') err [])
      | Inr result \<Rightarrow> Inr result)"

text \<open>\<^verbatim>\<open>for index := len(middleware)-1; index >= 0; index--\<close>: the first middleware is the outermost.\<close>

definition Chain :: "tool_handler \<Rightarrow> (tool_handler \<Rightarrow> tool_handler) list \<Rightarrow> tool_handler" where
  "Chain handler middleware = foldr (\<lambda>m h. m h) middleware handler"

text \<open>
  A duration as JSON prints \<^verbatim>\<open>Seconds()\<close>: whole seconds and up to nine fractional digits (durations of at
  least a microsecond with at most fifteen significant digits).
\<close>

definition seconds_json :: "int \<Rightarrow> string" where
  "seconds_json ns =
     (let n = nat ns; frac = n mod 10 ^ 9;
          digits = map (\<lambda>k. char_of (48 + (frac div 10 ^ (8 - k)) mod 10 :: nat)) [0..<9]
      in dec (n div 10 ^ 9) @
         (if frac = 0 then [] else CHR ''.'' # rev (dropWhile (\<lambda>c. c = CHR ''0'') (rev digits))))"

definition timeout_content :: "int \<Rightarrow> bytes" where
  "timeout_content ns =
     (let q = [CHR 0x22] in
      ''{'' @ q @ ''code'' @ q @ '':'' @ q @ ''tool_timeout'' @ q @ '','' @ q @ ''message'' @ q @ '':'' @ q @
      ''Tool execution exceeded its time limit. Remote completion is unknown. Do not claim success or automatically retry. Explain the timeout and ask before any further execution; prefer a narrower scope.'' @
      q @ '','' @ q @ ''timeout_seconds'' @ q @ '':'' @ seconds_json ns @ ''}'')"

text \<open>\<open>parent\<close> and \<open>timed\<close> are the states of the two contexts when the inner handler has returned.\<close>

definition TimeoutMiddleware :: "int \<Rightarrow> ctx_state \<Rightarrow> ctx_state \<Rightarrow> tool_handler \<Rightarrow> tool_handler" where
  "TimeoutMiddleware timeout parent timed next invocation =
     (if timeout \<le> 0 then next invocation
      else case next invocation of
        Inl err \<Rightarrow>
          if parent = CtxLive \<and> timed = CtxDeadlineExceeded \<and> errors_is err ContextDeadlineExceeded
          then Inr \<lparr>res_Kind = OutputError, res_Content = timeout_content timeout, res_IsError = True,
                    res_Truncated = False, res_ArtifactID = []\<rparr>
          else Inl err
      | Inr result \<Rightarrow> Inr result)"

text \<open>The body between the lease and its release. Go would panic on a nil factory; a registered tool always
  has one (\<open>engine_registered_factory\<close>), so that branch is never taken.\<close>

definition execute_run ::
  "('f \<Rightarrow> tool_binding \<Rightarrow> gerr + tool_executor option) \<Rightarrow> (tool_handler \<Rightarrow> tool_handler) list \<Rightarrow> ctx_state \<Rightarrow> ctx_state \<Rightarrow>
   tool_invocation \<Rightarrow> exposed_tool \<Rightarrow> 'f tool_lease \<Rightarrow> gerr + tool_result" where
  "execute_run bind middleware parent timed invocation exposed lease =
     (let tid = tool_id_String (call_ID (inv_Call invocation)) in
      case reg_Factory (lease_registration lease) of
        None \<Rightarrow> Inl (ErrNew ''nil pointer dereference'')
      | Some factory \<Rightarrow>
          (case bind factory (inv_Binding invocation) of
             Inl err \<Rightarrow> Inl (ErrWrap (''bind tool '' @ tid @ '': '') err [])
           | Inr None \<Rightarrow> Inl (ErrNew (''bind tool '' @ tid @ '': executor is nil''))
           | Inr (Some executor) \<Rightarrow>
               let handler = Chain (base_handler executor) middleware;
                   timeout = td_DefaultTimeout (exp_Descriptor exposed)
               in (if timeout > 0 then TimeoutMiddleware timeout parent timed handler else handler) invocation))"

text \<open>The whole call when nothing else runs in between; \<open>defer lease.Release()\<close> runs last.\<close>

definition engine_execute ::
  "policy_evaluator \<Rightarrow> (bytes \<Rightarrow> string) \<Rightarrow> gtime \<Rightarrow> ('f \<Rightarrow> tool_binding \<Rightarrow> gerr + tool_executor option) \<Rightarrow>
   (tool_handler \<Rightarrow> tool_handler) list \<Rightarrow> ctx_state \<Rightarrow> ctx_state \<Rightarrow>
   tool_set_snapshot \<Rightarrow> tool_invocation \<Rightarrow> approval_grant option \<Rightarrow> 'f engine \<Rightarrow> (exec_error + tool_result) \<times> 'f engine" where
  "engine_execute policy sha now bind middleware parent timed snapshot invocation grant g =
     (case execute_begin policy sha now snapshot invocation grant g of
        (Inl err, g1) \<Rightarrow> (Inl err, g1)
      | (Inr (inv2, exposed, lease), g1) \<Rightarrow>
          (case execute_run bind middleware parent timed inv2 exposed lease of
             Inl err \<Rightarrow> Inl (ExecErr err) | Inr result \<Rightarrow> Inr result,
           g1\<lparr>eng_registry := registry_release (lease_entry lease) (lease_leaseID lease) (eng_registry g1)\<rparr>))"

definition engine_Execute where
  "engine_Execute policy sha now bind middleware parent timed snapshot invocation g =
     engine_execute policy sha now bind middleware parent timed snapshot invocation None g"

definition engine_ExecuteApproved where
  "engine_ExecuteApproved policy sha now bind middleware parent timed snapshot invocation grant g =
     engine_execute policy sha now bind middleware parent timed snapshot invocation (Some grant) g"

section \<open>Registry and catalog agree\<close>

definition sync_at :: "(nat \<times> 'f managed_registration) option \<Rightarrow> catalog_entry option \<Rightarrow> bool" where
  "sync_at ro co \<longleftrightarrow>
     (case (ro, co) of
        (None, None) \<Rightarrow> True
      | (Some _, None) \<Rightarrow> False
      | (None, Some c) \<Rightarrow> ce_status c = ToolStatusDraining
      | (Some (a, m), Some c) \<Rightarrow> ce_status c = mr_status m \<and> ce_registrationGeneration c = mr_generation m \<and>
          ce_descriptor c = reg_Descriptor (mr_registration m) \<and> reg_Factory (mr_registration m) \<noteq> None \<and>
          tool_id_wf (td_ID (ce_descriptor c)))"

definition eng_sync :: "'f engine \<Rightarrow> bool" where
  "eng_sync g \<longleftrightarrow> registry_wf (eng_registry g) \<and> catalog_wf (eng_catalog g) \<and>
     (\<forall>i. sync_at (registry_lookup (eng_registry g) i) (gm_get (cat_entries (eng_catalog g)) i))"

lemma eng_syncD:
  assumes "eng_sync g"
  shows "registry_wf (eng_registry g)" "catalog_wf (eng_catalog g)"
    "sync_at (registry_lookup (eng_registry g) i) (gm_get (cat_entries (eng_catalog g)) i)"
  using assms by (auto simp: eng_sync_def)

text \<open>How each registry operation changes a lookup.\<close>

lemma lookup_setStatus:
  assumes "registry_wf r"
  shows "registry_lookup (snd (registry_setStatus i st r)) j =
    (if j = i \<and> (\<exists>x. fst (registry_setStatus i st r) = Inr x)
     then map_option (\<lambda>(a, e). (a, e\<lparr>mr_status := st\<rparr>)) (registry_lookup r i) else registry_lookup r j)"
proof (cases "registry_lookup r i")
  case (Some p)
  then obtain a e where l: "registry_lookup r i = Some (a, e)" by (cases p) auto
  note lw = registry_lookup_wf[OF assms l]
  have other: "gm_get (rg_registrations r) j = Some b \<Longrightarrow> j \<noteq> i \<Longrightarrow> b \<noteq> a" for j b
    using registry_addr_unique[OF assms lw(1)] by blast
  show ?thesis
    using lw l other by (auto simp: registry_setStatus_def registry_lookup_def split: option.splits)
qed (simp add: registry_setStatus_def)

lemma lookup_unload:
  assumes "registry_wf r"
  shows "registry_lookup (snd (registry_unload i force r)) j =
    (if j = i then (case registry_lookup r i of None \<Rightarrow> None
       | Some (a, e) \<Rightarrow> if mr_inFlight e = [] then None else Some (a, e\<lparr>mr_status := ToolStatusDraining\<rparr>))
     else registry_lookup r j)"
proof (cases "registry_lookup r i")
  case (Some p)
  then obtain a e where l: "registry_lookup r i = Some (a, e)" by (cases p) auto
  note lw = registry_lookup_wf[OF assms l]
  have other: "gm_get (rg_registrations r) j = Some b \<Longrightarrow> j \<noteq> i \<Longrightarrow> b \<noteq> a" for j b
    using registry_addr_unique[OF assms lw(1)] by blast
  show ?thesis
    using lw l other by (auto simp: registry_unload_def Let_def registry_lookup_def split: option.splits)
qed (simp add: registry_unload_def)

lemma lookup_register:
  assumes "registry_wf r"
  shows "registry_lookup (snd (registry_register rn replace r)) j =
    (if j = reg_id rn \<and> (\<exists>x. fst (registry_register rn replace r) = Inr x)
     then Some (rg_next r, \<lparr>mr_registration = rn, mr_generation = rg_generation r + 1, mr_status = ToolStatusActive,
              mr_inFlight = [], mr_nextLeaseID = 0\<rparr>)
     else registry_lookup r j)"
proof -
  have "gm_get (rg_registrations r) i = Some b \<Longrightarrow> b \<noteq> rg_next r" for i b
    using registry_wfD(3)[OF assms, of i b] registry_wfD(4)[OF assms, of b] by auto
  then show ?thesis by (auto simp: registry_register_def registry_lookup_def split: option.splits)
qed

text \<open>Leasing and releasing keep a lookup up to the lease book-keeping, except that the last release of a
  draining entry removes it.\<close>

definition same_reg :: "(nat \<times> 'f managed_registration) option \<Rightarrow> (nat \<times> 'f managed_registration) option \<Rightarrow> bool" where
  "same_reg x y \<longleftrightarrow> (case (x, y) of (None, None) \<Rightarrow> True
     | (Some (a, m), Some (b, n)) \<Rightarrow> a = b \<and> mr_registration m = mr_registration n \<and>
         mr_generation m = mr_generation n \<and> mr_status m = mr_status n
     | _ \<Rightarrow> False)"

lemma same_reg_refl [simp]: "same_reg x x"
  by (simp add: same_reg_def split: option.splits prod.splits)

lemma sync_same_reg: "same_reg x y \<Longrightarrow> sync_at x c \<Longrightarrow> sync_at y c"
  by (auto simp: same_reg_def sync_at_def split: option.splits)

lemma sync_drained: "sync_at (Some (a, m)) c \<Longrightarrow> mr_status m = ToolStatusDraining \<Longrightarrow> sync_at None c"
  by (auto simp: sync_at_def split: option.splits)

lemma lookup_acquire:
  assumes "registry_wf r"
  shows "same_reg (registry_lookup r j) (registry_lookup (snd (registry_acquire i g r)) j)"
proof (cases "registry_lookup r i")
  case (Some p)
  then obtain a e where l: "registry_lookup r i = Some (a, e)" by (cases p) auto
  show ?thesis
    using registry_lookup_wf[OF assms l] l
    by (auto simp: registry_acquire_def Let_def registry_lookup_def same_reg_def split: option.splits)
qed (simp add: registry_acquire_def)

lemma lookup_release:
  assumes "registry_wf r"
  shows "same_reg (registry_lookup r j) (registry_lookup (registry_release b n r) j) \<or>
    registry_lookup (registry_release b n r) j = None \<and>
      (\<exists>a m. registry_lookup r j = Some (a, m) \<and> mr_status m = ToolStatusDraining)"
proof (cases "gm_get (rg_entries r) b")
  case (Some e)
  show ?thesis
  proof (cases "gm_get (rg_registrations r) j = Some b")
    case True
    then have j: "entry_id e = j" using registry_wfD(3)[OF assms, of j b] Some by auto
    have l: "registry_lookup r j = Some (b, e)" using True Some by (simp add: registry_lookup_def)
    show ?thesis
    proof (cases "n \<in> set (mr_inFlight e) \<and> mr_status e = ToolStatusDraining \<and> removeAll n (mr_inFlight e) = []")
      case gone: True
      then have "registry_lookup (registry_release b n r) j = None"
        using Some True j by (simp add: registry_release_def Let_def registry_lookup_def)
      with l gone show ?thesis by simp
    next
      case False
      then have "same_reg (Some (b, e)) (registry_lookup (registry_release b n r) j)"
        using Some True by (auto simp: registry_release_def Let_def registry_lookup_def same_reg_def)
      with l show ?thesis by simp
    qed
  next
    case False
    then have "gm_get (rg_registrations (registry_release b n r)) j = gm_get (rg_registrations r) j"
      using Some by (auto simp: registry_release_def Let_def)
    moreover have "gm_get (rg_entries (registry_release b n r)) a = gm_get (rg_entries r) a" if "a \<noteq> b" for a
      using Some that by (simp add: registry_release_def Let_def)
    ultimately have "registry_lookup (registry_release b n r) j = registry_lookup r j"
      using False by (auto simp: registry_lookup_def split: option.split)
    then show ?thesis by simp
  qed
qed (simp add: registry_release_def)

subsection \<open>Life-cycle operations keep them in step\<close>

lemma sync_set_both:
  assumes g: "eng_sync g" and ok: "fst (registry_setStatus i st (eng_registry g)) = Inr x"
  shows "eng_sync (g\<lparr>eng_registry := snd (registry_setStatus i st (eng_registry g)),
                    eng_catalog := snd (catalog_setStatus i st (eng_catalog g))\<rparr>)"
proof -
  from ok have "registry_lookup (eng_registry g) i \<noteq> None"
    by (auto simp: registry_setStatus_def split: option.splits)
  then have "sync_at (registry_lookup (snd (registry_setStatus i st (eng_registry g))) j)
      (gm_get (cat_entries (snd (catalog_setStatus i st (eng_catalog g)))) j)" for j
    using eng_syncD(3)[OF g, of j] ok
    by (auto simp: lookup_setStatus[OF eng_syncD(1)[OF g]] get_setStatus sync_at_def split: option.splits)
  then show ?thesis
    using eng_syncD[OF g] by (simp add: eng_sync_def setStatus_wf catalog_setStatus_wf)
qed

lemma sync_drain_missing:
  assumes g: "eng_sync g" and none: "registry_lookup (eng_registry g) i = None"
  shows "eng_sync (g\<lparr>eng_catalog := snd (catalog_setStatus i ToolStatusDraining (eng_catalog g))\<rparr>)"
proof -
  have "sync_at (registry_lookup (eng_registry g) j)
      (gm_get (cat_entries (snd (catalog_setStatus i ToolStatusDraining (eng_catalog g)))) j)" for j
    using eng_syncD(3)[OF g, of j] none by (auto simp: get_setStatus sync_at_def split: option.splits)
  then show ?thesis
    using eng_syncD[OF g] by (simp add: eng_sync_def catalog_setStatus_wf)
qed

text \<open>Draining fails only on an unknown tool.\<close>

lemma setStatus_draining:
  assumes "registry_wf r"
  shows "registry_lookup r i = None \<Longrightarrow> registry_setStatus i ToolStatusDraining r = (Inl (errw ErrToolNotFound (tool_id_String i)), r)"
    "registry_lookup r i \<noteq> None \<Longrightarrow> \<exists>x. fst (registry_setStatus i ToolStatusDraining r) = Inr x"
proof -
  show "registry_lookup r i = None \<Longrightarrow> registry_setStatus i ToolStatusDraining r = (Inl (errw ErrToolNotFound (tool_id_String i)), r)"
    by (simp add: registry_setStatus_def)
  assume "registry_lookup r i \<noteq> None"
  then obtain a e where l: "registry_lookup r i = Some (a, e)" by auto
  with registry_lookup_wf(4)[OF assms l] show "\<exists>x. fst (registry_setStatus i ToolStatusDraining r) = Inr x"
    by (cases "mr_status e") (simp_all add: registry_setStatus_def validStatusTransition_def)
qed

text \<open>What one round of the replacement loop does, once its guards have passed.\<close>

definition drain_one :: "tool_id \<Rightarrow> 'f engine \<Rightarrow> 'f engine" where
  "drain_one i g = g\<lparr>eng_registry := snd (registry_setStatus i ToolStatusDraining (eng_registry g)),
     eng_catalog := snd (catalog_setStatus i ToolStatusDraining (eng_catalog g))\<rparr>"

lemma drain_one_sync:
  assumes "eng_sync g"
  shows "eng_sync (drain_one i g)"
proof (cases "registry_lookup (eng_registry g) i")
  case None
  with setStatus_draining(1)[OF eng_syncD(1)[OF assms] None] sync_drain_missing[OF assms None]
  show ?thesis by (simp add: drain_one_def)
next
  case (Some p)
  with setStatus_draining(2)[OF eng_syncD(1)[OF assms]] obtain x where
    "fst (registry_setStatus i ToolStatusDraining (eng_registry g)) = Inr x" by blast
  from sync_set_both[OF assms this] show ?thesis by (simp add: drain_one_def)
qed

lemma drain_replaced_Cons:
  assumes "eng_sync g"
  shows "drain_replaced rn (entry # rest) g =
    (if src_ID (td_Source (ce_descriptor entry)) \<noteq> src_ID (td_Source (reg_Descriptor rn))
     then (Inl (foreign_source_err rn (ce_descriptor entry)), g)
     else drain_replaced rn rest (if td_ID (ce_descriptor entry) = reg_id rn then g else drain_one (td_ID (ce_descriptor entry)) g))"
proof (cases "registry_lookup (eng_registry g) (td_ID (ce_descriptor entry))")
  case None
  with setStatus_draining(1)[OF eng_syncD(1)[OF assms] None] show ?thesis
    by (simp add: Let_def drain_one_def)
next
  case (Some p)
  with setStatus_draining(2)[OF eng_syncD(1)[OF assms]] obtain x where
    "fst (registry_setStatus (td_ID (ce_descriptor entry)) ToolStatusDraining (eng_registry g)) = Inr x" by blast
  then obtain r' where "registry_setStatus (td_ID (ce_descriptor entry)) ToolStatusDraining (eng_registry g) = (Inr x, r')"
    by (metis prod.collapse)
  then show ?thesis by (simp add: Let_def drain_one_def)
qed

lemma drain_replaced_sync: "eng_sync g \<Longrightarrow> eng_sync (snd (drain_replaced rn es g))"
proof (induction es arbitrary: g)
  case (Cons e es)
  then show ?case
    by (simp del: drain_replaced.simps(2) add: drain_replaced_Cons drain_one_sync)
qed simp

lemma sync_register:
  assumes g: "eng_sync g" and ok: "registry_register rn replace (eng_registry g) = (Inr gen, r')"
    and rn: "reg_Factory rn \<noteq> None" "ValidateDescriptor (reg_Descriptor rn) = None"
  shows "eng_sync (g\<lparr>eng_registry := r', eng_catalog := snd (catalog_upsert (reg_Descriptor rn) gen ToolStatusActive (eng_catalog g))\<rparr>)"
proof -
  from ok have r': "r' = snd (registry_register rn replace (eng_registry g))"
    and gen: "gen = rg_generation (eng_registry g) + 1" "fst (registry_register rn replace (eng_registry g)) = Inr gen"
    by (auto simp: registry_register_def split: if_splits)
  have "sync_at (registry_lookup r' j)
      (gm_get (cat_entries (snd (catalog_upsert (reg_Descriptor rn) gen ToolStatusActive (eng_catalog g)))) j)" for j
    using eng_syncD(3)[OF g, of j] gen rn ValidateDescriptor_wf
    by (auto simp: r' lookup_register[OF eng_syncD(1)[OF g]] get_upsert sync_at_def)
  then show ?thesis
    using eng_syncD[OF g] register_wf[of "eng_registry g" rn replace]
    by (simp add: eng_sync_def upsert_wf r')
qed

lemma engine_register_sync:
  assumes "eng_sync g"
  shows "eng_sync (snd (engine_register rn replace g))"
proof -
  define g1 where "g1 = (if replace then drain_replaced rn (catalog_byModelName (tid_Namespace (reg_id rn)) (tid_Name (reg_id rn)) (eng_catalog g)) g
      else (Inr (), g))"
  have g1: "eng_sync (snd g1)" using drain_replaced_sync[OF assms] assms by (simp add: g1_def)
  have reg_err: "fst (registry_register rn replace r) = Inl err \<Longrightarrow> snd (registry_register rn replace r) = r" for err and r :: "'a registry"
    by (auto simp: registry_register_def split: if_splits)
  show ?thesis
  proof (cases "reg_Factory rn = None \<or> ValidateDescriptor (reg_Descriptor rn) \<noteq> None")
    case True
    with assms show ?thesis by (auto simp: engine_register_def)
  next
    case False
    obtain o1 e1 where e1: "g1 = (o1, e1)" by (cases g1)
    obtain o2 r' where r': "registry_register rn replace (eng_registry e1) = (o2, r')"
      by (cases "registry_register rn replace (eng_registry e1)")
    have "eng_sync (e1\<lparr>eng_registry := r'\<rparr>)" if "o2 = Inl err" for err
      using reg_err[of "eng_registry e1"] r' that g1 e1 by simp
    with sync_register[of e1 rn replace _ r'] False r' e1 g1 assms show ?thesis
      by (auto simp: engine_register_def Let_def g1_def[symmetric] split: sum.split)
  qed
qed

lemma engine_setStatus_sync:
  assumes "eng_sync g"
  shows "eng_sync (snd (engine_setStatus verb st i g))"
proof -
  obtain o1 r' where r': "registry_setStatus i st (eng_registry g) = (o1, r')"
    by (cases "registry_setStatus i st (eng_registry g)")
  have same: "r' = eng_registry g" if "o1 = Inl err" for err
    using r' that by (auto simp: registry_setStatus_def split: option.splits if_splits)
  obtain o2 ok c' where c': "catalog_setStatus i st (eng_catalog g) = ((o2, ok), c')"
    by (metis prod.collapse)
  show ?thesis
    using same assms sync_set_both[OF assms, of i st] r' c'
    by (auto simp: engine_setStatus_def split: sum.split)
qed

lemma engine_Unload_sync:
  assumes "eng_sync g"
  shows "eng_sync (snd (engine_Unload i force g))"
proof -
  note wf = eng_syncD(1)[OF assms]
  obtain o1 r' where r': "registry_unload i force (eng_registry g) = (o1, r')"
    by (cases "registry_unload i force (eng_registry g)")
  then have r'_eq: "r' = snd (registry_unload i force (eng_registry g))" by simp
  show ?thesis
  proof (cases o1)
    case (Inl err)
    with r' have "r' = eng_registry g"
      by (auto simp: registry_unload_def Let_def split: option.splits if_splits)
    with Inl r' assms show ?thesis by (simp add: engine_Unload_def)
  next
    case (Inr p)
    then obtain gen complete where p: "o1 = Inr (gen, complete)" by (cases p) auto
    with r' have cm: "\<exists>a e. registry_lookup (eng_registry g) i = Some (a, e) \<and> complete = (mr_inFlight e = [])"
      by (auto simp: registry_unload_def Let_def split: option.splits if_splits)
    let ?c = "if complete then snd (catalog_remove i (eng_catalog g))
              else snd (catalog_setStatus i ToolStatusDraining (eng_catalog g))"
    have "sync_at (registry_lookup r' j) (gm_get (cat_entries ?c) j)" for j
      using eng_syncD(3)[OF assms, of j] cm
      by (auto simp: r'_eq lookup_unload[OF wf] get_remove get_setStatus sync_at_def split: option.splits)
    moreover have "catalog_wf ?c" using eng_syncD(2)[OF assms] by (simp add: remove_wf catalog_setStatus_wf)
    ultimately show ?thesis
      using r' p unload_wf[OF wf, of i force] by (simp add: engine_Unload_def eng_sync_def)
  qed
qed

lemma sync_registry_only:
  assumes "eng_sync g" "registry_wf r'"
    "\<And>j. same_reg (registry_lookup (eng_registry g) j) (registry_lookup r' j) \<or>
      registry_lookup r' j = None \<and> (\<exists>a m. registry_lookup (eng_registry g) j = Some (a, m) \<and> mr_status m = ToolStatusDraining)"
  shows "eng_sync (g\<lparr>eng_registry := r'\<rparr>)"
proof -
  have "sync_at (registry_lookup r' j) (gm_get (cat_entries (eng_catalog g)) j)" for j
    using assms(3)[of j] eng_syncD(3)[OF assms(1), of j] sync_same_reg sync_drained by metis
  with assms(2) eng_syncD(2)[OF assms(1)] show ?thesis by (simp add: eng_sync_def)
qed

lemma release_sync: "eng_sync g \<Longrightarrow> eng_sync (g\<lparr>eng_registry := registry_release a n (eng_registry g)\<rparr>)"
  by (rule sync_registry_only) (use lookup_release[OF eng_syncD(1)] release_wf[OF eng_syncD(1)] in blast)+

lemma acquire_sync: "eng_sync g \<Longrightarrow> eng_sync (g\<lparr>eng_registry := snd (registry_acquire i k (eng_registry g))\<rparr>)"
  by (rule sync_registry_only) (use lookup_acquire[OF eng_syncD(1)] acquire_wf[OF eng_syncD(1)] in blast)+

lemma execute_begin_snd:
  "snd (execute_begin policy sha now snapshot invocation grant g) =
     (case execute_check policy sha now snapshot invocation grant of
        Inl err \<Rightarrow> g
      | Inr (inv2, exposed) \<Rightarrow> g\<lparr>eng_registry := snd (registry_acquire (call_ID (inv_Call inv2))
          (exp_RegistrationGeneration exposed) (eng_registry g))\<rparr>)"
  by (simp add: execute_begin_def split: sum.split prod.split)

lemma execute_begin_sync: "eng_sync g \<Longrightarrow> eng_sync (snd (execute_begin policy sha now snapshot invocation grant g))"
  by (simp add: execute_begin_snd acquire_sync split: sum.split prod.split)

subsection \<open>Reachable engines\<close>

text \<open>The life-cycle operations and the two ends of calls, interleaved in any order.\<close>

inductive eng_step :: "'f engine \<Rightarrow> 'f engine \<Rightarrow> bool" where
  "eng_step g (snd (engine_Register rn g))"
| "eng_step g (snd (engine_Replace rn g))"
| "eng_step g (snd (engine_Enable i g))"
| "eng_step g (snd (engine_Disable i g))"
| "eng_step g (snd (engine_Drain i g))"
| "eng_step g (snd (engine_Unload i force g))"
| "eng_step g (snd (execute_begin policy sha now snapshot invocation grant g))"
| "eng_step g (g\<lparr>eng_registry := registry_release a n (eng_registry g)\<rparr>)"

inductive eng_reachable :: "'f engine \<Rightarrow> bool" where
  eng_init: "eng_reachable NewEngine"
| eng_next: "eng_reachable g \<Longrightarrow> eng_step g h \<Longrightarrow> eng_reachable h"

lemma NewEngine_sync: "eng_sync NewEngine"
  by (simp add: eng_sync_def NewEngine_def sync_at_def) (simp add: NewRegistry_def NewCatalog_def registry_lookup_def)

lemma eng_step_sync: "eng_step g h \<Longrightarrow> eng_sync g \<Longrightarrow> eng_sync h"
  by (induction rule: eng_step.induct)
    (simp_all add: engine_Register_def engine_Replace_def engine_Enable_def engine_Disable_def engine_Drain_def
      engine_register_sync engine_setStatus_sync engine_Unload_sync execute_begin_sync release_sync)

lemma eng_reachable_sync: "eng_reachable g \<Longrightarrow> eng_sync g"
  by (induction rule: eng_reachable.induct) (auto intro: NewEngine_sync eng_step_sync)

lemma engine_registered_factory:
  "eng_sync g \<Longrightarrow> registry_lookup (eng_registry g) i = Some (a, m) \<Longrightarrow> reg_Factory (mr_registration m) \<noteq> None"
  using eng_syncD(3)[of g i] by (auto simp: sync_at_def split: option.splits)

section \<open>One live tool per model-visible name\<close>

abbreviation live :: "catalog \<Rightarrow> tool_id \<Rightarrow> bool" where
  "live c i \<equiv> \<exists>e. gm_get (cat_entries c) i = Some e \<and> ce_status e \<noteq> ToolStatusDraining"

definition name_unique :: "catalog \<Rightarrow> bool" where
  "name_unique c \<longleftrightarrow> (\<forall>i j. live c i \<longrightarrow> live c j \<longrightarrow> tid_Namespace i = tid_Namespace j \<longrightarrow> tid_Name i = tid_Name j \<longrightarrow> i = j)"

lemma name_unique_mono: "(\<And>i. live c' i \<Longrightarrow> live c i) \<Longrightarrow> name_unique c \<Longrightarrow> name_unique c'"
  unfolding name_unique_def by blast

lemma live_drain_one: "live (eng_catalog (drain_one i g)) j \<longleftrightarrow> j \<noteq> i \<and> live (eng_catalog g) j"
  by (auto simp: drain_one_def get_setStatus)

lemma live_skip_or_drain:
  "live (eng_catalog (if b then g else drain_one i g)) j \<Longrightarrow> live (eng_catalog g) j"
  using live_drain_one[of i g j] by (auto split: if_splits)

lemma drain_replaced_live:
  assumes "eng_sync g" "drain_replaced rn es g = (res, g')" "live (eng_catalog g') j"
  shows "live (eng_catalog g) j"
  using assms
proof (induction es arbitrary: g)
  case (Cons x es)
  let ?i = "td_ID (ce_descriptor x)"
  let ?g = "if ?i = reg_id rn then g else drain_one ?i g"
  have sync: "eng_sync ?g" using Cons.prems(1) drain_one_sync by auto
  from Cons.prems(1,2) have "g' = g \<or> drain_replaced rn es ?g = (res, g')"
    by (auto simp del: drain_replaced.simps(2) simp: drain_replaced_Cons split: if_splits)
  with Cons.IH[OF sync _ Cons.prems(3)] live_skip_or_drain[of "?i = reg_id rn" g ?i j] Cons.prems(3)
  show ?case by blast
qed simp

lemma drain_replaced_drained:
  assumes "eng_sync g" "drain_replaced rn es g = (Inr (), g')" "e \<in> set es" "td_ID (ce_descriptor e) \<noteq> reg_id rn"
  shows "\<not> live (eng_catalog g') (td_ID (ce_descriptor e))"
  using assms
proof (induction es arbitrary: g)
  case (Cons x es)
  let ?i = "td_ID (ce_descriptor x)"
  let ?g = "if ?i = reg_id rn then g else drain_one ?i g"
  have sync: "eng_sync ?g" using Cons.prems(1) drain_one_sync by auto
  from Cons.prems(1,2) have rest: "drain_replaced rn es ?g = (Inr (), g')"
    by (auto simp del: drain_replaced.simps(2) simp: drain_replaced_Cons split: if_splits)
  show ?case
  proof (cases "e \<in> set es")
    case True
    from Cons.IH[OF sync rest True Cons.prems(4)] show ?thesis .
  next
    case False
    with Cons.prems(3) have "e = x" by simp
    with Cons.prems(4) have "\<not> live (eng_catalog ?g) (td_ID (ce_descriptor e))"
      using live_drain_one[of ?i g ?i] by auto
    with drain_replaced_live[OF sync rest] show ?thesis by blast
  qed
qed simp

lemma register_name_unique:
  assumes sync: "eng_sync g" and u: "name_unique (eng_catalog g)"
  shows "name_unique (eng_catalog (snd (engine_register rn replace g)))"
proof -
  let ?ex = "catalog_byModelName (tid_Namespace (reg_id rn)) (tid_Name (reg_id rn)) (eng_catalog g)"
  define g1 where "g1 = (if replace then drain_replaced rn ?ex g else (Inr (), g))"
  obtain res e1 where e1: "g1 = (res, e1)" by (cases g1)
  have sub: "live (eng_catalog e1) j \<Longrightarrow> live (eng_catalog g) j" for j
    using drain_replaced_live[OF sync, of rn ?ex res e1] e1 by (auto simp: g1_def split: if_splits)
  have u1: "name_unique (eng_catalog e1)" by (rule name_unique_mono[OF sub u])
  have clear: "j = reg_id rn"
    if ok: "res = Inr ()" "replace \<or> ?ex = []" and j: "live (eng_catalog e1) j"
      and nm: "tid_Namespace j = tid_Namespace (reg_id rn)" "tid_Name j = tid_Name (reg_id rn)" for j
  proof (rule ccontr)
    assume ne: "j \<noteq> reg_id rn"
    from sub[OF j] obtain e where e: "gm_get (cat_entries (eng_catalog g)) j = Some e" by auto
    with nm byModelName_iff[OF eng_syncD(2)[OF sync]] have mem: "e \<in> set ?ex" by blast
    with ok(2) have "replace" by auto
    with e1 ok have "drain_replaced rn ?ex g = (Inr (), e1)" by (simp add: g1_def)
    with drain_replaced_drained[OF sync this mem] catalog_wfD(2)[OF eng_syncD(2)[OF sync] e] ne j
    show False by auto
  qed
  have upsert: "name_unique (snd (catalog_upsert (reg_Descriptor rn) gen ToolStatusActive (eng_catalog e1)))"
    if "res = Inr ()" "replace \<or> ?ex = []" for gen
    using u1 clear[OF that] unfolding name_unique_def get_upsert by (auto split: if_splits; metis)
  show ?thesis
    using u u1 upsert e1
    by (auto simp: engine_register_def Let_def g1_def[symmetric] split: option.split sum.split prod.split)
qed

lemma draining_final: "validStatusTransition ToolStatusDraining st \<longleftrightarrow> st = ToolStatusDraining"
  by (auto simp: validStatusTransition_def)

lemma setStatus_not_draining:
  assumes "eng_sync g" "registry_setStatus i st (eng_registry g) = (Inr x, r')" "st \<noteq> ToolStatusDraining"
  shows "live (eng_catalog g) i"
proof -
  from assms(2,3) obtain a m where m: "registry_lookup (eng_registry g) i = Some (a, m)" "mr_status m \<noteq> ToolStatusDraining"
    by (auto simp: registry_setStatus_def split: option.splits if_splits)
      (metis draining_final)
  with eng_syncD(3)[OF assms(1), of i] show ?thesis by (auto simp: sync_at_def split: option.splits)
qed

lemma setStatus_name_unique:
  assumes sync: "eng_sync g" and u: "name_unique (eng_catalog g)"
  shows "name_unique (eng_catalog (snd (engine_setStatus verb st i g)))"
proof (rule name_unique_mono[OF _ u])
  fix j assume "live (eng_catalog (snd (engine_setStatus verb st i g))) j"
  then show "live (eng_catalog g) j"
    using setStatus_not_draining[OF sync, of i st] get_setStatus[of i st "eng_catalog g" j]
    by (cases "registry_setStatus i st (eng_registry g)")
      (auto simp: engine_setStatus_def split: sum.splits prod.splits if_splits)
qed

lemma unload_name_unique:
  assumes "name_unique (eng_catalog g)"
  shows "name_unique (eng_catalog (snd (engine_Unload i force g)))"
  by (rule name_unique_mono[OF _ assms])
    (auto simp: engine_Unload_def get_remove get_setStatus split: sum.splits prod.splits if_splits)

lemma begin_catalog [simp]: "eng_catalog (snd (execute_begin policy sha now snapshot invocation grant g)) = eng_catalog g"
  by (simp add: execute_begin_snd split: sum.split prod.split)

lemma eng_reachable_unique: "eng_reachable g \<Longrightarrow> name_unique (eng_catalog g)"
proof (induction rule: eng_reachable.induct)
  case eng_init
  then show ?case by (simp add: name_unique_def NewEngine_def NewCatalog_def)
next
  case (eng_next g h)
  from eng_next(2,3) eng_reachable_sync[OF eng_next(1)] show ?case
    by (induction rule: eng_step.induct)
      (simp_all add: engine_Register_def engine_Replace_def engine_Enable_def engine_Disable_def engine_Drain_def
        register_name_unique setStatus_name_unique unload_name_unique)
qed

section \<open>Properties of the engine\<close>

text \<open>In every reachable engine, whatever calls are in flight, at most one tool per model-visible name
  is not draining, so a name a model calls never stands for two live tools.\<close>

lemma live_name_unique:
  assumes "eng_reachable g"
    "gm_get (cat_entries (eng_catalog g)) i = Some e" "ce_status e \<noteq> ToolStatusDraining"
    "gm_get (cat_entries (eng_catalog g)) j = Some f" "ce_status f \<noteq> ToolStatusDraining"
    "tid_Namespace i = tid_Namespace j" "tid_Name i = tid_Name j"
  shows "i = j"
  using eng_reachable_unique[OF assms(1)] assms(2-) unfolding name_unique_def by blast

text \<open>Every tool of a snapshot just built from a reachable engine can be leased under the generation
  the snapshot gives, and the lease is on the registration with the disclosed descriptor: registry and
  catalog never disagree about a disclosed tool.\<close>

lemma fresh_snapshot_leasable:
  assumes "eng_reachable g" "engine_BuildSnapshot vis rnd now g req = Inr s" "t \<in> set (snap_Tools s)"
  shows "\<exists>lease r'. registry_acquire (td_ID (exp_Descriptor t)) (exp_RegistrationGeneration t) (eng_registry g) = (Inr lease, r') \<and>
    reg_Descriptor (lease_registration lease) = exp_Descriptor t \<and> reg_Factory (lease_registration lease) \<noteq> None"
proof -
  note sync = eng_reachable_sync[OF assms(1)]
  from snapshot_tool_entry[OF eng_syncD(2)[OF sync] assms(2)[unfolded engine_BuildSnapshot_def] assms(3)]
  obtain e c where ec: "gm_get (cat_entries (eng_catalog g)) (td_ID (exp_Descriptor t)) = Some e"
    "candidate_of vis req e = Some c" "t = expose c" "rk_entry c = e" by blast
  then have e: "gm_get (cat_entries (eng_catalog g)) (td_ID (exp_Descriptor t)) = Some e"
    "ce_status e = ToolStatusActive" "ce_descriptor e = exp_Descriptor t"
    "ce_registrationGeneration e = exp_RegistrationGeneration t"
    using candidate_ofD(2)[OF ec(2)] by simp_all
  with eng_syncD(3)[OF sync, of "td_ID (exp_Descriptor t)"] obtain a m where
    m: "registry_lookup (eng_registry g) (td_ID (exp_Descriptor t)) = Some (a, m)" "mr_status m = ToolStatusActive"
    "mr_generation m = exp_RegistrationGeneration t" "reg_Descriptor (mr_registration m) = exp_Descriptor t"
    "reg_Factory (mr_registration m) \<noteq> None"
    by (auto simp: sync_at_def split: option.splits)
  then show ?thesis by (auto simp: registry_acquire_Inr_iff)
qed

lemma execute_check_Inr:
  assumes "execute_check policy sha now snapshot invocation grant = Inr (inv2, exposed)"
  shows "snapshot_Find snapshot (call_ID (inv_Call invocation)) = Some exposed"
    "descriptorMatchesSession (exp_Descriptor exposed) (bind_SessionKind (inv_Binding invocation))"
    "validateAttachmentGeneration snapshot (bind_Attachment (inv_Binding invocation)) = None"
    "inv_ID inv2 = inv_ID invocation" "inv_Binding inv2 = inv_Binding invocation"
    "call_ID (inv_Call inv2) = call_ID (inv_Call invocation)"
    "inv_RegistrationGeneration inv2 = exp_RegistrationGeneration exposed"
    "\<exists>d. policy (invocation\<lparr>inv_RegistrationGeneration := exp_RegistrationGeneration exposed\<rparr>) (exp_Descriptor exposed) = Inr d \<and>
       decision_blocks sha now snapshot grant inv2 d = None"
    "policy (invocation\<lparr>inv_RegistrationGeneration := exp_RegistrationGeneration exposed\<rparr>) (exp_Descriptor exposed) = Inr dc \<Longrightarrow>
       call_Input (inv_Call inv2) = (if dec_NormalizedInput dc = [] then call_Input (inv_Call invocation) else dec_NormalizedInput dc)"
  using assms
  by (auto simp: execute_check_def Let_def split: if_splits option.splits sum.splits)

lemma decision_blocks_None:
  "decision_blocks sha now snapshot grant invocation d = None \<longleftrightarrow>
     dec_Effect d = DecisionAllow \<or>
     dec_Effect d = DecisionRequireApproval \<and> (\<exists>gr. grant = Some gr \<and> grant_validates sha gr invocation snapshot now)"
  by (auto simp: decision_blocks_def split: decision_effect.splits option.splits)

lemma execute_begin_Inr:
  assumes "execute_begin policy sha now snapshot invocation grant g = (Inr (inv2, exposed, lease), g')"
  shows "execute_check policy sha now snapshot invocation grant = Inr (inv2, exposed)"
    "registry_acquire (call_ID (inv_Call inv2)) (exp_RegistrationGeneration exposed) (eng_registry g) = (Inr lease, eng_registry g')"
    "g' = g\<lparr>eng_registry := eng_registry g'\<rparr>"
  using assms by (auto simp: execute_begin_def split: sum.splits prod.splits)

lemma execute_begin_Inl:
  assumes "fst (execute_begin policy sha now snapshot invocation grant g) = Inl err"
  shows "execute_begin policy sha now snapshot invocation grant g = (Inl err, g)"
  using assms by (auto simp: execute_begin_def split: sum.splits prod.splits dest: registry_acquire_Inl)

text \<open>C1: a call gets as far as binding an executor only for a tool of its snapshot that its session kind
  may use, on an active registration of exactly the disclosed generation, with the attachment
  generation of the snapshot, and only when the policy allows it or requires approval and the caller
  holds a grant that validates the very call about to run (normalized input included).\<close>

theorem execution_is_authorized:
  assumes "execute_begin policy sha now snapshot invocation grant g = (Inr (inv2, exposed, lease), g')"
  shows "exposed \<in> set (snap_Tools snapshot) \<and> td_ID (exp_Descriptor exposed) = call_ID (inv_Call inv2) \<and>
    descriptorMatchesSession (exp_Descriptor exposed) (bind_SessionKind (inv_Binding inv2)) \<and>
    validateAttachmentGeneration snapshot (bind_Attachment (inv_Binding inv2)) = None \<and>
    (\<exists>a m. registry_lookup (eng_registry g) (call_ID (inv_Call inv2)) = Some (a, m) \<and> mr_status m = ToolStatusActive \<and>
       mr_generation m = exp_RegistrationGeneration exposed \<and> lease_registration lease = mr_registration m) \<and>
    (\<exists>d. policy (invocation\<lparr>inv_RegistrationGeneration := exp_RegistrationGeneration exposed\<rparr>) (exp_Descriptor exposed) = Inr d \<and>
       (dec_Effect d = DecisionAllow \<or>
        dec_Effect d = DecisionRequireApproval \<and> (\<exists>gr. grant = Some gr \<and> grant_validates sha gr inv2 snapshot now)))"
proof -
  note b = execute_begin_Inr[OF assms]
  note c = execute_check_Inr[OF b(1)]
  have "\<exists>a m. registry_lookup (eng_registry g) (call_ID (inv_Call inv2)) = Some (a, m) \<and> mr_status m = ToolStatusActive \<and>
       mr_generation m = exp_RegistrationGeneration exposed \<and> lease_registration lease = mr_registration m"
    using b(2) by (auto simp: registry_acquire_Inr_iff)
  moreover have "exposed \<in> set (snap_Tools snapshot) \<and> td_ID (exp_Descriptor exposed) = call_ID (inv_Call inv2)"
    using snapshot_Find_Some[OF c(1)] c(6) by simp
  ultimately show ?thesis using c(2,3,5,8) by (simp add: decision_blocks_None)
qed


lemma execute_registry_inv:
  assumes inv: "reg_sys_inv \<lparr>rs_reg = eng_registry g, rs_leases = ls\<rparr>" and c: "counters_ok (eng_registry g)"
    and b: "execute_begin policy sha now snapshot invocation grant g = (Inr (inv2, exposed, lease), g1)"
  shows "reg_sys_inv \<lparr>rs_reg = registry_release (lease_entry lease) (lease_leaseID lease) (eng_registry g1), rs_leases = ls\<rparr>"
proof -
  let ?s = "\<lparr>rs_reg = eng_registry g, rs_leases = ls\<rparr>" and ?l = "(lease_entry lease, lease_leaseID lease)"
  note acq = execute_begin_Inr(2)[OF b]
  have s1: "reg_sys_inv \<lparr>rs_reg = eng_registry g1, rs_leases = ?l # ls\<rparr>"
    using inv_acquire[OF inv _, of _ _ lease "eng_registry g1"] c acq by simp
  have fresh: "?l \<notin> set ls" using acquire_fresh[OF inv _, of _ _ lease "eng_registry g1"] c acq by simp
  have "rg_generation (eng_registry g1) = rg_generation (eng_registry g)"
    using acq by (auto simp: registry_acquire_Inr_iff)
  then have "rg_generation (eng_registry g1) < -1" using counters_okD(1)[OF c] by simp
  with inv_release[OF s1, of "lease_entry lease" "lease_leaseID lease"] fresh show ?thesis by simp
qed

text \<open>C25: a finished call leaves no lease behind: whatever the tool did, the leases outstanding after the
  call are those outstanding before it.\<close>

theorem execute_returns_lease:
  assumes "reg_sys_inv \<lparr>rs_reg = eng_registry g, rs_leases = ls\<rparr>" "counters_ok (eng_registry g)"
    "engine_execute policy sha now bind middleware parent timed snapshot invocation grant g = (res, g')"
    "gm_get (rg_entries (eng_registry g')) a = Some e"
  shows "set (mr_inFlight e) = {n. (a, n) \<in> set ls}"
proof -
  have "reg_sys_inv \<lparr>rs_reg = eng_registry g', rs_leases = ls\<rparr>"
  proof (cases "fst (execute_begin policy sha now snapshot invocation grant g)")
    case (Inl err)
    from execute_begin_Inl[OF Inl] assms(1,3) show ?thesis by (simp add: engine_execute_def)
  next
    case (Inr x)
    then obtain inv2 exposed lease g1 where
      b: "execute_begin policy sha now snapshot invocation grant g = (Inr (inv2, exposed, lease), g1)"
      by (metis prod.collapse)
    from execute_registry_inv[OF assms(1,2) b] assms(3) b show ?thesis
      by (auto simp: engine_execute_def)
  qed
  from reg_sys_invD(2)[OF this] assms(4) show ?thesis by (simp add: entry_ok_def)
qed

lemma drain_replaced_foreign:
  assumes "eng_sync g" "e \<in> set es" "src_ID (td_Source (ce_descriptor e)) \<noteq> src_ID (td_Source (reg_Descriptor rn))"
  shows "\<exists>err g'. drain_replaced rn es g = (Inl err, g') \<and> errors_is err ErrToolUnavailable"
  using assms
proof (induction es arbitrary: g)
  case (Cons x es)
  let ?i = "td_ID (ce_descriptor x)"
  have "eng_sync (if ?i = reg_id rn then g else drain_one ?i g)" using Cons.prems(1) drain_one_sync by auto
  with Cons show ?case
    by (auto simp del: drain_replaced.simps(2) simp: drain_replaced_Cons foreign_source_err_def)
qed simp

lemma drain_replaced_other:
  assumes "eng_sync g" "drain_replaced rn es g = (res, g')"
    "\<And>x. x \<in> set es \<Longrightarrow> td_ID (ce_descriptor x) = i \<Longrightarrow>
       src_ID (td_Source (ce_descriptor x)) \<noteq> src_ID (td_Source (reg_Descriptor rn))"
  shows "gm_get (cat_entries (eng_catalog g')) i = gm_get (cat_entries (eng_catalog g)) i"
  using assms
proof (induction es arbitrary: g)
  case (Cons x es)
  let ?i = "td_ID (ce_descriptor x)"
  let ?g = "if ?i = reg_id rn then g else drain_one ?i g"
  have sync: "eng_sync ?g" using Cons.prems(1) drain_one_sync by auto
  show ?case
  proof (cases "src_ID (td_Source (ce_descriptor x)) \<noteq> src_ID (td_Source (reg_Descriptor rn))")
    case True
    with Cons.prems(1,2) show ?thesis by (simp add: drain_replaced_Cons del: drain_replaced.simps(2))
  next
    case False
    with Cons.prems have rest: "drain_replaced rn es ?g = (res, g')" "?i \<noteq> i"
      by (auto simp: drain_replaced_Cons simp del: drain_replaced.simps(2))
    from Cons.IH[OF sync rest(1)] Cons.prems(3) rest(2) show ?thesis
      by (auto simp: drain_one_def get_setStatus split: if_splits)
  qed
qed simp

text \<open>A tool source never takes over a name of another source: a replacement whose model-visible name
  is held by a tool of a different source fails and leaves that tool's catalog entry as it was.\<close>

lemma replace_respects_owner:
  assumes "eng_reachable g" "gm_get (cat_entries (eng_catalog g)) i = Some e"
    "tid_Namespace i = tid_Namespace (reg_id rn)" "tid_Name i = tid_Name (reg_id rn)"
    "src_ID (td_Source (ce_descriptor e)) \<noteq> src_ID (td_Source (reg_Descriptor rn))"
  shows "(\<exists>err. fst (engine_Replace rn g) = Inl err) \<and>
    gm_get (cat_entries (eng_catalog (snd (engine_Replace rn g)))) i = Some e"
proof -
  note sync = eng_reachable_sync[OF assms(1)]
  note wf = eng_syncD(2)[OF sync]
  let ?ex = "catalog_byModelName (tid_Namespace (reg_id rn)) (tid_Name (reg_id rn)) (eng_catalog g)"
  from assms(2-4) byModelName_iff[OF wf] have mem: "e \<in> set ?ex" by blast
  from drain_replaced_foreign[OF sync mem assms(5)] obtain err g' where
    d: "drain_replaced rn ?ex g = (Inl err, g')" by auto
  have "src_ID (td_Source (ce_descriptor x)) \<noteq> src_ID (td_Source (reg_Descriptor rn))"
    if x: "x \<in> set ?ex" "td_ID (ce_descriptor x) = i" for x
  proof -
    from x(1) obtain j where "gm_get (cat_entries (eng_catalog g)) j = Some x"
      by (auto simp: byModelName_iff[OF wf])
    with catalog_wfD(2)[OF wf] x(2) assms(2,5) show ?thesis by auto
  qed
  from drain_replaced_other[OF sync d this] assms(2) d show ?thesis
    by (auto simp: engine_Replace_def engine_register_def Let_def split: option.split)
qed

section \<open>A half-unloaded tool\<close>

text \<open>
  Unloading a tool with a call in flight leaves the catalog entry draining; when the call ends,
  \<^verbatim>\<open>release\<close> removes the registration but nothing removes the catalog entry.
\<close>


section \<open>Concrete runs\<close>

definition sample_engine :: "unit engine" where
  "sample_engine = snd (engine_Register (sample_registration sample_tool) NewEngine)"

definition sample_snap :: tool_set_snapshot where
  "sample_snap = projr (engine_BuildSnapshot AllowAllVisibility_AllowTool (Inr ''seed'') 5 sample_engine sample_request)"

definition sample_call :: tool_invocation where
  "sample_call = sample_invocation sample_tool ''{}'' \<lparr>inv_Binding := (inv_Binding (sample_invocation sample_tool ''{}''))
     \<lparr>bind_ToolSnapshotID := snap_ID sample_snap\<rparr>\<rparr>"

lemma sample_engine_eval [code]:
  "sample_engine = \<lparr>eng_catalog = snd (catalog_upsert (sample_descriptor sample_tool) 1 ToolStatusActive NewCatalog),
     eng_registry = rs_reg sample_sys\<rparr>"
proof -
  have "tool_id_wf sample_tool" by code_simp
  then show ?thesis
    by (simp add: sample_engine_def engine_Register_def engine_register_def sample_registration_def sample_descriptor_valid
        NewEngine_def NewCatalog_def catalog_byModelName_def sample_sys_def registry_register_def NewRegistry_def
        registry_lookup_def)
qed

lemma sample_engine_reachable: "eng_reachable sample_engine"
  unfolding sample_engine_def by (rule eng_next[OF eng_init]) (rule eng_step.intros)

lemma sample_snap_built:
  "engine_BuildSnapshot AllowAllVisibility_AllowTool (Inr ''seed'') 5 sample_engine sample_request = Inr sample_snap"
  unfolding sample_snap_def sample_engine_eval by code_simp

lemma sample_entry_active: "gm_get (cat_entries (eng_catalog sample_engine)) sample_tool =
    Some \<lparr>ce_descriptor = sample_descriptor sample_tool, ce_registrationGeneration = 1, ce_status = ToolStatusActive\<rparr>"
  by (simp add: sample_engine_eval get_upsert) (simp add: sample_descriptor_def)

lemma sample_snap_tools: "snap_Tools sample_snap = [\<lparr>exp_Descriptor = sample_descriptor sample_tool,
    exp_RegistrationGeneration = 1, exp_EstimatedTokens = estimateDescriptorTokens (sample_descriptor sample_tool)\<rparr>]"
  by code_simp

lemma sample_begin: "\<exists>inv2 exposed lease g'. execute_begin AllowAllPolicy_Evaluate (\<lambda>c. c) 7 sample_snap sample_call None sample_engine =
    (Inr (inv2, exposed, lease), g') \<and> call_Input (inv_Call inv2) = ''{}''"
proof -
  have "(case execute_begin AllowAllPolicy_Evaluate (\<lambda>c. c) 7 sample_snap sample_call None sample_engine of
      (Inl _, _) \<Rightarrow> False | (Inr (inv2, _, _), _) \<Rightarrow> call_Input (inv_Call inv2) = ''{}'')"
    by code_simp
  then show ?thesis by (auto split: prod.splits sum.splits)
qed

theorem execution_is_authorized_witness:
  "\<exists>inv2 exposed lease g'. execute_begin AllowAllPolicy_Evaluate (\<lambda>c. c) 7 sample_snap sample_call None sample_engine =
     (Inr (inv2, exposed, lease), g') \<and> exposed \<in> set (snap_Tools sample_snap)"
proof -
  from sample_begin obtain inv2 exposed lease g' where
    b: "execute_begin AllowAllPolicy_Evaluate (\<lambda>c. c) 7 sample_snap sample_call None sample_engine = (Inr (inv2, exposed, lease), g')"
    by blast
  from execution_is_authorized[OF b] b show ?thesis by blast
qed

definition ask_always :: policy_evaluator where
  "ask_always invocation d = Inr \<lparr>dec_Effect = DecisionRequireApproval, dec_Reason = ''ask'', dec_Risk = td_Risk d,
     dec_ApprovalPolicy = [], dec_NormalizedInput = []\<rparr>"

definition sample_bind :: "unit \<Rightarrow> tool_binding \<Rightarrow> gerr + tool_executor option" where
  "sample_bind f b = Inr (Some \<lparr>ex_Execute = (\<lambda>x. Inr \<lparr>res_Kind = OutputText, res_Content = x, res_IsError = False,
     res_Truncated = False, res_ArtifactID = []\<rparr>), ex_ExecuteInvocation = None\<rparr>)"


theorem execute_returns_lease_witness:
  "\<exists>e. gm_get (rg_entries (eng_registry (snd (engine_execute AllowAllPolicy_Evaluate (\<lambda>c. c) 7 sample_bind [] CtxLive CtxLive
      sample_snap sample_call None sample_engine)))) 0 = Some e \<and> set (mr_inFlight e) = {}"
proof -
  let ?x = "engine_execute AllowAllPolicy_Evaluate (\<lambda>c. c) 7 sample_bind [] CtxLive CtxLive sample_snap sample_call None sample_engine"
  have reg: "eng_registry sample_engine = rs_reg sample_sys" by (simp add: sample_engine_eval)
  have inv: "reg_sys_inv \<lparr>rs_reg = eng_registry sample_engine, rs_leases = []\<rparr>"
    using reg_reachable_inv[OF sample_reachable(3)] by (simp add: reg) (simp add: sample_sys_def)
  have c: "counters_ok (eng_registry sample_engine)" using sample_reachable(4) by (simp add: reg)
  have "gm_get (rg_entries (eng_registry (snd ?x))) 0 \<noteq> None" by code_simp
  then obtain e where e: "gm_get (rg_entries (eng_registry (snd ?x))) 0 = Some e" by auto
  from execute_returns_lease[OF inv c prod.collapse[symmetric] e] e show ?thesis by simp
qed

text \<open>Register, start a call, unload without force, end the call.\<close>

definition sample_half_unloaded :: "unit engine" where
  "sample_half_unloaded =
     (let g1 = snd (execute_begin AllowAllPolicy_Evaluate (\<lambda>c. c) 7 sample_snap sample_call None sample_engine);
          g2 = snd (engine_Unload sample_tool False g1)
      in g2\<lparr>eng_registry := registry_release 0 1 (eng_registry g2)\<rparr>)"

lemma sample_half_unloaded_reachable: "eng_reachable sample_half_unloaded"
  unfolding sample_half_unloaded_def Let_def
  by (rule eng_next[OF eng_next[OF eng_next[OF sample_engine_reachable]]]) (rule eng_step.intros)+


end
