(* ===== verification/Tool_Discovery.thy ===== *)
theory Tool_Discovery
  imports Tool_Engine
begin

text \<open>
  The two discovery tools (src/pkg/liaison/manager/agent/tool/discovery.go): \<^verbatim>\<open>core.tool_search\<close> lists summaries
  of the tools a session may use, \<^verbatim>\<open>core.tool_describe\<close> discloses the schemas of selected ones. Decoding of the
  two input documents and encoding of the two result documents are the parameter \<open>discovery_json\<close>.

  The lemmas: both registrations pass validation and can be registered on a fresh engine, and
  every identifier that a search prints is accepted by a description and denotes the same tool.
\<close>

section \<open>Registrations\<close>

definition discoverySourceID :: string where
  "discoverySourceID = ''liaison-core''"

definition ToolSearchID :: tool_id where
  "ToolSearchID = \<lparr>tid_Namespace = ''core'', tid_Name = ''tool_search'', tid_Version = ''1.0.0''\<rparr>"

definition ToolDescribeID :: tool_id where
  "ToolDescribeID = \<lparr>tid_Namespace = ''core'', tid_Name = ''tool_describe'', tid_Version = ''1.0.0''\<rparr>"

datatype discovery_kind = discoverySearch | discoveryDescribe

text \<open>The two schemas with back quotes for double quotes; \<open>json_quotes\<close> restores them.\<close>

definition json_quotes :: "string \<Rightarrow> bytes" where
  "json_quotes s = map (\<lambda>c. if c = CHR 0x60 then CHR 0x22 else c) s"

definition search_schema :: bytes where
  "search_schema = json_quotes
     ''{`type`:`object`,`properties`:{`query`:{`type`:`string`,`maxLength`:256}},`required`:[`query`],`additionalProperties`:false}''"

definition describe_schema :: bytes where
  "describe_schema = json_quotes
     ''{`type`:`object`,`properties`:{`tool_ids`:{`type`:`array`,`items`:{`type`:`string`},`minItems`:1,`maxItems`:8}},`required`:[`tool_ids`],`additionalProperties`:false}''"

definition discovery_descriptor :: "tool_id \<Rightarrow> string \<Rightarrow> string \<Rightarrow> string \<Rightarrow> bytes \<Rightarrow> tool_descriptor" where
  "discovery_descriptor tid title description whenToUse schema =
     \<lparr>td_SessionKinds = [SessionAccess, SessionManagement], td_Permission = None, td_ID = tid, td_DisplayName = title,
      td_Description = description, td_WhenToUse = whenToUse, td_InputSchema = schema, td_OutputKinds = [OutputFacts],
      td_Protocols = [ProtocolAny], td_Capabilities = [], td_Tags = [], td_Risk = RiskReadOnly, td_Approval = ApprovalNever,
      td_Disclosure = DisclosureAlways, td_DefaultTimeout = 0,
      td_Source = \<lparr>src_ID = discoverySourceID, src_Kind = ''builtin'', src_Trust = TrustBuiltin\<rparr>\<rparr>"

definition search_descriptor :: tool_descriptor where
  "search_descriptor = discovery_descriptor ToolSearchID ''Search tools''
     (json_quotes ''Search the tools available for the current user and attachment. Use query=`` to list all available tools, or concise keywords to search. Results contain summaries, not executable schemas.'')
     (''Use when the currently disclosed tools do not cover the user'' @ [CHR 0x27] @ ''s request.'') search_schema"

definition describe_descriptor :: tool_descriptor where
  "describe_descriptor = discovery_descriptor ToolDescribeID ''Describe tools''
     ''Load the executable JSON schemas for selected tools returned by tool_search.''
     ''Use after tool_search and before calling a deferred tool.'' describe_schema"

text \<open>\<open>factory\<close> makes a tool factory of the development out of \<^verbatim>\<open>discoveryFactory\<close>.\<close>

definition discoveryRegistrations :: "(discovery_kind \<Rightarrow> 'f) \<Rightarrow> 'f tool_registration list" where
  "discoveryRegistrations factory =
     [\<lparr>reg_Descriptor = search_descriptor, reg_Factory = Some (factory discoverySearch)\<rparr>,
      \<lparr>reg_Descriptor = describe_descriptor, reg_Factory = Some (factory discoveryDescribe)\<rparr>]"

fun register_discovery :: "'f tool_registration list \<Rightarrow> 'f engine \<Rightarrow> ('f engine, unit) outcome" where
  "register_discovery [] g = (Inr (), g)"
| "register_discovery (rn # rns) g =
     (case engine_Register rn g of
        (Inl err, g') \<Rightarrow> (Inl (ErrWrap (''register discovery tool '' @ tool_id_String (td_ID (reg_Descriptor rn)) @ '': '') err []), g')
      | (Inr _, g') \<Rightarrow> register_discovery rns g')"

definition RegisterDiscoveryTools :: "(discovery_kind \<Rightarrow> 'f) \<Rightarrow> 'f engine \<Rightarrow> ('f engine, unit) outcome" where
  "RegisterDiscoveryTools factory g = register_discovery (discoveryRegistrations factory) g"

section \<open>Execution\<close>

record discovery_json =
  dj_query :: "bytes \<Rightarrow> gerr + string"
  dj_toolIDs :: "bytes \<Rightarrow> gerr + string list"
  dj_summaries :: "(tool_summary \<times> string) list \<Rightarrow> gerr + bytes"
  dj_descriptors :: "tool_descriptor list \<Rightarrow> gerr + bytes"

definition discovery_request :: "tool_binding \<Rightarrow> disclosure_request" where
  "discovery_request b =
     \<lparr>dr_SessionKind = bind_SessionKind b, dr_Principal = bind_Principal b,
      dr_Attachments = (if att_ID (bind_Attachment b) \<noteq> [] then [bind_Attachment b] else []),
      dr_Primary = (if att_ID (bind_Attachment b) \<noteq> [] then att_ID (bind_Attachment b) else []),
      dr_Query = [], dr_Promoted = [], dr_RecentlyUsed = [], dr_PolicyRevision = [],
      dr_Budget = \<lparr>bud_MaxAlwaysVisible = 0, bud_MaxCandidates = 0, bud_MaxSchemas = 0, bud_MaxTokens = 0\<rparr>\<rparr>"

definition facts_result :: "bytes \<Rightarrow> bool \<Rightarrow> tool_result" where
  "facts_result content isError = \<lparr>res_Kind = OutputFacts, res_Content = content, res_IsError = isError,
     res_Truncated = False, res_ArtifactID = []\<rparr>"

definition invalid_tool_id :: bytes where
  "invalid_tool_id = json_quotes
     ''{`error`:`invalid_tool_id`,`hint`:`Call tool_search, then copy its id string exactly (namespace.name@version) into tool_ids.`}''"

text \<open>The wire form of a search result: the summary with the printed identifier in place of the structured one.\<close>

definition wire_summaries :: "tool_summary list \<Rightarrow> (tool_summary \<times> string) list" where
  "wire_summaries results = map (\<lambda>r. (r, tool_id_String (ts_ID r))) results"

fun parse_tool_ids :: "string list \<Rightarrow> tool_id list option" where
  "parse_tool_ids [] = Some []"
| "parse_tool_ids (v # vs) =
     (case ParseToolID v of Inl _ \<Rightarrow> None | Inr i \<Rightarrow> map_option ((#) i) (parse_tool_ids vs))"

definition discovery_Execute ::
  "discovery_json \<Rightarrow> visibility \<Rightarrow> gerr + bytes \<Rightarrow> gtime \<Rightarrow> 'f engine \<Rightarrow> discovery_kind \<Rightarrow> tool_binding \<Rightarrow> bytes \<Rightarrow> gerr + tool_result" where
  "discovery_Execute js vis rnd now g kind binding input =
     (let request = discovery_request binding in
      case kind of
        discoverySearch \<Rightarrow>
          (case dj_query js input of
             Inl err \<Rightarrow> Inl (ErrWrap ''decode tool search input: '' err [])
           | Inr query \<Rightarrow>
               (case engine_Search vis g request query of
                  Inl err \<Rightarrow> Inl err
                | Inr results \<Rightarrow>
                    (case dj_summaries js (wire_summaries results) of
                       Inl err \<Rightarrow> Inl (ErrWrap ''encode tool search results: '' err [])
                     | Inr content \<Rightarrow> Inr (facts_result content False))))
      | discoveryDescribe \<Rightarrow>
          (case dj_toolIDs js input of
             Inl err \<Rightarrow> Inl (ErrWrap ''decode tool describe input: '' err [])
           | Inr values \<Rightarrow>
               (case parse_tool_ids values of
                  None \<Rightarrow> Inr (facts_result invalid_tool_id True)
                | Some ids \<Rightarrow>
                    (case engine_Describe vis rnd now g request ids of
                       Inl err \<Rightarrow> Inl err
                     | Inr descriptors \<Rightarrow>
                         (case dj_descriptors js descriptors of
                            Inl err \<Rightarrow> Inl (ErrWrap ''encode tool descriptions: '' err [])
                          | Inr content \<Rightarrow> Inr (facts_result content False))))))"

section \<open>The search and description contract\<close>

lemma discovery_valid: "ValidateDescriptor search_descriptor = None" "ValidateDescriptor describe_descriptor = None"
  by code_simp+

lemma parse_tool_ids_print:
  "(\<And>i. i \<in> set is \<Longrightarrow> tool_id_wf i) \<Longrightarrow> parse_tool_ids (map tool_id_String is) = Some is"
  by (induction "is") (simp_all add: parse_print)

lemma active_entry_wf:
  assumes "eng_sync g" "(i, e) \<in> set (cat_entries (eng_catalog g))" "ce_status e = ToolStatusActive"
  shows "tool_id_wf (td_ID (ce_descriptor e))"
proof -
  have "gm_get (cat_entries (eng_catalog g)) i = Some e"
    using assms(2) gm_mem_iff[OF catalog_wfD(1)[OF eng_syncD(2)[OF assms(1)]]] by blast
  with eng_syncD(3)[OF assms(1), of i] assms(3) show ?thesis by (auto simp: sync_at_def split: option.splits)
qed

lemma summary_of_active:
  "summary_of vis req query e = Some (score, sm) \<Longrightarrow> ce_status e = ToolStatusActive \<and> ts_ID sm = td_ID (ce_descriptor e)"
  by (auto simp: summary_of_def admit_entry_def Let_def split: sum.splits option.splits if_splits)

lemma search_wf:
  assumes "eng_reachable g" "engine_Search vis g req query = Inr results" "r \<in> set results"
  shows "tool_id_wf (ts_ID r)"
  using search_members[OF assms(2)[unfolded engine_Search_def] assms(3)] summary_of_active
    active_entry_wf[OF eng_reachable_sync[OF assms(1)]] by metis

text \<open>The identifiers a search prints are accepted by a description: for every reachable engine, giving
  the printed identifiers of a search result to \<^verbatim>\<open>tool_describe\<close> is decoded to exactly the tools that were found, so
  it never answers with the invalid-identifier result.\<close>

lemma search_ids_describable:
  assumes "eng_reachable g" "engine_Search vis g req query = Inr results"
    and "dj_toolIDs js input = Inr (map snd (wire_summaries results))"
    and "engine_Describe vis rnd now g (discovery_request binding) (map ts_ID results) = Inr descriptors"
    and "dj_descriptors js descriptors = Inr content"
  shows "discovery_Execute js vis rnd now g discoveryDescribe binding input = Inr (facts_result content False)"
proof -
  have "map snd (wire_summaries results) = map tool_id_String (map ts_ID results)"
    by (simp add: wire_summaries_def)
  with parse_tool_ids_print[of "map ts_ID results"] search_wf[OF assms(1,2)]
  have "parse_tool_ids (map snd (wire_summaries results)) = Some (map ts_ID results)" by auto
  with assms(3-5) show ?thesis by (simp add: discovery_Execute_def)
qed

definition sample_discovery :: "discovery_kind engine" where
  "sample_discovery = snd (RegisterDiscoveryTools id NewEngine)"

definition sample_discovery_json :: "string list \<Rightarrow> discovery_json" where
  "sample_discovery_json ids = \<lparr>dj_query = (\<lambda>x. Inr x), dj_toolIDs = (\<lambda>x. Inr ids), dj_summaries = (\<lambda>x. Inr (concat (map snd x))),
     dj_descriptors = (\<lambda>ds. Inr (concat (map td_InputSchema ds)))\<rparr>"

lemma register_discovery_reachable:
  assumes "eng_reachable g"
  shows "eng_reachable (snd (register_discovery rns g))"
  using assms
proof (induction rns arbitrary: g)
  case (Cons rn rns)
  have "eng_reachable (snd (engine_Register rn g))" using eng_next[OF Cons.prems eng_step.intros(1)] .
  with Cons.IH show ?case by (auto simp: case_prod_beta split: sum.split)
qed simp

lemma sample_discovery_reachable: "eng_reachable sample_discovery"
  unfolding sample_discovery_def RegisterDiscoveryTools_def by (intro register_discovery_reachable eng_init)

lemma sample_discovery_catalog:
  "cat_entries (eng_catalog sample_discovery) =
     [(ToolSearchID, \<lparr>ce_descriptor = search_descriptor, ce_registrationGeneration = 1, ce_status = ToolStatusActive\<rparr>),
      (ToolDescribeID, \<lparr>ce_descriptor = describe_descriptor, ce_registrationGeneration = 2, ce_status = ToolStatusActive\<rparr>)]"
  by code_simp

lemma sample_search:
  "engine_Search AllowAllVisibility_AllowTool sample_discovery (discovery_request (inv_Binding (sample_invocation ToolSearchID []))) [] =
     Inr (map (\<lambda>d. \<lparr>ts_ID = td_ID d, ts_DisplayName = td_DisplayName d, ts_Description = td_Description d,
       ts_Protocols = td_Protocols d, ts_Risk = td_Risk d, ts_Tags = td_Tags d\<rparr>) [describe_descriptor, search_descriptor])"
  unfolding engine_Search_def disclosure_Search_def sample_discovery_catalog by code_simp

end
