(* ===== verification/Agent_Loop.thy ===== *)
theory Agent_Loop
  imports Agent_Context Agent_Approval Agent_Events Tool_Discovery
begin

text \<open>
  The agent loop (src/pkg/liaison/manager/agent/runtime/loop.go): a run starts or resumes a turn, then alternates
  model calls and tool executions until the model answers without tool calls, a call waits for approval, an
  operation fails or the step budget is used up.

  A run is a program over the shared state (store, tool engine, approval table and event broker).
  Each call it makes on that state is one \<open>call\<close>: before it, other requests may have changed the shared state in
  any way (\<open>le_others\<close>); the context, the clock, the identifier generator, the database driver, the model and the tool
  environment are asked once per call (the call's number is their argument), so every environment behaviour is
  some \<open>loop_env\<close>. A program either yields a value or exits the run with a result and an error, like an early return.
  \<open>ls_trace\<close> records the model requests and tool executions of the run.

  JSON documents and prompt texts are parameters of the environment; no theorem depends on their form.
\<close>

section \<open>Requests and results\<close>

record loop_config =
  lc_MaxModelSteps :: int
  lc_ApprovalExpiry :: int

definition DefaultLoopConfig :: loop_config where
  "DefaultLoopConfig = \<lparr>lc_MaxModelSteps = 12, lc_ApprovalExpiry = 15 * 60 * 1000000000\<rparr>"

text \<open>The configuration \<^verbatim>\<open>NewLoop\<close> stores.\<close>

definition NewLoop_config :: "loop_config \<Rightarrow> loop_config" where
  "NewLoop_config c =
     \<lparr>lc_MaxModelSteps = (if lc_MaxModelSteps c \<le> 0 then lc_MaxModelSteps DefaultLoopConfig else lc_MaxModelSteps c),
      lc_ApprovalExpiry = (if lc_ApprovalExpiry c \<le> 0 then lc_ApprovalExpiry DefaultLoopConfig else lc_ApprovalExpiry c)\<rparr>"

record run_request =
  rq_References :: "resource_reference list"
  rq_Selection :: model_selection
  rq_SessionID :: string
  rq_TurnID :: string
  rq_Prompt :: string
  rq_Principal :: principal
  rq_PolicyRevision :: string
  rq_Budget :: disclosure_budget

record run_result =
  rr_Turn :: turn
  rr_Text :: string
  rr_ApprovalID :: string

abbreviation zero_turn :: turn where
  "zero_turn \<equiv> new_turn []"

definition turn_result :: "turn \<Rightarrow> string \<Rightarrow> run_result" where
  "turn_result t txt = \<lparr>rr_Turn = t, rr_Text = txt, rr_ApprovalID = []\<rparr>"

type_synonym run_exit = "run_result \<times> gerr option"

section \<open>Shared state and environment\<close>

record 'f shared =
  ag_store :: memory_store
  ag_engine :: "'f engine"
  ag_approvals :: approval_table
  ag_broker :: event_broker

datatype loop_trace =
    Generated model_request
  | Executed tool_set_snapshot tool_invocation "approval_grant option" "exec_error + tool_result"
  | Consumed string approval_request

record 'f loop_state =
  ls_tick :: nat
  ls_shared :: "'f shared"
  ls_trace :: "loop_trace list"

record loop_json =
  js_result :: "tool_result \<Rightarrow> gerr + bytes"
  js_references :: "resource_reference list \<Rightarrow> gerr + bytes"
  js_modelInput :: "model_selection \<Rightarrow> model_message list \<Rightarrow> tool_set_snapshot \<Rightarrow> gerr + bytes"
  js_selection :: "bytes \<Rightarrow> gerr + model_selection"
  js_response :: "model_response \<Rightarrow> gerr + bytes"
  js_toolIDs :: "bytes \<Rightarrow> gerr + string list"
  js_resolved :: "string \<Rightarrow> gerr + bytes"
  js_approvalEvent :: "string \<Rightarrow> string \<Rightarrow> gerr + bytes"
  js_conclusions :: "string list \<Rightarrow> gerr + bytes"

record 'f loop_env =
  le_config :: loop_config
  le_texts :: prompt_texts
  le_json :: loop_json
  le_codec :: approval_codec
  le_others :: "nat \<Rightarrow> 'f shared \<Rightarrow> 'f shared"
  le_ctx :: "nat \<Rightarrow> ctx_state"
  le_now :: "nat \<Rightarrow> gtime"
  le_ids :: "nat \<Rightarrow> string \<Rightarrow> gerr + string"
  le_db :: "nat \<Rightarrow> nat \<Rightarrow> gerr option"
  le_random :: "nat \<Rightarrow> gerr + bytes"
  le_generate :: "nat \<Rightarrow> model_request \<Rightarrow> bytes list \<times> (gerr + model_response)"
  le_visibility :: visibility
  le_policy :: policy_evaluator
  le_sha :: "bytes \<Rightarrow> string"
  le_bind :: "nat \<Rightarrow> 'f \<Rightarrow> tool_binding \<Rightarrow> gerr + tool_executor option"
  le_middleware :: "(tool_handler \<Rightarrow> tool_handler) list"
  le_tool_ctx :: "nat \<Rightarrow> ctx_state \<times> ctx_state"

section \<open>Programs\<close>

type_synonym ('f, 'a) loop = "'f loop_env \<Rightarrow> 'f loop_state \<Rightarrow> (run_exit + 'a) \<times> 'f loop_state"

definition return :: "'a \<Rightarrow> ('f, 'a) loop" where
  "return x env s = (Inr x, s)"

definition exit :: "run_result \<Rightarrow> gerr option \<Rightarrow> ('f, 'a) loop" where
  "exit r e env s = (Inl (r, e), s)"

definition bindL :: "('f, 'a) loop \<Rightarrow> ('a \<Rightarrow> ('f, 'b) loop) \<Rightarrow> ('f, 'b) loop" where
  "bindL m k env s = (case m env s of (Inl e, s') \<Rightarrow> (Inl e, s') | (Inr x, s') \<Rightarrow> k x env s')"

text \<open>\<open>if err != nil { ... }\<close> after a call.\<close>

definition tryL :: "('f, gerr + 'a) loop \<Rightarrow> (gerr \<Rightarrow> ('f, 'b) loop) \<Rightarrow> ('a \<Rightarrow> ('f, 'b) loop) \<Rightarrow> ('f, 'b) loop" where
  "tryL m h k = bindL m (\<lambda>r. case r of Inl err \<Rightarrow> h err | Inr x \<Rightarrow> k x)"

text \<open>One call on the shared state, after whatever the other requests did.\<close>

definition call :: "('f loop_env \<Rightarrow> nat \<Rightarrow> 'f shared \<Rightarrow> 'a \<times> 'f shared) \<Rightarrow> ('f, 'a) loop" where
  "call f env s =
     (let k = ls_tick s; (x, sh) = f env k (le_others env k (ls_shared s))
      in (Inr x, s\<lparr>ls_tick := k + 1, ls_shared := sh\<rparr>))"

definition ask :: "('f loop_env \<Rightarrow> nat \<Rightarrow> 'a) \<Rightarrow> ('f, 'a) loop" where
  "ask f = call (\<lambda>env k sh. (f env k, sh))"

text \<open>A computation that asks neither the state nor the outside world.\<close>

definition pureL :: "('f loop_env \<Rightarrow> 'a) \<Rightarrow> ('f, 'a) loop" where
  "pureL f env s = (Inr (f env), s)"

definition note_trace :: "loop_trace \<Rightarrow> ('f, unit) loop" where
  "note_trace t env s = (Inr (), s\<lparr>ls_trace := ls_trace s @ [t]\<rparr>)"

text \<open>A call on the store under the run's context, and under \<^verbatim>\<open>context.WithoutCancel\<close>.\<close>

definition on_store :: "(ctx_state \<Rightarrow> gtime \<Rightarrow> memory_store \<Rightarrow> (gerr + 'a) \<times> memory_store) \<Rightarrow> ('f, gerr + 'a) loop" where
  "on_store op = call (\<lambda>env k sh. case op (le_ctx env k) (le_now env k) (ag_store sh) of (r, st) \<Rightarrow> (r, sh\<lparr>ag_store := st\<rparr>))"

definition on_store_detached :: "(ctx_state \<Rightarrow> gtime \<Rightarrow> memory_store \<Rightarrow> (gerr + 'a) \<times> memory_store) \<Rightarrow> ('f, gerr + 'a) loop" where
  "on_store_detached op = call (\<lambda>env k sh. case op CtxLive (le_now env k) (ag_store sh) of (r, st) \<Rightarrow> (r, sh\<lparr>ag_store := st\<rparr>))"

definition read_store :: "(ctx_state \<Rightarrow> memory_store \<Rightarrow> gerr + 'a) \<Rightarrow> ('f, gerr + 'a) loop" where
  "read_store op = call (\<lambda>env k sh. (op (le_ctx env k) (ag_store sh), sh))"

definition new_id :: "string \<Rightarrow> ('f, gerr + string) loop" where
  "new_id prfx = ask (\<lambda>env k. le_ids env k prfx)"

text \<open>\<^verbatim>\<open>randomIDGenerator.NewID\<close>: twelve random bytes in hexadecimal after the prefix; \<open>rnd\<close> is what
  \<^verbatim>\<open>io.ReadFull\<close> returned.\<close>

definition random_NewID :: "gerr + bytes \<Rightarrow> string \<Rightarrow> gerr + string" where
  "random_NewID rnd prfx = map_sum id (\<lambda>buffer. prfx @ ''_'' @ hex_encode buffer) rnd"

definition publish_with :: "('f loop_env \<Rightarrow> nat \<Rightarrow> ctx_state) \<Rightarrow> string \<Rightarrow> string \<Rightarrow> string \<Rightarrow> event_type \<Rightarrow> bytes \<Rightarrow> ('f, gerr option) loop" where
  "publish_with ctx sid tid stepID typ payload =
     call (\<lambda>env k sh.
       case broker_Publish (ctx env k)
              \<lparr>ev_Sequence = 0, ev_SessionID = sid, ev_TurnID = tid, ev_StepID = stepID, ev_Type = typ,
               ev_Payload = payload, ev_Occurred = le_now env k\<rparr> (ag_broker sh) of
         (Inl err, b) \<Rightarrow> (Some err, sh\<lparr>ag_broker := b\<rparr>) | (Inr _, b) \<Rightarrow> (None, sh\<lparr>ag_broker := b\<rparr>))"

definition publish :: "string \<Rightarrow> string \<Rightarrow> string \<Rightarrow> event_type \<Rightarrow> bytes \<Rightarrow> ('f, gerr option) loop" where
  "publish = publish_with le_ctx"


definition tryO :: "('f, gerr option) loop \<Rightarrow> (gerr \<Rightarrow> ('f, 'b) loop) \<Rightarrow> ('f, 'b) loop \<Rightarrow> ('f, 'b) loop" where
  "tryO m h k = bindL m (\<lambda>r. case r of Some err \<Rightarrow> h err | None \<Rightarrow> k)"

abbreviation EventTurnStarted :: event_type where "EventTurnStarted \<equiv> ''turn.started''"
abbreviation EventModelDelta :: event_type where "EventModelDelta \<equiv> ''model.delta''"
abbreviation EventToolStarted :: event_type where "EventToolStarted \<equiv> ''tool.started''"
abbreviation EventToolCompleted :: event_type where "EventToolCompleted \<equiv> ''tool.completed''"
abbreviation EventApprovalRequired :: event_type where "EventApprovalRequired \<equiv> ''approval.required''"
abbreviation EventApprovalResolved :: event_type where "EventApprovalResolved \<equiv> ''approval.resolved''"
abbreviation EventTurnCompleted :: event_type where "EventTurnCompleted \<equiv> ''turn.completed''"
abbreviation EventTurnCancelled :: event_type where "EventTurnCancelled \<equiv> ''turn.cancelled''"
abbreviation EventTurnFailed :: event_type where "EventTurnFailed \<equiv> ''turn.failed''"

section \<open>Pure helpers\<close>

definition validateRunRequest :: "run_request \<Rightarrow> bool \<Rightarrow> gerr option" where
  "validateRunRequest q resuming =
     (if rq_SessionID q = [] \<or> (\<not> resuming \<and> trim_space (rq_Prompt q) = [])
      then Some (ErrNew ''session ID and prompt are required for a new turn'')
      else if prin_UserID (rq_Principal q) = 0 \<or> prin_OrganizationID (rq_Principal q) = 0
      then Some (ErrNew ''authenticated principal is required'')
      else None)"

definition resolveModelCall :: "tool_set_snapshot \<Rightarrow> model_tool_call \<Rightarrow> gerr + exposed_tool" where
  "resolveModelCall snapshot c =
     (if mc_ID c = [] \<or> mc_Name c = [] \<or> mc_Input c = [] \<or> \<not> json_valid (mc_Input c)
      then Inl (errw ErrInvalidModelCall ''id, name and JSON input are required'')
      else case find (\<lambda>e. tool_id_ModelName (td_ID (exp_Descriptor e)) = mc_Name c) (snap_Tools snapshot) of
        Some e \<Rightarrow> Inr e
      | None \<Rightarrow> Inl (errw ErrInvalidModelCall (mc_Name c @ '' is not exposed by snapshot '' @ snap_ID snapshot)))"

definition supportsProtocol :: "protocol list \<Rightarrow> protocol \<Rightarrow> bool" where
  "supportsProtocol protocols p = (protocols = [] \<or> list_ex (\<lambda>c. c = ProtocolAny \<or> c = p) protocols)"

definition bindAttachment :: "attachment_snapshot list \<Rightarrow> string \<Rightarrow> tool_descriptor \<Rightarrow> attachment_snapshot" where
  "bindAttachment attachments primary d =
     (case (if primary = [] then None
            else find (\<lambda>a. att_ID a = primary \<and> supportsProtocol (td_Protocols d) (att_Protocol a)) attachments) of
        Some a \<Rightarrow> a
      | None \<Rightarrow> (case find (\<lambda>a. supportsProtocol (td_Protocols d) (att_Protocol a)) attachments of
                   Some a \<Rightarrow> a | None \<Rightarrow> no_attachment))"

definition attachmentStillCurrent :: "attachment_snapshot list \<Rightarrow> attachment_snapshot \<Rightarrow> bool" where
  "attachmentStillCurrent current frozen =
     (if att_ID frozen = [] then True
      else case find (\<lambda>a. att_ID a = att_ID frozen) current of
        Some a \<Rightarrow> att_Generation a = att_Generation frozen \<and> att_AccessID a = att_AccessID frozen \<and>
          att_ApplicationID a = att_ApplicationID frozen \<and> att_Protocol a = att_Protocol frozen
      | None \<Rightarrow> False)"

definition appendUniqueTools :: "tool_id list \<Rightarrow> tool_id list \<Rightarrow> tool_id list" where
  "appendUniqueTools current ids = fold (\<lambda>i c. if i \<in> set c then c else c @ [i]) ids current"

definition appendUniqueTool :: "tool_id list \<Rightarrow> tool_id \<Rightarrow> tool_id list" where
  "appendUniqueTool current i = appendUniqueTools current [i]"

definition describedToolIDs :: "loop_json \<Rightarrow> bytes \<Rightarrow> tool_id list" where
  "describedToolIDs js input =
     (case js_toolIDs js input of
        Inl _ \<Rightarrow> []
      | Inr values \<Rightarrow> List.map_filter (\<lambda>v. case ParseToolID v of Inl _ \<Rightarrow> None | Inr i \<Rightarrow> Some i) values)"

definition firstUserPrompt :: "model_message list \<Rightarrow> string" where
  "firstUserPrompt ms = (case find (\<lambda>m. mm_Role m = RoleUser) ms of Some m \<Rightarrow> mm_Content m | None \<Rightarrow> ''continue'')"

definition messageValues :: "message list \<Rightarrow> model_message list" where
  "messageValues ms = map msg_Value ms"

definition inputDigest :: "(bytes \<Rightarrow> string) \<Rightarrow> bytes \<Rightarrow> string" where
  "inputDigest sha input = InputDigest sha input"

text \<open>The attachments of a session that is not a management session.\<close>

definition connected_snapshots :: "attachment list \<Rightarrow> attachment_snapshot list" where
  "connected_snapshots stored =
     map (\<lambda>a. \<lparr>att_ID = at_ID a, att_AccessID = at_AccessID a, att_ApplicationID = at_ApplicationID a, att_Protocol = at_Protocol a,
               att_Capabilities = at_Capabilities a, att_Generation = at_Generation a, att_AccessHandleID = attachment_HandleID a\<rparr>)
       (filter (\<lambda>a. at_State a = AttachmentConnected) stored)"

definition session_attachments :: "session \<Rightarrow> attachment list \<Rightarrow> gerr + attachment_snapshot list \<times> string" where
  "session_attachments ses stored =
     (if ses_Kind ses = SessionManagement
      then if stored \<noteq> [] \<or> ses_ActiveAttachmentID ses \<noteq> []
           then Inl (ErrNew ''management session contains access attachments'') else Inr ([], [])
      else
        let atts = connected_snapshots stored
        in Inr (atts, if list_ex (\<lambda>a. att_ID a = ses_ActiveAttachmentID ses) atts then ses_ActiveAttachmentID ses else []))"

section \<open>Shared fragments of a run\<close>

definition loadAttachments :: "session \<Rightarrow> ('f, gerr + attachment_snapshot list \<times> string) loop" where
  "loadAttachments ses =
     (if \<not> session_kind_Valid (ses_Kind ses) then return (Inl (ErrNew ''invalid session kind''))
      else tryL (read_store (\<lambda>ctx. store_ListAttachments ctx (ses_ID ses)))
             (\<lambda>err. return (Inl (ErrWrap ''list agent attachments: '' err [])))
             (\<lambda>stored. return (session_attachments ses stored)))"

definition failTurn :: "turn \<Rightarrow> string \<Rightarrow> gerr \<Rightarrow> ('f, 'a) loop" where
  "failTurn turn code cause =
     tryL (on_store_detached (\<lambda>ctx now. store_TransitionTurn ctx now (tn_ID turn) (tn_Version turn) TurnFailed code (error_text cause)))
       (\<lambda>err. exit (turn_result turn []) (Some (errors_join cause (Some err))))
       (\<lambda>failed. bindL (publish_with (\<lambda>_ _. CtxLive) (tn_AgentSessionID failed) (tn_ID failed) [] EventTurnFailed [])
          (\<lambda>publishErr. exit (turn_result failed []) (Some (errors_join cause publishErr))))"

definition appendMessage :: "string \<Rightarrow> string \<Rightarrow> model_message \<Rightarrow> ('f, gerr option) loop" where
  "appendMessage sid tid m =
     tryL (new_id ''message'') (\<lambda>err. return (Some (ErrWrap ''create message ID: '' err [])))
       (\<lambda>mid. tryL (on_store (\<lambda>ctx now. store_AppendMessage ctx now
            \<lparr>msg_ID = mid, msg_AgentSessionID = sid, msg_TurnID = tid, msg_Sequence = 0, msg_Value = m, msg_CreatedAt = 0\<rparr>))
          (\<lambda>err. return (Some (ErrWrap ''persist agent message: '' err []))) (\<lambda>_. return None))"

definition completedHistory :: "string \<Rightarrow> string \<Rightarrow> ('f, gerr + model_message list) loop" where
  "completedHistory sid currentTurnID =
     tryL (read_store (\<lambda>ctx. store_ListTurns ctx sid)) (\<lambda>err. return (Inl (ErrWrap ''list history turns: '' err [])))
       (\<lambda>turns. tryL (read_store (\<lambda>ctx. store_ListSessionMessages ctx sid)) (\<lambda>err. return (Inl (ErrWrap ''list history messages: '' err [])))
          (\<lambda>stored. return (Inr (select_history turns currentTurnID stored))))"

definition engine_call :: "tool_set_snapshot \<Rightarrow> tool_invocation \<Rightarrow> approval_grant option \<Rightarrow> ('f, exec_error + tool_result) loop" where
  "engine_call snapshot invocation grant =
     bindL (call (\<lambda>env k sh.
         case engine_execute (le_policy env) (le_sha env) (le_now env k) (le_bind env k) (le_middleware env)
                (fst (le_tool_ctx env k)) (snd (le_tool_ctx env k)) snapshot invocation grant (ag_engine sh) of
           (r, g) \<Rightarrow> (r, sh\<lparr>ag_engine := g\<rparr>)))
       (\<lambda>r. bindL (note_trace (Executed snapshot invocation grant r)) (\<lambda>_. return r))"

definition exec_gerr :: "exec_error \<Rightarrow> gerr" where
  "exec_gerr e = (case e of ExecErr err \<Rightarrow> err | ExecApproval _ d \<Rightarrow> errw ErrApprovalRequired (dec_Reason d))"

text \<open>The events a model call streams, then its response.\<close>

fun publish_deltas :: "string \<Rightarrow> string \<Rightarrow> string \<Rightarrow> bytes list \<Rightarrow> ('f, unit) loop" where
  "publish_deltas sid tid stepID [] = return ()"
| "publish_deltas sid tid stepID (p # ps) =
     bindL (publish sid tid stepID EventModelDelta p) (\<lambda>_. publish_deltas sid tid stepID ps)"

definition generate :: "string \<Rightarrow> model_request \<Rightarrow> ('f, gerr + model_response) loop" where
  "generate stepID mr =
     bindL (note_trace (Generated mr))
       (\<lambda>_. bindL (ask (\<lambda>env k. le_generate env k mr))
          (\<lambda>(deltas, r). bindL (publish_deltas (mr_SessionID mr) (mr_TurnID mr) stepID deltas) (\<lambda>_. return r)))"


section \<open>Approvals inside a run\<close>

text \<open>Every statement of the approval coordinator is a call of its own.\<close>

definition on_approvals ::
  "(approval_codec \<Rightarrow> gtime \<Rightarrow> gerr option \<Rightarrow> approval_table \<Rightarrow> (gerr + 'a) \<times> approval_table) \<Rightarrow> ('f, gerr + 'a) loop" where
  "on_approvals op =
     call (\<lambda>env k sh. case op (le_codec env) (le_now env k) (le_db env k 0) (ag_approvals sh) of
                       (r, t) \<Rightarrow> (r, sh\<lparr>ag_approvals := t\<rparr>))"

definition getApproval :: "string \<Rightarrow> ('f, gerr + approval_request \<times> approval_status) loop" where
  "getApproval i = on_approvals (\<lambda>codec now db t. (approval_Get codec db i t, t))"

definition getApproved :: "string \<Rightarrow> principal \<Rightarrow> ('f, gerr + approval_request) loop" where
  "getApproved i prin = on_approvals (\<lambda>codec now db t. (approval_GetApproved codec now db i prin t, t))"

definition consumeApproval :: "string \<Rightarrow> principal \<Rightarrow> ('f, gerr + approval_request) loop" where
  "consumeApproval i prin =
     tryL (getApproved i prin) (\<lambda>err. return (Inl err))
       (\<lambda>request. tryL (on_approvals (\<lambda>codec now db t. (map_sum id (Pair now) (GetAgentApproval db i t), t)))
          (\<lambda>err. return (Inl (mapApprovalNotFound err i)))
          (\<lambda>(now, row). tryL (on_approvals (\<lambda>codec _ db. consume_write db i request (row\<lparr>ap_Status := ApprovalConsumed, ap_UpdatedAt := now\<rparr>)))
             (\<lambda>err. return (Inl err))
             (\<lambda>q. bindL (note_trace (Consumed i q)) (\<lambda>_. return (Inr q)))))"

definition decideApproval :: "string \<Rightarrow> nat \<Rightarrow> bool \<Rightarrow> string \<Rightarrow> ('f, gerr + unit) loop" where
  "decideApproval i decidedBy approve nt =
     tryL (on_approvals (\<lambda>codec now db t. (decide_read now db i decidedBy approve nt t, t))) (\<lambda>err. return (Inl err))
       (\<lambda>row. on_approvals (\<lambda>codec now db. decide_write db i row))"

section \<open>Starting and resuming a turn\<close>

record loop_locals =
  lv_request :: run_request
  lv_turn :: turn
  lv_messages :: "model_message list"
  lv_promoted :: "tool_id list"
  lv_recent :: "tool_id list"
  lv_text :: string

abbreviation fail :: "gerr \<Rightarrow> ('f, 'a) loop" where
  "fail err \<equiv> exit (turn_result zero_turn []) (Some err)"

definition user_message :: "run_request \<Rightarrow> model_message" where
  "user_message q = (new_model_message RoleUser (rq_Prompt q))\<lparr>mm_References := rq_References q\<rparr>"

definition begin_turn :: "run_request \<Rightarrow> ('f, loop_locals) loop" where
  "begin_turn q =
     bindL (if rq_TurnID q \<noteq> [] then return (rq_TurnID q)
            else tryL (new_id ''turn'') (\<lambda>err. fail (ErrWrap ''create turn ID: '' err [])) return)
       (\<lambda>turnID. tryL (on_store (\<lambda>ctx now. store_StartTurn ctx now (rq_SessionID q) (new_turn turnID))) fail
          (\<lambda>(_, turn). tryL (on_store (\<lambda>ctx now. store_TransitionTurn ctx now (tn_ID turn) (tn_Version turn) TurnRunning [] [])) fail
             (\<lambda>turn. tryO (publish (rq_SessionID q) (tn_ID turn) [] EventTurnStarted []) (failTurn turn ''event_publish_failed'')
                (tryO (appendMessage (rq_SessionID q) (tn_ID turn) (user_message q)) (failTurn turn ''message_persist_failed'')
                   (return \<lparr>lv_request = q, lv_turn = turn, lv_messages = [user_message q], lv_promoted = [], lv_recent = [],
                            lv_text = []\<rparr>)))))"

definition restored_selection :: "loop_json \<Rightarrow> string \<Rightarrow> run_request \<Rightarrow> step list \<Rightarrow> gerr + run_request" where
  "restored_selection js tid q steps =
     (case find (\<lambda>sp. sp_TurnID sp = tid \<and> sp_Kind sp = StepModel) steps of
        None \<Rightarrow> Inr q
      | Some sp \<Rightarrow> map_sum id (\<lambda>sel. q\<lparr>rq_Selection := sel\<rparr>) (js_selection js (sp_Input sp)))"

definition approval_grant_of :: "approval_request \<Rightarrow> approval_grant" where
  "approval_grant_of a =
     \<lparr>grant_ApprovalID = aq_ID a, grant_InvocationID = inv_ID (aq_Invocation a), grant_ToolID = call_ID (inv_Call (aq_Invocation a)),
      grant_ToolSnapshotID = snap_ID (aq_Snapshot a), grant_InputSHA256 = aq_InputSHA256 a,
      grant_AttachmentGeneration = aq_AttachmentEpoch a, grant_ExpiresAt = aq_ExpiresAt a\<rparr>"

definition tool_message :: "bytes \<Rightarrow> string \<Rightarrow> string \<Rightarrow> model_message" where
  "tool_message content callID name =
     (new_model_message RoleTool content)\<lparr>mm_ToolCallID := callID, mm_ToolName := name\<rparr>"

text \<open>From the consumed approval to the tool's message: the second half of the resume branch.\<close>

definition run_approved :: "run_request \<Rightarrow> turn \<Rightarrow> approval_request \<Rightarrow> ('f, loop_locals) loop" where
  "run_approved q turn a =
     tryL (bindL (engine_call (aq_Snapshot a) (aq_Invocation a) (Some (approval_grant_of a)))
             (\<lambda>r. return (map_sum exec_gerr id r)))
       (\<lambda>err. bindL (on_store_detached (\<lambda>ctx now. store_FailStep ctx now (aq_StepID a) ''tool_error'' (error_text err)))
          (\<lambda>r. failTurn turn ''tool_error'' (errors_join err (case r of Inl failErr \<Rightarrow> Some failErr | Inr _ \<Rightarrow> None))))
       (\<lambda>result. tryL (pureL (\<lambda>env. js_result (le_json env) result)) (failTurn turn ''tool_result_encode_failed'')
          (\<lambda>encoded. tryL (on_store (\<lambda>ctx now. store_CompleteStep ctx now (aq_StepID a) encoded)) (failTurn turn ''step_complete_failed'')
             (\<lambda>_. tryL (read_store (\<lambda>ctx. store_ListMessages ctx (tn_ID turn))) (failTurn turn ''message_restore_failed'')
                (\<lambda>stored.
                   let tm = tool_message encoded (inv_ID (aq_Invocation a)) (tool_id_ModelName (call_ID (inv_Call (aq_Invocation a))));
                       messages = messageValues stored @ [tm];
                       q' = (if rq_Prompt q = [] then q\<lparr>rq_Prompt := firstUserPrompt messages\<rparr> else q)
                   in tryO (appendMessage (rq_SessionID q) (tn_ID turn) tm) (failTurn turn ''message_persist_failed'')
                        (bindL (pureL (\<lambda>env. if call_ID (inv_Call (aq_Invocation a)) = ToolDescribeID \<and> \<not> res_IsError result
                                              then describedToolIDs (le_json env) (call_Input (inv_Call (aq_Invocation a))) else []))
                           (\<lambda>promoted. tryO (publish (rq_SessionID q) (tn_ID turn) (aq_StepID a) EventToolCompleted encoded)
                              (failTurn turn ''event_publish_failed'')
                              (return \<lparr>lv_request = q', lv_turn = turn, lv_messages = messages, lv_promoted = promoted,
                                       lv_recent = [call_ID (inv_Call (aq_Invocation a))], lv_text = []\<rparr>)))))))"


text \<open>Claiming the approval and restarting its turn and step.\<close>

definition resume_claimed :: "run_request \<Rightarrow> string \<Rightarrow> turn \<Rightarrow> ('f, loop_locals) loop" where
  "resume_claimed q approvalID turn =
     tryL (consumeApproval approvalID (rq_Principal q)) fail
       (\<lambda>approval. tryL (on_store (\<lambda>ctx now. store_TransitionTurn ctx now (tn_ID turn) (tn_Version turn) TurnRunning [] [])) fail
          (\<lambda>turn. tryL (on_store (\<lambda>ctx now. store_ResumeStep ctx now (aq_StepID approval)))
             (\<lambda>err. exit (turn_result turn []) (Some err)) (\<lambda>_. run_approved q turn approval)))"

definition resume_turn :: "run_request \<Rightarrow> string \<Rightarrow> session \<Rightarrow> attachment_snapshot list \<Rightarrow> ('f, loop_locals) loop" where
  "resume_turn q approvalID ses attachments =
     tryL (getApproved approvalID (rq_Principal q)) fail
       (\<lambda>approval.
          if aq_SessionID approval \<noteq> rq_SessionID q then fail (ErrNew ''approval does not belong to session'')
          else if session_kind_Effective (bind_SessionKind (inv_Binding (aq_Invocation approval))) \<noteq> session_kind_Effective (ses_Kind ses)
          then fail (errw ErrPolicyDenied ''approval session kind mismatch'')
          else tryL (read_store (\<lambda>ctx. store_GetTurn ctx (aq_TurnID approval))) fail
            (\<lambda>turn. tryL (read_store (\<lambda>ctx. store_ListSessionSteps ctx (rq_SessionID q))) fail
               (\<lambda>steps. tryL (pureL (\<lambda>env. restored_selection (le_json env) (tn_ID turn) q steps)) fail
                  (\<lambda>q.
                     if tn_Status turn \<noteq> TurnWaitingApproval \<or> tn_ActiveStepID turn \<noteq> aq_StepID approval
                     then fail (errw ErrApprovalConflict ''turn is not waiting for this approval'')
                     else if \<not> attachmentStillCurrent attachments (bind_Attachment (inv_Binding (aq_Invocation approval)))
                     then fail (errw ErrStaleSnapshot ''attachment changed while approval was pending'')
                     else resume_claimed q approvalID turn))))"

section \<open>One model step\<close>

definition stop :: "loop_locals \<Rightarrow> gerr \<Rightarrow> ('f, 'a) loop" where
  "stop l err = exit (turn_result (lv_turn l) (lv_text l)) (Some err)"

text \<open>On an error \<^verbatim>\<open>AppendStep\<close> returns the zero turn, and the assignment stores it in the variable \<^verbatim>\<open>turn\<close>.\<close>

definition lost_turn :: "loop_locals \<Rightarrow> gerr \<Rightarrow> ('f, 'a) loop" where
  "lost_turn l err = exit (turn_result zero_turn (lv_text l)) (Some err)"

definition disclosure_of :: "loop_locals \<Rightarrow> session \<Rightarrow> attachment_snapshot list \<Rightarrow> string \<Rightarrow> disclosure_request" where
  "disclosure_of l ses attachments primary =
     \<lparr>dr_SessionKind = ses_Kind ses, dr_Principal = rq_Principal (lv_request l), dr_Attachments = attachments, dr_Primary = primary,
      dr_Query = rq_Prompt (lv_request l), dr_Promoted = lv_promoted l, dr_RecentlyUsed = lv_recent l,
      dr_PolicyRevision = rq_PolicyRevision (lv_request l), dr_Budget = rq_Budget (lv_request l)\<rparr>"

definition system_context :: "prompt_texts \<Rightarrow> session \<Rightarrow> attachment_snapshot list \<Rightarrow> string \<Rightarrow> model_message" where
  "system_context tx ses attachments primary =
     (if ses_Kind ses = SessionShell
      then let m = shellContext tx attachments primary in m\<lparr>mm_Content := mm_Content m @ pt_shell_analysis tx\<rparr>
      else if ses_Kind ses = SessionManagement then managementContext tx
      else connectionContext tx attachments primary)"

fun add_references :: "prompt_texts \<Rightarrow> loop_json \<Rightarrow> model_message list \<Rightarrow> gerr + model_message list" where
  "add_references tx js [] = Inr []"
| "add_references tx js (m # ms) =
     (if mm_References m = [] then map_sum id ((#) m) (add_references tx js ms)
      else case js_references js (mm_References m) of
        Inl err \<Rightarrow> Inl (ErrWrap ''encode references: '' err [])
      | Inr encoded \<Rightarrow> map_sum id ((#) (m\<lparr>mm_Content := mm_Content m @ pt_references tx @ encoded\<rparr>)) (add_references tx js ms))"

definition call_invocation ::
  "loop_locals \<Rightarrow> session \<Rightarrow> attachment_snapshot list \<Rightarrow> string \<Rightarrow> tool_set_snapshot \<Rightarrow> exposed_tool \<Rightarrow> model_tool_call \<Rightarrow> tool_invocation" where
  "call_invocation l ses attachments primary snapshot exposed c =
     \<lparr>inv_ID = mc_ID c, inv_Call = \<lparr>call_ID = td_ID (exp_Descriptor exposed), call_Input = mc_Input c\<rparr>,
      inv_Binding = \<lparr>bind_SessionKind = ses_Kind ses, bind_Principal = rq_Principal (lv_request l),
        bind_Attachment = bindAttachment attachments primary (exp_Descriptor exposed), bind_ToolSnapshotID = snap_ID snapshot\<rparr>,
      inv_RegistrationGeneration = exp_RegistrationGeneration exposed\<rparr>"

text \<open>The branch of a call that needs approval: persist the frozen call and leave the run with the turn waiting.\<close>

definition approval_of_call :: "(bytes \<Rightarrow> string) \<Rightarrow> gtime \<Rightarrow> string \<Rightarrow> loop_locals \<Rightarrow> string \<Rightarrow> tool_set_snapshot \<Rightarrow> tool_invocation \<Rightarrow> decision \<Rightarrow> approval_request" where
  "approval_of_call sha expires approvalID l stepID snapshot frozen d =
     \<lparr>aq_ID = approvalID, aq_SessionID = rq_SessionID (lv_request l), aq_TurnID = tn_ID (lv_turn l), aq_StepID = stepID,
      aq_RequestedBy = prin_UserID (rq_Principal (lv_request l)), aq_Invocation = frozen, aq_Snapshot = snapshot,
      aq_InputSHA256 = inputDigest sha (call_Input (inv_Call frozen)), aq_Reason = dec_Reason d, aq_Risk = dec_Risk d,
      aq_ExpiresAt = expires, aq_AttachmentEpoch = att_Generation (bind_Attachment (inv_Binding frozen))\<rparr>"

definition wait_approval :: "loop_locals \<Rightarrow> string \<Rightarrow> tool_set_snapshot \<Rightarrow> tool_invocation \<Rightarrow> decision \<Rightarrow> ('f, 'a) loop" where
  "wait_approval l stepID snapshot frozen d =
     tryL (new_id ''approval'') (stop l)
       (\<lambda>approvalID. bindL (ask (\<lambda>env k. approval_of_call (le_sha env) (le_now env k + lc_ApprovalExpiry (le_config env)) approvalID l stepID snapshot frozen d))
          (\<lambda>approval. tryL (on_approvals (\<lambda>codec now db. approval_Request codec now db approval)) (\<lambda>err. stop l (ErrWrap ''persist approval: '' err []))
             (\<lambda>_. tryL (on_store (\<lambda>ctx now. store_WaitStepApproval ctx now stepID)) (stop l)
                (\<lambda>_. tryL (on_store (\<lambda>ctx now. store_TransitionTurn ctx now (tn_ID (lv_turn l)) (tn_Version (lv_turn l)) TurnWaitingApproval [] [])) (stop l)
                   (\<lambda>waiting. let r = \<lparr>rr_Turn = waiting, rr_Text = lv_text l, rr_ApprovalID = approvalID\<rparr>
                       in tryL (pureL (\<lambda>env. js_approvalEvent (le_json env) approvalID (aq_Reason approval)))
                            (\<lambda>err. exit r (Some (ErrWrap ''encode approval event: '' err [])))
                            (\<lambda>payload. bindL (publish (rq_SessionID (lv_request l)) (tn_ID waiting) stepID EventApprovalRequired payload)
                               (exit r)))))))"

definition call_tool ::
  "session \<Rightarrow> attachment_snapshot list \<Rightarrow> string \<Rightarrow> tool_set_snapshot \<Rightarrow> model_tool_call \<Rightarrow> loop_locals \<Rightarrow> ('f, loop_locals) loop" where
  "call_tool ses attachments primary snapshot c l =
     (case resolveModelCall snapshot c of
        Inl err \<Rightarrow> stop l err
      | Inr exposed \<Rightarrow>
          tryL (new_id ''step'') (\<lambda>err. stop l (ErrWrap ''create tool step ID: '' err []))
            (\<lambda>toolStepID. tryL (on_store (\<lambda>ctx now. store_AppendStep ctx now (tn_ID (lv_turn l)) (tn_Version (lv_turn l))
                 ((new_step toolStepID StepTool)\<lparr>sp_ToolID := Some (td_ID (exp_Descriptor exposed)), sp_ToolSnapshotID := snap_ID snapshot,
                    sp_Input := mc_Input c\<rparr>))) (lost_turn l)
               (\<lambda>(turn, toolStep). let l = l\<lparr>lv_turn := turn\<rparr>; sid = rq_SessionID (lv_request l) in
                  tryO (publish sid (tn_ID turn) (sp_ID toolStep) EventToolStarted []) (stop l)
                    (bindL (engine_call snapshot (call_invocation l ses attachments primary snapshot exposed c) None)
                       (\<lambda>r. case r of
                          Inl (ExecApproval frozen d) \<Rightarrow> wait_approval l (sp_ID toolStep) snapshot frozen d
                        | Inl (ExecErr err) \<Rightarrow>
                            bindL (on_store_detached (\<lambda>ctx now. store_FailStep ctx now (sp_ID toolStep) ''tool_error'' (error_text err)))
                              (\<lambda>f. stop l (errors_join (ErrWrap (''execute model tool call '' @ mc_Name c @ '': '') err [])
                                     (case f of Inl failErr \<Rightarrow> Some failErr | Inr _ \<Rightarrow> None)))
                        | Inr result \<Rightarrow>
                            tryL (pureL (\<lambda>env. js_result (le_json env) result)) (\<lambda>err. stop l (ErrWrap ''encode tool result: '' err []))
                              (\<lambda>encoded. tryL (on_store (\<lambda>ctx now. store_CompleteStep ctx now (sp_ID toolStep) encoded)) (stop l)
                                 (\<lambda>_. let tm = tool_message encoded (mc_ID c) (mc_Name c); l = l\<lparr>lv_messages := lv_messages l @ [tm]\<rparr>
                                     in tryO (appendMessage sid (tn_ID turn) tm) (stop l)
                                          (bindL (pureL (\<lambda>env. if td_ID (exp_Descriptor exposed) = ToolDescribeID \<and> \<not> res_IsError result
                                                                then describedToolIDs (le_json env) (mc_Input c) else []))
                                             (\<lambda>ids. let l = l\<lparr>lv_recent := appendUniqueTool (lv_recent l) (td_ID (exp_Descriptor exposed)),
                                                               lv_promoted := appendUniqueTools (lv_promoted l) ids\<rparr>
                                                in tryO (publish sid (tn_ID turn) (sp_ID toolStep) EventToolCompleted encoded) (stop l)
                                                     (return l))))))))))"


fun call_tools ::
  "session \<Rightarrow> attachment_snapshot list \<Rightarrow> string \<Rightarrow> tool_set_snapshot \<Rightarrow> model_tool_call list \<Rightarrow> loop_locals \<Rightarrow> ('f, loop_locals) loop" where
  "call_tools ses attachments primary snapshot [] l = return l"
| "call_tools ses attachments primary snapshot (c # cs) l =
     bindL (call_tool ses attachments primary snapshot c l) (call_tools ses attachments primary snapshot cs)"

definition assistant_message :: "model_response \<Rightarrow> model_message" where
  "assistant_message r = (new_model_message RoleAssistant (rsp_Text r))\<lparr>mm_ToolCalls := rsp_ToolCalls r\<rparr>"

text \<open>What follows the model's response: its message, then the end of the turn or the tool calls.\<close>

definition handle_response ::
  "session \<Rightarrow> attachment_snapshot list \<Rightarrow> string \<Rightarrow> tool_set_snapshot \<Rightarrow> string \<Rightarrow> loop_locals \<Rightarrow> model_response \<Rightarrow> ('f, loop_locals) loop" where
  "handle_response ses attachments primary snapshot stepID l response =
     tryL (pureL (\<lambda>env. js_response (le_json env) response)) (\<lambda>err. stop l (ErrWrap ''encode model response: '' err []))
       (\<lambda>modelOutput. tryL (on_store (\<lambda>ctx now. store_CompleteStep ctx now stepID modelOutput)) (stop l)
          (\<lambda>_. let l = l\<lparr>lv_text := lv_text l @ rsp_Text response, lv_messages := lv_messages l @ [assistant_message response]\<rparr>;
                  sid = rq_SessionID (lv_request l)
              in tryO (appendMessage sid (tn_ID (lv_turn l)) (assistant_message response)) (stop l)
                   (if rsp_ToolCalls response = []
                    then tryL (on_store (\<lambda>ctx now. store_TransitionTurn ctx now (tn_ID (lv_turn l)) (tn_Version (lv_turn l)) TurnCompleted [] [])) (stop l)
                           (\<lambda>completed. bindL (publish sid (tn_ID completed) [] EventTurnCompleted [])
                              (exit (turn_result completed (lv_text l))))
                    else call_tools ses attachments primary snapshot (rsp_ToolCalls response) l)))"

definition run_model ::
  "session \<Rightarrow> attachment_snapshot list \<Rightarrow> string \<Rightarrow> tool_set_snapshot \<Rightarrow> string \<Rightarrow> model_message list \<Rightarrow> loop_locals \<Rightarrow> ('f, loop_locals) loop" where
  "run_model ses attachments primary snapshot stepID contextMessages l =
     tryL (pureL (\<lambda>env. js_modelInput (le_json env) (rq_Selection (lv_request l)) contextMessages snapshot))
            (\<lambda>err. stop l (ErrWrap ''encode model step input: '' err []))
          (\<lambda>modelInput. tryL (on_store (\<lambda>ctx now. store_AppendStep ctx now (tn_ID (lv_turn l)) (tn_Version (lv_turn l))
                 ((new_step stepID StepModel)\<lparr>sp_ToolSnapshotID := snap_ID snapshot, sp_Input := modelInput\<rparr>))) (lost_turn l)
             (\<lambda>(turn, modelStep). let l = l\<lparr>lv_turn := turn\<rparr> in
                tryL (on_store (\<lambda>ctx now. store_SaveToolSnapshot ctx (tn_ID turn) (sp_ID modelStep) snapshot)) (stop l)
                  (\<lambda>_. bindL (generate (sp_ID modelStep)
                       \<lparr>mr_Selection = rq_Selection (lv_request l), mr_SessionID = rq_SessionID (lv_request l), mr_TurnID = tn_ID turn,
                        mr_Messages = contextMessages, mr_Tools = modelTools snapshot, mr_ToolSnapshotID = snap_ID snapshot\<rparr>)
                     (\<lambda>r. case r of
                        Inl err \<Rightarrow>
                          bindL (on_store_detached (\<lambda>ctx now. store_FailStep ctx now (sp_ID modelStep) ''model_error'' (error_text err)))
                            (\<lambda>f. stop l (errors_join (ErrWrap ''generate model response: '' err [])
                                   (case f of Inl failErr \<Rightarrow> Some failErr | Inr _ \<Rightarrow> None)))
                      | Inr response \<Rightarrow> handle_response ses attachments primary snapshot (sp_ID modelStep) l response))))"

definition model_step :: "loop_locals \<Rightarrow> ('f, loop_locals) loop" where
  "model_step l =
     tryL (read_store (\<lambda>ctx. store_GetSession ctx (rq_SessionID (lv_request l)))) (stop l)
       (\<lambda>ses. tryL (loadAttachments ses) (stop l)
          (\<lambda>(attachments, primary).
             tryL (call (\<lambda>env k sh. (engine_BuildSnapshot (le_visibility env) (le_random env k) (le_now env k) (ag_engine sh)
                                       (disclosure_of l ses attachments primary), sh)))
               (\<lambda>err. stop l (ErrWrap ''build tool snapshot: '' err []))
               (\<lambda>snapshot. tryL (new_id ''step'') (\<lambda>err. stop l (ErrWrap ''create model step ID: '' err []))
                  (\<lambda>stepID. tryL (pureL (\<lambda>env. add_references (le_texts env) (le_json env)
                                       (system_context (le_texts env) ses attachments primary # lv_messages l)))
                     (\<lambda>err. exit (turn_result (lv_turn l) []) (Some err))
                     (\<lambda>contextMessages. run_model ses attachments primary snapshot stepID contextMessages l)))))"

fun model_loop :: "nat \<Rightarrow> loop_locals \<Rightarrow> ('f, run_exit) loop" where
  "model_loop 0 l = stop l (Sentinel ErrStepBudgetExceeded)"
| "model_loop (Suc n) l = bindL (model_step l) (model_loop n)"

section \<open>Whole runs\<close>

text \<open>The deferred function. In every return after it is installed the result's turn is the variable \<^verbatim>\<open>turn\<close>.\<close>

definition deferred :: "run_exit \<Rightarrow> ('f, run_exit) loop" where
  "deferred e =
     (case e of
        (r, Some err) \<Rightarrow>
          if \<not> turn_Terminal (tn_Status (rr_Turn r)) \<and> tn_Status (rr_Turn r) \<noteq> TurnWaitingApproval
          then tryL (on_store_detached (\<lambda>ctx now. store_TransitionTurn ctx now (tn_ID (rr_Turn r)) (tn_Version (rr_Turn r)) TurnFailed
                       ''runtime_error'' (error_text err)))
                 (\<lambda>transitionErr. return (r, Some (errors_join err (Some transitionErr))))
                 (\<lambda>failed. return (r\<lparr>rr_Turn := failed\<rparr>, Some err))
          else return e
      | (r, None) \<Rightarrow> return e)"

definition with_deferred :: "('f, run_exit) loop \<Rightarrow> ('f, run_exit) loop" where
  "with_deferred m env s = (case m env s of (Inl e, s') \<Rightarrow> deferred e env s' | (Inr e, s') \<Rightarrow> deferred e env s')"

definition replay_filter :: "session \<Rightarrow> model_message list \<Rightarrow> model_message list" where
  "replay_filter ses history = (if ses_Kind ses = SessionManagement then filter (\<lambda>m. mm_Role m = RoleUser) history else history)"

definition loop_run :: "run_request \<Rightarrow> string \<Rightarrow> ('f, run_exit) loop" where
  "loop_run q approvalID =
     (case validateRunRequest q (approvalID \<noteq> []) of
        Some err \<Rightarrow> fail err
      | None \<Rightarrow>
          tryL (read_store (\<lambda>ctx. store_GetSession ctx (rq_SessionID q))) fail
            (\<lambda>ses.
               if ses_CreatedBy ses \<noteq> prin_UserID (rq_Principal q) \<or> ses_OrganizationID ses \<noteq> prin_OrganizationID (rq_Principal q)
               then fail (ErrNew ''agent session does not belong to principal'')
               else tryL (loadAttachments ses) fail
                 (\<lambda>(attachments, primary).
                    bindL (if approvalID = [] then begin_turn q else resume_turn q approvalID ses attachments)
                      (\<lambda>l. tryL (completedHistory (ses_ID ses) (tn_ID (lv_turn l))) (failTurn (lv_turn l) ''history_restore_failed'')
                         (\<lambda>history. bindL (pureL (\<lambda>env. nat (lc_MaxModelSteps (le_config env))))
                            (\<lambda>n. with_deferred (model_loop n (l\<lparr>lv_messages := replay_filter ses history @ lv_messages l\<rparr>))))))))"

text \<open>The run as its caller sees it: a result and an error.\<close>

definition run_of :: "('f, run_exit) loop \<Rightarrow> 'f loop_env \<Rightarrow> 'f loop_state \<Rightarrow> run_exit \<times> 'f loop_state" where
  "run_of m env s = (case m env s of (Inl e, s') \<Rightarrow> (e, s') | (Inr e, s') \<Rightarrow> (e, s'))"

definition loop_Run :: "run_request \<Rightarrow> 'f loop_env \<Rightarrow> 'f loop_state \<Rightarrow> run_exit \<times> 'f loop_state" where
  "loop_Run q = run_of (loop_run q [])"

definition resumeApproved :: "run_request \<Rightarrow> string \<Rightarrow> ('f, run_exit) loop" where
  "resumeApproved q approvalID = (if approvalID = [] then fail (ErrNew ''approval ID is required'') else loop_run q approvalID)"

definition loop_ResumeApproved :: "run_request \<Rightarrow> string \<Rightarrow> 'f loop_env \<Rightarrow> 'f loop_state \<Rightarrow> run_exit \<times> 'f loop_state" where
  "loop_ResumeApproved q approvalID = run_of (resumeApproved q approvalID)"

text \<open>The branch of \<^verbatim>\<open>ResolveApproval\<close> that ends the waiting turn.\<close>

definition cancel_waiting :: "run_request \<Rightarrow> string \<Rightarrow> approval_request \<Rightarrow> ('f, run_exit) loop" where
  "cancel_waiting q approvalID approval =
     tryL (read_store (\<lambda>ctx. store_GetTurn ctx (aq_TurnID approval))) fail
       (\<lambda>turn.
          if tn_Status turn \<noteq> TurnWaitingApproval \<or> tn_ActiveStepID turn \<noteq> aq_StepID approval
          then fail (errw ErrApprovalConflict ''turn is not waiting for this approval'')
          else tryL (on_store (\<lambda>ctx now. store_CancelStep ctx now (aq_StepID approval) ''approval_denied'' ''tool execution was not approved''))
            (\<lambda>err. exit (turn_result turn []) (Some err))
            (\<lambda>_. tryL (on_store (\<lambda>ctx now. store_TransitionTurn ctx now (tn_ID turn) (tn_Version turn) TurnCancelled
                    ''approval_denied'' ''tool execution was not approved'')) fail
               (\<lambda>turn. tryL (pureL (\<lambda>env. js_resolved (le_json env) approvalID))
                    (\<lambda>err. exit (turn_result turn []) (Some (ErrWrap ''encode approval resolution event: '' err [])))
                  (\<lambda>payload. tryO (publish (rq_SessionID q) (tn_ID turn) (aq_StepID approval) EventApprovalResolved payload)
                       (\<lambda>err. exit (turn_result turn []) (Some err))
                     (bindL (publish (rq_SessionID q) (tn_ID turn) (aq_StepID approval) EventTurnCancelled [])
                        (exit (turn_result turn [])))))))"

definition resolveApproval :: "run_request \<Rightarrow> string \<Rightarrow> bool \<Rightarrow> string \<Rightarrow> ('f, run_exit) loop" where
  "resolveApproval q approvalID approve nt =
     (case validateRunRequest q True of
        Some err \<Rightarrow> fail err
      | None \<Rightarrow>
          tryL (getApproval approvalID) fail
            (\<lambda>(approval, status).
               if status \<noteq> ApprovalPending
               then fail (errw ErrApprovalConflict (''approval '' @ approvalID @ '' is '' @ dec (approval_status_num status)))
               else if aq_SessionID approval \<noteq> rq_SessionID q \<or> aq_RequestedBy approval \<noteq> prin_UserID (rq_Principal q) \<or>
                       bind_Principal (inv_Binding (aq_Invocation approval)) \<noteq> rq_Principal q
               then fail (ErrNew ''approval does not belong to principal and session'')
               else bindL (decideApproval approvalID (prin_UserID (rq_Principal q)) approve (trim_space nt))
                 (\<lambda>r. case r of
                    Inl err \<Rightarrow> if \<not> errors_is err ErrApprovalExpired then fail err else cancel_waiting q approvalID approval
                  | Inr _ \<Rightarrow> if approve then resumeApproved q approvalID else cancel_waiting q approvalID approval)))"

definition loop_ResolveApproval :: "run_request \<Rightarrow> string \<Rightarrow> bool \<Rightarrow> string \<Rightarrow> 'f loop_env \<Rightarrow> 'f loop_state \<Rightarrow> run_exit \<times> 'f loop_state" where
  "loop_ResolveApproval q approvalID approve nt = run_of (resolveApproval q approvalID approve nt)"

definition loop_ListApprovals :: "string \<Rightarrow> ('f, gerr + approval_view list) loop" where
  "loop_ListApprovals sid = on_approvals (\<lambda>codec now db t. (approval_List codec db sid t, t))"

definition ShellCompletionContext :: "principal \<Rightarrow> string \<Rightarrow> ('f, gerr + model_message list) loop" where
  "ShellCompletionContext prin sid =
     tryL (read_store (\<lambda>ctx. store_GetSession ctx sid)) (\<lambda>err. return (Inl err))
       (\<lambda>ses.
          if ses_CreatedBy ses \<noteq> prin_UserID prin \<or> ses_OrganizationID ses \<noteq> prin_OrganizationID prin \<or>
             ses_Kind ses \<noteq> SessionShell \<or> ses_Status ses \<noteq> SessionActive
          then return (Inl (Sentinel ErrSessionNotFound))
          else tryL (loadAttachments ses) (\<lambda>err. return (Inl err))
            (\<lambda>(attachments, primary). tryL (completedHistory sid []) (\<lambda>err. return (Inl err))
               (\<lambda>history. tryL (pureL (\<lambda>env. map_sum id (\<lambda>memory. [shellContext (le_texts env) attachments primary,
                      new_model_message RoleUser (pt_conclusions (le_texts env) @ memory)])
                        (js_conclusions (le_json env) (shell_conclusions history))))
                  (\<lambda>err. return (Inl err)) (\<lambda>ms. return (Inr ms)))))"

end
