(* ===== verification/Agent_Loop_Safety.thy ===== *)
theory Agent_Loop_Safety
  imports Agent_Loop
begin

text \<open>
  What every run does, whatever the other requests, the model and the tools do. The locale
  \<open>loop_rules\<close> states what one call on the shared state guarantees (a reflexive and transitive relation \<open>R\<close>) and what
  may be recorded in the trace, and derives the same for whole runs by following the program's
  structure. Its interpretations give: a run changes the store only through the store's operations, leaves
  the tool engine in a reachable state, makes at most the configured number of model calls, executes only
  tools of the snapshot just disclosed under the caller's own principal, and executes an approved call
  only after consuming its approval.
\<close>

section \<open>Rules for programs\<close>

named_theorems loop_intros \<open>rules for the program combinators\<close>

definition is_generated :: "loop_trace \<Rightarrow> bool" where
  "is_generated t \<longleftrightarrow> (case t of Generated _ \<Rightarrow> True | _ \<Rightarrow> False)"

definition gen_count :: "loop_trace list \<Rightarrow> nat" where
  "gen_count ts = length (filter is_generated ts)"

lemma gen_count_simps [simp]:
  "gen_count [] = 0" "gen_count (xs @ ys) = gen_count xs + gen_count ys"
  "gen_count (t # ts) = (if is_generated t then 1 else 0) + gen_count ts"
  by (simp_all add: gen_count_def)

text \<open>Store calls that amount to a sequence of the store's state-changing operations.\<close>

definition by_ops :: "(ctx_state \<Rightarrow> gtime \<Rightarrow> memory_store \<Rightarrow> 'a \<times> memory_store) \<Rightarrow> bool" where
  "by_ops op \<longleftrightarrow> (\<forall>ctx now st. \<exists>ops. snd (op ctx now st) = run_ops ops st)"

lemma by_opsI: "(\<And>ctx now st. snd (op ctx now st) = run_ops (ops ctx now st) st) \<Longrightarrow> by_ops op"
  unfolding by_ops_def by blast

lemma by_ops_transitionStep: "by_ops (\<lambda>ctx now. store_transitionStep ctx now sid to out)"
  by (rule by_opsI[where ops = "\<lambda>ctx now st. [OpTransitionStep ctx now sid to out]"]) simp

lemma by_ops_finishStep: "by_ops (\<lambda>ctx now. store_finishStep ctx now sid status code msg)"
proof (rule by_opsI)
  fix ctx now st
  show "snd (store_finishStep ctx now sid status code msg st) =
    run_ops (OpTransitionStep ctx now sid status [] # (if isl (fst (store_transitionStep ctx now sid status [] st)) then []
      else [OpWriteStepError sid code msg])) st"
    by (cases "store_transitionStep ctx now sid status [] st") (auto simp: store_finishStep_def split: sum.splits)
qed

lemma by_ops_calls [loop_intros]:
  "by_ops (\<lambda>ctx now. store_StartTurn ctx now sid t)"
  "by_ops (\<lambda>ctx now. store_TransitionTurn ctx now tid v to code msg)"
  "by_ops (\<lambda>ctx now. store_AppendStep ctx now tid v sp)"
  "by_ops (\<lambda>ctx now. store_AppendMessage ctx now m)"
  "by_ops (\<lambda>ctx now. store_SaveToolSnapshot ctx tid sid snapshot)"
  "by_ops (\<lambda>ctx now. store_CompleteStep ctx now sid out)"
  "by_ops (\<lambda>ctx now. store_WaitStepApproval ctx now sid)"
  "by_ops (\<lambda>ctx now. store_ResumeStep ctx now sid)"
  "by_ops (\<lambda>ctx now. store_FailStep ctx now sid code msg)"
  "by_ops (\<lambda>ctx now. store_CancelStep ctx now sid code msg)"
proof -
  show "by_ops (\<lambda>ctx now. store_StartTurn ctx now sid t)"
    by (rule by_opsI[where ops = "\<lambda>ctx now st. [OpStartTurn ctx now sid t]"]) simp
  show "by_ops (\<lambda>ctx now. store_TransitionTurn ctx now tid v to code msg)"
    by (rule by_opsI[where ops = "\<lambda>ctx now st. [OpTransitionTurn ctx now tid v to code msg]"]) simp
  show "by_ops (\<lambda>ctx now. store_AppendStep ctx now tid v sp)"
    by (rule by_opsI[where ops = "\<lambda>ctx now st. [OpAppendStep ctx now tid v sp]"]) simp
  show "by_ops (\<lambda>ctx now. store_AppendMessage ctx now m)"
    by (rule by_opsI[where ops = "\<lambda>ctx now st. [OpAppendMessage ctx now m]"]) simp
  show "by_ops (\<lambda>ctx now. store_SaveToolSnapshot ctx tid sid snapshot)"
    by (rule by_opsI[where ops = "\<lambda>ctx now st. [OpSaveToolSnapshot ctx tid sid snapshot]"]) simp
qed (use by_ops_transitionStep by_ops_finishStep in \<open>simp_all add: by_ops_def store_CompleteStep_def store_WaitStepApproval_def
    store_ResumeStep_def store_FailStep_def store_CancelStep_def\<close>)

text \<open>The parameters: assumptions \<open>E\<close> on the environment, the guarantee \<open>R\<close> on the shared state, the trace entries \<open>P\<close>
  that a run of principal \<open>p\<close> may make.\<close>

locale loop_base =
  fixes E :: "'f loop_env \<Rightarrow> bool"
    and R :: "'f shared \<Rightarrow> 'f shared \<Rightarrow> bool"
    and P :: "loop_trace \<Rightarrow> bool"
    and p :: principal
    and N :: nat
  assumes config: "E env \<Longrightarrow> nat (lc_MaxModelSteps (le_config env)) \<le> N"
    and R_refl: "R sh sh"
    and R_trans: "R sh1 sh2 \<Longrightarrow> R sh2 sh3 \<Longrightarrow> R sh1 sh3"
    and others: "E env \<Longrightarrow> R sh (le_others env k sh)"
    and store: "R sh (sh\<lparr>ag_store := run_ops ops (ag_store sh)\<rparr>)"
    and engine: "R sh (sh\<lparr>ag_engine := snd (engine_execute policy sha now bnd middleware parent timed snapshot invocation grant (ag_engine sh))\<rparr>)"
    and approvals: "R sh (sh\<lparr>ag_approvals := t\<rparr>)"
    and broker: "R sh (sh\<lparr>ag_broker := brk\<rparr>)"
    and generated: "P (Generated mr)"
    and executed: "exposed \<in> set (snap_Tools snapshot) \<Longrightarrow> rq_Principal (lv_request l) = p \<Longrightarrow>
      P (Executed snapshot (call_invocation l ses attachments primary snapshot exposed c) None r)"
begin

definition ok :: "nat \<Rightarrow> ('f, 'a) loop \<Rightarrow> ('a \<Rightarrow> bool) \<Rightarrow> bool" where
  "ok n m Q \<longleftrightarrow> (\<forall>env s r s'. E env \<longrightarrow> m env s = (r, s') \<longrightarrow>
     R (ls_shared s) (ls_shared s') \<and> (\<forall>x. r = Inr x \<longrightarrow> Q x) \<and>
     (\<exists>new. ls_trace s' = ls_trace s @ new \<and> (\<forall>t \<in> set new. P t) \<and> gen_count new \<le> n))"

lemma okI:
  assumes "\<And>env s r s'. E env \<Longrightarrow> m env s = (r, s') \<Longrightarrow>
     R (ls_shared s) (ls_shared s') \<and> (\<forall>x. r = Inr x \<longrightarrow> Q x) \<and>
     (\<exists>new. ls_trace s' = ls_trace s @ new \<and> (\<forall>t \<in> set new. P t) \<and> gen_count new \<le> n)"
  shows "ok n m Q"
  using assms unfolding ok_def by blast

lemma okD:
  assumes "ok n m Q" "E env" "m env s = (r, s')"
  obtains new where "R (ls_shared s) (ls_shared s')" "\<And>x. r = Inr x \<Longrightarrow> Q x"
    "ls_trace s' = ls_trace s @ new" "\<forall>t \<in> set new. P t" "gen_count new \<le> n"
proof -
  from assms have "R (ls_shared s) (ls_shared s') \<and> (\<forall>x. r = Inr x \<longrightarrow> Q x) \<and>
     (\<exists>new. ls_trace s' = ls_trace s @ new \<and> (\<forall>t \<in> set new. P t) \<and> gen_count new \<le> n)"
    unfolding ok_def by simp
  then show ?thesis by (auto intro: that)
qed

lemma ok_mono:
  assumes "ok n m Q" "n \<le> n'" "\<And>x. Q x \<Longrightarrow> Q' x"
  shows "ok n' m Q'"
proof (rule okI)
  fix env s r s' assume "E env" "m env s = (r, s')"
  from okD[OF assms(1) this] assms(2,3) show "R (ls_shared s) (ls_shared s') \<and> (\<forall>x. r = Inr x \<longrightarrow> Q' x) \<and>
     (\<exists>new. ls_trace s' = ls_trace s @ new \<and> (\<forall>t \<in> set new. P t) \<and> gen_count new \<le> n')"
    by (metis order_trans)
qed

lemma ok_return [loop_intros]: "Q x \<Longrightarrow> ok n (return x) Q"
  by (rule okI) (auto simp: return_def R_refl)

lemma ok_exit [loop_intros]: "ok n (exit r e) Q"
  by (rule okI) (auto simp: exit_def R_refl)

lemma ok_pure: "(\<And>env. E env \<Longrightarrow> Q (f env)) \<Longrightarrow> ok n (pureL f) Q"
  by (rule okI) (auto simp: pureL_def R_refl)

lemma ok_note: "P t \<Longrightarrow> (if is_generated t then 1 else 0) \<le> n \<Longrightarrow> Q () \<Longrightarrow> ok n (note_trace t) Q"
  by (rule okI) (auto simp: note_trace_def R_refl)

lemma ok_bind:
  assumes m: "ok n m Q" and k: "\<And>x. Q x \<Longrightarrow> ok n' (k x) Q'"
  shows "ok (n + n') (bindL m k) Q'"
proof (rule okI)
  fix env s r s' assume E: "E env" and run: "bindL m k env s = (r, s')"
  obtain r1 s1 where 1: "m env s = (r1, s1)" by (cases "m env s")
  from okD[OF m E 1] obtain new1 where R1: "R (ls_shared s) (ls_shared s1)" and Q: "\<And>x. r1 = Inr x \<Longrightarrow> Q x"
    and t1: "ls_trace s1 = ls_trace s @ new1" "\<forall>t \<in> set new1. P t" "gen_count new1 \<le> n"
    by metis
  show "R (ls_shared s) (ls_shared s') \<and> (\<forall>x. r = Inr x \<longrightarrow> Q' x) \<and>
     (\<exists>new. ls_trace s' = ls_trace s @ new \<and> (\<forall>t \<in> set new. P t) \<and> gen_count new \<le> n + n')"
  proof (cases r1)
    case (Inl e)
    with run 1 have "r = Inl e" "s' = s1" by (auto simp: bindL_def)
    with R1 t1 show ?thesis by auto
  next
    case (Inr x)
    with run 1 have 2: "k x env s1 = (r, s')" by (simp add: bindL_def)
    from okD[OF k[OF Q[OF Inr]] E 2] obtain new2 where 3: "R (ls_shared s1) (ls_shared s')" "\<forall>x. r = Inr x \<longrightarrow> Q' x"
      "ls_trace s' = ls_trace s1 @ new2" "\<forall>t \<in> set new2. P t" "gen_count new2 \<le> n'"
      by metis
    have "ls_trace s' = ls_trace s @ (new1 @ new2) \<and> (\<forall>t \<in> set (new1 @ new2). P t) \<and> gen_count (new1 @ new2) \<le> n + n'"
      using t1 3 by auto
    with R_trans[OF R1 3(1)] 3(2) show ?thesis by blast
  qed
qed

lemma ok_bind0: "ok 0 m Q \<Longrightarrow> (\<And>x. Q x \<Longrightarrow> ok n (k x) Q') \<Longrightarrow> ok n (bindL m k) Q'"
  using ok_bind[of 0 m Q n k Q'] by simp

lemma ok_try:
  assumes "ok 0 m (\<lambda>r. case r of Inl err \<Rightarrow> True | Inr x \<Rightarrow> Q x)" "\<And>err. ok n (h err) Q'" "\<And>x. Q x \<Longrightarrow> ok n (k x) Q'"
  shows "ok n (tryL m h k) Q'"
  unfolding tryL_def by (rule ok_bind0[OF assms(1)]) (use assms(2,3) in \<open>auto split: sum.splits\<close>)

lemma ok_tryO [loop_intros]:
  assumes "ok 0 m (\<lambda>_. True)" "\<And>err. ok n (h err) Q'" "ok n k Q'"
  shows "ok n (tryO m h k) Q'"
  unfolding tryO_def by (rule ok_bind0[OF assms(1)]) (use assms(2,3) in \<open>auto split: option.splits\<close>)

lemma ok_call:
  assumes "\<And>env k sh x sh'. E env \<Longrightarrow> f env k sh = (x, sh') \<Longrightarrow> R sh sh' \<and> Q x"
  shows "ok n (call f) Q"
proof (rule okI)
  fix env s r s' assume E: "E env" and run: "call f env s = (r, s')"
  obtain x sh where f: "f env (ls_tick s) (le_others env (ls_tick s) (ls_shared s)) = (x, sh)"
    by (cases "f env (ls_tick s) (le_others env (ls_tick s) (ls_shared s))")
  with run have "r = Inr x" "ls_shared s' = sh" "ls_trace s' = ls_trace s" by (auto simp: call_def Let_def)
  with assms[OF E f] R_trans[OF others[OF E]] show "R (ls_shared s) (ls_shared s') \<and> (\<forall>x. r = Inr x \<longrightarrow> Q x) \<and>
     (\<exists>new. ls_trace s' = ls_trace s @ new \<and> (\<forall>t \<in> set new. P t) \<and> gen_count new \<le> n)" by auto
qed

lemma ok_ask [loop_intros]: "(\<And>env k. Q (f env k)) \<Longrightarrow> ok n (ask f) Q"
  unfolding ask_def by (rule ok_call) (auto simp: R_refl)

lemma ok_read_store [loop_intros]: "ok n (read_store op) (\<lambda>_. True)"
  unfolding read_store_def by (rule ok_call) (auto simp: R_refl)

lemma ok_on_store [loop_intros]:
  assumes "by_ops op"
  shows "ok n (on_store op) (\<lambda>_. True)" "ok n (on_store_detached op) (\<lambda>_. True)"
proof -
  have "R sh (sh\<lparr>ag_store := st\<rparr>)" if "op ctx now (ag_store sh) = (r, st)" for ctx now sh r st
    using assms store that unfolding by_ops_def by (metis snd_conv)
  then show "ok n (on_store op) (\<lambda>_. True)" "ok n (on_store_detached op) (\<lambda>_. True)"
    unfolding on_store_def on_store_detached_def by (auto intro!: ok_call split: prod.splits)
qed

lemma ok_tryT [loop_intros]: "ok 0 m (\<lambda>_. True) \<Longrightarrow> (\<And>err. ok n (h err) Q') \<Longrightarrow> (\<And>x. ok n (k x) Q') \<Longrightarrow> ok n (tryL m h k) Q'"
  by (rule ok_try[where Q = "\<lambda>_. True"]) (auto simp: ok_def split: sum.splits)

lemma ok_bindT [loop_intros]: "ok 0 m (\<lambda>_. True) \<Longrightarrow> (\<And>x. ok n (k x) Q') \<Longrightarrow> ok n (bindL m k) Q'"
  by (rule ok_bind0) auto

lemma ok_pureT [loop_intros]: "ok n (pureL f) (\<lambda>_. True)"
  by (rule ok_pure) simp

lemma ok_publish [loop_intros]: "ok n (publish_with ctx sid tid stepID typ payload) (\<lambda>_. True)"
    "ok n (publish sid tid stepID typ payload) (\<lambda>_. True)"
proof -
  show *: "ok n (publish_with ctx sid tid stepID typ payload) (\<lambda>_. True)" for ctx
    unfolding publish_with_def by (rule ok_call) (auto simp: broker split: prod.splits sum.splits)
  show "ok n (publish sid tid stepID typ payload) (\<lambda>_. True)" unfolding publish_def by (rule *)
qed

lemma ok_new_id [loop_intros]: "ok n (new_id prfx) (\<lambda>_. True)"
  unfolding new_id_def by (rule ok_ask) simp

lemma ok_on_approvals: "(\<And>codec now db t r t'. op codec now db t = (r, t') \<Longrightarrow> Q r) \<Longrightarrow> ok n (on_approvals op) Q"
  unfolding on_approvals_def by (rule ok_call) (auto simp: approvals split: prod.splits)

lemma ok_on_approvalsT [loop_intros]: "ok n (on_approvals op) (\<lambda>_. True)"
  by (rule ok_on_approvals) simp

lemma ok_engine_call:
  assumes "\<And>r. P (Executed snapshot invocation grant r)"
  shows "ok n (engine_call snapshot invocation grant) (\<lambda>_. True)"
  unfolding engine_call_def
proof (rule ok_bindT)
  show "ok 0 (call (\<lambda>env k sh.
      case engine_execute (le_policy env) (le_sha env) (le_now env k) (le_bind env k) (le_middleware env)
             (fst (le_tool_ctx env k)) (snd (le_tool_ctx env k)) snapshot invocation grant (ag_engine sh) of
        (r, g) \<Rightarrow> (r, sh\<lparr>ag_engine := g\<rparr>))) (\<lambda>_. True)"
    by (rule ok_call) (auto split: prod.splits, metis engine snd_conv)
  show "ok n (bindL (note_trace (Executed snapshot invocation grant r)) (\<lambda>_. return r)) (\<lambda>_. True)" for r
    by (intro ok_bindT ok_note ok_return) (simp_all add: assms is_generated_def)
qed

subsection \<open>The fragments of a run\<close>

lemma ok_loadAttachments [loop_intros]: "ok n (loadAttachments ses) (\<lambda>_. True)"
  unfolding loadAttachments_def by (auto intro!: loop_intros)

lemma ok_failTurn [loop_intros]: "ok n (failTurn turn code cause) Q"
  unfolding failTurn_def by (auto intro!: loop_intros)

lemma ok_appendMessage [loop_intros]: "ok n (appendMessage sid tid m) (\<lambda>_. True)"
  unfolding appendMessage_def by (auto intro!: loop_intros)

lemma ok_completedHistory [loop_intros]: "ok n (completedHistory sid tid) (\<lambda>_. True)"
  unfolding completedHistory_def by (auto intro!: loop_intros)

lemma ok_publish_deltas [loop_intros]: "ok n (publish_deltas sid tid stepID ps) (\<lambda>_. True)"
  by (induction ps) (auto intro!: loop_intros)

lemma ok_generate: "ok (Suc 0) (generate stepID mr) (\<lambda>_. True)"
proof -
  have "ok (Suc 0) (note_trace (Generated mr)) (\<lambda>_. True)" by (rule ok_note) (simp_all add: generated is_generated_def)
  moreover have "ok 0 (bindL (ask (\<lambda>env k. le_generate env k mr))
      (\<lambda>(deltas, r). bindL (publish_deltas (mr_SessionID mr) (mr_TurnID mr) stepID deltas) (\<lambda>_. return r))) (\<lambda>_. True)"
    by (auto intro!: loop_intros)
  ultimately show ?thesis using ok_bind[of "Suc 0" _ "\<lambda>_. True" 0] unfolding generate_def by simp
qed

definition claimable :: "approval_request \<Rightarrow> bool" where
  "claimable a \<longleftrightarrow> aq_RequestedBy a = prin_UserID p \<and> bind_Principal (inv_Binding (aq_Invocation a)) = p"

definition owned :: "run_request \<Rightarrow> bool" where
  "owned q \<longleftrightarrow> rq_Principal q = p"

lemma ok_getApproved: "ok n (getApproved i p)
    (\<lambda>r. \<forall>a. r = Inr a \<longrightarrow> claimable a)"
  unfolding getApproved_def by (rule ok_on_approvals) (auto simp: claimable_def elim: GetApproved_row)

definition mine :: "loop_locals \<Rightarrow> bool" where
  "mine l \<longleftrightarrow> rq_Principal (lv_request l) = p"

lemma mine_update [simp]:
  "mine (l\<lparr>lv_turn := t\<rparr>) = mine l" "mine (l\<lparr>lv_messages := ms\<rparr>) = mine l"
  "mine (l\<lparr>lv_text := tx\<rparr>) = mine l" "mine (l\<lparr>lv_recent := is, lv_promoted := js\<rparr>) = mine l"
  by (simp_all add: mine_def)

lemma ok_stop [loop_intros]: "ok n (stop l err) Q" "ok n (lost_turn l err) Q"
  unfolding stop_def lost_turn_def by (auto intro!: loop_intros)

lemma mine_make: "owned q \<Longrightarrow>
    mine \<lparr>lv_request = q, lv_turn = t, lv_messages = ms, lv_promoted = is, lv_recent = js, lv_text = tx\<rparr>"
  "owned q \<Longrightarrow>
    mine \<lparr>lv_request = q\<lparr>rq_Prompt := prompt\<rparr>, lv_turn = t, lv_messages = ms, lv_promoted = is, lv_recent = js, lv_text = tx\<rparr>"
  by (simp_all add: mine_def owned_def)

lemma ok_begin_turn:
  assumes "owned q"
  shows "ok n (begin_turn q) mine"
  unfolding begin_turn_def by (auto intro!: loop_intros mine_make[OF assms])

lemma restored_principal: "restored_selection js tid q steps = Inr q' \<Longrightarrow> rq_Principal q' = rq_Principal q"
  by (auto simp: restored_selection_def map_sum_Inr_iff split: option.splits)

lemma ok_wait_approval [loop_intros]: "ok n (wait_approval l stepID snapshot frozen d) Q"
  unfolding wait_approval_def Let_def by (auto intro!: loop_intros)

lemma resolve_exposed: "resolveModelCall snapshot c = Inr exposed \<Longrightarrow> exposed \<in> set (snap_Tools snapshot)"
  by (auto simp: resolveModelCall_def find_Some_iff split: if_splits option.splits)

lemma ok_call_tool:
  assumes l: "mine l"
  shows "ok n (call_tool ses attachments primary snapshot c l) mine"
proof (cases "resolveModelCall snapshot c")
  case (Inl err)
  then show ?thesis by (auto simp: call_tool_def intro!: loop_intros)
next
  case (Inr exposed)
  have eng: "ok 0 (engine_call snapshot (call_invocation (l\<lparr>lv_turn := turn\<rparr>) ses attachments primary snapshot exposed c) None) (\<lambda>_. True)" for turn
    by (rule ok_engine_call) (use l in \<open>auto intro!: executed resolve_exposed[OF Inr] simp: mine_def\<close>)
  show ?thesis using l eng unfolding call_tool_def Inr sum.case Let_def
    by (auto intro!: loop_intros split: sum.splits exec_error.splits)
qed

lemma ok_call_tools: "mine l \<Longrightarrow> ok n (call_tools ses attachments primary snapshot cs l) mine"
proof (induction cs arbitrary: l)
  case (Cons c cs)
  show ?case by simp (rule ok_bind0[OF ok_call_tool[OF Cons.prems] Cons.IH])
qed (simp add: ok_return)

lemma ok_handle_response:
  "mine l \<Longrightarrow> ok n (handle_response ses attachments primary snapshot stepID l response) mine"
  unfolding handle_response_def Let_def by (auto intro!: loop_intros ok_call_tools)

lemma ok_run_model:
  assumes "mine l"
  shows "ok (Suc 0) (run_model ses attachments primary snapshot stepID ms l) mine"
proof -
  have respond: "ok (Suc 0) (bindL (generate sid mr) (\<lambda>r. case r of
      Inl err \<Rightarrow> bindL (on_store_detached (\<lambda>ctx now. store_FailStep ctx now sid ''model_error'' (error_text err)))
        (\<lambda>f. stop (l\<lparr>lv_turn := turn\<rparr>) (errors_join (ErrWrap ''generate model response: '' err [])
           (case f of Inl failErr \<Rightarrow> Some failErr | Inr _ \<Rightarrow> None)))
    | Inr response \<Rightarrow> handle_response ses attachments primary snapshot sid (l\<lparr>lv_turn := turn\<rparr>) response)) mine" for sid mr turn
  proof -
    have "ok (Suc 0 + 0) (bindL (generate sid mr) (\<lambda>r. case r of
      Inl err \<Rightarrow> bindL (on_store_detached (\<lambda>ctx now. store_FailStep ctx now sid ''model_error'' (error_text err)))
        (\<lambda>f. stop (l\<lparr>lv_turn := turn\<rparr>) (errors_join (ErrWrap ''generate model response: '' err [])
           (case f of Inl failErr \<Rightarrow> Some failErr | Inr _ \<Rightarrow> None)))
    | Inr response \<Rightarrow> handle_response ses attachments primary snapshot sid (l\<lparr>lv_turn := turn\<rparr>) response)) mine"
      by (rule ok_bind[OF ok_generate]) (use assms in \<open>auto intro!: loop_intros ok_handle_response split: sum.splits\<close>)
    then show ?thesis by simp
  qed
  show ?thesis unfolding run_model_def Let_def
    by (auto intro!: ok_tryT respond ok_stop ok_pureT ok_on_store by_ops_calls)
qed

lemma ok_model_step: "mine l \<Longrightarrow> ok (Suc 0) (model_step l) mine"
proof -
  assume l: "mine l"
  have snap: "ok n (call (\<lambda>env k sh. (f env k sh, sh))) (\<lambda>_. True)" for n and f :: "'f loop_env \<Rightarrow> nat \<Rightarrow> 'f shared \<Rightarrow> 'b"
    by (rule ok_call) (simp add: R_refl)
  show ?thesis unfolding model_step_def
    by (auto intro!: ok_tryT loop_intros snap ok_run_model[OF l])
qed

lemma ok_model_loop: "mine l \<Longrightarrow> ok n (model_loop n l) (\<lambda>_. True)"
proof (induction n arbitrary: l)
  case (Suc n)
  have "ok (Suc 0 + n) (bindL (model_step l) (model_loop n)) (\<lambda>_. True)"
    by (rule ok_bind[OF ok_model_step[OF Suc.prems] Suc.IH])
  then show ?case by simp
qed (simp add: ok_stop)

lemma ok_deferred: "ok n (deferred e) (\<lambda>_. True)"
  unfolding deferred_def by (auto intro!: loop_intros split: option.splits prod.splits)

lemma ok_with_deferred:
  assumes "ok n m (\<lambda>_. True)"
  shows "ok n (with_deferred m) (\<lambda>_. True)"
proof -
  have eq: "with_deferred m = (\<lambda>env s. bindL (\<lambda>env s. case m env s of (r, s') \<Rightarrow> (Inr r, s')) (case_sum deferred deferred) env s)"
    by (auto simp: with_deferred_def bindL_def fun_eq_iff split: prod.splits sum.splits)
  have "ok n (\<lambda>env s. case m env s of (r, s') \<Rightarrow> (Inr r, s')) (\<lambda>_. True)"
  proof (rule okI)
    fix env s r s' assume E: "E env" and run: "(case m env s of (r, s') \<Rightarrow> (Inr r, s')) = (r, s')"
    from run obtain r1 where "m env s = (r1, s')" by (auto split: prod.splits)
    from okD[OF assms E this] show "R (ls_shared s) (ls_shared s') \<and> (\<forall>x. r = Inr x \<longrightarrow> True) \<and>
      (\<exists>new. ls_trace s' = ls_trace s @ new \<and> (\<forall>t \<in> set new. P t) \<and> gen_count new \<le> n)" by metis
  qed
  from ok_bind[OF this, of 0 "case_sum deferred deferred" "\<lambda>_. True"] ok_deferred show ?thesis
    unfolding eq by (simp split: sum.splits)
qed

lemma ok_cancel_waiting: "ok n (cancel_waiting q i a) Q"
  unfolding cancel_waiting_def by (auto intro!: loop_intros)

lemma ok_getApproval: "ok n (getApproval i) (\<lambda>_. True)"
  unfolding getApproval_def by (auto intro!: loop_intros)

lemma ok_decideApproval: "ok n (decideApproval i decider approve nt) (\<lambda>_. True)"
  unfolding decideApproval_def by (auto intro!: loop_intros)

end

section \<open>Runs that may resume an approved call\<close>

locale loop_rules = loop_base +
  assumes consumed: "aq_RequestedBy a = prin_UserID p \<Longrightarrow> bind_Principal (inv_Binding (aq_Invocation a)) = p \<Longrightarrow> P (Consumed i a)"
    and approved: "aq_RequestedBy a = prin_UserID p \<Longrightarrow> bind_Principal (inv_Binding (aq_Invocation a)) = p \<Longrightarrow>
      P (Executed (aq_Snapshot a) (aq_Invocation a) (Some (approval_grant_of a)) r)"
begin

lemma ok_consumeApproval: "ok n (consumeApproval i p) (\<lambda>r. \<forall>a. r = Inr a \<longrightarrow> claimable a)"
  (is "ok n _ ?Q")
  unfolding consumeApproval_def
proof (rule ok_try)
  show "ok 0 (getApproved i p) (case_sum (\<lambda>err. True) claimable)"
    by (rule ok_mono[OF ok_getApproved]) (auto split: sum.splits)
  show "ok n (return (Inl err)) ?Q" for err by (rule ok_return) simp
  show "ok n (tryL (on_approvals (\<lambda>codec now db t. (map_sum id (Pair now) (GetAgentApproval db i t), t)))
          (\<lambda>err. return (Inl (mapApprovalNotFound err i)))
          (\<lambda>(now, row). tryL (on_approvals (\<lambda>codec _ db. consume_write db i a (row\<lparr>ap_Status := ApprovalConsumed, ap_UpdatedAt := now\<rparr>)))
             (\<lambda>err. return (Inl err))
             (\<lambda>q. bindL (note_trace (Consumed i q)) (\<lambda>_. return (Inr q))))) ?Q" if "claimable a" for a
  proof (rule ok_tryT[OF ok_on_approvalsT ok_return], simp, clarify)
    fix now row
    show "ok n (tryL (on_approvals (\<lambda>codec _ db. consume_write db i a (row\<lparr>ap_Status := ApprovalConsumed, ap_UpdatedAt := now\<rparr>)))
             (\<lambda>err. return (Inl err)) (\<lambda>q. bindL (note_trace (Consumed i q)) (\<lambda>_. return (Inr q)))) ?Q"
    proof (rule ok_try)
      show "ok 0 (on_approvals (\<lambda>codec _ db. consume_write db i a (row\<lparr>ap_Status := ApprovalConsumed, ap_UpdatedAt := now\<rparr>)))
          (case_sum (\<lambda>err. True) (\<lambda>q. q = a))"
        by (rule ok_on_approvals) (auto simp: consume_write_def split: sum.splits prod.splits if_splits)
      show "ok n (bindL (note_trace (Consumed i q)) (\<lambda>_. return (Inr q))) ?Q" if "q = a" for q
        using \<open>claimable a\<close> that by (intro ok_bindT ok_note ok_return) (auto simp: consumed is_generated_def claimable_def)
    qed (rule ok_return, simp)
  qed
qed

lemma ok_run_approved:
  assumes "owned q" "claimable a"
  shows "ok n (run_approved q turn a) mine"
proof -
  have "ok 0 (engine_call (aq_Snapshot a) (aq_Invocation a) (Some (approval_grant_of a))) (\<lambda>_. True)"
    by (rule ok_engine_call) (use assms(2) in \<open>simp add: approved claimable_def\<close>)
  then show ?thesis unfolding run_approved_def Let_def
    by (auto intro!: loop_intros mine_make[OF assms(1)])
qed

lemma ok_resume_claimed:
  assumes "owned q"
  shows "ok n (resume_claimed q i turn) mine"
  unfolding resume_claimed_def
proof (rule ok_try)
  show "ok 0 (consumeApproval i (rq_Principal q)) (case_sum (\<lambda>err. True) claimable)"
    unfolding assms[unfolded owned_def] by (rule ok_mono[OF ok_consumeApproval]) (simp_all split: sum.splits)
  show "ok n (tryL (on_store (\<lambda>ctx now. store_TransitionTurn ctx now (tn_ID turn) (tn_Version turn) TurnRunning [] [])) fail
        (\<lambda>turn. tryL (on_store (\<lambda>ctx now. store_ResumeStep ctx now (aq_StepID a)))
           (\<lambda>err. exit (turn_result turn []) (Some err)) (\<lambda>_. run_approved q turn a))) mine" if "claimable a" for a
    by (intro ok_tryT loop_intros ok_run_approved[OF assms that])
qed (rule ok_exit)

lemma ok_resume_turn:
  assumes "owned q"
  shows "ok n (resume_turn q i ses attachments) mine"
proof -
  have sel: "ok 0 (pureL (\<lambda>env. restored_selection (le_json env) tid q steps)) (case_sum (\<lambda>err. True) owned)" for tid steps
    by (rule ok_pure) (use assms in \<open>auto simp: owned_def dest: restored_principal split: sum.split\<close>)
  have got: "ok 0 (getApproved i (rq_Principal q)) (\<lambda>_. True)"
    unfolding assms[unfolded owned_def] by (rule ok_mono[OF ok_getApproved]) auto
  show ?thesis unfolding resume_turn_def
    by (rule ok_tryT[OF got]) (auto intro!: loop_intros ok_try[OF sel] ok_resume_claimed)
qed

lemma ok_loop_run:
  assumes "owned q"
  shows "ok N (loop_run q i) (\<lambda>_. True)"
proof -
  have start: "ok 0 (if i = [] then begin_turn q else resume_turn q i ses attachments) mine" for ses attachments
    by (simp add: ok_begin_turn ok_resume_turn assms)
  have steps: "ok 0 (pureL (\<lambda>env. nat (lc_MaxModelSteps (le_config env)))) (\<lambda>n. n \<le> N)"
    by (rule ok_pure) (rule config)
  have body: "ok N (with_deferred (model_loop n (l\<lparr>lv_messages := ms\<rparr>))) (\<lambda>_. True)" if "mine l" "n \<le> N" for l n ms
    by (rule ok_with_deferred, rule ok_mono[OF ok_model_loop that(2)]) (simp_all add: that)
  show ?thesis unfolding loop_run_def
    by (auto intro!: ok_tryT ok_exit ok_read_store ok_loadAttachments ok_bind0[OF start] ok_completedHistory ok_failTurn
        ok_bind0[OF steps] body split: option.splits)
qed

lemma ok_resumeApproved: "owned q \<Longrightarrow> ok N (resumeApproved q i) (\<lambda>_. True)"
  unfolding resumeApproved_def by (auto intro!: ok_exit ok_loop_run)

lemma ok_resolveApproval:
  assumes "owned q"
  shows "ok N (resolveApproval q i approve nt) (\<lambda>_. True)"
  unfolding resolveApproval_def
  by (auto intro!: ok_exit ok_tryT[OF ok_getApproval] ok_bindT[OF ok_decideApproval] ok_cancel_waiting ok_resumeApproved[OF assms]
      split: option.splits sum.splits)

lemma ok_run_of:
  assumes "ok n m (\<lambda>_. True)" "E env" "run_of m env s = (e, s')"
  obtains new where "R (ls_shared s) (ls_shared s')" "ls_trace s' = ls_trace s @ new" "\<forall>t \<in> set new. P t" "gen_count new \<le> n"
proof -
  from assms(3) obtain r where "m env s = (r, s')" by (auto simp: run_of_def split: prod.splits sum.splits)
  from okD[OF assms(1,2) this] show ?thesis using that by metis
qed

end

section \<open>The store and the engine under a run\<close>

lemma engine_execute_reachable:
  assumes "eng_reachable g"
  shows "eng_reachable (snd (engine_execute policy sha now bnd middleware parent timed snapshot invocation grant g))"
proof -
  obtain r g1 where b: "execute_begin policy sha now snapshot invocation grant g = (r, g1)"
    by (cases "execute_begin policy sha now snapshot invocation grant g")
  have 1: "eng_reachable g1"
    using eng_next[OF assms eng_step.intros(7)[of g policy sha now snapshot invocation grant]] by (simp add: b)
  show ?thesis using 1 eng_next[OF 1 eng_step.intros(8)]
    by (auto simp: engine_execute_def b split: sum.splits prod.splits)
qed

text \<open>Other requests may call any operation of the store and of the engine, and anything on approvals and events.\<close>

definition state_kept :: "'f shared \<Rightarrow> 'f shared \<Rightarrow> bool" where
  "state_kept sh sh' \<longleftrightarrow> (\<exists>ops. ag_store sh' = run_ops ops (ag_store sh)) \<and>
     (eng_reachable (ag_engine sh) \<longrightarrow> eng_reachable (ag_engine sh'))"

definition others_fair :: "'f loop_env \<Rightarrow> bool" where
  "others_fair env \<longleftrightarrow> (\<forall>k sh. state_kept sh (le_others env k sh))"

interpretation stores: loop_rules "\<lambda>env. others_fair env \<and> nat (lc_MaxModelSteps (le_config env)) \<le> N" state_kept "\<lambda>_. True" p N
proof
  show "state_kept sh sh" for sh unfolding state_kept_def by (metis run_ops_simps(1))
  show "state_kept a c" if "state_kept a b" "state_kept b c" for a b c
    using that unfolding state_kept_def by (metis run_ops_simps(3))
  show "state_kept sh (le_others env k sh)" if "others_fair env \<and> nat (lc_MaxModelSteps (le_config env)) \<le> N" for env k sh
    using that by (simp add: others_fair_def)
  show "state_kept sh (sh\<lparr>ag_store := run_ops ops (ag_store sh)\<rparr>)" for sh ops
    unfolding state_kept_def by auto
  show "state_kept sh (sh\<lparr>ag_engine := snd (engine_execute policy sha now bnd middleware parent timed snapshot invocation grant (ag_engine sh))\<rparr>)"
    for sh policy sha now bnd middleware parent timed snapshot invocation grant
    unfolding state_kept_def using engine_execute_reachable[of "ag_engine sh"] by simp (metis run_ops_simps(1))
  show "state_kept sh (sh\<lparr>ag_approvals := t\<rparr>)" "state_kept sh (sh\<lparr>ag_broker := b\<rparr>)" for sh t b
    unfolding state_kept_def by (simp_all, (metis run_ops_simps(1))+)
qed auto

section \<open>The trace of a run\<close>

definition rightful :: "principal \<Rightarrow> loop_trace \<Rightarrow> bool" where
  "rightful p t \<longleftrightarrow>
     (case t of
        Generated _ \<Rightarrow> True
      | Consumed i a \<Rightarrow> aq_RequestedBy a = prin_UserID p \<and> bind_Principal (inv_Binding (aq_Invocation a)) = p
      | Executed snapshot invocation grant r \<Rightarrow>
          bind_Principal (inv_Binding invocation) = p \<and>
          (grant = None \<longrightarrow> bind_ToolSnapshotID (inv_Binding invocation) = snap_ID snapshot \<and>
             list_ex (\<lambda>e. td_ID (exp_Descriptor e) = call_ID (inv_Call invocation) \<and>
                          exp_RegistrationGeneration e = inv_RegistrationGeneration invocation) (snap_Tools snapshot)))"

interpretation traces: loop_rules "\<lambda>env. nat (lc_MaxModelSteps (le_config env)) \<le> N" "\<lambda>_ _. True" "rightful p" p N
proof
  show "rightful p (Executed snapshot (call_invocation l ses attachments primary snapshot exposed c) None r)"
    if "exposed \<in> set (snap_Tools snapshot)" "rq_Principal (lv_request l) = p"
    for exposed snapshot l ses attachments primary c r
    using that by (auto simp: rightful_def call_invocation_def list_ex_iff)
qed (auto simp: rightful_def)

text \<open>Without a resume there is no execution with a grant.\<close>

definition ungranted :: "loop_trace \<Rightarrow> bool" where
  "ungranted t \<longleftrightarrow> (case t of Generated _ \<Rightarrow> True | Executed _ _ grant _ \<Rightarrow> grant = None | Consumed _ _ \<Rightarrow> False)"

interpretation plain: loop_base "\<lambda>env. nat (lc_MaxModelSteps (le_config env)) \<le> N" "\<lambda>_ _. True" ungranted p N
  by unfold_locales (auto simp: ungranted_def)

text \<open>Programs that record nothing.\<close>

definition quiet :: "('f, 'a) loop \<Rightarrow> bool" where
  "quiet m \<longleftrightarrow> (\<forall>env s. ls_trace (snd (m env s)) = ls_trace s)"

named_theorems quiet_intros \<open>programs that leave the trace alone\<close>

lemma quiet_basic [quiet_intros]: "quiet (return x)" "quiet (exit r e)" "quiet (pureL f)" "quiet (call g)"
  by (auto simp: quiet_def return_def exit_def pureL_def call_def Let_def case_prod_beta)

lemma quiet_bind [quiet_intros]: "quiet m \<Longrightarrow> (\<And>x. quiet (k x)) \<Longrightarrow> quiet (bindL m k)"
  by (auto simp: quiet_def bindL_def split: prod.splits sum.splits) (metis snd_conv)+

lemma quiet_try [quiet_intros]: "quiet m \<Longrightarrow> (\<And>e. quiet (h e)) \<Longrightarrow> (\<And>x. quiet (k x)) \<Longrightarrow> quiet (tryL m h k)"
  "quiet m' \<Longrightarrow> (\<And>e. quiet (h e)) \<Longrightarrow> quiet k' \<Longrightarrow> quiet (tryO m' h k')"
  unfolding tryL_def tryO_def by (rule quiet_bind; auto split: sum.split option.split)+

lemma quiet_calls [quiet_intros]: "quiet (on_store op)" "quiet (on_store_detached op)" "quiet (read_store rd)" "quiet (ask f)"
  "quiet (new_id prfx)" "quiet (publish_with ctx sid tid stepID typ payload)" "quiet (publish sid tid stepID typ payload)"
  "quiet (on_approvals aop)" "quiet (getApproved i prin)"
  unfolding on_store_def on_store_detached_def read_store_def ask_def new_id_def publish_def publish_with_def
    on_approvals_def getApproved_def by (rule quiet_basic)+

lemma quiet_fragments [quiet_intros]: "quiet (failTurn turn code cause)" "quiet (appendMessage sid tid m)"
  "quiet (completedHistory sid tid)" "quiet (loadAttachments ses)"
  unfolding failTurn_def appendMessage_def completedHistory_def loadAttachments_def by (auto intro!: quiet_intros)

text \<open>What a program appends to the trace, as a set of lists.\<close>

definition appends :: "'f loop_env \<Rightarrow> ('f, 'a) loop \<Rightarrow> (loop_trace list \<Rightarrow> bool) \<Rightarrow> bool" where
  "appends env m L \<longleftrightarrow> (\<forall>s. \<exists>new. ls_trace (snd (m env s)) = ls_trace s @ new \<and> L new)"

lemma appends_quiet: "quiet m \<Longrightarrow> L [] \<Longrightarrow> appends env m L"
  by (auto simp: appends_def quiet_def)

lemma appends_mono: "appends env m L \<Longrightarrow> (\<And>xs. L xs \<Longrightarrow> L' xs) \<Longrightarrow> appends env m L'"
  unfolding appends_def by blast

lemma appends_bind:
  assumes "appends env m L1" "\<And>x. appends env (k x) L2" "\<And>xs. L1 xs \<Longrightarrow> L xs" "\<And>xs ys. L1 xs \<Longrightarrow> L2 ys \<Longrightarrow> L (xs @ ys)"
  shows "appends env (bindL m k) L"
  unfolding appends_def
proof
  fix s
  obtain r s1 where 1: "m env s = (r, s1)" by (cases "m env s")
  from assms(1) 1 obtain n1 where n1: "ls_trace s1 = ls_trace s @ n1" "L1 n1" unfolding appends_def by (metis snd_conv)
  show "\<exists>new. ls_trace (snd (bindL m k env s)) = ls_trace s @ new \<and> L new"
  proof (cases r)
    case (Inl e)
    then show ?thesis using 1 n1 assms(3) by (auto simp: bindL_def)
  next
    case (Inr x)
    from assms(2)[of x] obtain n2 where "ls_trace (snd (k x env s1)) = ls_trace s1 @ n2" "L2 n2" unfolding appends_def by metis
    then show ?thesis using 1 n1 Inr assms(4) by (auto simp: bindL_def intro!: exI[of _ "n1 @ n2"])
  qed
qed

lemma appends_after_quiet: "quiet m \<Longrightarrow> (\<And>x. appends env (k x) L) \<Longrightarrow> L [] \<Longrightarrow> appends env (bindL m k) L"
  by (rule appends_bind[where ?L1.0 = "\<lambda>xs. xs = []"]) (auto intro: appends_quiet)

lemma appends_try_quiet:
  "quiet m \<Longrightarrow> (\<And>e. quiet (h e)) \<Longrightarrow> (\<And>x. appends env (k x) L) \<Longrightarrow> L [] \<Longrightarrow> appends env (tryL m h k) L"
  unfolding tryL_def by (rule appends_after_quiet) (auto split: sum.split intro: appends_quiet)

lemma appends_before_quiet: "appends env m L \<Longrightarrow> (\<And>x. quiet (k x)) \<Longrightarrow> appends env (bindL m k) L"
  by (rule appends_bind[where ?L2.0 = "\<lambda>xs. xs = []" and ?L1.0 = L]) (auto intro: appends_quiet)

definition appends_result :: "'f loop_env \<Rightarrow> ('f, 'a) loop \<Rightarrow> (run_exit + 'a \<Rightarrow> loop_trace list \<Rightarrow> bool) \<Rightarrow> bool" where
  "appends_result env m L \<longleftrightarrow> (\<forall>s r s'. m env s = (r, s') \<longrightarrow> (\<exists>new. ls_trace s' = ls_trace s @ new \<and> L r new))"

lemma appends_result_quiet: "quiet m \<Longrightarrow> (\<And>r. L r []) \<Longrightarrow> appends_result env m L"
  by (auto simp: appends_result_def quiet_def) (metis append_Nil2 snd_conv)

lemma appends_result_bind:
  assumes "appends_result env m L1" "\<And>x. appends_result env (k x) (L2 x)" "\<And>e xs. L1 (Inl e) xs \<Longrightarrow> L (Inl e) xs"
    "\<And>x xs r ys. L1 (Inr x) xs \<Longrightarrow> L2 x r ys \<Longrightarrow> L r (xs @ ys)"
  shows "appends_result env (bindL m k) L"
  unfolding appends_result_def
proof (intro allI impI)
  fix s r s' assume run: "bindL m k env s = (r, s')"
  obtain r1 s1 where 1: "m env s = (r1, s1)" by (cases "m env s")
  from assms(1) 1 obtain n1 where n1: "ls_trace s1 = ls_trace s @ n1" "L1 r1 n1" unfolding appends_result_def by metis
  show "\<exists>new. ls_trace s' = ls_trace s @ new \<and> L r new"
  proof (cases r1)
    case (Inl e)
    with run 1 have "r = Inl e" "s' = s1" by (auto simp: bindL_def)
    with n1(1) assms(3)[OF n1(2)[unfolded Inl]] show ?thesis by auto
  next
    case (Inr x)
    with run 1 have "k x env s1 = (r, s')" by (simp add: bindL_def)
    with assms(2)[of x] obtain n2 where n2: "ls_trace s' = ls_trace s1 @ n2" "L2 x r n2" unfolding appends_result_def by metis
    from assms(4)[OF n1(2)[unfolded Inr] n2(2)] n1(1) n2(1) show ?thesis by auto
  qed
qed

lemma appends_result_after_quiet:
  "quiet m \<Longrightarrow> (\<And>x. appends_result env (k x) L) \<Longrightarrow> (\<And>r. L r []) \<Longrightarrow> appends_result env (bindL m k) L"
  by (rule appends_result_bind[where ?L1.0 = "\<lambda>r xs. xs = []" and ?L2.0 = "\<lambda>_. L"]) (auto intro: appends_result_quiet)

lemma appends_result_note: "appends_result env (bindL (note_trace t) (\<lambda>_. return x)) (\<lambda>r xs. r = Inr x \<and> xs = [t])"
  by (auto simp: appends_result_def bindL_def note_trace_def return_def)

lemma appends_result_try:
  assumes "quiet m" "\<And>err. appends_result env (h err) L" "\<And>x. appends_result env (k x) L" "\<And>e. L (Inl e) []"
  shows "appends_result env (tryL m h k) L"
  unfolding tryL_def
proof (rule appends_result_bind[where ?L1.0 = "\<lambda>r xs. xs = []" and ?L2.0 = "\<lambda>_. L"])
  show "appends_result env m (\<lambda>r xs. xs = [])" by (rule appends_result_quiet[OF assms(1)]) simp
  show "appends_result env (case x of Inl err \<Rightarrow> h err | Inr x \<Rightarrow> k x) L" for x
    using assms(2,3) by (cases x) auto
qed (use assms(4) in auto)

lemma consumeApproval_appends:
  "appends_result env (consumeApproval i prin) (\<lambda>r xs. case r of Inr (Inr a) \<Rightarrow> xs = [Consumed i a] | _ \<Rightarrow> xs = [])"
  (is "appends_result _ _ ?L")
proof -
  have ret: "appends_result env (return (Inl err)) ?L" for err
    by (auto simp: appends_result_def return_def)
  have noted: "appends_result env (bindL (note_trace (Consumed i q)) (\<lambda>_. return (Inr q))) ?L" for q
    by (auto simp: appends_result_def bindL_def note_trace_def return_def)
  show ?thesis unfolding consumeApproval_def
    by (auto intro!: appends_result_try quiet_intros ret noted)
qed

lemma engine_call_appends:
  "appends env (engine_call snapshot invocation grant) (\<lambda>xs. \<exists>r. xs = [Executed snapshot invocation grant r])"
  by (auto simp: appends_def engine_call_def bindL_def call_def note_trace_def return_def Let_def split: prod.splits)

lemma run_approved_appends:
  "appends env (run_approved q turn a)
     (\<lambda>xs. xs = [] \<or> (\<exists>r. xs = [Executed (aq_Snapshot a) (aq_Invocation a) (Some (approval_grant_of a)) r]))"
proof -
  have "appends env (bindL (engine_call (aq_Snapshot a) (aq_Invocation a) (Some (approval_grant_of a))) (\<lambda>r. return (map_sum exec_gerr id r)))
     (\<lambda>xs. \<exists>r. xs = [Executed (aq_Snapshot a) (aq_Invocation a) (Some (approval_grant_of a)) r])"
    by (rule appends_before_quiet[OF engine_call_appends]) (rule quiet_intros)
  from appends_before_quiet[OF this] show ?thesis
    unfolding run_approved_def tryL_def[of "bindL (engine_call _ _ _) _"] Let_def
    by (rule appends_mono) (auto intro!: quiet_intros split: sum.split)
qed

text \<open>The one execution with a grant: the call frozen in the approval consumed just before.\<close>

definition claimed_run :: "string \<Rightarrow> loop_trace list \<Rightarrow> bool" where
  "claimed_run i xs \<longleftrightarrow> xs = [] \<or> (\<exists>a. xs = [Consumed i a] \<or>
     (\<exists>r. xs = [Consumed i a, Executed (aq_Snapshot a) (aq_Invocation a) (Some (approval_grant_of a)) r]))"

lemma appends_iff_result: "appends env m L \<longleftrightarrow> appends_result env m (\<lambda>_. L)"
proof
  assume m: "appends env m L"
  show "appends_result env m (\<lambda>_. L)" unfolding appends_result_def
  proof (intro allI impI)
    fix s r s' assume "m env s = (r, s')"
    with m show "\<exists>new. ls_trace s' = ls_trace s @ new \<and> L new" unfolding appends_def by (metis snd_conv)
  qed
next
  assume m: "appends_result env m (\<lambda>_. L)"
  show "appends env m L" unfolding appends_def
  proof
    fix s
    obtain r s' where "m env s = (r, s')" by (cases "m env s")
    with m show "\<exists>new. ls_trace (snd (m env s)) = ls_trace s @ new \<and> L new" unfolding appends_result_def by fastforce
  qed
qed

lemma resume_claimed_appends: "appends env (resume_claimed q i turn) (claimed_run i)"
proof -
  let ?rest = "\<lambda>a. tryL (on_store (\<lambda>ctx now. store_TransitionTurn ctx now (tn_ID turn) (tn_Version turn) TurnRunning [] [])) fail
      (\<lambda>turn. tryL (on_store (\<lambda>ctx now. store_ResumeStep ctx now (aq_StepID a)))
         (\<lambda>err. exit (turn_result turn []) (Some err)) (\<lambda>_. run_approved q turn a))"
  let ?L2 = "\<lambda>x xs. xs = [] \<or>
    (\<exists>a r. x = Inr a \<and> xs = [Executed (aq_Snapshot a) (aq_Invocation a) (Some (approval_grant_of a)) r])"
  have rest: "appends env (?rest a) (?L2 (Inr a))" for a
    by (intro appends_try_quiet quiet_intros appends_mono[OF run_approved_appends]) auto
  have "appends env (case x of Inl err \<Rightarrow> fail err | Inr a \<Rightarrow> ?rest a) (?L2 x)" for x
    using rest by (cases x) (auto intro: appends_quiet quiet_intros)
  then have step: "appends_result env (case x of Inl err \<Rightarrow> fail err | Inr a \<Rightarrow> ?rest a) (\<lambda>_. ?L2 x)" for x
    by (simp only: appends_iff_result)
  show ?thesis unfolding resume_claimed_def tryL_def[of "consumeApproval _ _"] appends_iff_result
    by (rule appends_result_bind[OF consumeApproval_appends step]) (auto simp: claimed_run_def split: sum.splits)
qed

lemma claimed_run_Nil: "claimed_run i []"
  by (simp add: claimed_run_def)

lemma resume_turn_appends: "appends env (resume_turn q i ses attachments) (claimed_run i)"
  unfolding resume_turn_def
  by (intro appends_try_quiet quiet_intros claimed_run_Nil, unfold if_split[of "\<lambda>m. appends env m (claimed_run i)"])
    (intro conjI impI appends_quiet[OF quiet_basic(2)] claimed_run_Nil appends_try_quiet quiet_intros,
     unfold if_split[of "\<lambda>m. appends env m (claimed_run i)"],
     intro conjI impI appends_quiet[OF quiet_basic(2)] claimed_run_Nil resume_claimed_appends)

text \<open>Everything after the claim is ungranted.\<close>

definition claim_first :: "string \<Rightarrow> loop_trace list \<Rightarrow> bool" where
  "claim_first i xs \<longleftrightarrow> (\<exists>claim rest. xs = claim @ rest \<and> claimed_run i claim \<and> list_all ungranted rest)"

lemma claim_first_intros: "claimed_run i xs \<Longrightarrow> claim_first i xs" "list_all ungranted xs \<Longrightarrow> claim_first i xs"
  "claimed_run i xs \<Longrightarrow> list_all ungranted ys \<Longrightarrow> claim_first i (xs @ ys)" "claim_first i []"
  unfolding claim_first_def using claimed_run_Nil[of i] by (metis append_Nil2 append_Nil list.pred_inject(1))+


lemma plain_appends:
  assumes "\<And>N. plain.ok N n m Q"
  shows "appends env m (list_all ungranted)"
  unfolding appends_def
proof
  fix s
  obtain r s' where run: "m env s = (r, s')" by (cases "m env s")
  from plain.okD[OF assms order_refl run] obtain new where "ls_trace s' = ls_trace s @ new" "\<forall>t \<in> set new. ungranted t" by metis
  with run show "\<exists>new. ls_trace (snd (m env s)) = ls_trace s @ new \<and> list_all ungranted new"
    by (auto simp: list_all_iff)
qed

lemma model_loop_appends: "appends env (with_deferred (model_loop n l)) (list_all ungranted)"
proof (rule plain_appends)
  fix N
  have "plain.mine (rq_Principal (lv_request l)) l" by (simp add: plain.mine_def)
  from plain.ok_with_deferred[OF plain.ok_model_loop[OF this]]
  show "plain.ok N n (with_deferred (model_loop n l)) (\<lambda>_. True)" .
qed

lemma begin_turn_appends: "appends env (begin_turn q) (list_all ungranted)"
proof (rule plain_appends)
  fix N
  show "plain.ok N 0 (begin_turn q) (plain.mine (rq_Principal q))"
    by (rule plain.ok_begin_turn) (simp add: plain.owned_def)
qed

text \<open>A whole run, from how its start appends to the trace.\<close>

lemma loop_run_appends:
  assumes start: "\<And>ses attachments. appends env (if i = [] then begin_turn q else resume_turn q i ses attachments) L"
    and L: "\<And>xs. L xs \<Longrightarrow> L' xs" "\<And>xs ys. L xs \<Longrightarrow> list_all ungranted ys \<Longrightarrow> L' (xs @ ys)" "L' []"
  shows "appends env (loop_run q i) L'"
proof -
  have rest: "appends env (tryL (completedHistory sid tid) (failTurn turn code)
      (\<lambda>history. bindL (pureL f) (\<lambda>n. with_deferred (model_loop n (g history))))) (list_all ungranted)" for sid tid turn code f g
    by (intro appends_try_quiet quiet_intros appends_after_quiet model_loop_appends) simp_all
  have body: "appends env (bindL (if i = [] then begin_turn q else resume_turn q i ses attachments)
      (\<lambda>l. tryL (completedHistory (ses_ID ses) (tn_ID (lv_turn l))) (failTurn (lv_turn l) ''history_restore_failed'')
         (\<lambda>history. bindL (pureL (\<lambda>env. nat (lc_MaxModelSteps (le_config env))))
            (\<lambda>n. with_deferred (model_loop n (l\<lparr>lv_messages := replay_filter ses history @ lv_messages l\<rparr>)))))) L'" for ses attachments
    by (rule appends_bind[OF start rest]) (use L in auto)
  have quiet_exit: "appends env (exit r e) L'" for r e using L(3) by (intro appends_quiet quiet_basic)
  show ?thesis unfolding loop_run_def
    by (auto intro!: appends_try_quiet quiet_basic(2) quiet_calls quiet_fragments body quiet_exit L(3) split: option.split)
qed

lemma run_appends: "appends env (loop_run q []) (list_all ungranted)"
  by (rule loop_run_appends[where L = "list_all ungranted"]) (simp_all add: begin_turn_appends)

lemma resume_appends: "appends env (resumeApproved q i) (claim_first i)"
proof (cases "i = []")
  case True
  then show ?thesis unfolding resumeApproved_def by (simp add: appends_quiet quiet_basic claim_first_intros)
next
  case False
  then have "appends env (loop_run q i) (claim_first i)"
    by (intro loop_run_appends[where L = "claimed_run i"]) (auto simp: resume_turn_appends claim_first_intros)
  with False show ?thesis unfolding resumeApproved_def by simp
qed

lemma cancel_waiting_quiet: "quiet (cancel_waiting q i a)"
  unfolding cancel_waiting_def by (auto intro!: quiet_intros)

lemma resolve_appends:
  "appends env (resolveApproval q i approve nt) (\<lambda>xs. if approve then claim_first i xs else xs = [])"
proof -
  define L where "L xs = (if approve then claim_first i xs else xs = [])" for xs
  have nil: "L []" and resume: "approve \<Longrightarrow> appends env (resumeApproved q i) L"
    using resume_appends[of env q i] by (simp_all add: L_def appends_def claim_first_intros)
  have q: "quiet m \<Longrightarrow> appends env m L" for m :: "('a, run_exit) loop" using nil by (intro appends_quiet)
  have decide: "quiet (decideApproval i decider b nt)" for decider b nt
    unfolding decideApproval_def by (auto intro!: quiet_intros)
  have "appends env (resolveApproval q i approve nt) L" unfolding resolveApproval_def getApproval_def
    by (auto intro!: appends_try_quiet quiet_calls quiet_basic q[OF quiet_basic(2)] q[OF cancel_waiting_quiet]
        appends_after_quiet[OF decide] resume nil split: option.split sum.split)
  then show ?thesis by (simp add: appends_def L_def)
qed

lemma run_of_appends: "appends env m L \<Longrightarrow> \<exists>new. ls_trace (snd (run_of m env s)) = ls_trace s @ new \<and> L new"
  unfolding appends_def run_of_def by (metis (mono_tags, lifting) case_prod_beta snd_conv sum.case_eq_if)

end
