(* ===== verification/Agent_Loop_Props.thy ===== *)
theory Agent_Loop_Props
  imports Agent_Loop_Safety
begin

text \<open>
  The properties of whole runs of the agent loop, stated for its entry points \<open>loop_Run\<close>,
  \<open>loop_ResumeApproved\<close> and \<open>loop_ResolveApproval\<close> and resting on the rules of Agent_Loop_Safety, and a
  concrete environment in which they are evaluated.
\<close>

section \<open>Properties of runs\<close>

definition acts_for :: "principal \<Rightarrow> nat \<Rightarrow> loop_trace list \<Rightarrow> bool" where
  "acts_for p n ts \<longleftrightarrow> list_all (rightful p) ts \<and> gen_count ts \<le> n"

lemma acts_for_run:
  assumes "traces.ok N (rq_Principal q) n m (\<lambda>_. True)" "N = nat (lc_MaxModelSteps (le_config env))" "n = N"
  shows "\<exists>new. ls_trace (snd (run_of m env s)) = ls_trace s @ new \<and> acts_for (rq_Principal q) N new"
proof -
  obtain e s' where run: "run_of m env s = (e, s')" by (cases "run_of m env s")
  from traces.ok_run_of[OF assms(1) _ run] assms(2,3) obtain new
    where "ls_trace s' = ls_trace s @ new" "\<forall>t \<in> set new. rightful (rq_Principal q) t" "gen_count new \<le> N"
    by auto
  with run show ?thesis by (auto simp: acts_for_def list_all_iff)
qed

text \<open>C7: Whatever other requests, the model and the tools do, a run (new, resumed or resolving an approval)
  extends the trace by at most \<open>MaxModelSteps\<close> model calls; every tool execution among them is made under the
  caller's principal, an execution without a grant is of a tool of the snapshot it names, in the registration generation that
  snapshot exposed, and every consumed approval was requested by the caller for the caller's principal.\<close>

theorem run_acts_for_caller:
  "(\<exists>new. ls_trace (snd (loop_Run q env s)) = ls_trace s @ new \<and>
      acts_for (rq_Principal q) (nat (lc_MaxModelSteps (le_config env))) new) \<and>
   (\<exists>new. ls_trace (snd (loop_ResumeApproved q i env s)) = ls_trace s @ new \<and>
      acts_for (rq_Principal q) (nat (lc_MaxModelSteps (le_config env))) new) \<and>
   (\<exists>new. ls_trace (snd (loop_ResolveApproval q i approve nt env s)) = ls_trace s @ new \<and>
      acts_for (rq_Principal q) (nat (lc_MaxModelSteps (le_config env))) new)"
  unfolding loop_Run_def loop_ResumeApproved_def loop_ResolveApproval_def
  by (intro conjI; rule acts_for_run[OF traces.ok_loop_run] acts_for_run[OF traces.ok_resumeApproved]
        acts_for_run[OF traces.ok_resolveApproval]; simp add: plain.owned_def)

text \<open>C8: A run executes a tool with an approval grant only as its first recorded action after consuming the
  approval it was asked to resume, and the snapshot, the invocation and the grant are the ones frozen in that approval. A new run
  consumes no approval and executes nothing with a grant; resolving an approval negatively executes nothing at all.\<close>

theorem approved_run_after_claim:
  "(\<exists>new. ls_trace (snd (loop_Run q env s)) = ls_trace s @ new \<and> list_all ungranted new) \<and>
   (\<exists>new. ls_trace (snd (loop_ResumeApproved q i env s)) = ls_trace s @ new \<and> claim_first i new) \<and>
   (\<exists>new. ls_trace (snd (loop_ResolveApproval q i approve nt env s)) = ls_trace s @ new \<and>
      (if approve then claim_first i new else new = []))"
  unfolding loop_Run_def loop_ResumeApproved_def loop_ResolveApproval_def
  by (intro conjI run_of_appends run_appends resume_appends resolve_appends)

definition run_refines :: "'f shared \<Rightarrow> 'f shared \<Rightarrow> bool" where
  "run_refines sh sh' \<longleftrightarrow> (\<exists>ops. ag_store sh' = run_ops ops (ag_store sh)) \<and> core_inv (ag_store sh') \<and>
     store_kept (ag_store sh) (ag_store sh') \<and> eng_reachable (ag_engine sh')"

lemma refines_run:
  assumes "stores.ok N n m (\<lambda>_. True)" "nat (lc_MaxModelSteps (le_config env)) = N" "others_fair env"
    "core_inv (ag_store (ls_shared s))" "eng_reachable (ag_engine (ls_shared s))"
  shows "run_refines (ls_shared s) (ls_shared (snd (run_of m env s)))"
proof -
  obtain e s' where run: "run_of m env s = (e, s')" by (cases "run_of m env s")
  from stores.ok_run_of[OF assms(1) _ run] assms(2,3) have "state_kept (ls_shared s) (ls_shared s')" by auto
  with assms(4,5) run core.run kept.rel_run show ?thesis by (auto simp: run_refines_def state_kept_def)
qed


section \<open>A concrete environment\<close>

text \<open>A session of user 1 in organization 1, a model that answers at once, an idle
  rest of the system; the context is a parameter.\<close>

definition sample_json :: loop_json where
  "sample_json =
     \<lparr>js_result = \<lambda>_. Inr ''{}'', js_references = \<lambda>_. Inr ''[]'', js_modelInput = \<lambda>_ _ _. Inr ''{}'',
      js_selection = \<lambda>_. Inr \<lparr>sel_ProviderID = [], sel_Model = []\<rparr>, js_response = \<lambda>_. Inr ''{}'', js_toolIDs = \<lambda>_. Inr [],
      js_resolved = \<lambda>_. Inr ''{}'', js_approvalEvent = \<lambda>_ _. Inr ''{}'', js_conclusions = \<lambda>_. Inr ''[]''\<rparr>"

definition sample_env :: "(nat \<Rightarrow> ctx_state) \<Rightarrow> unit loop_env" where
  "sample_env ctx =
     \<lparr>le_config = NewLoop_config \<lparr>lc_MaxModelSteps = 0, lc_ApprovalExpiry = 0\<rparr>,
      le_texts = \<lparr>pt_management = [], pt_connection = [], pt_s3 = [], pt_shell = [], pt_shell_advice = [], pt_shell_analysis = [],
        pt_references = [], pt_conclusions = []\<rparr>,
      le_json = sample_json, le_codec = sample_codec, le_others = \<lambda>_ sh. sh, le_ctx = ctx, le_now = \<lambda>k. 100 + int k,
      le_ids = \<lambda>k prfx. Inr (prfx @ ''_'' @ dec k), le_db = \<lambda>_ _. None, le_random = \<lambda>_. Inr (replicate 16 (CHR ''r'')),
      le_generate = \<lambda>_ _. ([], Inr \<lparr>rsp_Text = ''done'', rsp_ToolCalls = [], rsp_InputTokens = 0, rsp_OutputTokens = 0\<rparr>),
      le_visibility = AllowAllVisibility_AllowTool, le_policy = \<lambda>_ _. Inl (ErrNew ''no policy''), le_sha = \<lambda>b. b,
      le_bind = \<lambda>_ _ _. Inr None, le_middleware = [], le_tool_ctx = \<lambda>_. (CtxLive, CtxLive)\<rparr>"

definition sample_run_request :: "string \<Rightarrow> run_request" where
  "sample_run_request tid =
     \<lparr>rq_References = [], rq_Selection = \<lparr>sel_ProviderID = [], sel_Model = []\<rparr>, rq_SessionID = ''s1'', rq_TurnID = tid,
      rq_Prompt = ''hello'', rq_Principal = \<lparr>prin_UserID = 1, prin_OrganizationID = 1\<rparr>, rq_PolicyRevision = [],
      rq_Budget = DefaultDisclosureBudget\<rparr>"

definition sample_state :: "unit loop_state" where
  "sample_state =
     \<lparr>ls_tick = 0,
      ls_shared = \<lparr>ag_store = run_ops [OpCreateSession CtxLive 1 (sample_session ''s1'' SessionManagement)] NewMemoryStore,
        ag_engine = NewEngine, ag_approvals = [], ag_broker = NewEventBroker 8\<rparr>,
      ls_trace = []\<rparr>"

definition sample_turn_status :: "string \<Rightarrow> unit loop_state \<Rightarrow> turn_status option" where
  "sample_turn_status tid s = map_option tn_Status (gm_get (ms_turns (ag_store (ls_shared s))) tid)"

lemma sample_fair: "others_fair (sample_env ctx)"
  unfolding others_fair_def sample_env_def state_kept_def by simp (metis run_ops_simps(1))


text \<open>The sample run completes its turn.\<close>

lemma sample_run_completes:
  "sample_turn_status ''t1'' (snd (loop_Run (sample_run_request ''t1'') (sample_env (\<lambda>_. CtxLive)) sample_state)) = Some TurnCompleted"
  by code_simp

definition sample_cancelled :: "unit loop_state" where
  "sample_cancelled = snd (loop_Run (sample_run_request ''t1'') (sample_env (\<lambda>k. if k < 13 then CtxLive else CtxCanceled)) sample_state)"


end
