(* ===== verification/Agent_Durable.thy ===== *)
theory Agent_Durable
  imports Agent_Store
begin

text \<open>
  The store the manager runs with: \<^verbatim>\<open>DurableStore\<close> (src/pkg/liaison/manager/agent/runtime/durable_store.go) over the
  agent tables (src/pkg/liaison/repo/model/model_agent_runtime.go), the statements of
  src/pkg/liaison/repo/dao/dao_agent_runtime.go and the transaction helper of src/pkg/liaison/repo/dao/transaction.go.

  A table maps primary keys to rows. A statement either runs or fails with a driver error; a call's errors, contexts
  and clock reading are its \<open>db_call\<close>. A transaction is one transition (the database is SQLite, whose transactions are
  serializable); methods that read a row and write it back outside a transaction are split at that point, and
  Agent_Durable_Refine interleaves the halves. Rows keep the columns the code writes; a column whose tag has
  a non-empty \<^verbatim>\<open>default\<close> gets it when a zero value is inserted. JSON encodings are the parameter \<open>store_codec\<close>.
\<close>

section \<open>Tables\<close>

record agent_session =
  rs_Kind :: string
  rs_ID :: string
  rs_CreatedAt :: gtime
  rs_UpdatedAt :: gtime
  rs_OrganizationID :: nat
  rs_CreatedBy :: nat
  rs_Title :: string
  rs_Status :: session_status
  rs_ActiveTurnID :: string
  rs_ActiveAttachmentID :: string
  rs_Summary :: string
  rs_Version :: u64

record agent_attachment =
  ra_AccessHandleID :: string
  ra_ID :: string
  ra_CreatedAt :: gtime
  ra_UpdatedAt :: gtime
  ra_AgentSessionID :: string
  ra_AccessID :: nat
  ra_ApplicationID :: nat
  ra_Protocol :: string
  ra_Capabilities :: string
  ra_Generation :: u64
  ra_State :: attachment_state

record agent_turn =
  rt_ID :: string
  rt_CreatedAt :: gtime
  rt_UpdatedAt :: gtime
  rt_AgentSessionID :: string
  rt_Status :: turn_status
  rt_ActiveStepID :: string
  rt_ErrorCode :: string
  rt_ErrorMessage :: string
  rt_Version :: u64
  rt_StartedAt :: "gtime option"
  rt_CompletedAt :: "gtime option"

record agent_message =
  rm_ID :: string
  rm_CreatedAt :: gtime
  rm_UpdatedAt :: gtime
  rm_AgentSessionID :: string
  rm_TurnID :: string
  rm_Sequence :: u32
  rm_Role :: string
  rm_Content :: string

record agent_step =
  rp_ID :: string
  rp_CreatedAt :: gtime
  rp_UpdatedAt :: gtime
  rp_TurnID :: string
  rp_Sequence :: u32
  rp_Kind :: step_kind
  rp_Status :: step_status
  rp_ToolID :: string
  rp_ToolSnapshotID :: string
  rp_Input :: string
  rp_Output :: string
  rp_ErrorCode :: string
  rp_ErrorMessage :: string
  rp_Version :: u64
  rp_StartedAt :: "gtime option"
  rp_CompletedAt :: "gtime option"

record agent_toolset_snapshot =
  rn_ID :: string
  rn_CreatedAt :: gtime
  rn_UpdatedAt :: gtime
  rn_TurnID :: string
  rn_ModelStepID :: string
  rn_CatalogGeneration :: u64
  rn_PolicyRevision :: string
  rn_Attachments :: string
  rn_Tools :: string

record agent_db =
  db_sessions :: "(string, agent_session) gomap"
  db_attachments :: "(string, agent_attachment) gomap"
  db_turns :: "(string, agent_turn) gomap"
  db_messages :: "(string, agent_message) gomap"
  db_steps :: "(string, agent_step) gomap"
  db_snapshots :: "(string, agent_toolset_snapshot) gomap"

definition empty_db :: agent_db where
  "empty_db = \<lparr>db_sessions = [], db_attachments = [], db_turns = [], db_messages = [], db_steps = [], db_snapshots = []\<rparr>"

record store_codec =
  enc_capabilities :: "capability list \<Rightarrow> gerr + string"
  dec_capabilities :: "string \<Rightarrow> gerr + capability list"
  enc_message :: "model_message \<Rightarrow> gerr + string"
  dec_message :: "string \<Rightarrow> gerr + model_message"
  enc_generations :: "(string, u64) gomap \<Rightarrow> gerr + string"
  dec_generations :: "string \<Rightarrow> gerr + (string, u64) gomap"
  enc_tools :: "exposed_tool list \<Rightarrow> gerr + string"
  dec_tools :: "string \<Rightarrow> gerr + exposed_tool list"

text \<open>What one call of a method meets: its context before and after the transaction's body, an error of its
  n-th statement or of the commit, and the clock.\<close>

record db_call =
  dc_before :: ctx_state
  dc_after :: ctx_state
  dc_stmt :: "nat \<Rightarrow> gerr option"
  dc_commit :: "gerr option"
  dc_now :: gtime

section \<open>Statements and transactions\<close>

type_synonym 'a tx = "agent_db \<Rightarrow> (agent_db, 'a) outcome"

definition tx_return :: "'a \<Rightarrow> 'a tx" where
  "tx_return x db = (Inr x, db)"

definition tx_fail :: "gerr \<Rightarrow> 'a tx" where
  "tx_fail err db = (Inl err, db)"

definition tx_bind :: "'a tx \<Rightarrow> ('a \<Rightarrow> 'b tx) \<Rightarrow> 'b tx" where
  "tx_bind m k db = (case m db of (Inl err, db') \<Rightarrow> (Inl err, db') | (Inr x, db') \<Rightarrow> k x db')"

text \<open>A statement that may fail, and what the method makes of its error.\<close>

definition stmt :: "gerr option \<Rightarrow> 'a tx \<Rightarrow> 'a tx" where
  "stmt e m db = (case e of Some err \<Rightarrow> (Inl err, db) | None \<Rightarrow> m db)"

definition on_error :: "(gerr \<Rightarrow> gerr) \<Rightarrow> 'a tx \<Rightarrow> 'a tx" where
  "on_error f m db = (case m db of (Inl err, db') \<Rightarrow> (Inl (f err), db') | (Inr x, db') \<Rightarrow> (Inr x, db'))"

definition tx_lift :: "gerr + 'a \<Rightarrow> 'a tx" where
  "tx_lift r db = (r, db)"

definition wrap :: "string \<Rightarrow> gerr \<Rightarrow> gerr" where
  "wrap msg err = ErrWrap msg err []"

definition mapNotFound :: "sentinel \<Rightarrow> string \<Rightarrow> gerr \<Rightarrow> gerr" where
  "mapNotFound s i err = (if errors_is err GormErrRecordNotFound then errw s i else err)"

definition WithTransactionContext :: "db_call \<Rightarrow> 'a tx \<Rightarrow> 'a tx" where
  "WithTransactionContext c body db =
     (case ctx_err (dc_before c) of Some err \<Rightarrow> (Inl err, db)
      | None \<Rightarrow>
          (case body db of
             (Inl err, _) \<Rightarrow> (Inl (wrap ''transaction failed: '' err), db)
           | (Inr x, db') \<Rightarrow>
               (case ctx_err (dc_after c) of Some err \<Rightarrow> (Inl err, db)
                | None \<Rightarrow> (case dc_commit c of Some err \<Rightarrow> (Inl err, db) | None \<Rightarrow> (Inr x, db')))))"

definition db_first :: "(agent_db \<Rightarrow> (string, 'r) gomap) \<Rightarrow> string \<Rightarrow> 'r tx" where
  "db_first tbl i db = (case gm_get (tbl db) i of None \<Rightarrow> (Inl (Sentinel GormErrRecordNotFound), db) | Some r \<Rightarrow> (Inr r, db))"

definition unique_failed :: "string \<Rightarrow> gerr" where
  "unique_failed column = ErrNew (''UNIQUE constraint failed: '' @ column)"

definition or_default :: "string \<Rightarrow> string \<Rightarrow> string" where
  "or_default d v = (if v = [] then d else v)"

definition CreateAgentSession :: "agent_session \<Rightarrow> unit tx" where
  "CreateAgentSession r db =
     (if gm_get (db_sessions db) (rs_ID r) \<noteq> None then (Inl (unique_failed ''agent_sessions.id''), db)
      else (Inr (), db\<lparr>db_sessions := gm_put (rs_ID r)
              (r\<lparr>rs_Kind := or_default ''access'' (rs_Kind r), rs_Version := gen_or_one (rs_Version r)\<rparr>) (db_sessions db)\<rparr>))"

definition GetAgentSession :: "string \<Rightarrow> agent_session tx" where
  "GetAgentSession = db_first db_sessions"

definition session_row_less :: "agent_session \<Rightarrow> agent_session \<Rightarrow> bool" where
  "session_row_less a b = (if rs_UpdatedAt a = rs_UpdatedAt b then rs_ID a < rs_ID b else rs_UpdatedAt a > rs_UpdatedAt b)"

definition ListAgentSessions :: "nat \<Rightarrow> agent_session list tx" where
  "ListAgentSessions createdBy db =
     (Inr (go_sort session_row_less (filter (\<lambda>r. createdBy = 0 \<or> rs_CreatedBy r = createdBy) (map snd (db_sessions db)))), db)"

text \<open>\<^verbatim>\<open>UPDATE ... WHERE id = ? AND version = ?\<close> of the selected columns; the result says whether a row matched.\<close>

definition UpdateAgentSessionCAS :: "agent_session \<Rightarrow> u64 \<Rightarrow> bool tx" where
  "UpdateAgentSessionCAS r expectedVersion db =
     (case gm_get (db_sessions db) (rs_ID r) of
        None \<Rightarrow> (Inr False, db)
      | Some row \<Rightarrow>
          if rs_Version row \<noteq> expectedVersion then (Inr False, db)
          else (Inr True, db\<lparr>db_sessions := gm_put (rs_ID r)
                  (row\<lparr>rs_Title := rs_Title r, rs_Status := rs_Status r, rs_ActiveTurnID := rs_ActiveTurnID r,
                       rs_ActiveAttachmentID := rs_ActiveAttachmentID r, rs_Summary := rs_Summary r, rs_Version := rs_Version r,
                       rs_UpdatedAt := rs_UpdatedAt r\<rparr>) (db_sessions db)\<rparr>))"

definition CreateAgentAttachment :: "agent_attachment \<Rightarrow> unit tx" where
  "CreateAgentAttachment r db =
     (if gm_get (db_attachments db) (ra_ID r) \<noteq> None then (Inl (unique_failed ''agent_attachments.id''), db)
      else (Inr (), db\<lparr>db_attachments := gm_put (ra_ID r)
              (r\<lparr>ra_Capabilities := or_default ''[]'' (ra_Capabilities r), ra_Generation := gen_or_one (ra_Generation r)\<rparr>)
              (db_attachments db)\<rparr>))"

definition GetAgentAttachment :: "string \<Rightarrow> agent_attachment tx" where
  "GetAgentAttachment = db_first db_attachments"

definition attachment_row_less :: "agent_attachment \<Rightarrow> agent_attachment \<Rightarrow> bool" where
  "attachment_row_less a b = (if ra_CreatedAt a = ra_CreatedAt b then ra_ID a < ra_ID b else ra_CreatedAt a < ra_CreatedAt b)"

definition ListAgentAttachments :: "string \<Rightarrow> agent_attachment list tx" where
  "ListAgentAttachments sid db =
     (Inr (go_sort attachment_row_less (filter (\<lambda>r. ra_AgentSessionID r = sid) (map snd (db_attachments db)))), db)"

definition UpdateAgentAttachmentCAS :: "agent_attachment \<Rightarrow> u64 \<Rightarrow> bool tx" where
  "UpdateAgentAttachmentCAS r expectedGeneration db =
     (case gm_get (db_attachments db) (ra_ID r) of
        None \<Rightarrow> (Inr False, db)
      | Some row \<Rightarrow>
          if ra_Generation row \<noteq> expectedGeneration then (Inr False, db)
          else (Inr True, db\<lparr>db_attachments := gm_put (ra_ID r)
                  (row\<lparr>ra_Capabilities := ra_Capabilities r, ra_Generation := ra_Generation r, ra_State := ra_State r,
                       ra_UpdatedAt := ra_UpdatedAt r\<rparr>) (db_attachments db)\<rparr>))"

definition CreateAgentTurn :: "agent_turn \<Rightarrow> unit tx" where
  "CreateAgentTurn r db =
     (if gm_get (db_turns db) (rt_ID r) \<noteq> None then (Inl (unique_failed ''agent_turns.id''), db)
      else (Inr (), db\<lparr>db_turns := gm_put (rt_ID r) (r\<lparr>rt_Version := gen_or_one (rt_Version r)\<rparr>) (db_turns db)\<rparr>))"

definition GetAgentTurn :: "string \<Rightarrow> agent_turn tx" where
  "GetAgentTurn = db_first db_turns"

definition turn_row_less :: "agent_turn \<Rightarrow> agent_turn \<Rightarrow> bool" where
  "turn_row_less a b = (if rt_CreatedAt a = rt_CreatedAt b then rt_ID a < rt_ID b else rt_CreatedAt a < rt_CreatedAt b)"

definition ListAgentTurns :: "string \<Rightarrow> agent_turn list tx" where
  "ListAgentTurns sid db =
     (Inr (go_sort turn_row_less (filter (\<lambda>r. rt_AgentSessionID r = sid) (map snd (db_turns db)))), db)"

definition UpdateAgentTurnCAS :: "agent_turn \<Rightarrow> u64 \<Rightarrow> bool tx" where
  "UpdateAgentTurnCAS r expectedVersion db =
     (case gm_get (db_turns db) (rt_ID r) of
        None \<Rightarrow> (Inr False, db)
      | Some row \<Rightarrow>
          if rt_Version row \<noteq> expectedVersion then (Inr False, db)
          else (Inr True, db\<lparr>db_turns := gm_put (rt_ID r)
                  (row\<lparr>rt_Status := rt_Status r, rt_ActiveStepID := rt_ActiveStepID r, rt_ErrorCode := rt_ErrorCode r,
                       rt_ErrorMessage := rt_ErrorMessage r, rt_Version := rt_Version r, rt_StartedAt := rt_StartedAt r,
                       rt_CompletedAt := rt_CompletedAt r, rt_UpdatedAt := rt_UpdatedAt r\<rparr>) (db_turns db)\<rparr>))"

definition CreateAgentStep :: "agent_step \<Rightarrow> unit tx" where
  "CreateAgentStep r db =
     (if gm_get (db_steps db) (rp_ID r) \<noteq> None then (Inl (unique_failed ''agent_steps.id''), db)
      else if list_ex (\<lambda>p. rp_TurnID p = rp_TurnID r \<and> rp_Sequence p = rp_Sequence r) (map snd (db_steps db))
      then (Inl (unique_failed ''agent_steps.turn_id, agent_steps.sequence''), db)
      else (Inr (), db\<lparr>db_steps := gm_put (rp_ID r)
              (r\<lparr>rp_Input := or_default ''{}'' (rp_Input r), rp_Output := or_default ''{}'' (rp_Output r),
                 rp_Version := gen_or_one (rp_Version r)\<rparr>) (db_steps db)\<rparr>))"

definition GetAgentStep :: "string \<Rightarrow> agent_step tx" where
  "GetAgentStep = db_first db_steps"

definition step_row_less :: "agent_step \<Rightarrow> agent_step \<Rightarrow> bool" where
  "step_row_less a b =
     (if rp_CreatedAt a = rp_CreatedAt b
      then (if rp_TurnID a = rp_TurnID b then rp_Sequence a < rp_Sequence b else rp_TurnID a < rp_TurnID b)
      else rp_CreatedAt a < rp_CreatedAt b)"

definition ListAgentSessionSteps :: "string \<Rightarrow> agent_step list tx" where
  "ListAgentSessionSteps sid db =
     (let turnIDs = map rt_ID (filter (\<lambda>r. rt_AgentSessionID r = sid) (map snd (db_turns db)))
      in (Inr (go_sort step_row_less (filter (\<lambda>p. rp_TurnID p \<in> set turnIDs) (map snd (db_steps db)))), db))"

text \<open>\<^verbatim>\<open>COALESCE(MAX(sequence), 0) + 1\<close>, the addition in 32 bits.\<close>

definition next_sequence :: "u32 list \<Rightarrow> u32" where
  "next_sequence xs = fold max xs 0 + 1"

definition NextAgentStepSequence :: "string \<Rightarrow> u32 tx" where
  "NextAgentStepSequence tid db =
     (Inr (next_sequence (map rp_Sequence (filter (\<lambda>p. rp_TurnID p = tid) (map snd (db_steps db))))), db)"

definition UpdateAgentStepCAS :: "agent_step \<Rightarrow> u64 \<Rightarrow> bool tx" where
  "UpdateAgentStepCAS r expectedVersion db =
     (case gm_get (db_steps db) (rp_ID r) of
        None \<Rightarrow> (Inr False, db)
      | Some row \<Rightarrow>
          if rp_Version row \<noteq> expectedVersion then (Inr False, db)
          else (Inr True, db\<lparr>db_steps := gm_put (rp_ID r)
                  (row\<lparr>rp_Status := rp_Status r, rp_Output := rp_Output r, rp_ErrorCode := rp_ErrorCode r,
                       rp_ErrorMessage := rp_ErrorMessage r, rp_Version := rp_Version r, rp_StartedAt := rp_StartedAt r,
                       rp_CompletedAt := rp_CompletedAt r, rp_UpdatedAt := rp_UpdatedAt r\<rparr>) (db_steps db)\<rparr>))"

definition CreateAgentMessage :: "agent_message \<Rightarrow> unit tx" where
  "CreateAgentMessage r db =
     (if gm_get (db_messages db) (rm_ID r) \<noteq> None then (Inl (unique_failed ''agent_messages.id''), db)
      else if list_ex (\<lambda>m. rm_TurnID m = rm_TurnID r \<and> rm_Sequence m = rm_Sequence r) (map snd (db_messages db))
      then (Inl (unique_failed ''agent_messages.turn_id, agent_messages.sequence''), db)
      else (Inr (), db\<lparr>db_messages := gm_put (rm_ID r) (r\<lparr>rm_Content := or_default ''{}'' (rm_Content r)\<rparr>) (db_messages db)\<rparr>))"

definition sequence_less :: "agent_message \<Rightarrow> agent_message \<Rightarrow> bool" where
  "sequence_less a b \<longleftrightarrow> rm_Sequence a < rm_Sequence b"

definition ListAgentMessages :: "string \<Rightarrow> agent_message list tx" where
  "ListAgentMessages tid db =
     (Inr (go_sort sequence_less (filter (\<lambda>m. rm_TurnID m = tid) (map snd (db_messages db)))), db)"

definition message_row_less :: "agent_message \<Rightarrow> agent_message \<Rightarrow> bool" where
  "message_row_less a b =
     (if rm_CreatedAt a = rm_CreatedAt b
      then (if rm_TurnID a = rm_TurnID b then rm_Sequence a < rm_Sequence b else rm_TurnID a < rm_TurnID b)
      else rm_CreatedAt a < rm_CreatedAt b)"

definition ListAgentSessionMessages :: "string \<Rightarrow> agent_message list tx" where
  "ListAgentSessionMessages sid db =
     (Inr (go_sort message_row_less (filter (\<lambda>m. rm_AgentSessionID m = sid) (map snd (db_messages db)))), db)"

definition NextAgentMessageSequence :: "string \<Rightarrow> u32 tx" where
  "NextAgentMessageSequence tid db =
     (Inr (next_sequence (map rm_Sequence (filter (\<lambda>m. rm_TurnID m = tid) (map snd (db_messages db))))), db)"

definition CreateAgentToolsetSnapshot :: "agent_toolset_snapshot \<Rightarrow> unit tx" where
  "CreateAgentToolsetSnapshot r db =
     (if gm_get (db_snapshots db) (rn_ID r) \<noteq> None then (Inl (unique_failed ''agent_toolset_snapshots.id''), db)
      else if list_ex (\<lambda>s. rn_ModelStepID s = rn_ModelStepID r) (map snd (db_snapshots db))
      then (Inl (unique_failed ''agent_toolset_snapshots.model_step_id''), db)
      else (Inr (), db\<lparr>db_snapshots := gm_put (rn_ID r)
              (r\<lparr>rn_Attachments := or_default ''{}'' (rn_Attachments r), rn_Tools := or_default ''[]'' (rn_Tools r)\<rparr>) (db_snapshots db)\<rparr>))"

definition GetAgentToolsetSnapshot :: "string \<Rightarrow> agent_toolset_snapshot tx" where
  "GetAgentToolsetSnapshot = db_first db_snapshots"

section \<open>Rows and values\<close>

definition sessionModel :: "session \<Rightarrow> agent_session" where
  "sessionModel v = \<lparr>rs_Kind = ses_Kind v, rs_ID = ses_ID v, rs_CreatedAt = ses_CreatedAt v, rs_UpdatedAt = ses_UpdatedAt v,
     rs_OrganizationID = ses_OrganizationID v, rs_CreatedBy = ses_CreatedBy v, rs_Title = ses_Title v, rs_Status = ses_Status v,
     rs_ActiveTurnID = ses_ActiveTurnID v, rs_ActiveAttachmentID = ses_ActiveAttachmentID v, rs_Summary = ses_Summary v,
     rs_Version = ses_Version v\<rparr>"

definition sessionFromModel :: "agent_session \<Rightarrow> session" where
  "sessionFromModel r = \<lparr>ses_Kind = rs_Kind r, ses_ID = rs_ID r, ses_OrganizationID = rs_OrganizationID r, ses_CreatedBy = rs_CreatedBy r,
     ses_Title = rs_Title r, ses_Status = rs_Status r, ses_ActiveTurnID = rs_ActiveTurnID r,
     ses_ActiveAttachmentID = rs_ActiveAttachmentID r, ses_Summary = rs_Summary r, ses_Version = rs_Version r,
     ses_CreatedAt = rs_CreatedAt r, ses_UpdatedAt = rs_UpdatedAt r\<rparr>"

definition attachmentModel :: "store_codec \<Rightarrow> attachment \<Rightarrow> gerr + agent_attachment" where
  "attachmentModel codec v =
     (case enc_capabilities codec (at_Capabilities v) of
        Inl err \<Rightarrow> Inl (wrap ''encode agent attachment capabilities: '' err)
      | Inr capabilities \<Rightarrow> Inr \<lparr>ra_AccessHandleID = at_AccessHandleID v, ra_ID = at_ID v, ra_CreatedAt = at_CreatedAt v,
          ra_UpdatedAt = at_UpdatedAt v, ra_AgentSessionID = at_AgentSessionID v, ra_AccessID = at_AccessID v,
          ra_ApplicationID = at_ApplicationID v, ra_Protocol = at_Protocol v, ra_Capabilities = capabilities,
          ra_Generation = at_Generation v, ra_State = at_State v\<rparr>)"

definition attachment_value :: "agent_attachment \<Rightarrow> capability list \<Rightarrow> attachment" where
  "attachment_value r capabilities = \<lparr>at_AccessHandleID = ra_AccessHandleID r, at_ID = ra_ID r, at_AgentSessionID = ra_AgentSessionID r,
     at_AccessID = ra_AccessID r, at_ApplicationID = ra_ApplicationID r, at_Protocol = ra_Protocol r, at_Capabilities = capabilities,
     at_Generation = ra_Generation r, at_State = ra_State r, at_CreatedAt = ra_CreatedAt r, at_UpdatedAt = ra_UpdatedAt r\<rparr>"

definition attachmentFromModel :: "store_codec \<Rightarrow> agent_attachment \<Rightarrow> gerr + attachment" where
  "attachmentFromModel codec r =
     (case dec_capabilities codec (ra_Capabilities r) of
        Inl err \<Rightarrow> Inl (wrap (''decode agent attachment '' @ ra_ID r @ '' capabilities: '') err)
      | Inr capabilities \<Rightarrow>
          (case validateAttachment (attachment_value r capabilities) of
             Some err \<Rightarrow> Inl (wrap (''decode agent attachment '' @ ra_ID r @ '': '') err)
           | None \<Rightarrow> Inr (attachment_value r capabilities)))"

definition turnModel :: "turn \<Rightarrow> agent_turn" where
  "turnModel v = \<lparr>rt_ID = tn_ID v, rt_CreatedAt = tn_CreatedAt v, rt_UpdatedAt = tn_UpdatedAt v, rt_AgentSessionID = tn_AgentSessionID v,
     rt_Status = tn_Status v, rt_ActiveStepID = tn_ActiveStepID v, rt_ErrorCode = tn_ErrorCode v, rt_ErrorMessage = tn_ErrorMessage v,
     rt_Version = tn_Version v, rt_StartedAt = (if tn_StartedAt v = 0 then None else Some (tn_StartedAt v)),
     rt_CompletedAt = tn_CompletedAt v\<rparr>"

definition turnFromModel :: "agent_turn \<Rightarrow> turn" where
  "turnFromModel r = \<lparr>tn_ID = rt_ID r, tn_AgentSessionID = rt_AgentSessionID r, tn_Status = rt_Status r,
     tn_ActiveStepID = rt_ActiveStepID r, tn_ErrorCode = rt_ErrorCode r, tn_ErrorMessage = rt_ErrorMessage r,
     tn_Version = rt_Version r, tn_StartedAt = (case rt_StartedAt r of None \<Rightarrow> 0 | Some t \<Rightarrow> t), tn_CompletedAt = rt_CompletedAt r,
     tn_CreatedAt = rt_CreatedAt r, tn_UpdatedAt = rt_UpdatedAt r\<rparr>"

definition stepModel :: "step \<Rightarrow> agent_step" where
  "stepModel v = \<lparr>rp_ID = sp_ID v, rp_CreatedAt = sp_CreatedAt v, rp_UpdatedAt = sp_UpdatedAt v, rp_TurnID = sp_TurnID v,
     rp_Sequence = sp_Sequence v, rp_Kind = sp_Kind v, rp_Status = sp_Status v,
     rp_ToolID = (case sp_ToolID v of None \<Rightarrow> [] | Some i \<Rightarrow> tool_id_String i), rp_ToolSnapshotID = sp_ToolSnapshotID v,
     rp_Input = sp_Input v, rp_Output = sp_Output v, rp_ErrorCode = sp_ErrorCode v, rp_ErrorMessage = sp_ErrorMessage v,
     rp_Version = sp_Version v, rp_StartedAt = sp_StartedAt v, rp_CompletedAt = sp_CompletedAt v\<rparr>"

definition step_value :: "agent_step \<Rightarrow> tool_id option \<Rightarrow> step" where
  "step_value r toolID = \<lparr>sp_ID = rp_ID r, sp_TurnID = rp_TurnID r, sp_Sequence = rp_Sequence r, sp_Kind = rp_Kind r, sp_Status = rp_Status r,
     sp_ToolID = toolID, sp_ToolSnapshotID = rp_ToolSnapshotID r, sp_Input = rp_Input r, sp_Output = rp_Output r,
     sp_ErrorCode = rp_ErrorCode r, sp_ErrorMessage = rp_ErrorMessage r, sp_Version = rp_Version r, sp_StartedAt = rp_StartedAt r,
     sp_CompletedAt = rp_CompletedAt r, sp_CreatedAt = rp_CreatedAt r, sp_UpdatedAt = rp_UpdatedAt r\<rparr>"

definition stepFromModel :: "agent_step \<Rightarrow> gerr + step" where
  "stepFromModel r =
     (if rp_ToolID r = [] then Inr (step_value r None)
      else case ParseToolID (rp_ToolID r) of
        Inl err \<Rightarrow> Inl (wrap ''parse persisted tool ID: '' err)
      | Inr parsed \<Rightarrow> Inr (step_value r (Some parsed)))"

definition message_value :: "agent_message \<Rightarrow> model_message \<Rightarrow> message" where
  "message_value r v = \<lparr>msg_ID = rm_ID r, msg_AgentSessionID = rm_AgentSessionID r, msg_TurnID = rm_TurnID r,
     msg_Sequence = rm_Sequence r, msg_Value = v, msg_CreatedAt = rm_CreatedAt r\<rparr>"

definition messageFromModel :: "store_codec \<Rightarrow> agent_message \<Rightarrow> gerr + message" where
  "messageFromModel codec r =
     (case dec_message codec (rm_Content r) of
        Inl err \<Rightarrow> Inl (wrap (''decode agent message '' @ rm_ID r @ '': '') err)
      | Inr v \<Rightarrow> Inr (message_value r v))"

text \<open>Decoding a list of rows stops at the first that does not decode.\<close>

fun decode_all :: "('r \<Rightarrow> gerr + 'v) \<Rightarrow> 'r list \<Rightarrow> gerr + 'v list" where
  "decode_all f [] = Inr []"
| "decode_all f (r # rs) = (case f r of Inl err \<Rightarrow> Inl err | Inr v \<Rightarrow> map_sum id ((#) v) (decode_all f rs))"

section \<open>Sessions and attachments\<close>

definition durable_CreateSession :: "db_call \<Rightarrow> session \<Rightarrow> unit tx" where
  "durable_CreateSession c s =
     (case validateSession s of Some err \<Rightarrow> tx_fail err
      | None \<Rightarrow> on_error (wrap ''create agent session: '') (stmt (dc_stmt c 0)
          (CreateAgentSession (sessionModel (s\<lparr>ses_Version := 1, ses_CreatedAt := dc_now c, ses_UpdatedAt := dc_now c\<rparr>)))))"

definition durable_CreateSessionWithAttachment :: "store_codec \<Rightarrow> db_call \<Rightarrow> session \<Rightarrow> attachment \<Rightarrow> (session \<times> attachment) tx" where
  "durable_CreateSessionWithAttachment codec c s a =
     (if ses_Kind s = SessionManagement then tx_fail (ErrNew ''management sessions cannot have access attachments'')
      else case validateSession s of Some err \<Rightarrow> tx_fail err
      | None \<Rightarrow>
          if at_AgentSessionID a \<noteq> ses_ID s then tx_fail (ErrNew ''attachment session does not match session'')
          else case validateAttachment a of Some err \<Rightarrow> tx_fail err
          | None \<Rightarrow>
              let s' = s\<lparr>ses_Version := 1, ses_CreatedAt := dc_now c, ses_UpdatedAt := dc_now c, ses_ActiveAttachmentID := at_ID a\<rparr>;
                  a' = a\<lparr>at_CreatedAt := dc_now c, at_UpdatedAt := dc_now c, at_Generation := gen_or_one (at_Generation a)\<rparr>
              in WithTransactionContext c
                   (tx_bind (on_error (wrap ''create agent session: '') (stmt (dc_stmt c 0) (CreateAgentSession (sessionModel s'))))
                      (\<lambda>_. tx_bind (tx_lift (attachmentModel codec a'))
                         (\<lambda>record. tx_bind (on_error (wrap ''create agent attachment: '') (stmt (dc_stmt c 1) (CreateAgentAttachment record)))
                            (\<lambda>_. tx_return (s', a'))))))"

definition durable_GetSession :: "db_call \<Rightarrow> nat \<Rightarrow> string \<Rightarrow> session tx" where
  "durable_GetSession c n sid =
     tx_bind (on_error (mapNotFound ErrSessionNotFound sid) (stmt (dc_stmt c n) (GetAgentSession sid)))
       (\<lambda>record. tx_return (sessionFromModel record))"

definition durable_ListSessions :: "db_call \<Rightarrow> nat \<Rightarrow> session list tx" where
  "durable_ListSessions c createdBy =
     tx_bind (on_error (wrap ''list agent sessions: '') (stmt (dc_stmt c 0) (ListAgentSessions createdBy)))
       (\<lambda>records. tx_return (map sessionFromModel records))"

text \<open>The two halves of \<^verbatim>\<open>ArchiveSession\<close>.\<close>

definition archive_read :: "db_call \<Rightarrow> string \<Rightarrow> u64 \<Rightarrow> session tx" where
  "archive_read c sid expectedVersion =
     tx_bind (durable_GetSession c 0 sid)
       (\<lambda>s. if ses_Version s \<noteq> expectedVersion then tx_fail (versionConflict ''session'' sid)
            else if ses_ActiveTurnID s \<noteq> []
            then tx_fail (errw ErrTurnAlreadyActive (''session '' @ sid @ '' has active turn '' @ ses_ActiveTurnID s))
            else tx_return (s\<lparr>ses_Status := SessionArchived, ses_Version := ses_Version s + 1, ses_UpdatedAt := dc_now c\<rparr>))"

definition archive_write :: "db_call \<Rightarrow> string \<Rightarrow> u64 \<Rightarrow> session \<Rightarrow> session tx" where
  "archive_write c sid expectedVersion s =
     tx_bind (on_error (wrap ''archive agent session: '') (stmt (dc_stmt c 1) (UpdateAgentSessionCAS (sessionModel s) expectedVersion)))
       (\<lambda>updated. if \<not> updated then tx_fail (versionConflict ''session'' sid) else tx_return s)"

definition durable_ArchiveSession :: "db_call \<Rightarrow> string \<Rightarrow> u64 \<Rightarrow> session tx" where
  "durable_ArchiveSession c sid expectedVersion = tx_bind (archive_read c sid expectedVersion) (archive_write c sid expectedVersion)"

definition durable_CreateAttachment :: "store_codec \<Rightarrow> db_call \<Rightarrow> attachment \<Rightarrow> attachment tx" where
  "durable_CreateAttachment codec c a =
     (case validateAttachment a of Some err \<Rightarrow> tx_fail err
      | None \<Rightarrow> WithTransactionContext c
          (tx_bind (on_error (mapNotFound ErrSessionNotFound (at_AgentSessionID a)) (stmt (dc_stmt c 0) (GetAgentSession (at_AgentSessionID a))))
             (\<lambda>sessionRecord.
                if rs_Kind sessionRecord = SessionManagement
                then tx_fail (ErrNew ''management sessions cannot have access attachments'')
                else if rs_Status sessionRecord = SessionArchived then tx_fail (errw ErrSessionArchived (at_AgentSessionID a))
                else
                  let a' = a\<lparr>at_Generation := gen_or_one (at_Generation a), at_CreatedAt := dc_now c, at_UpdatedAt := dc_now c\<rparr>
                  in tx_bind (tx_lift (attachmentModel codec a'))
                       (\<lambda>record. tx_bind (on_error (wrap ''create agent attachment: '') (stmt (dc_stmt c 1) (CreateAgentAttachment record)))
                          (\<lambda>_. tx_return a')))))"

definition durable_GetAttachment :: "store_codec \<Rightarrow> db_call \<Rightarrow> string \<Rightarrow> attachment tx" where
  "durable_GetAttachment codec c aid =
     tx_bind (on_error (mapNotFound ErrAttachmentNotFound aid) (stmt (dc_stmt c 0) (GetAgentAttachment aid)))
       (\<lambda>record. tx_lift (attachmentFromModel codec record))"

definition durable_ListAttachments :: "store_codec \<Rightarrow> db_call \<Rightarrow> string \<Rightarrow> attachment list tx" where
  "durable_ListAttachments codec c sid =
     tx_bind (durable_GetSession c 0 sid)
       (\<lambda>_. tx_bind (on_error (wrap ''list agent attachments: '') (stmt (dc_stmt c 1) (ListAgentAttachments sid)))
          (\<lambda>records. tx_lift (decode_all (attachmentFromModel codec) records)))"

text \<open>The two halves of \<^verbatim>\<open>UpdateAttachment\<close>: the first yields the value to return and the row to write.\<close>

definition update_attachment_read :: "store_codec \<Rightarrow> db_call \<Rightarrow> attachment \<Rightarrow> u64 \<Rightarrow> (attachment \<times> agent_attachment) tx" where
  "update_attachment_read codec c a expectedGeneration =
     (case validateAttachment a of Some err \<Rightarrow> tx_fail err
      | None \<Rightarrow> tx_bind (durable_GetAttachment codec c (at_ID a))
          (\<lambda>current.
             if at_Generation current \<noteq> expectedGeneration then tx_fail (versionConflict ''attachment'' (at_ID a))
             else if at_AgentSessionID current \<noteq> at_AgentSessionID a \<or> at_AccessID current \<noteq> at_AccessID a \<or>
                     at_ApplicationID current \<noteq> at_ApplicationID a \<or> at_Protocol current \<noteq> at_Protocol a
             then tx_fail (ErrNew ''attachment resource binding is immutable'')
             else if at_State current = AttachmentRemoved
             then tx_fail (errw ErrInvalidTransition (''removed attachment '' @ at_ID a))
             else
               let a' = a\<lparr>at_Generation := expectedGeneration + 1, at_CreatedAt := at_CreatedAt current, at_UpdatedAt := dc_now c\<rparr>
               in tx_bind (tx_lift (attachmentModel codec a')) (\<lambda>record. tx_return (a', record))))"

definition update_attachment_write :: "db_call \<Rightarrow> u64 \<Rightarrow> attachment \<times> agent_attachment \<Rightarrow> attachment tx" where
  "update_attachment_write c expectedGeneration p =
     (case p of (a, record) \<Rightarrow>
        tx_bind (on_error (wrap ''update agent attachment: '') (stmt (dc_stmt c 1) (UpdateAgentAttachmentCAS record expectedGeneration)))
          (\<lambda>updated. if \<not> updated then tx_fail (versionConflict ''attachment'' (at_ID a)) else tx_return a))"

definition durable_UpdateAttachment :: "store_codec \<Rightarrow> db_call \<Rightarrow> attachment \<Rightarrow> u64 \<Rightarrow> attachment tx" where
  "durable_UpdateAttachment codec c a expectedGeneration =
     tx_bind (update_attachment_read codec c a expectedGeneration) (update_attachment_write c expectedGeneration)"

definition durable_SetActiveAttachment :: "db_call \<Rightarrow> string \<Rightarrow> string \<Rightarrow> u64 \<Rightarrow> session tx" where
  "durable_SetActiveAttachment c sid aid expectedVersion =
     WithTransactionContext c
       (tx_bind (durable_GetSession c 0 sid)
          (\<lambda>s. if ses_Version s \<noteq> expectedVersion then tx_fail (versionConflict ''session'' sid)
               else if ses_Kind s = SessionManagement \<and> aid \<noteq> []
               then tx_fail (ErrNew ''management sessions cannot activate access attachments'')
               else if ses_Status s = SessionArchived then tx_fail (errw ErrSessionArchived sid)
               else tx_bind
                 (if aid = [] then tx_return ()
                  else tx_bind (on_error (mapNotFound ErrAttachmentNotFound aid) (stmt (dc_stmt c 1) (GetAgentAttachment aid)))
                    (\<lambda>attachmentRecord.
                       if ra_AgentSessionID attachmentRecord \<noteq> sid \<or> ra_State attachmentRecord = AttachmentRemoved
                       then tx_fail (errw ErrAttachmentNotFound aid) else tx_return ()))
                 (\<lambda>_. let s' = s\<lparr>ses_ActiveAttachmentID := aid, ses_Version := ses_Version s + 1, ses_UpdatedAt := dc_now c\<rparr>
                     in tx_bind (on_error (wrap ''set active agent attachment: '')
                            (stmt (dc_stmt c 2) (UpdateAgentSessionCAS (sessionModel s') expectedVersion)))
                          (\<lambda>updated. if \<not> updated then tx_fail (versionConflict ''session'' sid) else tx_return s'))))"

section \<open>Turns\<close>

definition durable_StartTurn :: "db_call \<Rightarrow> string \<Rightarrow> turn \<Rightarrow> (session \<times> turn) tx" where
  "durable_StartTurn c sid t =
     (if tn_ID t = [] then tx_fail (ErrNew ''turn ID is required'')
      else WithTransactionContext c
        (tx_bind (durable_GetSession c 0 sid)
           (\<lambda>s. if ses_Status s = SessionArchived then tx_fail (errw ErrSessionArchived sid)
                else if ses_ActiveTurnID s \<noteq> [] then tx_fail (errw ErrTurnAlreadyActive (ses_ActiveTurnID s))
                else
                  let t' = t\<lparr>tn_AgentSessionID := sid, tn_Status := TurnQueued, tn_Version := 1, tn_CreatedAt := dc_now c,
                             tn_UpdatedAt := dc_now c\<rparr>;
                      s' = s\<lparr>ses_ActiveTurnID := tn_ID t, ses_Version := ses_Version s + 1, ses_UpdatedAt := dc_now c\<rparr>
                  in tx_bind (on_error (wrap ''create agent turn: '') (stmt (dc_stmt c 1) (CreateAgentTurn (turnModel t'))))
                       (\<lambda>_. tx_bind (on_error (wrap ''activate agent turn: '')
                               (stmt (dc_stmt c 2) (UpdateAgentSessionCAS (sessionModel s') (ses_Version s))))
                          (\<lambda>updated. if \<not> updated then tx_fail (versionConflict ''session'' sid) else tx_return (s', t'))))))"

definition durable_GetTurn :: "db_call \<Rightarrow> nat \<Rightarrow> string \<Rightarrow> turn tx" where
  "durable_GetTurn c n tid =
     tx_bind (on_error (mapNotFound ErrTurnNotFound tid) (stmt (dc_stmt c n) (GetAgentTurn tid)))
       (\<lambda>record. tx_return (turnFromModel record))"

definition durable_ListTurns :: "db_call \<Rightarrow> string \<Rightarrow> turn list tx" where
  "durable_ListTurns c sid =
     tx_bind (durable_GetSession c 0 sid)
       (\<lambda>_. tx_bind (on_error (wrap ''list agent turns: '') (stmt (dc_stmt c 1) (ListAgentTurns sid)))
          (\<lambda>records. tx_return (map turnFromModel records)))"

text \<open>The end of a transition to a terminal status: the session lets go of its turn.\<close>

definition release_turn :: "db_call \<Rightarrow> turn \<Rightarrow> unit tx" where
  "release_turn c t =
     tx_bind (durable_GetSession c 2 (tn_AgentSessionID t))
       (\<lambda>s. if ses_ActiveTurnID s = tn_ID t
            then tx_bind (on_error (wrap ''release agent session turn: '') (stmt (dc_stmt c 3)
                     (UpdateAgentSessionCAS (sessionModel (s\<lparr>ses_ActiveTurnID := [], ses_Version := ses_Version s + 1,
                        ses_UpdatedAt := dc_now c\<rparr>)) (ses_Version s))))
                   (\<lambda>updated. if \<not> updated then tx_fail (versionConflict ''session'' (ses_ID s)) else tx_return ())
            else tx_return ())"

definition transitioned_turn :: "gtime \<Rightarrow> turn_status \<Rightarrow> string \<Rightarrow> string \<Rightarrow> turn \<Rightarrow> turn" where
  "transitioned_turn now to code message t =
     (let t1 = t\<lparr>tn_Status := to, tn_ErrorCode := code, tn_ErrorMessage := message, tn_Version := tn_Version t + 1, tn_UpdatedAt := now\<rparr>;
          t2 = (if to = TurnRunning \<and> tn_StartedAt t1 = 0 then t1\<lparr>tn_StartedAt := now\<rparr> else t1)
      in if turn_Terminal to then t2\<lparr>tn_CompletedAt := Some now\<rparr> else t2)"

definition durable_TransitionTurn :: "db_call \<Rightarrow> string \<Rightarrow> u64 \<Rightarrow> turn_status \<Rightarrow> string \<Rightarrow> string \<Rightarrow> turn tx" where
  "durable_TransitionTurn c tid expectedVersion to code message =
     WithTransactionContext c
       (tx_bind (durable_GetTurn c 0 tid)
          (\<lambda>t. if tn_Version t \<noteq> expectedVersion then tx_fail (versionConflict ''turn'' tid)
               else if \<not> validTurnTransition (tn_Status t) to
               then tx_fail (errw ErrInvalidTransition (''turn '' @ tid @ '' from '' @ dec (turn_status_num (tn_Status t)) @
                      '' to '' @ dec (turn_status_num to)))
               else
                 let t3 = transitioned_turn (dc_now c) to code message t
                 in tx_bind (on_error (wrap ''transition agent turn: '') (stmt (dc_stmt c 1) (UpdateAgentTurnCAS (turnModel t3) expectedVersion)))
                      (\<lambda>updated. if \<not> updated then tx_fail (versionConflict ''turn'' tid)
                         else if turn_Terminal to then tx_bind (release_turn c t3) (\<lambda>_. tx_return t3)
                         else tx_return t3)))"

section \<open>Steps\<close>

definition appended_step :: "gtime \<Rightarrow> string \<Rightarrow> u32 \<Rightarrow> step \<Rightarrow> step" where
  "appended_step now tid seq p =
     (let p1 = p\<lparr>sp_TurnID := tid, sp_Sequence := seq, sp_Version := 1, sp_CreatedAt := now, sp_UpdatedAt := now\<rparr>
      in if sp_Status p1 = StepRunning then p1\<lparr>sp_StartedAt := Some now\<rparr> else p1)"

definition durable_AppendStep :: "db_call \<Rightarrow> string \<Rightarrow> u64 \<Rightarrow> step \<Rightarrow> (turn \<times> step) tx" where
  "durable_AppendStep c tid expectedTurnVersion p =
     (if sp_ID p = [] then tx_fail (ErrNew ''step ID is required'')
      else WithTransactionContext c
        (tx_bind (durable_GetTurn c 0 tid)
           (\<lambda>t. if tn_Version t \<noteq> expectedTurnVersion then tx_fail (versionConflict ''turn'' tid)
                else if turn_Terminal (tn_Status t)
                then tx_fail (errw ErrInvalidTransition (''cannot append to terminal turn '' @ tid))
                else tx_bind (on_error (wrap ''allocate agent step sequence: '') (stmt (dc_stmt c 1) (NextAgentStepSequence tid)))
                  (\<lambda>seq.
                     let p2 = appended_step (dc_now c) tid seq p;
                         t' = t\<lparr>tn_ActiveStepID := sp_ID p, tn_Version := tn_Version t + 1, tn_UpdatedAt := dc_now c\<rparr>
                     in tx_bind (on_error (wrap ''activate agent step: '') (stmt (dc_stmt c 2) (UpdateAgentTurnCAS (turnModel t') (tn_Version t))))
                          (\<lambda>updated. if \<not> updated then tx_fail (versionConflict ''turn'' tid)
                             else tx_bind (on_error (wrap ''create agent step: '') (stmt (dc_stmt c 3) (CreateAgentStep (stepModel p2))))
                               (\<lambda>_. tx_return (t', p2)))))))"

definition durable_GetStep :: "db_call \<Rightarrow> string \<Rightarrow> step tx" where
  "durable_GetStep c pid =
     tx_bind (on_error (mapNotFound ErrStepNotFound pid) (stmt (dc_stmt c 0) (GetAgentStep pid)))
       (\<lambda>record. tx_lift (stepFromModel record))"

definition durable_ListSessionSteps :: "db_call \<Rightarrow> string \<Rightarrow> step list tx" where
  "durable_ListSessionSteps c sid =
     tx_bind (durable_GetSession c 0 sid)
       (\<lambda>_. tx_bind (on_error (wrap ''list agent session steps: '') (stmt (dc_stmt c 1) (ListAgentSessionSteps sid)))
          (\<lambda>records. tx_lift (decode_all stepFromModel records)))"

definition transitioned_step :: "gtime \<Rightarrow> step_status \<Rightarrow> bytes \<Rightarrow> string \<Rightarrow> string \<Rightarrow> step \<Rightarrow> step" where
  "transitioned_step now to outp code message p =
     (let p1 = p\<lparr>sp_Status := to, sp_Version := sp_Version p + 1, sp_UpdatedAt := now, sp_ErrorCode := code, sp_ErrorMessage := message\<rparr>;
          p2 = (if outp \<noteq> [] then p1\<lparr>sp_Output := outp\<rparr> else p1)
      in if to = StepCompleted \<or> to = StepCancelled \<or> to = StepFailed then p2\<lparr>sp_CompletedAt := Some now\<rparr> else p2)"

text \<open>The two halves of \<^verbatim>\<open>transitionStep\<close>: the first yields the expected version and the new value.\<close>

definition transition_read :: "db_call \<Rightarrow> string \<Rightarrow> step_status \<Rightarrow> bytes \<Rightarrow> string \<Rightarrow> string \<Rightarrow> (u64 \<times> step) tx" where
  "transition_read c pid to outp code message =
     tx_bind (durable_GetStep c pid)
       (\<lambda>p. if \<not> validStepTransition (sp_Status p) to
            then tx_fail (errw ErrInvalidTransition (''step '' @ pid @ '' from '' @ dec (step_status_num (sp_Status p)) @
                   '' to '' @ dec (step_status_num to)))
            else tx_return (sp_Version p, transitioned_step (dc_now c) to outp code message p))"

definition transition_write :: "db_call \<Rightarrow> string \<Rightarrow> u64 \<times> step \<Rightarrow> step tx" where
  "transition_write c pid w =
     (case w of (expectedVersion, p) \<Rightarrow>
        tx_bind (on_error (wrap ''transition agent step: '') (stmt (dc_stmt c 1) (UpdateAgentStepCAS (stepModel p) expectedVersion)))
          (\<lambda>updated. if \<not> updated then tx_fail (versionConflict ''step'' pid) else tx_return p))"

definition durable_transitionStep :: "db_call \<Rightarrow> string \<Rightarrow> step_status \<Rightarrow> bytes \<Rightarrow> string \<Rightarrow> string \<Rightarrow> step tx" where
  "durable_transitionStep c pid to outp code message =
     tx_bind (transition_read c pid to outp code message) (transition_write c pid)"

definition durable_CompleteStep :: "db_call \<Rightarrow> string \<Rightarrow> bytes \<Rightarrow> step tx" where
  "durable_CompleteStep c pid outp = durable_transitionStep c pid StepCompleted outp [] []"

definition durable_WaitStepApproval :: "db_call \<Rightarrow> string \<Rightarrow> step tx" where
  "durable_WaitStepApproval c pid = durable_transitionStep c pid StepWaitingApproval [] [] []"

definition durable_ResumeStep :: "db_call \<Rightarrow> string \<Rightarrow> step tx" where
  "durable_ResumeStep c pid = durable_transitionStep c pid StepRunning [] [] []"

definition durable_CancelStep :: "db_call \<Rightarrow> string \<Rightarrow> string \<Rightarrow> string \<Rightarrow> step tx" where
  "durable_CancelStep c pid code message = durable_transitionStep c pid StepCancelled [] code message"

definition durable_FailStep :: "db_call \<Rightarrow> string \<Rightarrow> string \<Rightarrow> string \<Rightarrow> step tx" where
  "durable_FailStep c pid code message = durable_transitionStep c pid StepFailed [] code message"

section \<open>Messages and snapshots\<close>

definition durable_AppendMessage :: "store_codec \<Rightarrow> db_call \<Rightarrow> message \<Rightarrow> message tx" where
  "durable_AppendMessage codec c m =
     (if msg_ID m = [] \<or> msg_AgentSessionID m = [] \<or> msg_TurnID m = []
      then tx_fail (ErrNew ''message ID, session and turn are required'')
      else WithTransactionContext c
        (tx_bind (on_error (wrap ''allocate agent message sequence: '') (stmt (dc_stmt c 0) (NextAgentMessageSequence (msg_TurnID m))))
           (\<lambda>seq. tx_bind (on_error (wrap ''encode agent message: '') (tx_lift (enc_message codec (msg_Value m))))
              (\<lambda>encoded. tx_bind (on_error (wrap ''create agent message: '') (stmt (dc_stmt c 1) (CreateAgentMessage
                    \<lparr>rm_ID = msg_ID m, rm_CreatedAt = dc_now c, rm_UpdatedAt = dc_now c, rm_AgentSessionID = msg_AgentSessionID m,
                     rm_TurnID = msg_TurnID m, rm_Sequence = seq, rm_Role = mm_Role (msg_Value m), rm_Content = encoded\<rparr>)))
                 (\<lambda>_. tx_return (m\<lparr>msg_Sequence := seq, msg_CreatedAt := dc_now c\<rparr>))))))"

definition durable_ListMessages :: "store_codec \<Rightarrow> db_call \<Rightarrow> string \<Rightarrow> message list tx" where
  "durable_ListMessages codec c tid =
     tx_bind (on_error (wrap ''list agent messages: '') (stmt (dc_stmt c 0) (ListAgentMessages tid)))
       (\<lambda>records. tx_lift (decode_all (messageFromModel codec) records))"

definition durable_ListSessionMessages :: "store_codec \<Rightarrow> db_call \<Rightarrow> string \<Rightarrow> message list tx" where
  "durable_ListSessionMessages codec c sid =
     tx_bind (durable_GetSession c 0 sid)
       (\<lambda>_. tx_bind (on_error (wrap ''list agent session messages: '') (stmt (dc_stmt c 1) (ListAgentSessionMessages sid)))
          (\<lambda>records. tx_lift (decode_all (messageFromModel codec) records)))"

definition durable_SaveToolSnapshot :: "store_codec \<Rightarrow> db_call \<Rightarrow> string \<Rightarrow> string \<Rightarrow> tool_set_snapshot \<Rightarrow> unit tx" where
  "durable_SaveToolSnapshot codec c tid modelStepID snapshot =
     (if tid = [] \<or> modelStepID = [] \<or> snap_ID snapshot = []
      then tx_fail (ErrNew ''turn, model step and snapshot IDs are required'')
      else tx_bind (on_error (wrap ''encode tool snapshot attachments: '') (tx_lift (enc_generations codec (snap_AttachmentGeneration snapshot))))
        (\<lambda>attachments. tx_bind (on_error (wrap ''encode tool snapshot tools: '') (tx_lift (enc_tools codec (snap_Tools snapshot))))
           (\<lambda>tools. let createdAt = (if snap_CreatedAt snapshot = 0 then dc_now c else snap_CreatedAt snapshot)
              in on_error (wrap ''create agent tool snapshot: '') (stmt (dc_stmt c 0) (CreateAgentToolsetSnapshot
                   \<lparr>rn_ID = snap_ID snapshot, rn_CreatedAt = createdAt, rn_UpdatedAt = createdAt, rn_TurnID = tid,
                    rn_ModelStepID = modelStepID, rn_CatalogGeneration = snap_CatalogGeneration snapshot,
                    rn_PolicyRevision = snap_PolicyRevision snapshot, rn_Attachments = attachments, rn_Tools = tools\<rparr>)))))"

definition snapshot_value :: "agent_toolset_snapshot \<Rightarrow> (string, u64) gomap \<Rightarrow> exposed_tool list \<Rightarrow> tool_set_snapshot" where
  "snapshot_value r attachments exposed =
     \<lparr>snap_ID = rn_ID r, snap_CatalogGeneration = rn_CatalogGeneration r, snap_PolicyRevision = rn_PolicyRevision r,
      snap_AttachmentGeneration = attachments, snap_Tools = exposed, snap_CreatedAt = rn_CreatedAt r\<rparr>"

definition durable_GetToolSnapshot :: "store_codec \<Rightarrow> db_call \<Rightarrow> string \<Rightarrow> tool_set_snapshot tx" where
  "durable_GetToolSnapshot codec c i =
     tx_bind (on_error (wrap ''get agent tool snapshot: '') (stmt (dc_stmt c 0) (GetAgentToolsetSnapshot i)))
       (\<lambda>r. tx_bind (on_error (wrap ''decode tool snapshot attachments: '') (tx_lift (dec_generations codec (rn_Attachments r))))
          (\<lambda>attachments. tx_bind (on_error (wrap ''decode tool snapshot tools: '') (tx_lift (dec_tools codec (rn_Tools r))))
             (\<lambda>exposed. tx_return (snapshot_value r attachments exposed))))"

end
