(* ===== verification/Agent_Durable_Refine.thy ===== *)
theory Agent_Durable_Refine
  imports Agent_Durable
begin

text \<open>
  The durable store refines the memory store. \<open>db_refines\<close> relates the tables to a memory store: every row decodes,
  and the decoded tables are the store's maps; the messages of a turn, ordered by sequence, are the store's list. Each method either fails
  and leaves the tables alone, or does what operations of the memory store do. \<open>durable_step\<close> interleaves any number of
  concurrent calls, with the read-then-write methods split between their two statements; the compare-and-set on the
  version makes the halves act as one operation. So the invariants of the memory store hold for the tables.

  Hypotheses: JSON documents decode to what was encoded (\<open>codec_ok\<close>), and the version and sequence counters stay below
  their widths (\<open>room\<close>).
\<close>

section \<open>Abstraction of tables\<close>

definition abs_map :: "('r \<Rightarrow> 'v) \<Rightarrow> (string, 'r) gomap \<Rightarrow> (string, 'v) gomap" where
  "abs_map f m = map (\<lambda>(k, r). (k, f r)) m"

lemma abs_map_get [simp]: "gm_get (abs_map f m) k = map_option f (gm_get m k)"
  unfolding abs_map_def gm_get_def by (induction m) auto

lemma abs_map_put [simp]: "abs_map f (gm_put k r m) = gm_put k (f r) (abs_map f m)"
  unfolding abs_map_def gm_put_def by (induction m) auto

lemma abs_map_Nil [simp]: "abs_map f [] = []"
  by (simp add: abs_map_def)

lemma abs_map_values: "map snd (abs_map f m) = map (f \<circ> snd) m"
  by (auto simp: abs_map_def)

text \<open>Documented behaviour of \<^verbatim>\<open>encoding/json\<close>: a document is not empty and decodes to what was encoded.\<close>

definition codec_ok :: "store_codec \<Rightarrow> bool" where
  "codec_ok codec \<longleftrightarrow>
     (\<forall>x y. enc_capabilities codec x = Inr y \<longrightarrow> y \<noteq> [] \<and> dec_capabilities codec y = Inr x) \<and>
     (\<forall>x y. enc_message codec x = Inr y \<longrightarrow> y \<noteq> [] \<and> dec_message codec y = Inr x) \<and>
     (\<forall>x y. enc_generations codec x = Inr y \<longrightarrow> y \<noteq> [] \<and> dec_generations codec y = Inr x) \<and>
     (\<forall>x y. enc_tools codec x = Inr y \<longrightarrow> y \<noteq> [] \<and> dec_tools codec y = Inr x)"

definition sum_or :: "'a \<Rightarrow> 'e + 'a \<Rightarrow> 'a" where
  "sum_or d r = (case r of Inl _ \<Rightarrow> d | Inr x \<Rightarrow> x)"

lemma sum_or_simps [simp]: "sum_or d (Inl e) = d" "sum_or d (Inr x) = x"
  by (simp_all add: sum_or_def)

definition attachment_abs :: "store_codec \<Rightarrow> agent_attachment \<Rightarrow> attachment" where
  "attachment_abs codec r = attachment_value r (sum_or [] (dec_capabilities codec (ra_Capabilities r)))"

definition step_abs :: "agent_step \<Rightarrow> step" where
  "step_abs r = sum_or (step_value r None) (stepFromModel r)"

definition snapshot_abs :: "store_codec \<Rightarrow> agent_toolset_snapshot \<Rightarrow> tool_set_snapshot" where
  "snapshot_abs codec r =
     snapshot_value r (sum_or [] (dec_generations codec (rn_Attachments r))) (sum_or [] (dec_tools codec (rn_Tools r)))"

definition message_abs :: "store_codec \<Rightarrow> agent_message \<Rightarrow> message" where
  "message_abs codec r = message_value r (sum_or (new_model_message [] []) (dec_message codec (rm_Content r)))"

definition turn_messages :: "store_codec \<Rightarrow> agent_db \<Rightarrow> string \<Rightarrow> message list" where
  "turn_messages codec db tid =
     map (message_abs codec) (go_sort sequence_less (filter (\<lambda>m. rm_TurnID m = tid) (map snd (db_messages db))))"

definition session_row_ok :: "string \<Rightarrow> agent_session \<Rightarrow> bool" where
  "session_row_ok k r \<longleftrightarrow> rs_ID r = k"

definition attachment_row_ok :: "store_codec \<Rightarrow> string \<Rightarrow> agent_attachment \<Rightarrow> bool" where
  "attachment_row_ok codec k r \<longleftrightarrow> ra_ID r = k \<and> attachmentFromModel codec r = Inr (attachment_abs codec r)"

definition turn_row_ok :: "string \<Rightarrow> agent_turn \<Rightarrow> bool" where
  "turn_row_ok k r \<longleftrightarrow> rt_ID r = k"

definition step_row_ok :: "string \<Rightarrow> agent_step \<Rightarrow> bool" where
  "step_row_ok k r \<longleftrightarrow> rp_ID r = k \<and> stepFromModel r = Inr (step_abs r)"

definition message_row_ok :: "store_codec \<Rightarrow> string \<Rightarrow> agent_message \<Rightarrow> bool" where
  "message_row_ok codec k r \<longleftrightarrow> rm_ID r = k \<and> messageFromModel codec r = Inr (message_abs codec r)"

definition snapshot_row_ok :: "store_codec \<Rightarrow> string \<Rightarrow> agent_toolset_snapshot \<Rightarrow> bool" where
  "snapshot_row_ok codec k r \<longleftrightarrow> rn_ID r = k \<and> isl (dec_generations codec (rn_Attachments r)) = False \<and>
     isl (dec_tools codec (rn_Tools r)) = False"

definition db_ok :: "store_codec \<Rightarrow> agent_db \<Rightarrow> bool" where
  "db_ok codec db \<longleftrightarrow> gm_all session_row_ok (db_sessions db) \<and> gm_all (attachment_row_ok codec) (db_attachments db) \<and>
     gm_all turn_row_ok (db_turns db) \<and> gm_all step_row_ok (db_steps db) \<and>
     gm_all (message_row_ok codec) (db_messages db) \<and> gm_all (snapshot_row_ok codec) (db_snapshots db) \<and>
     gm_wf (db_steps db) \<and> gm_wf (db_messages db)"

definition db_refines :: "store_codec \<Rightarrow> agent_db \<Rightarrow> memory_store \<Rightarrow> bool" where
  "db_refines codec db st \<longleftrightarrow> db_ok codec db \<and>
     ms_sessions st = abs_map sessionFromModel (db_sessions db) \<and> ms_attachments st = abs_map (attachment_abs codec) (db_attachments db) \<and>
     ms_turns st = abs_map turnFromModel (db_turns db) \<and> ms_steps st = abs_map step_abs (db_steps db) \<and>
     ms_snapshots st = abs_map (snapshot_abs codec) (db_snapshots db) \<and>
     (\<forall>tid. gm_getz [] (ms_messages st) tid = turn_messages codec db tid)"

lemma empty_refines: "db_refines codec empty_db NewMemoryStore"
  by (simp add: db_refines_def db_ok_def empty_db_def NewMemoryStore_def turn_messages_def gm_getz_def)

text \<open>Transactions and statements, as rewrite rules.\<close>

lemmas tx_defs = tx_return_def tx_fail_def tx_bind_def stmt_def on_error_def tx_lift_def db_first_def
  durable_GetSession_def GetAgentSession_def durable_GetTurn_def GetAgentTurn_def durable_GetStep_def GetAgentStep_def
  durable_GetAttachment_def GetAgentAttachment_def

lemma transaction_Inl: "WithTransactionContext c body db = (Inl e, db') \<Longrightarrow> db' = db"
  by (auto simp: WithTransactionContext_def split: option.splits sum.splits prod.splits)

lemma transaction_Inr: "WithTransactionContext c body db = (Inr x, db') \<Longrightarrow> body db = (Inr x, db')"
  by (auto simp: WithTransactionContext_def split: option.splits sum.splits prod.splits)

lemma sessionFromModel_simps [simp]:
  "ses_Kind (sessionFromModel r) = rs_Kind r" "ses_ID (sessionFromModel r) = rs_ID r" "ses_Status (sessionFromModel r) = rs_Status r"
  "ses_ActiveTurnID (sessionFromModel r) = rs_ActiveTurnID r" "ses_Version (sessionFromModel r) = rs_Version r"
  "sessionFromModel (sessionModel s) = s"
  by (simp_all add: sessionFromModel_def sessionModel_def)

lemma turnFromModel_simps [simp]:
  "tn_ID (turnFromModel r) = rt_ID r" "tn_Status (turnFromModel r) = rt_Status r" "tn_Version (turnFromModel r) = rt_Version r"
  "tn_AgentSessionID (turnFromModel r) = rt_AgentSessionID r" "turnFromModel (turnModel t) = t"
  by (simp_all add: turnFromModel_def turnModel_def)

section \<open>Writing one row\<close>

named_theorems refines_puts \<open>how one written row changes the refined store\<close>

lemma refines_put_session [refines_puts]:
  "db_refines codec db st \<Longrightarrow> session_row_ok k r \<Longrightarrow>
   db_refines codec (db\<lparr>db_sessions := gm_put k r (db_sessions db)\<rparr>) (st\<lparr>ms_sessions := gm_put k (sessionFromModel r) (ms_sessions st)\<rparr>)"
  by (auto simp: db_refines_def db_ok_def turn_messages_def intro: gm_all_put)

lemma refines_put_attachment [refines_puts]:
  "db_refines codec db st \<Longrightarrow> attachment_row_ok codec k r \<Longrightarrow>
   db_refines codec (db\<lparr>db_attachments := gm_put k r (db_attachments db)\<rparr>)
     (st\<lparr>ms_attachments := gm_put k (attachment_abs codec r) (ms_attachments st)\<rparr>)"
  by (auto simp: db_refines_def db_ok_def turn_messages_def intro: gm_all_put)

lemma refines_put_turn [refines_puts]:
  "db_refines codec db st \<Longrightarrow> turn_row_ok k r \<Longrightarrow>
   db_refines codec (db\<lparr>db_turns := gm_put k r (db_turns db)\<rparr>) (st\<lparr>ms_turns := gm_put k (turnFromModel r) (ms_turns st)\<rparr>)"
  by (auto simp: db_refines_def db_ok_def turn_messages_def intro: gm_all_put)

lemma refines_put_step [refines_puts]:
  "db_refines codec db st \<Longrightarrow> step_row_ok k r \<Longrightarrow>
   db_refines codec (db\<lparr>db_steps := gm_put k r (db_steps db)\<rparr>) (st\<lparr>ms_steps := gm_put k (step_abs r) (ms_steps st)\<rparr>)"
  by (auto simp: db_refines_def db_ok_def turn_messages_def intro: gm_all_put)

lemma refines_put_snapshot [refines_puts]:
  "db_refines codec db st \<Longrightarrow> snapshot_row_ok codec k r \<Longrightarrow>
   db_refines codec (db\<lparr>db_snapshots := gm_put k r (db_snapshots db)\<rparr>)
     (st\<lparr>ms_snapshots := gm_put k (snapshot_abs codec r) (ms_snapshots st)\<rparr>)"
  by (auto simp: db_refines_def db_ok_def turn_messages_def intro: gm_all_put)

lemma refines_get:
  assumes "db_refines codec db st"
  shows "gm_get (ms_sessions st) k = map_option sessionFromModel (gm_get (db_sessions db) k)"
    "gm_get (ms_turns st) k = map_option turnFromModel (gm_get (db_turns db) k)"
    "gm_get (ms_steps st) k = map_option step_abs (gm_get (db_steps db) k)"
    "gm_get (ms_attachments st) k = map_option (attachment_abs codec) (gm_get (db_attachments db) k)"
    "gm_get (ms_snapshots st) k = map_option (snapshot_abs codec) (gm_get (db_snapshots db) k)"
    "gm_getz [] (ms_messages st) k = turn_messages codec db k"
  using assms by (auto simp: db_refines_def)

lemma refines_rows:
  assumes "db_refines codec db st"
  shows "gm_get (db_sessions db) k = Some r \<Longrightarrow> session_row_ok k r"
    "gm_get (db_turns db) k = Some t \<Longrightarrow> turn_row_ok k t"
    "gm_get (db_steps db) k = Some p \<Longrightarrow> step_row_ok k p"
    "gm_get (db_attachments db) k = Some a \<Longrightarrow> attachment_row_ok codec k a"
  using assms by (auto simp: db_refines_def db_ok_def dest: gm_allD)

text \<open>A compare-and-set of a row by a value with the same immutable columns stores that value.\<close>

definition same_session :: "agent_session \<Rightarrow> session \<Rightarrow> bool" where
  "same_session r s \<longleftrightarrow> ses_ID s = rs_ID r \<and> ses_Kind s = rs_Kind r \<and> ses_OrganizationID s = rs_OrganizationID r \<and>
     ses_CreatedBy s = rs_CreatedBy r \<and> ses_CreatedAt s = rs_CreatedAt r"

definition same_turn :: "agent_turn \<Rightarrow> turn \<Rightarrow> bool" where
  "same_turn r t \<longleftrightarrow> tn_ID t = rt_ID r \<and> tn_AgentSessionID t = rt_AgentSessionID r \<and> tn_CreatedAt t = rt_CreatedAt r"

lemma session_cas:
  assumes "db_refines codec db st" "gm_get (db_sessions db) k = Some r" "same_session r s"
  shows "\<exists>db'. UpdateAgentSessionCAS (sessionModel s) (rs_Version r) db = (Inr True, db') \<and>
    db_refines codec db' (st\<lparr>ms_sessions := gm_put k s (ms_sessions st)\<rparr>) \<and> db_turns db' = db_turns db \<and> db_steps db' = db_steps db"
proof -
  let ?m = "sessionModel s"
  let ?r = "r\<lparr>rs_Title := rs_Title ?m, rs_Status := rs_Status ?m, rs_ActiveTurnID := rs_ActiveTurnID ?m,
                       rs_ActiveAttachmentID := rs_ActiveAttachmentID ?m, rs_Summary := rs_Summary ?m, rs_Version := rs_Version ?m,
                       rs_UpdatedAt := rs_UpdatedAt ?m\<rparr>"
  have k: "rs_ID r = k" using refines_rows(1)[OF assms(1,2)] by (simp add: session_row_ok_def)
  have "sessionFromModel ?r = s" using assms(3) by (simp add: sessionFromModel_def sessionModel_def same_session_def)
  moreover have "session_row_ok k ?r" using k by (simp add: session_row_ok_def)
  ultimately have "db_refines codec (db\<lparr>db_sessions := gm_put k ?r (db_sessions db)\<rparr>) (st\<lparr>ms_sessions := gm_put k s (ms_sessions st)\<rparr>)"
    using refines_put_session[OF assms(1), of k ?r] by simp
  moreover have "rs_ID ?m = k" using assms(3) k by (simp add: same_session_def sessionModel_def)
  ultimately show ?thesis using assms(2) by (simp add: UpdateAgentSessionCAS_def)
qed

lemma turn_cas:
  assumes "db_refines codec db st" "gm_get (db_turns db) k = Some r" "same_turn r t"
  shows "\<exists>db'. UpdateAgentTurnCAS (turnModel t) (rt_Version r) db = (Inr True, db') \<and>
    db_refines codec db' (st\<lparr>ms_turns := gm_put k t (ms_turns st)\<rparr>) \<and> db_sessions db' = db_sessions db \<and> db_steps db' = db_steps db"
proof -
  let ?m = "turnModel t"
  let ?r = "r\<lparr>rt_Status := rt_Status ?m, rt_ActiveStepID := rt_ActiveStepID ?m, rt_ErrorCode := rt_ErrorCode ?m,
                       rt_ErrorMessage := rt_ErrorMessage ?m, rt_Version := rt_Version ?m, rt_StartedAt := rt_StartedAt ?m,
                       rt_CompletedAt := rt_CompletedAt ?m, rt_UpdatedAt := rt_UpdatedAt ?m\<rparr>"
  have k: "rt_ID r = k" using refines_rows(2)[OF assms(1,2)] by (simp add: turn_row_ok_def)
  have "turnFromModel ?r = t" using assms(3) by (simp add: turnFromModel_def turnModel_def same_turn_def)
  moreover have "turn_row_ok k ?r" using k by (simp add: turn_row_ok_def)
  ultimately have "db_refines codec (db\<lparr>db_turns := gm_put k ?r (db_turns db)\<rparr>) (st\<lparr>ms_turns := gm_put k t (ms_turns st)\<rparr>)"
    using refines_put_turn[OF assms(1), of k ?r] by simp
  moreover have "rt_ID ?m = k" using assms(3) k by (simp add: same_turn_def turnModel_def)
  ultimately show ?thesis using assms(2) by (simp add: UpdateAgentTurnCAS_def)
qed

section \<open>Methods\<close>

text \<open>What a result of a durable method says about the memory store: a success is that of the operation \<open>m\<close>, with results
  related by \<open>F\<close>; a failure changes nothing.\<close>

definition simulates :: "('a \<Rightarrow> 'b \<Rightarrow> bool) \<Rightarrow> store_codec \<Rightarrow> agent_db \<Rightarrow> (agent_db, 'a) outcome \<Rightarrow> 'b store_result \<Rightarrow> bool" where
  "simulates F codec db out m \<longleftrightarrow>
     (case fst out of Inl _ \<Rightarrow> snd out = db | Inr x \<Rightarrow> (\<exists>y st'. m = (Inr y, st') \<and> F x y \<and> db_refines codec (snd out) st'))"

lemma simulates_fail [simp]: "simulates F codec db (Inl e, db) m"
  by (simp add: simulates_def)

text \<open>A transaction simulates what its body does when that succeeds.\<close>

lemma simulates_transaction:
  assumes "\<And>x db'. body db = (Inr x, db') \<Longrightarrow> simulates F codec db (Inr x, db') m"
  shows "simulates F codec db (WithTransactionContext c body db) m"
  using assms by (auto simp: WithTransactionContext_def split: option.split prod.split sum.split)

lemma simulatesI:
  assumes "\<And>e db'. out = (Inl e, db') \<Longrightarrow> db' = db" "\<And>x db'. out = (Inr x, db') \<Longrightarrow> simulates F codec db (Inr x, db') m"
  shows "simulates F codec db out m"
proof (cases out)
  case (Pair r db')
  show ?thesis by (cases r) (use assms Pair in \<open>auto simp: simulates_def\<close>)
qed

lemma bind_Inr: "tx_bind m k db = (Inr x, db') \<longleftrightarrow> (\<exists>y db1. m db = (Inr y, db1) \<and> k y db1 = (Inr x, db'))"
  by (auto simp: tx_bind_def split: prod.splits sum.splits)

lemma on_error_Inr: "on_error f m db = (Inr x, db') \<longleftrightarrow> m db = (Inr x, db')"
  by (auto simp: on_error_def split: prod.splits sum.splits)

lemma stmt_Inr: "stmt e m db = (Inr x, db') \<longleftrightarrow> e = None \<and> m db = (Inr x, db')"
  by (auto simp: stmt_def split: option.splits)

lemma basic_Inr:
  "tx_return y db = (Inr x, db') \<longleftrightarrow> x = y \<and> db' = db" "tx_fail e db \<noteq> (Inr x, db')" "tx_lift r db = (Inr x, db') \<longleftrightarrow> r = Inr x \<and> db' = db"
  by (auto simp: tx_return_def tx_fail_def tx_lift_def)

lemma db_first_Inr: "db_first tbl i db = (Inr r, db') \<longleftrightarrow> gm_get (tbl db) i = Some r \<and> db' = db"
  by (auto simp: db_first_def split: option.splits)

lemmas tx_Inr = bind_Inr on_error_Inr stmt_Inr basic_Inr db_first_Inr

lemma get_Inr:
  "durable_GetSession c n sid db = (Inr s, db') \<longleftrightarrow>
     dc_stmt c n = None \<and> db' = db \<and> (\<exists>r. gm_get (db_sessions db) sid = Some r \<and> s = sessionFromModel r)"
  "durable_GetTurn c n tid db = (Inr t, db') \<longleftrightarrow>
     dc_stmt c n = None \<and> db' = db \<and> (\<exists>r. gm_get (db_turns db) tid = Some r \<and> t = turnFromModel r)"
  unfolding durable_GetSession_def durable_GetTurn_def GetAgentSession_def GetAgentTurn_def tx_Inr by blast+

lemma if_tx: "(if b then m else n) db = (if b then m db else n db)"
  by simp

lemma create_Inr:
  "CreateAgentSession r db = (Inr u, db') \<longleftrightarrow> gm_get (db_sessions db) (rs_ID r) = None \<and>
     db' = db\<lparr>db_sessions := gm_put (rs_ID r) (r\<lparr>rs_Kind := or_default ''access'' (rs_Kind r), rs_Version := gen_or_one (rs_Version r)\<rparr>) (db_sessions db)\<rparr>"
  "CreateAgentTurn t db = (Inr u, db') \<longleftrightarrow> gm_get (db_turns db) (rt_ID t) = None \<and>
     db' = db\<lparr>db_turns := gm_put (rt_ID t) (t\<lparr>rt_Version := gen_or_one (rt_Version t)\<rparr>) (db_turns db)\<rparr>"
  by (auto simp: CreateAgentSession_def CreateAgentTurn_def)

lemma gen_or_one_1 [simp]: "gen_or_one 1 = 1" "gen_or_one (gen_or_one g) = gen_or_one g"
  by (simp_all add: gen_or_one_def)

lemma create_turn:
  assumes "db_refines codec db st" "CreateAgentTurn (turnModel t) db = (Inr u, db')" "tn_Version t = 1"
  shows "db_refines codec db' (st\<lparr>ms_turns := gm_put (tn_ID t) t (ms_turns st)\<rparr>)" "gm_get (ms_turns st) (tn_ID t) = None"
    "db_sessions db' = db_sessions db"
proof -
  have m: "(turnModel t)\<lparr>rt_Version := gen_or_one (rt_Version (turnModel t))\<rparr> = turnModel t" "rt_ID (turnModel t) = tn_ID t"
    using assms(3) by (simp_all add: turnModel_def)
  with assms(2) have new: "gm_get (db_turns db) (tn_ID t) = None"
    "db' = db\<lparr>db_turns := gm_put (tn_ID t) (turnModel t) (db_turns db)\<rparr>" by (simp_all add: create_Inr)
  from refines_put_turn[OF assms(1), of "tn_ID t" "turnModel t"] new m
  show "db_refines codec db' (st\<lparr>ms_turns := gm_put (tn_ID t) t (ms_turns st)\<rparr>)" by (simp add: turn_row_ok_def)
  from new show "gm_get (ms_turns st) (tn_ID t) = None" "db_sessions db' = db_sessions db"
    by (simp_all add: refines_get[OF assms(1)])
qed

lemma session_cas_Inr:
  assumes "db_refines codec db st" "gm_get (db_sessions db) k = Some r" "same_session r s"
    "UpdateAgentSessionCAS (sessionModel s) (rs_Version r) db = (Inr b, db')"
  shows "db_refines codec db' (st\<lparr>ms_sessions := gm_put k s (ms_sessions st)\<rparr>)"
  using session_cas[OF assms(1-3)] assms(4) by auto

lemma turn_cas_Inr:
  assumes "db_refines codec db st" "gm_get (db_turns db) k = Some r" "same_turn r t"
    "UpdateAgentTurnCAS (turnModel t) (rt_Version r) db = (Inr b, db')"
  shows "db_refines codec db' (st\<lparr>ms_turns := gm_put k t (ms_turns st)\<rparr>)" "db_sessions db' = db_sessions db" "db_steps db' = db_steps db"
  using turn_cas[OF assms(1-3)] assms(4) by auto

lemma store_commute:
  "st\<lparr>ms_turns := x, ms_sessions := y\<rparr> = st\<lparr>ms_sessions := y, ms_turns := x\<rparr>"
  "st\<lparr>ms_turns := x, ms_steps := z\<rparr> = st\<lparr>ms_steps := z, ms_turns := x\<rparr>"
  by simp_all

lemma StartTurn_simulates:
  assumes ref: "db_refines codec db st"
  shows "simulates (=) codec db (durable_StartTurn c sid t db) (store_StartTurn CtxLive (dc_now c) sid t st)"
proof (cases "tn_ID t = []")
  case True
  then show ?thesis by (simp add: durable_StartTurn_def tx_fail_def)
next
  case False
  show ?thesis unfolding durable_StartTurn_def if_not_P[OF False]
  proof (rule simulates_transaction, clarsimp simp: tx_Inr get_Inr Let_def if_tx split: if_splits)
    fix r db1 db2
    let ?t = "t\<lparr>tn_AgentSessionID := sid, tn_Status := TurnQueued, tn_Version := 1, tn_CreatedAt := dc_now c, tn_UpdatedAt := dc_now c\<rparr>"
    let ?s = "(sessionFromModel r)\<lparr>ses_ActiveTurnID := tn_ID t, ses_Version := rs_Version r + 1, ses_UpdatedAt := dc_now c\<rparr>"
    assume r: "gm_get (db_sessions db) sid = Some r" and open_turn: "rs_Status r \<noteq> SessionArchived" "rs_ActiveTurnID r = []"
      and create: "CreateAgentTurn (turnModel ?t) db = (Inr (), db1)"
      and cas: "UpdateAgentSessionCAS (sessionModel ?s) (rs_Version r) db1 = (Inr True, db2)"
    note new = create_turn[OF ref create]
    from session_cas_Inr[OF new(1) _ _ cas, of sid] r new(3)
    have "db_refines codec db2 (st\<lparr>ms_turns := gm_put (tn_ID t) ?t (ms_turns st), ms_sessions := gm_put sid ?s (ms_sessions st)\<rparr>)"
      by (simp add: same_session_def sessionFromModel_def)
    with r open_turn False new(2) show "simulates (=) codec db (Inr (?s, ?t), db2) (store_StartTurn CtxLive (dc_now c) sid t st)"
      by (simp add: store_StartTurn_def Let_def refines_get[OF ref] simulates_def store_commute)
  qed
qed

lemma release_turn_simulates:
  assumes ref: "db_refines codec db st" and run: "release_turn c t db = (Inr u, db')"
  shows "db_refines codec db' (st\<lparr>ms_sessions := release_session (dc_now c) t (ms_sessions st)\<rparr>)"
proof -
  from run obtain r where r: "gm_get (db_sessions db) (tn_AgentSessionID t) = Some r"
    unfolding release_turn_def tx_Inr get_Inr by blast
  have rid: "rs_ID r = tn_AgentSessionID t" using refines_rows(1)[OF ref r] by (simp add: session_row_ok_def)
  show ?thesis
  proof (cases "rs_ActiveTurnID r = tn_ID t")
    case True
    let ?s = "(sessionFromModel r)\<lparr>ses_ActiveTurnID := [], ses_Version := rs_Version r + 1, ses_UpdatedAt := dc_now c\<rparr>"
    from run r True obtain b where "UpdateAgentSessionCAS (sessionModel ?s) (rs_Version r) db = (Inr b, db')"
      unfolding release_turn_def tx_Inr get_Inr by (auto simp: tx_Inr if_tx split: if_splits)
    from session_cas_Inr[OF ref r _ this] True r rid show ?thesis
      by (simp add: same_session_def sessionFromModel_def release_session_def refines_get(1)[OF ref])
  next
    case False
    with run r have "db' = db" unfolding release_turn_def tx_Inr get_Inr by (auto simp: tx_Inr)
    with ref r False show ?thesis by (simp add: release_session_def refines_get(1)[OF ref])
  qed
qed

lemma transitioned_turn_same: "same_turn r (transitioned_turn now to code msg (turnFromModel r))"
  by (simp add: transitioned_turn_def Let_def same_turn_def turnFromModel_def)

lemma TransitionTurn_simulates:
  assumes ref: "db_refines codec db st"
  shows "simulates (=) codec db (durable_TransitionTurn c tid v to code msg db)
    (store_TransitionTurn CtxLive (dc_now c) tid v to code msg st)"
proof (rule simulatesI)
  fix x db' assume run: "durable_TransitionTurn c tid v to code msg db = (Inr x, db')"
  from transaction_Inr[OF run[unfolded durable_TransitionTurn_def]] obtain r db1
    where r: "gm_get (db_turns db) tid = Some r" and ok: "rt_Version r = v" "validTurnTransition (rt_Status r) to"
    and x: "x = transitioned_turn (dc_now c) to code msg (turnFromModel r)"
    and cas: "UpdateAgentTurnCAS (turnModel x) (rt_Version r) db = (Inr True, db1)"
    and rest: "if turn_Terminal to then release_turn c x db1 = (Inr (), db') else db' = db1"
    by (auto simp: tx_Inr get_Inr Let_def if_tx split: if_splits)
  have same: "same_turn r x" unfolding x by (rule transitioned_turn_same)
  note new = turn_cas_Inr[OF ref r same cas]
  have "release_session now x = release_session now (turnFromModel r)" for now
    using same by (simp add: release_session_def same_turn_def fun_eq_iff split: option.split)
  then have "db_refines codec db' (st\<lparr>ms_turns := gm_put tid x (ms_turns st),
      ms_sessions := (if turn_Terminal to then release_session (dc_now c) (turnFromModel r) (ms_sessions st) else ms_sessions st)\<rparr>)"
    using rest new(1) release_turn_simulates[OF new(1), of c x "()" db'] by (simp split: if_splits)
  with r ok show "simulates (=) codec db (Inr x, db') (store_TransitionTurn CtxLive (dc_now c) tid v to code msg st)"
    by (simp add: store_TransitionTurn_def refines_get(2)[OF ref] simulates_def store_commute x transitioned_turn_def Let_def)
qed (simp add: durable_TransitionTurn_def transaction_Inl)

lemma succ_le_iff: "m \<noteq> - 1 \<Longrightarrow> m + 1 \<le> x \<longleftrightarrow> m < (x :: u32)"
  by (simp add: inc_less_eq_iff)

lemma max_sequence_fold:
  fixes xs :: "u32 list"
  assumes "m \<noteq> - 1" "\<And>x. x \<in> set xs \<Longrightarrow> x \<noteq> - 1"
  shows "fold (\<lambda>x nxt. if x \<ge> nxt then x + 1 else nxt) xs (m + 1) = fold max xs m + 1"
  using assms
proof (induction xs arbitrary: m)
  case (Cons x xs)
  have "(if x \<ge> m + 1 then x + 1 else m + 1) = max m x + 1"
    using succ_le_iff[OF Cons.prems(1), of x] by (auto simp: max_def)
  moreover have "max m x \<noteq> - 1" using Cons.prems by (simp add: max_def)
  ultimately show ?case using Cons.IH[of "max m x"] Cons.prems(2) by (simp add: max.commute)
qed simp

definition stored_step :: "step \<Rightarrow> step" where
  "stored_step p = p\<lparr>sp_Input := or_default ''{}'' (sp_Input p), sp_Output := or_default ''{}'' (sp_Output p)\<rparr>"

lemma stored_step_same: "sp_ID (stored_step p) = sp_ID p" "sp_Status (stored_step p) = sp_Status p"
  by (simp_all add: stored_step_def)

definition step_tool_ok :: "step \<Rightarrow> bool" where
  "step_tool_ok p \<longleftrightarrow> (case sp_ToolID p of None \<Rightarrow> True | Some i \<Rightarrow> tool_id_wf i)"

lemma stepFromModel_same:
  "stepFromModel r = Inr v \<Longrightarrow> rp_ToolID r' = rp_ToolID r \<Longrightarrow> stepFromModel r' = Inr (step_value r' (sp_ToolID v))"
  by (auto simp: stepFromModel_def step_value_def split: if_splits sum.splits)

lemma tool_id_String_ne [simp]: "tool_id_String i \<noteq> []"
  by (simp add: tool_id_String_def)

lemma stepFromModel_stepModel:
  assumes "step_tool_ok p" "rp_ToolID r = rp_ToolID (stepModel p)"
  shows "stepFromModel r = Inr (step_value r (sp_ToolID p))"
  using assms by (auto simp: stepFromModel_def stepModel_def step_tool_ok_def parse_print split: option.splits)

lemma create_step:
  assumes ref: "db_refines codec db st" and create: "CreateAgentStep (stepModel p) db = (Inr u, db')"
    and "sp_Version p = 1" "step_tool_ok p"
  shows "db_refines codec db' (st\<lparr>ms_steps := gm_put (sp_ID p) (stored_step p) (ms_steps st)\<rparr>)"
    "gm_get (ms_steps st) (sp_ID p) = None" "db_turns db' = db_turns db" "db_sessions db' = db_sessions db"
proof -
  let ?r = "(stepModel p)\<lparr>rp_Input := or_default ''{}'' (sp_Input p), rp_Output := or_default ''{}'' (sp_Output p)\<rparr>"
  have m: "(stepModel p)\<lparr>rp_Input := or_default ''{}'' (rp_Input (stepModel p)), rp_Output := or_default ''{}'' (rp_Output (stepModel p)),
      rp_Version := gen_or_one (rp_Version (stepModel p))\<rparr> = ?r" "rp_ID (stepModel p) = sp_ID p"
    using assms(3) by (simp_all add: stepModel_def)
  with create have new: "gm_get (db_steps db) (sp_ID p) = None" "db' = db\<lparr>db_steps := gm_put (sp_ID p) ?r (db_steps db)\<rparr>"
    by (auto simp: CreateAgentStep_def split: if_splits)
  have "stepFromModel ?r = Inr (step_value ?r (sp_ToolID p))" by (rule stepFromModel_stepModel[OF assms(4)]) (simp add: stepModel_def)
  moreover have "step_value ?r (sp_ToolID p) = stored_step p" by (simp add: step_value_def stepModel_def stored_step_def)
  ultimately have "step_row_ok (sp_ID p) ?r" "step_abs ?r = stored_step p" using m by (simp_all add: step_row_ok_def step_abs_def)
  from refines_put_step[OF ref this(1)] new(2) this(2)
  show "db_refines codec db' (st\<lparr>ms_steps := gm_put (sp_ID p) (stored_step p) (ms_steps st)\<rparr>)" by simp
  from new show "gm_get (ms_steps st) (sp_ID p) = None" "db_turns db' = db_turns db" "db_sessions db' = db_sessions db"
    by (simp_all add: refines_get[OF ref])
qed

text \<open>The counters stay below their widths.\<close>

definition room :: "agent_db \<Rightarrow> bool" where
  "room db \<longleftrightarrow> gm_all (\<lambda>_ r. rs_Version r \<noteq> - 1) (db_sessions db) \<and> gm_all (\<lambda>_ r. ra_Generation r \<noteq> - 1) (db_attachments db) \<and>
     gm_all (\<lambda>_ r. rt_Version r \<noteq> - 1) (db_turns db) \<and> gm_all (\<lambda>_ r. rp_Version r \<noteq> - 1 \<and> rp_Sequence r \<noteq> - 1) (db_steps db) \<and>
     gm_all (\<lambda>_ r. rm_Sequence r \<noteq> - 1) (db_messages db)"

lemma step_abs_simps:
  assumes "step_row_ok k r"
  shows "sp_TurnID (step_abs r) = rp_TurnID r" "sp_Sequence (step_abs r) = rp_Sequence r" "sp_Version (step_abs r) = rp_Version r"
    "sp_Status (step_abs r) = rp_Status r" "sp_ID (step_abs r) = rp_ID r"
proof -
  obtain v where v: "stepFromModel r = Inr v" using assms unfolding step_row_ok_def by blast
  then have "step_abs r = step_value r (sp_ToolID v)" using stepFromModel_same[OF v refl] by (simp add: step_abs_def)
  then show "sp_TurnID (step_abs r) = rp_TurnID r" "sp_Sequence (step_abs r) = rp_Sequence r" "sp_Version (step_abs r) = rp_Version r"
    "sp_Status (step_abs r) = rp_Status r" "sp_ID (step_abs r) = rp_ID r"
    by (simp_all add: step_value_def)
qed

lemma fold_filter_map: "fold (\<lambda>s acc. if P s \<and> f s \<ge> acc then f s + 1 else acc) xs a =
    fold (\<lambda>x acc. if x \<ge> acc then x + 1 else acc) (map f (filter P xs)) a"
  by (induction xs arbitrary: a) auto

lemma next_step_sequence:
  assumes ref: "db_refines codec db st" and "room db"
  shows "next_sequence (map rp_Sequence (filter (\<lambda>p. rp_TurnID p = tid) (map snd (db_steps db)))) = nextStepSequence tid (ms_steps st)"
proof -
  let ?rows = "filter (\<lambda>p. rp_TurnID p = tid) (map snd (db_steps db))"
  have wf: "gm_wf (db_steps db)" and steps: "ms_steps st = abs_map step_abs (db_steps db)"
    using ref by (simp_all add: db_refines_def db_ok_def)
  have abs: "sp_TurnID (step_abs r) = rp_TurnID r" "sp_Sequence (step_abs r) = rp_Sequence r" "rp_Sequence r \<noteq> - 1"
    if "(k, r) \<in> set (db_steps db)" for k r
  proof -
    from that have k: "gm_get (db_steps db) k = Some r" by (simp add: gm_mem_iff[OF wf])
    note row = refines_rows(3)[OF ref k]
    show "sp_TurnID (step_abs r) = rp_TurnID r" "sp_Sequence (step_abs r) = rp_Sequence r" by (simp_all add: step_abs_simps[OF row])
    have "gm_all (\<lambda>_ r. rp_Version r \<noteq> - 1 \<and> rp_Sequence r \<noteq> - 1) (db_steps db)" using assms(2) by (simp add: room_def)
    from gm_allD[OF this k] show "rp_Sequence r \<noteq> - 1" by simp
  qed
  have "map snd (ms_steps st) = map step_abs (map snd (db_steps db))" by (simp add: steps abs_map_values)
  then have "map sp_Sequence (filter (\<lambda>s. sp_TurnID s = tid) (map snd (ms_steps st))) = map rp_Sequence ?rows"
    using abs by (auto simp: filter_map comp_def intro!: map_cong filter_cong)
  moreover have "fold (\<lambda>x acc. if x \<ge> acc then x + 1 else acc) (map rp_Sequence ?rows) (0 + 1) = fold max (map rp_Sequence ?rows) 0 + 1"
    by (rule max_sequence_fold) (use abs in auto)
  ultimately show ?thesis by (simp add: next_sequence_def nextStepSequence_def fold_filter_map)
qed

lemma AppendStep_simulates:
  assumes ref: "db_refines codec db st" and "room db" "step_tool_ok p"
  shows "simulates (\<lambda>(t, p) (t', p'). t' = t \<and> p' = stored_step p) codec db (durable_AppendStep c tid v p db)
    (store_AppendStep CtxLive (dc_now c) tid v (stored_step p) st)"
proof (rule simulatesI)
  fix x db' assume run: "durable_AppendStep c tid v p db = (Inr x, db')"
  then have ne: "sp_ID p \<noteq> []" by (auto simp: durable_AppendStep_def tx_fail_def)
  let ?p = "appended_step (dc_now c) tid (nextStepSequence tid (ms_steps st)) p"
  from transaction_Inr[OF run[unfolded durable_AppendStep_def if_not_P[OF ne]]] obtain r db1 t
    where r: "gm_get (db_turns db) tid = Some r" and ok: "rt_Version r = v" "\<not> turn_Terminal (rt_Status r)"
    and t: "t = (turnFromModel r)\<lparr>tn_ActiveStepID := sp_ID p, tn_Version := rt_Version r + 1, tn_UpdatedAt := dc_now c\<rparr>"
    and x: "x = (t, ?p)" and cas: "UpdateAgentTurnCAS (turnModel t) (rt_Version r) db = (Inr True, db1)"
    and create: "CreateAgentStep (stepModel ?p) db1 = (Inr (), db')"
    by (auto simp: tx_Inr get_Inr Let_def if_tx NextAgentStepSequence_def next_step_sequence[OF assms(1,2)] split: if_splits)
  note t1 = turn_cas_Inr[OF ref r _ cas]
  have same: "same_turn r t" by (simp add: t same_turn_def turnFromModel_def)
  have p: "sp_ID ?p = sp_ID p" "sp_Version ?p = 1" "step_tool_ok ?p"
    using assms(3) by (simp_all add: appended_step_def Let_def step_tool_ok_def)
  note new = create_step[OF t1(1)[OF same] create p(2,3)]
  have fresh: "gm_get (ms_steps st) (sp_ID p) = None" using new(2) p(1) by simp
  have stored: "stored_step ?p = appended_step (dc_now c) tid (nextStepSequence tid (ms_steps st)) (stored_step p)"
    by (simp add: stored_step_def appended_step_def Let_def)
  have "store_AppendStep CtxLive (dc_now c) tid v (stored_step p) st =
      (Inr (t, stored_step ?p), st\<lparr>ms_steps := gm_put (sp_ID p) (stored_step ?p) (ms_steps st), ms_turns := gm_put tid t (ms_turns st)\<rparr>)"
    using r ok ne fresh unfolding stored
    by (simp add: t store_AppendStep_def refines_get(2)[OF ref] Let_def appended_step_def stored_step_same)
  with new(1) p(1) show "simulates (\<lambda>(t, p) (t', p'). t' = t \<and> p' = stored_step p) codec db (Inr x, db')
      (store_AppendStep CtxLive (dc_now c) tid v (stored_step p) st)"
    by (simp add: simulates_def x store_commute)
qed (auto simp: durable_AppendStep_def tx_fail_def transaction_Inl split: if_splits)

lemma transitioned_step_split:
  "transitioned_step now to outp code msg p =
     (let s1 = p\<lparr>sp_Status := to, sp_Version := sp_Version p + 1, sp_UpdatedAt := now\<rparr>;
          s2 = (if outp \<noteq> [] then s1\<lparr>sp_Output := outp\<rparr> else s1);
          s3 = (if to = StepCompleted \<or> to = StepCancelled \<or> to = StepFailed then s2\<lparr>sp_CompletedAt := Some now\<rparr> else s2)
      in s3\<lparr>sp_ErrorCode := code, sp_ErrorMessage := msg\<rparr>)"
  by (cases p) (simp add: transitioned_step_def Let_def)

text \<open>A step is written back only over the row it was read from; this is two operations of the memory store.\<close>

lemma step_write_simulates:
  assumes ref: "db_refines codec db st" and r: "gm_get (db_steps db) pid = Some r" and ok: "validStepTransition (rp_Status r) to"
    and p: "p = transitioned_step now to outp code msg (step_abs r)"
    and cas: "UpdateAgentStepCAS (stepModel p) (rp_Version r) db = (Inr b, db')"
  shows "db_refines codec db' (run_ops [OpTransitionStep CtxLive now pid to outp, OpWriteStepError pid code msg] st)"
proof -
  note row = refines_rows(3)[OF ref r]
  then have rid: "rp_ID r = pid" and dec: "stepFromModel r = Inr (step_abs r)" by (simp_all add: step_row_ok_def)
  let ?m = "stepModel p"
  let ?r = "r\<lparr>rp_Status := rp_Status ?m, rp_Output := rp_Output ?m, rp_ErrorCode := rp_ErrorCode ?m, rp_ErrorMessage := rp_ErrorMessage ?m,
     rp_Version := rp_Version ?m, rp_StartedAt := rp_StartedAt ?m, rp_CompletedAt := rp_CompletedAt ?m, rp_UpdatedAt := rp_UpdatedAt ?m\<rparr>"
  obtain i where abs: "step_abs r = step_value r i" "sp_ToolID (step_abs r) = i"
    using stepFromModel_same[OF dec refl] dec by simp
  have "stepFromModel ?r = Inr (step_value ?r i)" using stepFromModel_same[OF dec, of ?r] abs(2) by simp
  moreover have "step_value ?r i = p"
    by (simp add: p abs(1) step_value_def stepModel_def transitioned_step_def Let_def)
  ultimately have new: "step_row_ok pid ?r" "step_abs ?r = p" using rid by (simp_all add: step_row_ok_def step_abs_def)
  have "rp_ID ?m = pid" using step_abs_simps(5)[OF row] rid by (simp add: stepModel_def p transitioned_step_def Let_def)
  with cas r have "db' = db\<lparr>db_steps := gm_put pid ?r (db_steps db)\<rparr>" by (simp add: UpdateAgentStepCAS_def)
  with refines_put_step[OF ref new(1)] new(2) have "db_refines codec db' (st\<lparr>ms_steps := gm_put pid p (ms_steps st)\<rparr>)" by simp
  moreover have "run_ops [OpTransitionStep CtxLive now pid to outp, OpWriteStepError pid code msg] st = st\<lparr>ms_steps := gm_put pid p (ms_steps st)\<rparr>"
    using r ok step_abs_simps(4)[OF row]
    by (simp add: store_transitionStep_def store_writeStepError_def refines_get(3)[OF ref] Let_def p transitioned_step_split)
  ultimately show ?thesis by simp
qed

subsection \<open>Sessions and attachments\<close>

definition stored_session :: "session \<Rightarrow> session" where
  "stored_session s = s\<lparr>ses_Kind := or_default ''access'' (ses_Kind s)\<rparr>"

lemma create_session:
  assumes ref: "db_refines codec db st" and create: "CreateAgentSession (sessionModel s) db = (Inr u, db')" and "ses_Version s = 1"
  shows "db_refines codec db' (st\<lparr>ms_sessions := gm_put (ses_ID s) (stored_session s) (ms_sessions st)\<rparr>)"
    "gm_get (ms_sessions st) (ses_ID s) = None" "db_attachments db' = db_attachments db"
proof -
  let ?r = "(sessionModel s)\<lparr>rs_Kind := or_default ''access'' (ses_Kind s)\<rparr>"
  have m: "(sessionModel s)\<lparr>rs_Kind := or_default ''access'' (rs_Kind (sessionModel s)), rs_Version := gen_or_one (rs_Version (sessionModel s))\<rparr> = ?r"
    "rs_ID (sessionModel s) = ses_ID s" "sessionFromModel ?r = stored_session s"
    using assms(3) by (simp_all add: sessionModel_def sessionFromModel_def stored_session_def)
  with create have new: "gm_get (db_sessions db) (ses_ID s) = None" "db' = db\<lparr>db_sessions := gm_put (ses_ID s) ?r (db_sessions db)\<rparr>"
    by (simp_all add: create_Inr)
  from refines_put_session[OF ref, of "ses_ID s" ?r] new m
  show "db_refines codec db' (st\<lparr>ms_sessions := gm_put (ses_ID s) (stored_session s) (ms_sessions st)\<rparr>)" by (simp add: session_row_ok_def)
  from new show "gm_get (ms_sessions st) (ses_ID s) = None" "db_attachments db' = db_attachments db"
    by (simp_all add: refines_get[OF ref])
qed

lemma stored_session_valid: "validateSession s = None \<Longrightarrow> validateSession (stored_session s) = None"
  by (auto simp: validateSession_def stored_session_def or_default_def session_kind_Valid_def split: if_splits)

lemma CreateSession_simulates:
  assumes ref: "db_refines codec db st"
  shows "simulates (=) codec db (durable_CreateSession c s db) (store_CreateSession CtxLive (dc_now c) (stored_session s) st)"
proof (rule simulatesI)
  fix x db' assume run: "durable_CreateSession c s db = (Inr x, db')"
  let ?s = "s\<lparr>ses_Version := 1, ses_CreatedAt := dc_now c, ses_UpdatedAt := dc_now c\<rparr>"
  from run have valid: "validateSession s = None" and create: "CreateAgentSession (sessionModel ?s) db = (Inr (), db')"
    by (auto simp: durable_CreateSession_def tx_Inr split: option.splits)
  note new = create_session[OF ref create, simplified]
  have "stored_session ?s = (stored_session s)\<lparr>ses_Version := 1, ses_CreatedAt := dc_now c, ses_UpdatedAt := dc_now c\<rparr>"
    "ses_ID (stored_session s) = ses_ID s" by (simp_all add: stored_session_def)
  with new show "simulates (=) codec db (Inr x, db') (store_CreateSession CtxLive (dc_now c) (stored_session s) st)"
    by (simp add: simulates_def store_CreateSession_def stored_session_valid[OF valid])
qed (auto simp: durable_CreateSession_def tx_fail_def on_error_def stmt_def CreateAgentSession_def split: option.splits if_splits)

text \<open>What an attachment's row decodes to.\<close>

lemma attachmentModel_row:
  assumes "codec_ok codec" "attachmentModel codec a = Inr r"
  shows "ra_Capabilities r \<noteq> []" "dec_capabilities codec (ra_Capabilities r) = Inr (at_Capabilities a)"
    "attachment_value r (at_Capabilities a) = a" "ra_ID r = at_ID a" "ra_Generation r = at_Generation a" "ra_State r = at_State a"
    "ra_UpdatedAt r = at_UpdatedAt a"
proof -
  obtain j where "enc_capabilities codec (at_Capabilities a) = Inr j" using assms(2) by (auto simp: attachmentModel_def split: sum.splits)
  with assms show "ra_Capabilities r \<noteq> []" "dec_capabilities codec (ra_Capabilities r) = Inr (at_Capabilities a)"
    "attachment_value r (at_Capabilities a) = a" "ra_ID r = at_ID a" "ra_Generation r = at_Generation a" "ra_State r = at_State a"
    "ra_UpdatedAt r = at_UpdatedAt a"
    by (auto simp: attachmentModel_def codec_ok_def attachment_value_def)
qed

lemma attachment_row_okI:
  assumes "dec_capabilities codec (ra_Capabilities r) = Inr cs" "attachment_value r cs = a" "validateAttachment a = None" "at_ID a = k"
  shows "attachment_row_ok codec k r" "attachment_abs codec r = a"
  using assms by (auto simp: attachment_row_ok_def attachment_abs_def attachmentFromModel_def attachment_value_def)

lemma create_attachment:
  assumes ref: "db_refines codec db st" and "codec_ok codec" "attachmentModel codec a = Inr r" "validateAttachment a = None"
    and gen: "gen_or_one (at_Generation a) = at_Generation a" and create: "CreateAgentAttachment r db = (Inr u, db')"
  shows "db_refines codec db' (st\<lparr>ms_attachments := gm_put (at_ID a) a (ms_attachments st)\<rparr>)" "gm_get (ms_attachments st) (at_ID a) = None"
proof -
  note row = attachmentModel_row[OF assms(2,3)]
  have "r\<lparr>ra_Capabilities := or_default ''[]'' (ra_Capabilities r), ra_Generation := gen_or_one (ra_Generation r)\<rparr> = r"
    using gen row(1,5) by (simp add: or_default_def)
  with create row(4) have new: "gm_get (db_attachments db) (at_ID a) = None" "db' = db\<lparr>db_attachments := gm_put (at_ID a) r (db_attachments db)\<rparr>"
    by (auto simp: CreateAgentAttachment_def split: if_splits)
  from attachment_row_okI[OF row(2,3) assms(4) refl] refines_put_attachment[OF ref, of "at_ID a" r] new(2)
  show "db_refines codec db' (st\<lparr>ms_attachments := gm_put (at_ID a) a (ms_attachments st)\<rparr>)" by simp
  show "gm_get (ms_attachments st) (at_ID a) = None" using new(1) by (simp add: refines_get[OF ref])
qed

lemma validateAttachment_same:
  "validateAttachment (a\<lparr>at_Generation := g, at_CreatedAt := t, at_UpdatedAt := u\<rparr>) = validateAttachment a"
  "validateAttachment (a\<lparr>at_CreatedAt := t, at_UpdatedAt := u, at_Generation := g\<rparr>) = validateAttachment a"
  "validateAttachment (a\<lparr>at_AccessHandleID := h\<rparr>) = validateAttachment a"
  by (simp_all add: validateAttachment_def)

lemma CreateAttachment_simulates:
  assumes ref: "db_refines codec db st" and codec: "codec_ok codec"
  shows "simulates (=) codec db (durable_CreateAttachment codec c a db) (store_CreateAttachment CtxLive (dc_now c) a st)"
proof (rule simulatesI)
  fix x db' assume run: "durable_CreateAttachment codec c a db = (Inr x, db')"
  then have valid: "validateAttachment a = None" by (auto simp: durable_CreateAttachment_def tx_fail_def split: option.splits)
  let ?a = "a\<lparr>at_Generation := gen_or_one (at_Generation a), at_CreatedAt := dc_now c, at_UpdatedAt := dc_now c\<rparr>"
  from run valid obtain s r where s: "gm_get (db_sessions db) (at_AgentSessionID a) = Some s" "rs_Kind s \<noteq> SessionManagement"
      "rs_Status s \<noteq> SessionArchived"
    and r: "attachmentModel codec ?a = Inr r" and create: "CreateAgentAttachment r db = (Inr (), db')" and x: "x = ?a"
    by (auto simp: durable_CreateAttachment_def tx_Inr if_tx Let_def GetAgentSession_def dest!: transaction_Inr split: if_splits)
  note new = create_attachment[OF ref codec r _ _ create, unfolded validateAttachment_same, OF valid, simplified]
  with s valid show "simulates (=) codec db (Inr x, db') (store_CreateAttachment CtxLive (dc_now c) a st)"
    by (simp add: simulates_def store_CreateAttachment_def refines_get(1)[OF ref] Let_def x)
qed (auto simp: durable_CreateAttachment_def tx_fail_def transaction_Inl split: option.splits)

lemma CreateSessionWithAttachment_simulates:
  assumes ref: "db_refines codec db st" and codec: "codec_ok codec"
  shows "simulates (\<lambda>(s, a) (s', a'). s' = stored_session s \<and> a' = a) codec db (durable_CreateSessionWithAttachment codec c s a db)
    (store_CreateSessionWithAttachment CtxLive (dc_now c) (stored_session s) a st)"
proof (rule simulatesI)
  fix x db' assume run: "durable_CreateSessionWithAttachment codec c s a db = (Inr x, db')"
  then have pre: "ses_Kind s \<noteq> SessionManagement" "validateSession s = None" "at_AgentSessionID a = ses_ID s" "validateAttachment a = None"
    by (auto simp: durable_CreateSessionWithAttachment_def tx_fail_def split: option.splits if_splits)
  let ?s = "s\<lparr>ses_Version := 1, ses_CreatedAt := dc_now c, ses_UpdatedAt := dc_now c, ses_ActiveAttachmentID := at_ID a\<rparr>"
  let ?a = "a\<lparr>at_CreatedAt := dc_now c, at_UpdatedAt := dc_now c, at_Generation := gen_or_one (at_Generation a)\<rparr>"
  from run pre obtain db1 r where create: "CreateAgentSession (sessionModel ?s) db = (Inr (), db1)"
    and r: "attachmentModel codec ?a = Inr r" and create': "CreateAgentAttachment r db1 = (Inr (), db')" and x: "x = (?s, ?a)"
    by (auto simp: durable_CreateSessionWithAttachment_def tx_Inr Let_def dest!: transaction_Inr)
  note new = create_session[OF ref create, simplified]
  note new' = create_attachment[OF new(1) codec r _ _ create', unfolded validateAttachment_same, OF pre(4), simplified]
  have "stored_session ?s = (stored_session s)\<lparr>ses_Version := 1, ses_CreatedAt := dc_now c, ses_UpdatedAt := dc_now c, ses_ActiveAttachmentID := at_ID a\<rparr>"
    "ses_ID (stored_session s) = ses_ID s" "ses_Kind (stored_session s) \<noteq> SessionManagement"
    using pre(1) by (auto simp: stored_session_def or_default_def)
  with new new' pre show "simulates (\<lambda>(s, a) (s', a'). s' = stored_session s \<and> a' = a) codec db (Inr x, db')
      (store_CreateSessionWithAttachment CtxLive (dc_now c) (stored_session s) a st)"
    by (simp add: simulates_def store_CreateSessionWithAttachment_def stored_session_valid Let_def x)
qed (auto simp: durable_CreateSessionWithAttachment_def tx_fail_def transaction_Inl Let_def split: option.splits if_splits)

lemma SetActiveAttachment_simulates:
  assumes ref: "db_refines codec db st"
  shows "simulates (=) codec db (durable_SetActiveAttachment c sid aid v db) (store_SetActiveAttachment CtxLive (dc_now c) sid aid v st)"
proof (rule simulatesI)
  fix x db' assume run: "durable_SetActiveAttachment c sid aid v db = (Inr x, db')"
  from transaction_Inr[OF run[unfolded durable_SetActiveAttachment_def]] obtain r
    where r: "gm_get (db_sessions db) sid = Some r" "rs_Version r = v" "rs_Kind r = SessionManagement \<longrightarrow> aid = []" "rs_Status r \<noteq> SessionArchived"
    and att: "aid \<noteq> [] \<Longrightarrow> \<exists>a. gm_get (db_attachments db) aid = Some a \<and> ra_AgentSessionID a = sid \<and> ra_State a \<noteq> AttachmentRemoved"
    and x: "x = (sessionFromModel r)\<lparr>ses_ActiveAttachmentID := aid, ses_Version := rs_Version r + 1, ses_UpdatedAt := dc_now c\<rparr>"
    and cas: "UpdateAgentSessionCAS (sessionModel x) (rs_Version r) db = (Inr True, db')"
    by (auto simp: tx_Inr get_Inr if_tx Let_def GetAgentAttachment_def split: if_splits)
  have "same_session r x" by (simp add: x same_session_def sessionFromModel_def)
  from session_cas_Inr[OF ref r(1) this cas] r att
  show "simulates (=) codec db (Inr x, db') (store_SetActiveAttachment CtxLive (dc_now c) sid aid v st)"
    by (cases "aid = []") (auto simp: simulates_def store_SetActiveAttachment_def refines_get(1,4)[OF ref] Let_def x attachment_abs_def attachment_value_def)
qed (simp add: durable_SetActiveAttachment_def transaction_Inl)

text \<open>The writes of the two read-then-write methods, over the row that was read.\<close>

lemma archive_write_simulates:
  assumes ref: "db_refines codec db st" and r: "gm_get (db_sessions db) sid = Some r" and "rs_ActiveTurnID r = []"
    and s: "s = (sessionFromModel r)\<lparr>ses_Status := SessionArchived, ses_Version := rs_Version r + 1, ses_UpdatedAt := now\<rparr>"
    and cas: "UpdateAgentSessionCAS (sessionModel s) (rs_Version r) db = (Inr b, db')"
  shows "db_refines codec db' (run_ops [OpArchiveSession CtxLive now sid (rs_Version r)] st)"
proof -
  have "same_session r s" by (simp add: s same_session_def sessionFromModel_def)
  from session_cas_Inr[OF ref r this cas] r assms(3) show ?thesis
    by (simp add: store_ArchiveSession_def refines_get(1)[OF ref] Let_def s)
qed

definition same_attachment :: "agent_attachment \<Rightarrow> attachment \<Rightarrow> bool" where
  "same_attachment r a \<longleftrightarrow> at_ID a = ra_ID r \<and> at_AgentSessionID a = ra_AgentSessionID r \<and> at_AccessID a = ra_AccessID r \<and>
     at_ApplicationID a = ra_ApplicationID r \<and> at_Protocol a = ra_Protocol r"

text \<open>The handle of an attachment is not among the columns the update writes.\<close>

definition updated_attachment :: "gtime \<Rightarrow> u64 \<Rightarrow> gtime \<Rightarrow> attachment \<Rightarrow> attachment" where
  "updated_attachment created g now a = a\<lparr>at_Generation := g + 1, at_CreatedAt := created, at_UpdatedAt := now\<rparr>"

lemma attachment_write_simulates:
  assumes ref: "db_refines codec db st" and codec: "codec_ok codec" and r: "gm_get (db_attachments db) (at_ID a) = Some r"
    and valid: "validateAttachment a = None" and same: "same_attachment r a" "ra_State r \<noteq> AttachmentRemoved"
    and row: "attachmentModel codec (updated_attachment (ra_CreatedAt r) (ra_Generation r) now a) = Inr w"
    and cas: "UpdateAgentAttachmentCAS w (ra_Generation r) db = (Inr b, db')"
  shows "db_refines codec db' (run_ops [OpUpdateAttachment CtxLive now (a\<lparr>at_AccessHandleID := ra_AccessHandleID r\<rparr>) (ra_Generation r)] st)"
proof -
  let ?a = "updated_attachment (ra_CreatedAt r) (ra_Generation r) now a"
  let ?r = "r\<lparr>ra_Capabilities := ra_Capabilities w, ra_Generation := ra_Generation w, ra_State := ra_State w, ra_UpdatedAt := ra_UpdatedAt w\<rparr>"
  let ?h = "updated_attachment (ra_CreatedAt r) (ra_Generation r) now (a\<lparr>at_AccessHandleID := ra_AccessHandleID r\<rparr>)"
  note m = attachmentModel_row[OF codec row]
  have "attachment_value ?r (at_Capabilities a) = ?h"
    using same(1) m(5-7) by (simp add: attachment_value_def updated_attachment_def same_attachment_def)
  moreover have "validateAttachment ?h = None" 
    using valid by (simp only: updated_attachment_def validateAttachment_same)
  moreover have "dec_capabilities codec (ra_Capabilities ?r) = Inr (at_Capabilities a)" using m(2) by (simp add: updated_attachment_def)
  ultimately have new: "attachment_row_ok codec (at_ID a) ?r" "attachment_abs codec ?r = ?h"
    using attachment_row_okI[of codec ?r "at_Capabilities a" ?h "at_ID a"] by (simp_all add: updated_attachment_def)
  have "ra_ID w = at_ID a" using m(4) by (simp add: updated_attachment_def)
  with cas r have "db' = db\<lparr>db_attachments := gm_put (at_ID a) ?r (db_attachments db)\<rparr>" by (simp add: UpdateAgentAttachmentCAS_def)
  with refines_put_attachment[OF ref new(1)] new(2) have "db_refines codec db' (st\<lparr>ms_attachments := gm_put (at_ID a) ?h (ms_attachments st)\<rparr>)"
    by simp
  moreover have "run_ops [OpUpdateAttachment CtxLive now (a\<lparr>at_AccessHandleID := ra_AccessHandleID r\<rparr>) (ra_Generation r)] st =
      st\<lparr>ms_attachments := gm_put (at_ID a) ?h (ms_attachments st)\<rparr>"
    using r same valid
    by (simp add: store_UpdateAttachment_def refines_get(4)[OF ref] Let_def updated_attachment_def same_attachment_def
        attachment_abs_def attachment_value_def validateAttachment_same)
  ultimately show ?thesis by simp
qed

subsection \<open>Messages and snapshots\<close>

lemma gm_put_new: "gm_get m k = None \<Longrightarrow> gm_put k v m = m @ [(k, v)]"
  unfolding gm_get_def gm_put_def by (induction m) (auto split: if_splits)

lemma go_insert_last: "\<not> lt x y \<Longrightarrow> go_insert lt y (ys @ [x]) = go_insert lt y ys @ [x]"
  by (induction ys) auto

lemma go_sort_last: "(\<And>y. y \<in> set xs \<Longrightarrow> \<not> lt x y) \<Longrightarrow> go_sort lt (xs @ [x]) = go_sort lt xs @ [x]"
  by (induction xs) (auto simp: go_insert_last)

lemma unat_of_nat_u32: "n < 2 ^ 32 \<Longrightarrow> unat (of_nat n :: u32) = n"
  by (simp add: unat_of_nat take_bit_nat_eq_self)

lemma next_sequence_upto:
  assumes "set xs = (\<lambda>k. of_nat (k + 1)) ` {..<n}" "n < 2 ^ 32"
  shows "next_sequence xs = of_nat (n + 1)"
proof -
  have "fold max xs 0 = Max (insert 0 (set xs))" by (metis Max.set_eq_fold list.simps(15))
  also have "\<dots> = of_nat n"
  proof (rule Max_eqI)
    show "finite (insert 0 (set xs))" by simp
    show "y \<le> of_nat n" if "y \<in> insert 0 (set xs)" for y
    proof -
      have "\<exists>k \<le> n. y = of_nat k"
      proof (cases "y = 0")
        case True
        then show ?thesis by (intro exI[of _ 0]) simp
      next
        case False
        with that assms(1) obtain k where "y = of_nat (k + 1)" "k < n" by auto
        then show ?thesis by (intro exI[of _ "k + 1"]) simp
      qed
      with assms(2) show ?thesis by (auto simp: word_le_nat_alt unat_of_nat_u32)
    qed
    show "of_nat n \<in> insert 0 (set xs)"
    proof (cases n)
      case (Suc m)
      then show ?thesis unfolding assms(1) by (intro insertI2 image_eqI[of _ _ m]) auto
    qed simp
  qed
  finally show ?thesis by (simp add: next_sequence_def)
qed

lemma msg_inv_list: "msg_inv st \<Longrightarrow> messages_ok tid (gm_getz [] (ms_messages st) tid)"
  using gm_allD[of messages_ok "ms_messages st" tid] by (auto simp: msg_inv_def gm_getz_def messages_ok_def split: option.splits)

definition turn_rows :: "agent_db \<Rightarrow> string \<Rightarrow> agent_message list" where
  "turn_rows db tid = filter (\<lambda>m. rm_TurnID m = tid) (map snd (db_messages db))"

lemma messages_sequences:
  assumes ref: "db_refines codec db st" and "msg_inv st" "room db" and rows_def: "rows = turn_rows db tid"
  shows "set (map rm_Sequence rows) = (\<lambda>k. of_nat (k + 1)) ` {..<length rows}" "length rows < 2 ^ 32 - 1"
proof -
  let ?ms = "turn_messages codec db tid"
  have ms: "messages_ok tid ?ms" using msg_inv_list[OF assms(2)] refines_get(6)[OF ref] by metis
  have seqs: "map msg_Sequence ?ms = map rm_Sequence (go_sort sequence_less rows)" and len: "length ?ms = length rows"
    by (simp_all add: turn_messages_def rows_def turn_rows_def message_abs_def message_value_def)
  have nth: "map msg_Sequence ?ms = map (\<lambda>k. of_nat (k + 1)) [0..<length rows]"
  proof (rule nth_equalityI)
    show "length (map msg_Sequence ?ms) = length (map (\<lambda>k. of_nat (k + 1) :: u32) [0..<length rows])" by (simp only: length_map length_upt len)
    fix i assume "i < length (map msg_Sequence ?ms)"
    then have "i < length ?ms" "i < length rows" using len by (simp_all only: length_map)
    with ms show "map msg_Sequence ?ms ! i = map (\<lambda>k. of_nat (k + 1)) [0..<length rows] ! i" by (simp add: messages_ok_def)
  qed
  have "set (map rm_Sequence rows) = set (map rm_Sequence (go_sort sequence_less rows))" by (simp only: set_map set_go_sort)
  also have "\<dots> = set (map (\<lambda>k. of_nat (k + 1)) [0..<length rows])" by (simp only: seqs[symmetric] nth)
  finally show eq: "set (map rm_Sequence rows) = (\<lambda>k. of_nat (k + 1)) ` {..<length rows}" by (simp only: set_map set_upt lessThan_atLeast0)
  show "length rows < 2 ^ 32 - 1"
  proof (rule ccontr)
    assume "\<not> length rows < 2 ^ 32 - 1"
    then have "(of_nat (2 ^ 32 - 2 + 1) :: u32) \<in> (\<lambda>k. of_nat (k + 1)) ` {..<length rows}"
      by (intro image_eqI[of _ _ "2 ^ 32 - 2"]) auto
    moreover have "(of_nat (2 ^ 32 - 2 + 1) :: u32) = - 1" by (rule max_word_wrap) simp
    ultimately have "(- 1 :: u32) \<in> set (map rm_Sequence rows)" unfolding eq by (simp only:)
    then obtain k r where r: "(k, r) \<in> set (db_messages db)" "rm_Sequence r = - 1" unfolding rows_def turn_rows_def by auto
    have "gm_wf (db_messages db)" using ref by (simp add: db_refines_def db_ok_def)
    with r(1) have "gm_get (db_messages db) k = Some r" by (simp add: gm_mem_iff)
    with r(2) assms(3) show False by (auto simp: room_def gm_all_def)
  qed
qed

lemma AppendMessage_simulates:
  assumes ref: "db_refines codec db st" and codec: "codec_ok codec" and inv: "msg_inv st" "room db"
  shows "simulates (=) codec db (durable_AppendMessage codec c m db) (store_AppendMessage CtxLive (dc_now c) m st)"
proof (rule simulatesI)
  fix x db' assume run: "durable_AppendMessage codec c m db = (Inr x, db')"
  then have ids: "msg_ID m \<noteq> []" "msg_AgentSessionID m \<noteq> []" "msg_TurnID m \<noteq> []"
    by (auto simp: durable_AppendMessage_def tx_fail_def split: if_splits)
  let ?tid = "msg_TurnID m" and ?rows = "turn_rows db (msg_TurnID m)"
  note seqs = messages_sequences[OF ref inv refl, of ?tid]
  let ?n = "of_nat (length ?rows + 1) :: u32"
  have nxt: "next_sequence (map rm_Sequence ?rows) = ?n" using next_sequence_upto[OF seqs(1)] seqs(2) by simp
  let ?x = "m\<lparr>msg_Sequence := ?n, msg_CreatedAt := dc_now c\<rparr>"
  from run ids nxt[unfolded turn_rows_def] obtain j where j: "enc_message codec (msg_Value m) = Inr j" and x: "x = ?x"
    and create: "CreateAgentMessage \<lparr>rm_ID = msg_ID m, rm_CreatedAt = dc_now c, rm_UpdatedAt = dc_now c, rm_AgentSessionID = msg_AgentSessionID m,
                     rm_TurnID = ?tid, rm_Sequence = ?n, rm_Role = mm_Role (msg_Value m), rm_Content = j\<rparr> db = (Inr (), db')"
    by (auto simp: durable_AppendMessage_def tx_Inr NextAgentMessageSequence_def turn_rows_def dest!: transaction_Inr)
  from codec j have dec: "j \<noteq> []" "dec_message codec j = Inr (msg_Value m)" by (auto simp: codec_ok_def)
  let ?r = "\<lparr>rm_ID = msg_ID m, rm_CreatedAt = dc_now c, rm_UpdatedAt = dc_now c, rm_AgentSessionID = msg_AgentSessionID m,
                     rm_TurnID = ?tid, rm_Sequence = ?n, rm_Role = mm_Role (msg_Value m), rm_Content = j\<rparr>"
  from create dec(1) have new: "gm_get (db_messages db) (msg_ID m) = None" "db' = db\<lparr>db_messages := gm_put (msg_ID m) ?r (db_messages db)\<rparr>"
    by (auto simp: CreateAgentMessage_def or_default_def split: if_splits)
  have abs: "message_abs codec ?r = ?x" "message_row_ok codec (msg_ID m) ?r"
    using dec(2) by (simp_all add: message_abs_def message_value_def message_row_ok_def messageFromModel_def)
  have fresh: "\<not> list_ex (\<lambda>c. msg_ID c = msg_ID m) (turn_messages codec db ?tid)"
  proof
    assume "list_ex (\<lambda>c. msg_ID c = msg_ID m) (turn_messages codec db ?tid)"
    then obtain k r where r: "(k, r) \<in> set (db_messages db)" "rm_ID r = msg_ID m"
      by (auto simp: list_ex_iff turn_messages_def message_abs_def message_value_def)
    then have "gm_get (db_messages db) k = Some r" using ref by (simp add: db_refines_def db_ok_def gm_mem_iff)
    moreover from this ref have "rm_ID r = k" by (auto simp: db_refines_def db_ok_def message_row_ok_def dest: gm_allD)
    ultimately show False using r(2) new(1) by simp
  qed
  have rows: "turn_rows db' t = (if t = ?tid then turn_rows db t @ [?r] else turn_rows db t)" for t
    using new by (simp add: turn_rows_def gm_put_new)
  have "\<not> sequence_less ?r y" if "y \<in> set ?rows" for y
  proof -
    from that seqs(1) obtain k where "rm_Sequence y = of_nat (k + 1)" "k < length ?rows" by force
    with seqs(2) show ?thesis by (simp add: sequence_less_def word_less_nat_alt unat_of_nat_u32 flip: of_nat_Suc)
  qed
  then have msgs: "turn_messages codec db' t = (if t = ?tid then turn_messages codec db t @ [?x] else turn_messages codec db t)" for t
    using rows[of t] go_sort_last[of ?rows sequence_less ?r] abs(1) by (simp add: turn_messages_def turn_rows_def)
  have "db_ok codec db'" using ref new(2) abs(2) by (auto simp: db_refines_def db_ok_def intro: gm_all_put)
  with ref new(2) msgs have "db_refines codec db' (st\<lparr>ms_messages := gm_put ?tid (turn_messages codec db ?tid @ [?x]) (ms_messages st)\<rparr>)"
    by (simp add: db_refines_def)
  moreover have "length (turn_messages codec db ?tid) = length ?rows" by (simp add: turn_messages_def turn_rows_def)
  ultimately show "simulates (=) codec db (Inr x, db') (store_AppendMessage CtxLive (dc_now c) m st)"
    using ids fresh by (simp add: simulates_def store_AppendMessage_def Let_def refines_get(6)[OF ref] x)
qed (auto simp: durable_AppendMessage_def tx_fail_def transaction_Inl split: if_splits)

definition stored_snapshot :: "gtime \<Rightarrow> tool_set_snapshot \<Rightarrow> tool_set_snapshot" where
  "stored_snapshot now s = s\<lparr>snap_CreatedAt := (if snap_CreatedAt s = 0 then now else snap_CreatedAt s)\<rparr>"

lemma SaveToolSnapshot_simulates:
  assumes ref: "db_refines codec db st" and codec: "codec_ok codec"
  shows "simulates (=) codec db (durable_SaveToolSnapshot codec c tid sid s db)
    (store_SaveToolSnapshot CtxLive tid sid (stored_snapshot (dc_now c) s) st)"
proof (rule simulatesI)
  fix x db' assume run: "durable_SaveToolSnapshot codec c tid sid s db = (Inr x, db')"
  let ?t = "if snap_CreatedAt s = 0 then dc_now c else snap_CreatedAt s"
  from run have ids: "tid \<noteq> []" "sid \<noteq> []" "snap_ID s \<noteq> []"
    by (auto simp: durable_SaveToolSnapshot_def tx_fail_def split: if_splits)
  with run obtain as ts where enc: "enc_generations codec (snap_AttachmentGeneration s) = Inr as" "enc_tools codec (snap_Tools s) = Inr ts"
    and create: "CreateAgentToolsetSnapshot \<lparr>rn_ID = snap_ID s, rn_CreatedAt = ?t, rn_UpdatedAt = ?t, rn_TurnID = tid,
                    rn_ModelStepID = sid, rn_CatalogGeneration = snap_CatalogGeneration s,
                    rn_PolicyRevision = snap_PolicyRevision s, rn_Attachments = as, rn_Tools = ts\<rparr> db = (Inr (), db')"
    by (auto simp: durable_SaveToolSnapshot_def tx_Inr Let_def)
  let ?r = "\<lparr>rn_ID = snap_ID s, rn_CreatedAt = ?t, rn_UpdatedAt = ?t, rn_TurnID = tid,
                    rn_ModelStepID = sid, rn_CatalogGeneration = snap_CatalogGeneration s,
                    rn_PolicyRevision = snap_PolicyRevision s, rn_Attachments = as, rn_Tools = ts\<rparr>"
  from codec enc have dec: "as \<noteq> []" "dec_generations codec as = Inr (snap_AttachmentGeneration s)" "ts \<noteq> []"
    "dec_tools codec ts = Inr (snap_Tools s)" by (auto simp: codec_ok_def)
  from create dec(1,3) have new: "gm_get (db_snapshots db) (snap_ID s) = None"
    "db' = db\<lparr>db_snapshots := gm_put (snap_ID s) ?r (db_snapshots db)\<rparr>"
    by (auto simp: CreateAgentToolsetSnapshot_def or_default_def split: if_splits)
  have abs: "snapshot_abs codec ?r = stored_snapshot (dc_now c) s" "snapshot_row_ok codec (snap_ID s) ?r"
    using dec by (simp_all add: snapshot_abs_def snapshot_value_def stored_snapshot_def snapshot_row_ok_def)
  have same: "snap_ID (stored_snapshot (dc_now c) s) = snap_ID s" by (simp add: stored_snapshot_def)
  from refines_put_snapshot[OF ref abs(2)] abs(1) new ids same
  show "simulates (=) codec db (Inr x, db') (store_SaveToolSnapshot CtxLive tid sid (stored_snapshot (dc_now c) s) st)"
    by (simp add: simulates_def store_SaveToolSnapshot_def refines_get(5)[OF ref])
qed (auto simp: durable_SaveToolSnapshot_def tx_fail_def tx_bind_def on_error_def tx_lift_def stmt_def CreateAgentToolsetSnapshot_def Let_def
      split: if_splits sum.splits option.splits prod.splits)

end
