(* ===== verification/Agent_Durable_System.thy ===== *)
theory Agent_Durable_System
  imports Agent_Durable_Refine
begin

text \<open>
  Concurrent use of the durable store. A system state is the tables and the writes that some goroutines still have to do:
  \<^verbatim>\<open>ArchiveSession\<close>, \<^verbatim>\<open>UpdateAttachment\<close> and \<^verbatim>\<open>transitionStep\<close> read a row, check it, and write it back with a second statement, and
  any number of other calls may run between the two. \<open>durable_step\<close> interleaves the calls that are one transaction (or one
  statement) with these halves.

  Every reachable state refines a memory store after some operations (\<open>durable_inv\<close>): a pending write either meets the row it
  has read, or fails because the version has moved on. So what holds of the memory store holds of the tables.
\<close>

section \<open>Calls and interleaving\<close>

datatype durable_call =
    CallCreateSession session
  | CallCreateSessionWithAttachment session attachment
  | CallCreateAttachment attachment
  | CallSetActiveAttachment string string u64
  | CallStartTurn string turn
  | CallTransitionTurn string u64 turn_status string string
  | CallAppendStep string u64 step
  | CallAppendMessage message
  | CallSaveToolSnapshot string string tool_set_snapshot

fun call_db :: "store_codec \<Rightarrow> db_call \<Rightarrow> durable_call \<Rightarrow> agent_db \<Rightarrow> agent_db" where
  "call_db codec c (CallCreateSession s) db = snd (durable_CreateSession c s db)"
| "call_db codec c (CallCreateSessionWithAttachment s a) db = snd (durable_CreateSessionWithAttachment codec c s a db)"
| "call_db codec c (CallCreateAttachment a) db = snd (durable_CreateAttachment codec c a db)"
| "call_db codec c (CallSetActiveAttachment sid aid v) db = snd (durable_SetActiveAttachment c sid aid v db)"
| "call_db codec c (CallStartTurn sid t) db = snd (durable_StartTurn c sid t db)"
| "call_db codec c (CallTransitionTurn tid v to code msg) db = snd (durable_TransitionTurn c tid v to code msg db)"
| "call_db codec c (CallAppendStep tid v p) db = snd (durable_AppendStep c tid v p db)"
| "call_db codec c (CallAppendMessage m) db = snd (durable_AppendMessage codec c m db)"
| "call_db codec c (CallSaveToolSnapshot tid sid s) db = snd (durable_SaveToolSnapshot codec c tid sid s db)"

text \<open>A tool named by a step was parsed from its printed form, or is printable.\<close>

fun call_ok :: "durable_call \<Rightarrow> bool" where
  "call_ok (CallAppendStep tid v p) = step_tool_ok p"
| "call_ok _ = True"

datatype pending =
    PendingArchive string u64 session
  | PendingAttachment u64 "attachment \<times> agent_attachment"
  | PendingStep string "u64 \<times> step"

fun pending_db :: "db_call \<Rightarrow> pending \<Rightarrow> agent_db \<Rightarrow> agent_db" where
  "pending_db c (PendingArchive sid v s) db = snd (archive_write c sid v s db)"
| "pending_db c (PendingAttachment g w) db = snd (update_attachment_write c g w db)"
| "pending_db c (PendingStep pid w) db = snd (transition_write c pid w db)"

record durable_sys =
  sys_db :: agent_db
  sys_pending :: "pending list"

definition new_durable_sys :: durable_sys where
  "new_durable_sys = \<lparr>sys_db = empty_db, sys_pending = []\<rparr>"

inductive durable_step :: "store_codec \<Rightarrow> durable_sys \<Rightarrow> durable_sys \<Rightarrow> bool" for codec where
  call: "room (sys_db s) \<Longrightarrow> call_ok k \<Longrightarrow> durable_step codec s (s\<lparr>sys_db := call_db codec c k (sys_db s)\<rparr>)"
| read_session: "archive_read c sid v (sys_db s) = (Inr w, db') \<Longrightarrow>
    durable_step codec s (s\<lparr>sys_pending := PendingArchive sid v w # sys_pending s\<rparr>)"
| read_attachment: "update_attachment_read codec c a g (sys_db s) = (Inr w, db') \<Longrightarrow>
    durable_step codec s (s\<lparr>sys_pending := PendingAttachment g w # sys_pending s\<rparr>)"
| read_step: "transition_read c pid to outp code msg (sys_db s) = (Inr w, db') \<Longrightarrow>
    durable_step codec s (s\<lparr>sys_pending := PendingStep pid w # sys_pending s\<rparr>)"
| write_back: "room (sys_db s) \<Longrightarrow> w \<in> set (sys_pending s) \<Longrightarrow>
    durable_step codec s (s\<lparr>sys_db := pending_db c w (sys_db s), sys_pending := remove1 w (sys_pending s)\<rparr>)"

inductive durable_reachable :: "store_codec \<Rightarrow> durable_sys \<Rightarrow> bool" for codec where
  start: "durable_reachable codec new_durable_sys"
| step: "durable_reachable codec s \<Longrightarrow> durable_step codec s s' \<Longrightarrow> durable_reachable codec s'"

section \<open>Versions only move forward\<close>

definition map_advances :: "('v \<Rightarrow> u64) \<Rightarrow> (string, 'v) gomap \<Rightarrow> (string, 'v) gomap \<Rightarrow> bool" where
  "map_advances ver m m' \<longleftrightarrow> (\<forall>k v. gm_get m k = Some v \<longrightarrow> (\<exists>v'. gm_get m' k = Some v' \<and> (v' = v \<or> ver v < ver v')))"

lemma map_advances_refl [simp]: "map_advances ver m m"
  by (simp add: map_advances_def)

lemma map_advances_put:
  "(\<And>v. gm_get m k = Some v \<Longrightarrow> v' = v \<or> ver v < ver v') \<Longrightarrow> map_advances ver m (gm_put k v' m)"
  by (auto simp: map_advances_def)

definition advances :: "memory_store \<Rightarrow> memory_store \<Rightarrow> bool" where
  "advances st st' \<longleftrightarrow> map_advances ses_Version (ms_sessions st) (ms_sessions st') \<and>
     map_advances at_Generation (ms_attachments st) (ms_attachments st') \<and> map_advances sp_Version (ms_steps st) (ms_steps st')"

lemma advances_refl [simp]: "advances st st"
  by (simp add: advances_def)

definition store_room :: "memory_store \<Rightarrow> bool" where
  "store_room st \<longleftrightarrow> gm_all (\<lambda>_ s. ses_Version s \<noteq> - 1) (ms_sessions st) \<and>
     gm_all (\<lambda>_ a. at_Generation a \<noteq> - 1) (ms_attachments st) \<and> gm_all (\<lambda>_ p. sp_Version p \<noteq> - 1) (ms_steps st)"

lemma less_inc: "w \<noteq> - 1 \<Longrightarrow> w < w + (1 :: u64)"
  by (metis inc_less_eq_triv_imp linorder_not_le)

lemma store_roomD:
  assumes "store_room st"
  shows "gm_get (ms_sessions st) k = Some s \<Longrightarrow> ses_Version s < ses_Version s + 1"
    "gm_get (ms_attachments st) k = Some a \<Longrightarrow> at_Generation a < at_Generation a + 1"
    "gm_get (ms_steps st) k = Some p \<Longrightarrow> sp_Version p < sp_Version p + 1"
  using assms by (auto simp: store_room_def intro!: less_inc dest: gm_allD)

text \<open>The operations that a durable call stands for; the two that together transition a step are taken as one below.\<close>

fun call_op :: "db_call \<Rightarrow> durable_call \<Rightarrow> store_op" where
  "call_op c (CallCreateSession s) = OpCreateSession CtxLive (dc_now c) (stored_session s)"
| "call_op c (CallCreateSessionWithAttachment s a) = OpCreateSessionWithAttachment CtxLive (dc_now c) (stored_session s) a"
| "call_op c (CallCreateAttachment a) = OpCreateAttachment CtxLive (dc_now c) a"
| "call_op c (CallSetActiveAttachment sid aid v) = OpSetActiveAttachment CtxLive (dc_now c) sid aid v"
| "call_op c (CallStartTurn sid t) = OpStartTurn CtxLive (dc_now c) sid t"
| "call_op c (CallTransitionTurn tid v to code msg) = OpTransitionTurn CtxLive (dc_now c) tid v to code msg"
| "call_op c (CallAppendStep tid v p) = OpAppendStep CtxLive (dc_now c) tid v (stored_step p)"
| "call_op c (CallAppendMessage m) = OpAppendMessage CtxLive (dc_now c) m"
| "call_op c (CallSaveToolSnapshot tid sid s) = OpSaveToolSnapshot CtxLive tid sid (stored_snapshot (dc_now c) s)"

lemma release_session_advances:
  assumes "store_room st" "core_inv st"
  shows "map_advances ses_Version (ms_sessions st) (release_session now t (ms_sessions st))"
  using core_invD(1)[OF assms(2)] store_roomD(1)[OF assms(1)]
  by (fastforce simp: release_session_def session_ok_def split: option.split intro!: map_advances_put)

lemma call_op_advances:
  assumes room: "store_room st" "core_inv st"
  shows "advances st (apply_op (call_op c k) st)"
proof (cases k)
  case (CallTransitionTurn tid v to code msg)
  then show ?thesis using release_session_advances[OF assms]
    by (auto simp: advances_def store_TransitionTurn_def Let_def split: op_splits)
qed (auto simp: advances_def store_op_defs store_roomD[OF room(1)] split: op_splits intro!: map_advances_put)


section \<open>Pending writes\<close>

text \<open>A pending write knows the version of the row it has read. The row may have moved on; if not, it is still what the
  checks were made on.\<close>

definition row_read :: "('v \<Rightarrow> u64) \<Rightarrow> (string, 'v) gomap \<Rightarrow> string \<Rightarrow> u64 \<Rightarrow> ('v \<Rightarrow> bool) \<Rightarrow> bool" where
  "row_read ver m k v P \<longleftrightarrow> (\<exists>cur. gm_get m k = Some cur \<and> (v < ver cur \<or> v = ver cur \<and> P cur))"

lemma row_read_advances:
  assumes "map_advances ver m m'" "row_read ver m k v P"
  shows "row_read ver m' k v P"
proof -
  from assms(2) obtain cur where cur: "gm_get m k = Some cur" "v < ver cur \<or> v = ver cur \<and> P cur" unfolding row_read_def by blast
  from assms(1) cur(1) obtain cur' where "gm_get m' k = Some cur'" "cur' = cur \<or> ver cur < ver cur'" unfolding map_advances_def by blast
  with cur(2) show ?thesis unfolding row_read_def by (auto intro: less_trans)
qed

fun pending_ok :: "store_codec \<Rightarrow> memory_store \<Rightarrow> pending \<Rightarrow> bool" where
  "pending_ok codec st (PendingArchive sid v s) \<longleftrightarrow> ses_ID s = sid \<and>
     row_read ses_Version (ms_sessions st) sid v
       (\<lambda>cur. ses_ActiveTurnID cur = [] \<and> (\<exists>now. s = cur\<lparr>ses_Status := SessionArchived, ses_Version := v + 1, ses_UpdatedAt := now\<rparr>))"
| "pending_ok codec st (PendingAttachment g (a, w)) \<longleftrightarrow> attachmentModel codec a = Inr w \<and> validateAttachment a = None \<and>
     row_read at_Generation (ms_attachments st) (at_ID a) g
       (\<lambda>cur. at_State cur \<noteq> AttachmentRemoved \<and> at_AgentSessionID cur = at_AgentSessionID a \<and> at_AccessID cur = at_AccessID a \<and>
          at_ApplicationID cur = at_ApplicationID a \<and> at_Protocol cur = at_Protocol a \<and> at_CreatedAt a = at_CreatedAt cur \<and>
          at_Generation a = g + 1)"
| "pending_ok codec st (PendingStep pid (v, p)) \<longleftrightarrow> sp_ID p = pid \<and>
     row_read sp_Version (ms_steps st) pid v
       (\<lambda>cur. \<exists>now to outp code msg. validStepTransition (sp_Status cur) to \<and> p = transitioned_step now to outp code msg cur)"

lemma pending_ok_advances:
  assumes "advances st st'" "pending_ok codec st w"
  shows "pending_ok codec st' w"
  using assms by (cases "(codec, st, w)" rule: pending_ok.cases) (auto simp: advances_def intro: row_read_advances)

subsection \<open>Reading\<close>

lemma archive_read_pending:
  assumes ref: "db_refines codec db st" and run: "archive_read c sid v db = (Inr s, db')"
  shows "pending_ok codec st (PendingArchive sid v s)"
proof -
  from run obtain r where r: "gm_get (db_sessions db) sid = Some r" "rs_Version r = v" "rs_ActiveTurnID r = []"
    "s = (sessionFromModel r)\<lparr>ses_Status := SessionArchived, ses_Version := rs_Version r + 1, ses_UpdatedAt := dc_now c\<rparr>"
    by (auto simp: archive_read_def tx_Inr get_Inr if_tx split: if_splits)
  moreover have "rs_ID r = sid" using refines_rows(1)[OF ref r(1)] by (simp add: session_row_ok_def)
  ultimately show ?thesis by (auto simp: refines_get(1)[OF ref] row_read_def)
qed

lemma update_attachment_read_pending:
  assumes ref: "db_refines codec db st" and run: "update_attachment_read codec c a g db = (Inr (a', w), db')"
  shows "pending_ok codec st (PendingAttachment g (a', w))"
proof -
  from run have valid: "validateAttachment a = None" by (auto simp: update_attachment_read_def tx_Inr split: option.splits)
  with run obtain r cur where r: "gm_get (db_attachments db) (at_ID a) = Some r" "attachmentFromModel codec r = Inr cur"
    and ok: "at_Generation cur = g" "at_State cur \<noteq> AttachmentRemoved" "at_AgentSessionID cur = at_AgentSessionID a"
      "at_AccessID cur = at_AccessID a" "at_ApplicationID cur = at_ApplicationID a" "at_Protocol cur = at_Protocol a"
    and a': "a' = a\<lparr>at_Generation := g + 1, at_CreatedAt := at_CreatedAt cur, at_UpdatedAt := dc_now c\<rparr>"
    and w: "attachmentModel codec a' = Inr w"
    by (auto simp: update_attachment_read_def durable_GetAttachment_def GetAgentAttachment_def tx_Inr if_tx Let_def split: if_splits)
  have "attachment_abs codec r = cur" using refines_rows(4)[OF ref r(1)] r(2) by (simp add: attachment_row_ok_def)
  with r(1) ok w valid show ?thesis by (simp add: row_read_def refines_get(4)[OF ref] a' validateAttachment_same)
qed

lemma transition_read_pending:
  assumes ref: "db_refines codec db st" and run: "transition_read c pid to outp code msg db = (Inr (v, p), db')"
  shows "pending_ok codec st (PendingStep pid (v, p))"
proof -
  from run obtain r cur where r: "gm_get (db_steps db) pid = Some r" "stepFromModel r = Inr cur"
    and ok: "validStepTransition (sp_Status cur) to" "v = sp_Version cur" "p = transitioned_step (dc_now c) to outp code msg cur"
    by (auto simp: transition_read_def durable_GetStep_def GetAgentStep_def tx_Inr if_tx split: if_splits)
  note row = refines_rows(3)[OF ref r(1)]
  then have cur: "step_abs r = cur" "rp_ID r = pid" using r(2) by (simp_all add: step_row_ok_def)
  then have "sp_ID p = pid" using step_abs_simps(5)[OF row] by (simp add: ok(3) transitioned_step_def Let_def)
  with r(1) ok cur show ?thesis unfolding pending_ok.simps row_read_def refines_get(3)[OF ref] by blast
qed

subsection \<open>Writing back\<close>

text \<open>A write that finds another version leaves the tables alone.\<close>

lemma cas_missed:
  "gm_get (db_sessions db) (rs_ID r) = Some x \<Longrightarrow> rs_Version x \<noteq> v \<Longrightarrow> UpdateAgentSessionCAS r v db = (Inr False, db)"
  "gm_get (db_attachments db) (ra_ID a) = Some y \<Longrightarrow> ra_Generation y \<noteq> v \<Longrightarrow> UpdateAgentAttachmentCAS a v db = (Inr False, db)"
  "gm_get (db_steps db) (rp_ID p) = Some z \<Longrightarrow> rp_Version z \<noteq> v \<Longrightarrow> UpdateAgentStepCAS p v db = (Inr False, db)"
  by (simp_all add: UpdateAgentSessionCAS_def UpdateAgentAttachmentCAS_def UpdateAgentStepCAS_def)

text \<open>What a second half does to the tables is what its one statement does, unless that fails.\<close>

lemma write_db:
  "snd (archive_write c sid v s db) = (if dc_stmt c 1 = None then snd (UpdateAgentSessionCAS (sessionModel s) v db) else db)"
  "snd (update_attachment_write c g (a, w) db) = (if dc_stmt c 1 = None then snd (UpdateAgentAttachmentCAS w g db) else db)"
  "snd (transition_write c pid (v, p) db) = (if dc_stmt c 1 = None then snd (UpdateAgentStepCAS (stepModel p) v db) else db)"
  by (auto simp: archive_write_def update_attachment_write_def transition_write_def tx_defs split: prod.splits sum.splits option.splits)

definition write_done :: "store_codec \<Rightarrow> agent_db \<Rightarrow> agent_db \<Rightarrow> memory_store \<Rightarrow> bool" where
  "write_done codec db db' st \<longleftrightarrow> db' = db \<or> (\<exists>ops. db_refines codec db' (run_ops ops st) \<and> advances st (run_ops ops st))"

lemma write_doneI: "db_refines codec db' (run_ops ops st) \<Longrightarrow> advances st (run_ops ops st) \<Longrightarrow> write_done codec db db' st"
  unfolding write_done_def by blast

lemma write_op_advances:
  assumes "store_room st"
  shows "advances st (run_ops [OpArchiveSession CtxLive now sid v] st)" "advances st (run_ops [OpUpdateAttachment CtxLive now a v] st)"
  by (auto simp: advances_def store_op_defs split: op_splits intro!: map_advances_put dest: store_roomD[OF assms])

lemma step_ops_advance:
  assumes "store_room st" "gm_get (ms_steps st) pid = Some cur" "validStepTransition (sp_Status cur) to"
  shows "advances st (run_ops [OpTransitionStep CtxLive now pid to outp, OpWriteStepError pid code msg] st)"
  using store_roomD(3)[OF assms(1,2)] assms(2,3) by (auto simp: advances_def store_op_defs map_advances_def split: op_splits)

lemma archive_write_done:
  assumes ref: "db_refines codec db st" and room: "store_room st" and ok: "pending_ok codec st (PendingArchive sid v s)"
  shows "write_done codec db (snd (UpdateAgentSessionCAS (sessionModel s) v db)) st"
proof -
  from ok obtain cur where cur: "gm_get (ms_sessions st) sid = Some cur" "ses_ID s = sid"
    and read: "v < ses_Version cur \<or> v = ses_Version cur \<and> ses_ActiveTurnID cur = [] \<and>
      (\<exists>now. s = cur\<lparr>ses_Status := SessionArchived, ses_Version := v + 1, ses_UpdatedAt := now\<rparr>)" by (auto simp: row_read_def)
  from cur(1) obtain r where r: "gm_get (db_sessions db) sid = Some r" "cur = sessionFromModel r" by (auto simp: refines_get(1)[OF ref])
  have id: "rs_ID (sessionModel s) = sid" using cur(2) by (simp add: sessionModel_def)
  show ?thesis
  proof (cases "rs_Version r = v")
    case True
    with read r obtain now where now: "s = (sessionFromModel r)\<lparr>ses_Status := SessionArchived, ses_Version := rs_Version r + 1, ses_UpdatedAt := now\<rparr>"
      and free: "rs_ActiveTurnID r = []" by auto
    obtain b db' where cas: "UpdateAgentSessionCAS (sessionModel s) v db = (Inr b, db')" using r id True by (simp add: UpdateAgentSessionCAS_def)
    note sim = archive_write_simulates[OF ref r(1) free now cas[folded True]]
    with write_op_advances(1)[OF room] cas show ?thesis by (simp add: write_doneI del: run_ops_simps apply_op.simps)
  next
    case False
    with cas_missed(1)[of db "sessionModel s" r v] r id show ?thesis by (simp add: write_done_def)
  qed
qed

lemma attachment_write_done:
  assumes ref: "db_refines codec db st" and codec: "codec_ok codec" and room: "store_room st"
    and ok: "pending_ok codec st (PendingAttachment g (a, w))"
  shows "write_done codec db (snd (UpdateAgentAttachmentCAS w g db)) st"
proof -
  from ok have w: "attachmentModel codec a = Inr w" "validateAttachment a = None" by auto
  note m = attachmentModel_row[OF codec w(1)]
  from ok obtain r where r: "gm_get (db_attachments db) (at_ID a) = Some r"
    and read: "g < ra_Generation r \<or> g = ra_Generation r \<and> ra_State r \<noteq> AttachmentRemoved \<and> ra_AgentSessionID r = at_AgentSessionID a \<and>
      ra_AccessID r = at_AccessID a \<and> ra_ApplicationID r = at_ApplicationID a \<and> ra_Protocol r = at_Protocol a \<and>
      at_CreatedAt a = ra_CreatedAt r \<and> at_Generation a = g + 1"
    by (auto simp: row_read_def refines_get(4)[OF ref] attachment_abs_def attachment_value_def)
  show ?thesis
  proof (cases "ra_Generation r = g")
    case True
    let ?now = "at_UpdatedAt a"
    have "ra_ID r = at_ID a" using refines_rows(4)[OF ref r] by (simp add: attachment_row_ok_def)
    then have same: "same_attachment r a" "ra_State r \<noteq> AttachmentRemoved" "updated_attachment (ra_CreatedAt r) (ra_Generation r) ?now a = a"
      using read True by (auto simp: same_attachment_def updated_attachment_def)
    obtain b db' where cas: "UpdateAgentAttachmentCAS w g db = (Inr b, db')" using r m(4) True by (simp add: UpdateAgentAttachmentCAS_def)
    let ?op = "OpUpdateAttachment CtxLive ?now (a\<lparr>at_AccessHandleID := ra_AccessHandleID r\<rparr>) (ra_Generation r)"
    have sim: "db_refines codec db' (run_ops [?op] st)"
      by (rule attachment_write_simulates[OF ref codec r w(2) same(1,2) _ cas[folded True]]) (simp add: same(3) w(1))
    with write_op_advances(2)[OF room] cas show ?thesis by (simp add: write_doneI del: run_ops_simps apply_op.simps)
  next
    case False
    with cas_missed(2)[of db w r g] r m(4) show ?thesis by (simp add: write_done_def)
  qed
qed

lemma step_write_done:
  assumes ref: "db_refines codec db st" and room: "store_room st" and ok: "pending_ok codec st (PendingStep pid (v, p))"
  shows "write_done codec db (snd (UpdateAgentStepCAS (stepModel p) v db)) st"
proof -
  from ok obtain cur where cur: "gm_get (ms_steps st) pid = Some cur" "sp_ID p = pid"
    and read: "v < sp_Version cur \<or> v = sp_Version cur \<and>
      (\<exists>now to outp code msg. validStepTransition (sp_Status cur) to \<and> p = transitioned_step now to outp code msg cur)"
    unfolding pending_ok.simps row_read_def by blast
  from cur(1) obtain r where r: "gm_get (db_steps db) pid = Some r" "cur = step_abs r" by (auto simp: refines_get(3)[OF ref])
  note row = step_abs_simps[OF refines_rows(3)[OF ref r(1)]]
  have id: "rp_ID (stepModel p) = pid" using cur(2) by (simp add: stepModel_def)
  show ?thesis
  proof (cases "rp_Version r = v")
    case True
    with read r(2) row(3) obtain now to outp code msg where p: "p = transitioned_step now to outp code msg (step_abs r)"
      and valid: "validStepTransition (rp_Status r) to" unfolding row(4)[symmetric] by (metis less_irrefl)
    obtain b db' where cas: "UpdateAgentStepCAS (stepModel p) v db = (Inr b, db')" using r id True by (simp add: UpdateAgentStepCAS_def)
    note sim = step_write_simulates[OF ref r(1) valid p cas[folded True]]
    with step_ops_advance[OF room cur(1)] valid row(4) r(2) cas show ?thesis by (simp add: write_doneI del: run_ops_simps apply_op.simps)
  next
    case False
    with cas_missed(3)[of db "stepModel p" r v] r id show ?thesis by (simp add: write_done_def)
  qed
qed

lemma pending_write_done:
  assumes "db_refines codec db st" "codec_ok codec" "store_room st" "pending_ok codec st w"
  shows "write_done codec db (pending_db c w db) st"
proof (cases "(c, w, db)" rule: pending_db.cases)
  case (1 c sid v s db)
  with archive_write_done[OF assms(1,3)] assms(4) show ?thesis by (simp add: write_db write_done_def)
next
  case (2 c g x db)
  obtain a y where "x = (a, y)" by (cases x)
  with 2 attachment_write_done[OF assms(1-3)] assms(4) show ?thesis by (simp add: write_db write_done_def)
next
  case (3 c pid x db)
  obtain v p where "x = (v, p)" by (cases x)
  with 3 step_write_done[OF assms(1,3)] assms(4) show ?thesis by (simp add: write_db write_done_def)
qed

section \<open>Every reachable state refines a memory store\<close>

lemma simulates_db: "simulates F codec db out m \<Longrightarrow> snd out = db \<or> db_refines codec (snd out) (snd m)"
  by (auto simp: simulates_def split: sum.splits)

lemma call_refines:
  assumes "db_refines codec db st" "codec_ok codec" "msg_inv st" "room db" "call_ok k"
  shows "call_db codec c k db = db \<or> db_refines codec (call_db codec c k db) (apply_op (call_op c k) st)"
proof (cases k)
  case (CallAppendStep tid v p)
  with simulates_db[OF AppendStep_simulates[OF assms(1,4)]] assms(5) show ?thesis by simp
next
  case (CallAppendMessage m)
  with simulates_db[OF AppendMessage_simulates[OF assms(1-4)]] show ?thesis by simp
qed (use simulates_db[OF CreateSession_simulates[OF assms(1)]] simulates_db[OF CreateSessionWithAttachment_simulates[OF assms(1,2)]]
      simulates_db[OF CreateAttachment_simulates[OF assms(1,2)]] simulates_db[OF SetActiveAttachment_simulates[OF assms(1)]]
      simulates_db[OF StartTurn_simulates[OF assms(1)]] simulates_db[OF TransitionTurn_simulates[OF assms(1)]]
      simulates_db[OF SaveToolSnapshot_simulates[OF assms(1,2)]] in simp_all)

lemma room_refines:
  assumes ref: "db_refines codec db st" and room: "room db"
  shows "store_room st"
proof -
  have steps: "sp_Version (step_abs r) \<noteq> - 1" if "gm_get (db_steps db) k = Some r" for k r
    using room that step_abs_simps(3)[OF refines_rows(3)[OF ref that]] by (auto simp: room_def dest: gm_allD)
  show ?thesis using room
    by (auto simp: store_room_def gm_all_def refines_get[OF ref] room_def attachment_abs_def attachment_value_def dest: steps)
qed

definition durable_inv :: "store_codec \<Rightarrow> durable_sys \<Rightarrow> bool" where
  "durable_inv codec s \<longleftrightarrow> (\<exists>ops. db_refines codec (sys_db s) (run_ops ops NewMemoryStore) \<and>
     list_all (pending_ok codec (run_ops ops NewMemoryStore)) (sys_pending s))"

lemma durable_invI:
  "db_refines codec (sys_db s) (run_ops ops NewMemoryStore) \<Longrightarrow>
   list_all (pending_ok codec (run_ops ops NewMemoryStore)) (sys_pending s) \<Longrightarrow> durable_inv codec s"
  unfolding durable_inv_def by blast

lemma pending_list_advances:
  "advances st st' \<Longrightarrow> list_all (pending_ok codec st) ws \<Longrightarrow> list_all (pending_ok codec st') ws"
  by (auto simp: list_all_iff intro: pending_ok_advances)

text \<open>Any change of the tables that moves the memory store forward keeps the invariant.\<close>

lemma durable_inv_write:
  assumes inv: "db_refines codec (sys_db s) (run_ops ops NewMemoryStore)" "list_all (pending_ok codec (run_ops ops NewMemoryStore)) (sys_pending s)"
    and changed: "write_done codec (sys_db s) db' (run_ops ops NewMemoryStore)" and sub: "set ws \<subseteq> set (sys_pending s)"
  shows "durable_inv codec (s\<lparr>sys_db := db', sys_pending := ws\<rparr>)"
proof -
  have ws: "list_all (pending_ok codec (run_ops ops NewMemoryStore)) ws" using inv(2) sub by (auto simp: list_all_iff)
  from changed consider "db' = sys_db s"
    | more where "db_refines codec db' (run_ops more (run_ops ops NewMemoryStore))" "advances (run_ops ops NewMemoryStore) (run_ops more (run_ops ops NewMemoryStore))"
    unfolding write_done_def by blast
  then show ?thesis
  proof cases
    case 1
    with inv(1) ws show ?thesis by (intro durable_invI[of _ _ ops]) simp_all
  next
    case (2 more)
    with pending_list_advances[OF 2(2) ws] show ?thesis by (intro durable_invI[of _ _ "ops @ more"]) simp_all
  qed
qed

lemma durable_step_inv:
  assumes codec: "codec_ok codec" and inv: "durable_inv codec s" and step: "durable_step codec s s'"
  shows "durable_inv codec s'"
proof -
  from inv obtain ops where ref: "db_refines codec (sys_db s) (run_ops ops NewMemoryStore)"
    and pend: "list_all (pending_ok codec (run_ops ops NewMemoryStore)) (sys_pending s)" unfolding durable_inv_def by blast
  let ?st = "run_ops ops NewMemoryStore"
  have more: "durable_inv codec (s\<lparr>sys_pending := w # sys_pending s\<rparr>)" if "pending_ok codec ?st w" for w
    using ref pend that by (intro durable_invI[of _ _ ops]) simp_all
  from step show ?thesis
  proof cases
    case (call k c)
    have "write_done codec (sys_db s) (call_db codec c k (sys_db s)) ?st"
      using call_refines[OF ref codec msgs.reachable call(2,3), of c] call_op_advances[OF room_refines[OF ref call(2)] core.reachable, of c k]
      by (metis write_done_def run_ops_simps(1,2))
    from durable_inv_write[OF ref pend this subset_refl] call(1) show ?thesis by simp
  next
    case (read_session c sid v w db')
    with more[OF archive_read_pending[OF ref read_session(2)]] show ?thesis by simp
  next
    case (read_attachment c a g w db')
    obtain a' r where "w = (a', r)" by (cases w)
    with more[OF update_attachment_read_pending[OF ref]] read_attachment show ?thesis by blast
  next
    case (read_step c pid to outp code msg w db')
    obtain v p where "w = (v, p)" by (cases w)
    with more[OF transition_read_pending[OF ref]] read_step show ?thesis by blast
  next
    case (write_back w c)
    have "pending_ok codec ?st w" using pend write_back(3) by (simp add: list_all_iff)
    from pending_write_done[OF ref codec room_refines[OF ref write_back(2)] this, of c]
    show ?thesis unfolding write_back(1) by (rule durable_inv_write[OF ref pend]) (rule set_remove1_subset)
  qed
qed

lemma durable_reachable_inv: "durable_reachable codec s \<Longrightarrow> codec_ok codec \<Longrightarrow> durable_inv codec s"
proof (induction rule: durable_reachable.induct)
  case start
  show ?case by (rule durable_invI[of _ _ "[]"]) (simp_all add: new_durable_sys_def empty_refines)
qed (rule durable_step_inv)

section \<open>Properties of the tables\<close>


text \<open>The session of an open turn is not archived.\<close>

definition turn_live :: "(string, session) gomap \<Rightarrow> string \<Rightarrow> turn \<Rightarrow> bool" where
  "turn_live ss k t \<longleftrightarrow> turn_Terminal (tn_Status t) \<or> (\<exists>s. gm_get ss (tn_AgentSessionID t) = Some s \<and> ses_Status s \<noteq> SessionArchived)"

definition live_inv :: "memory_store \<Rightarrow> bool" where
  "live_inv st \<longleftrightarrow> core_inv st \<and> gm_all (turn_live (ms_sessions st)) (ms_turns st)"

lemma live_put_session:
  assumes "gm_all (turn_live ss) ts" "\<And>s. gm_get ss k = Some s \<Longrightarrow> ses_Status s' = ses_Status s"
  shows "gm_all (turn_live (gm_put k s' ss)) ts"
  using assms by (fastforce simp: gm_all_def turn_live_def)

lemma live_release:
  assumes "gm_all (turn_live ss) ts" "gm_all session_ok ss"
  shows "gm_all (turn_live (release_session now t ss)) ts"
  using assms by (auto simp: release_session_def session_ok_def split: option.split intro!: live_put_session dest: gm_allD)

lemma live_archive:
  assumes "live_inv st"
  shows "gm_all (turn_live (ms_sessions (snd (store_ArchiveSession ctx now sid v st)))) (ms_turns st)"
proof (rule gm_allI)
  fix k t assume t: "gm_get (ms_turns st) k = Some t"
  from assms have "turn_ok (ms_sessions st) k t" "turn_live (ms_sessions st) k t"
    using core_invD(3)[OF _ t] gm_allD[OF _ t] by (auto simp: live_inv_def)
  then show "turn_live (ms_sessions (snd (store_ArchiveSession ctx now sid v st))) k t"
    by (auto simp: store_ArchiveSession_def Let_def turn_ok_def turn_live_def split: op_splits)
qed

lemma live_start:
  assumes "live_inv st"
  shows "gm_all (turn_live (ms_sessions (snd (store_StartTurn ctx now sid t st)))) (ms_turns (snd (store_StartTurn ctx now sid t st)))"
  using assms by (auto simp: live_inv_def store_StartTurn_def Let_def turn_live_def split: op_splits intro!: gm_all_put live_put_session)

lemma terminal_stays: "validTurnTransition from to \<Longrightarrow> turn_Terminal from \<Longrightarrow> turn_Terminal to"
  by (cases "from") (auto simp: validTurnTransition_def turn_Terminal_def split: if_splits)

lemma live_transition:
  assumes "live_inv st"
  shows "gm_all (turn_live (ms_sessions (snd (store_TransitionTurn ctx now tid v to code msg st))))
    (ms_turns (snd (store_TransitionTurn ctx now tid v to code msg st)))"
proof -
  from assms have live: "gm_all (turn_live (ms_sessions st)) (ms_turns st)" "gm_all session_ok (ms_sessions st)"
    by (simp_all add: live_inv_def core_inv_def)
  have old: "\<exists>s. gm_get (ms_sessions st) (tn_AgentSessionID t) = Some s \<and> ses_Status s \<noteq> SessionArchived"
    if "gm_get (ms_turns st) tid = Some t" "validTurnTransition (tn_Status t) to" "\<not> turn_Terminal to" for t
    using gm_allD[OF live(1) that(1)] terminal_stays[OF that(2)] that(3) by (auto simp: turn_live_def)
  show ?thesis using live live_release[OF live]
    by (auto simp: store_TransitionTurn_def Let_def turn_live_def split: op_splits intro!: gm_all_put old)
qed

interpretation live: store_invariant live_inv
proof
  show "live_inv NewMemoryStore" using core.init by (simp add: live_inv_def NewMemoryStore_def)
  show "live_inv (apply_op x st)" if st: "live_inv st" for st x
  proof -
    from st have live: "gm_all (turn_live (ms_sessions st)) (ms_turns st)" by (simp add: live_inv_def)
    have "gm_all (turn_live (ms_sessions (apply_op x st))) (ms_turns (apply_op x st))"
    proof (cases x)
      case (OpArchiveSession ctx now sid v)
      have "ms_turns (snd (store_ArchiveSession ctx now sid v st)) = ms_turns st" by (simp add: store_ArchiveSession_def Let_def split: op_splits)
      with live_archive[OF st] OpArchiveSession show ?thesis by simp
    next
      case (OpAppendStep ctx now tid v p)
      then show ?thesis using live by (auto simp: store_AppendStep_def Let_def turn_live_def split: op_splits intro!: gm_all_put dest: gm_allD)
    qed (use live live_start[OF st] live_transition[OF st] in \<open>auto simp: store_op_defs split: op_splits intro!: live_put_session\<close>)
    with core.step st show ?thesis by (simp add: live_inv_def)
  qed
qed

lemma durable_store:
  assumes "codec_ok codec" "durable_reachable codec s"
  obtains st where "db_refines codec (sys_db s) st" "live_inv st"
  using durable_reachable_inv[OF assms(2,1)] live.reachable unfolding durable_inv_def by blast

lemma open_turn_row:
  assumes ref: "db_refines codec db st" and st: "live_inv st" and t: "gm_get (db_turns db) i = Some t" "\<not> turn_Terminal (rt_Status t)"
  shows "\<exists>r. gm_get (db_sessions db) (rt_AgentSessionID t) = Some r \<and> rs_ActiveTurnID r = i \<and> rs_Status r \<noteq> SessionArchived"
proof -
  have "gm_get (ms_turns st) i = Some (turnFromModel t)" by (simp add: refines_get(2)[OF ref] t(1))
  from core_invD(3)[OF _ this] st t(2) obtain r where r: "gm_get (db_sessions db) (rt_AgentSessionID t) = Some r" "rs_ActiveTurnID r = i" "i \<noteq> []"
    by (auto simp: live_inv_def turn_ok_def refines_get(1)[OF ref])
  have "turn_live (ms_sessions st) i (turnFromModel t)"
    using st by (auto simp: live_inv_def intro: gm_allD[of _ "ms_turns st"] simp: refines_get(2)[OF ref] t(1))
  with r t(2) show ?thesis by (auto simp: turn_live_def refines_get(1)[OF ref])
qed



section \<open>A concrete run\<close>

text \<open>A codec that knows a few documents.\<close>

definition sample_codec :: store_codec where
  "sample_codec = \<lparr>
     enc_capabilities = (\<lambda>cs. if cs = [''exec''] then Inr ''[\"exec\"]'' else Inl (ErrNew ''unsupported'')),
     dec_capabilities = (\<lambda>j. if j = ''[\"exec\"]'' then Inr [''exec''] else Inl (ErrNew ''unexpected token'')),
     enc_message = (\<lambda>m. if m = msg_Value (sample_message []) then Inr ''{\"content\":\"hello\"}'' else Inl (ErrNew ''unsupported'')),
     dec_message = (\<lambda>j. if j = ''{\"content\":\"hello\"}'' then Inr (msg_Value (sample_message [])) else Inl (ErrNew ''unexpected token'')),
     enc_generations = (\<lambda>g. if g = [] then Inr ''{}'' else Inl (ErrNew ''unsupported'')),
     dec_generations = (\<lambda>j. if j = ''{}'' then Inr [] else Inl (ErrNew ''unexpected token'')),
     enc_tools = (\<lambda>ts. if ts = [] then Inr ''[]'' else Inl (ErrNew ''unsupported'')),
     dec_tools = (\<lambda>j. if j = ''[]'' then Inr [] else Inl (ErrNew ''unexpected token''))\<rparr>"

lemma sample_codec_ok: "codec_ok sample_codec"
  by (auto simp: codec_ok_def sample_codec_def split: if_splits)

definition sample_call :: "gtime \<Rightarrow> db_call" where
  "sample_call now = \<lparr>dc_before = CtxLive, dc_after = CtxLive, dc_stmt = (\<lambda>_. None), dc_commit = None, dc_now = now\<rparr>"

text \<open>A session is created, read for archiving, and a turn starts in it before the archiving write.\<close>

definition sample_calls :: "(gtime \<times> durable_call) list" where
  "sample_calls = [(1, CallCreateSession (sample_session ''s1'' SessionAccess)), (3, CallStartTurn ''s1'' (new_turn ''t1'')),
     (5, CallTransitionTurn ''t1'' 1 TurnCancelled [] [])]"

definition after :: "gtime \<times> durable_call \<Rightarrow> agent_db \<Rightarrow> agent_db" where
  "after p db = call_db sample_codec (sample_call (fst p)) (snd p) db"

definition archive_value :: "gtime \<Rightarrow> u64 \<Rightarrow> agent_db \<Rightarrow> session" where
  "archive_value now v db = sum_or (sample_session [] []) (fst (archive_read (sample_call now) ''s1'' v db))"

definition sample_db1 :: agent_db where
  "sample_db1 = after (sample_calls ! 0) empty_db"

definition sample_db2 :: agent_db where
  "sample_db2 = pending_db (sample_call 4) (PendingArchive ''s1'' 1 (archive_value 2 1 sample_db1)) (after (sample_calls ! 1) sample_db1)"

definition sample_db3 :: agent_db where
  "sample_db3 = after (sample_calls ! 2) sample_db2"

definition sample_db4 :: agent_db where
  "sample_db4 = pending_db (sample_call 7) (PendingArchive ''s1'' 3 (archive_value 6 3 sample_db3)) sample_db3"

definition room_check :: "agent_db \<Rightarrow> bool" where
  "room_check db \<longleftrightarrow> list_all (\<lambda>(_, r). rs_Version r \<noteq> - 1) (db_sessions db) \<and> list_all (\<lambda>(_, r). ra_Generation r \<noteq> - 1) (db_attachments db) \<and>
     list_all (\<lambda>(_, r). rt_Version r \<noteq> - 1) (db_turns db) \<and> list_all (\<lambda>(_, r). rp_Version r \<noteq> - 1 \<and> rp_Sequence r \<noteq> - 1) (db_steps db) \<and>
     list_all (\<lambda>(_, r). rm_Sequence r \<noteq> - 1) (db_messages db)"

lemma room_check: "room_check db \<Longrightarrow> room db"
  by (fastforce simp: room_check_def room_def gm_all_def list_all_iff dest: gm_get_mem)

lemma call_step:
  "room_check db \<Longrightarrow> call_ok (snd p) \<Longrightarrow> durable_reachable sample_codec \<lparr>sys_db = db, sys_pending = ws\<rparr> \<Longrightarrow>
   durable_reachable sample_codec \<lparr>sys_db = after p db, sys_pending = ws\<rparr>"
  using durable_reachable.step[OF _ durable_step.call[of "\<lparr>sys_db = db, sys_pending = ws\<rparr>" "snd p" sample_codec "sample_call (fst p)"]]
  by (simp add: room_check after_def)

lemma archive_read_step:
  "durable_reachable sample_codec \<lparr>sys_db = db, sys_pending = []\<rparr> \<Longrightarrow> \<not> isl (fst (archive_read (sample_call now) ''s1'' v db)) \<Longrightarrow>
   durable_reachable sample_codec \<lparr>sys_db = db, sys_pending = [PendingArchive ''s1'' v (archive_value now v db)]\<rparr>"
  using durable_reachable.step[OF _ durable_step.read_session[of "sample_call now" "''s1''" v "\<lparr>sys_db = db, sys_pending = []\<rparr>" "archive_value now v db"
        "snd (archive_read (sample_call now) ''s1'' v db)"]]
  by (cases "archive_read (sample_call now) ''s1'' v db"; cases "fst (archive_read (sample_call now) ''s1'' v db)")
    (auto simp: archive_value_def)

lemma write_back_step:
  "room_check db \<Longrightarrow> durable_reachable sample_codec \<lparr>sys_db = db, sys_pending = [w]\<rparr> \<Longrightarrow>
   durable_reachable sample_codec \<lparr>sys_db = pending_db (sample_call now) w db, sys_pending = []\<rparr>"
  using durable_reachable.step[OF _ durable_step.write_back[of "\<lparr>sys_db = db, sys_pending = [w]\<rparr>" w sample_codec "sample_call now"]]
  by (simp add: room_check)

lemma sample_durable_reachable:
  "durable_reachable sample_codec \<lparr>sys_db = sample_db2, sys_pending = []\<rparr>"
  "durable_reachable sample_codec \<lparr>sys_db = sample_db4, sys_pending = []\<rparr>"
proof -
  have rooms: "room_check empty_db" "room_check sample_db1" "room_check (after (sample_calls ! 1) sample_db1)" "room_check sample_db2"
    "room_check sample_db3" by code_simp+
  have reads: "\<not> isl (fst (archive_read (sample_call 2) ''s1'' 1 sample_db1))" "\<not> isl (fst (archive_read (sample_call 6) ''s1'' 3 sample_db3))"
    by code_simp+
  have calls: "call_ok (snd (sample_calls ! 0))" "call_ok (snd (sample_calls ! 1))" "call_ok (snd (sample_calls ! 2))"
    by (simp_all add: sample_calls_def)
  have "durable_reachable sample_codec \<lparr>sys_db = sample_db1, sys_pending = []\<rparr>"
    unfolding sample_db1_def by (rule call_step[OF rooms(1) calls(1) start[unfolded new_durable_sys_def]])
  from call_step[OF rooms(2) calls(2) archive_read_step[OF this reads(1)]]
  show two: "durable_reachable sample_codec \<lparr>sys_db = sample_db2, sys_pending = []\<rparr>"
    unfolding sample_db2_def by (rule write_back_step[OF rooms(3)])
  from call_step[OF rooms(4) calls(3) two]
  have "durable_reachable sample_codec \<lparr>sys_db = sample_db3, sys_pending = []\<rparr>" by (simp add: sample_db3_def)
  from archive_read_step[OF this reads(2)]
  show "durable_reachable sample_codec \<lparr>sys_db = sample_db4, sys_pending = []\<rparr>"
    unfolding sample_db4_def by (rule write_back_step[OF rooms(5)])
qed




end
