(* ===== verification/Tool_Source.thy ===== *)
theory Tool_Source
  imports Tool_Engine
begin

text \<open>
  Tool sources (src/pkg/liaison/manager/agent/tool/source.go): a source manager loads the registrations of
  a source into the engine, applies its events and unloads it again, and remembers which tools each
  source owns. A source is an interface; its identifier, trust level and snapshot are the record
  \<open>tool_source\<close>, its event stream the list of what each \<^verbatim>\<open>select\<close> of \<open>source_Run\<close> yields.

  The lemmas: a failed load leaves engine and ownership as they were; an event of one source never
  touches a tool of another.
\<close>

section \<open>State and data\<close>

record 'f tool_source =
  ts_SourceID :: string
  ts_TrustLevel :: trust_level
  ts_Snapshot :: "gerr + 'f tool_registration list"

datatype 'f source_event =
    SourceEventUpsert "'f tool_registration"
  | SourceEventEnable tool_id
  | SourceEventDisable tool_id
  | SourceEventUnload tool_id bool
  | SourceEventOther nat

record 'f source_manager =
  sm_engine :: "'f engine"
  sm_tools :: "(string, tool_id list) gomap"

definition NewSourceManager :: "'f engine \<Rightarrow> 'f source_manager" where
  "NewSourceManager g = \<lparr>sm_engine = g, sm_tools = []\<rparr>"

section \<open>Validation\<close>

fun validate_registrations ::
  "string \<Rightarrow> trust_level \<Rightarrow> tool_id list \<Rightarrow> 'f tool_registration list \<Rightarrow> gerr option" where
  "validate_registrations sourceID trust seen [] = None"
| "validate_registrations sourceID trust seen (rn # rest) =
     (let d = reg_Descriptor rn; tid = tool_id_String (td_ID d) in
      if src_ID (td_Source d) \<noteq> sourceID
      then Some (ErrNew (''tool '' @ tid @ '' declares source '' @ go_quote (src_ID (td_Source d)) @ '', expected '' @ go_quote sourceID))
      else if src_Trust (td_Source d) \<noteq> trust
      then Some (ErrNew (''tool '' @ tid @ '' trust does not match source''))
      else if td_ID d \<in> set seen
      then Some (ErrNew (''source '' @ go_quote sourceID @ '' contains duplicate tool '' @ tid))
      else if reg_Factory rn = None then Some (ErrNew (''tool '' @ tid @ '' has no factory''))
      else case ValidateDescriptor d of
        Some err \<Rightarrow> Some err
      | None \<Rightarrow> validate_registrations sourceID trust (td_ID d # seen) rest)"

definition validateSourceRegistrations ::
  "string \<Rightarrow> trust_level \<Rightarrow> 'f tool_registration list \<Rightarrow> gerr option" where
  "validateSourceRegistrations sourceID trust rns = validate_registrations sourceID trust [] rns"

section \<open>Loading\<close>

text \<open>The rollback loop: unload what was registered so far, stopping at the first failure.\<close>

fun rollback :: "tool_id list \<Rightarrow> 'f engine \<Rightarrow> (tool_id \<times> gerr) option \<times> 'f engine" where
  "rollback [] g = (None, g)"
| "rollback (i # is) g =
     (case engine_Unload i False g of
        (Inl err, g') \<Rightarrow> (Some (i, err), g')
      | (Inr _, g') \<Rightarrow> rollback is g')"

fun load_loop ::
  "string \<Rightarrow> tool_id list \<Rightarrow> 'f tool_registration list \<Rightarrow> 'f engine \<Rightarrow> ('f engine, tool_id list) outcome" where
  "load_loop sourceID loaded [] g = (Inr loaded, g)"
| "load_loop sourceID loaded (rn # rest) g =
     (case engine_Register rn g of
        (Inl err, g1) \<Rightarrow>
          (case rollback loaded g1 of
             (Some (i, unloadErr), g2) \<Rightarrow>
               (Inl (ErrWrap (''register '' @ tool_id_String (reg_id rn) @ '': '') err
                  (''; rollback '' @ tool_id_String i @ '': '' @ error_text unloadErr)), g2)
           | (None, g2) \<Rightarrow>
               (Inl (ErrWrap (''register source '' @ go_quote sourceID @ '' tool '' @ tool_id_String (reg_id rn) @ '': '') err []), g2))
      | (Inr _, g1) \<Rightarrow> load_loop sourceID (List.insert (reg_id rn) loaded) rest g1)"

definition source_Load ::
  "'f tool_source option \<Rightarrow> 'f source_manager \<Rightarrow> ('f source_manager, unit) outcome" where
  "source_Load so m =
     (case so of
        None \<Rightarrow> (Inl (ErrNew ''tool source is required''), m)
      | Some s \<Rightarrow>
          let sourceID = ts_SourceID s in
          if sourceID = [] then (Inl (ErrNew ''tool source ID is required''), m)
          else case ts_Snapshot s of
            Inl err \<Rightarrow> (Inl (ErrWrap (''read tool source '' @ go_quote sourceID @ '' snapshot: '') err []), m)
          | Inr rns \<Rightarrow>
              (case validateSourceRegistrations sourceID (ts_TrustLevel s) rns of
                 Some err \<Rightarrow> (Inl err, m)
               | None \<Rightarrow>
                   if gm_get (sm_tools m) sourceID \<noteq> None
                   then (Inl (ErrNew (''tool source '' @ go_quote sourceID @ '' is already loaded'')), m)
                   else (case load_loop sourceID [] rns (sm_engine m) of
                      (Inl err, g) \<Rightarrow> (Inl err, m\<lparr>sm_engine := g\<rparr>)
                    | (Inr loaded, g) \<Rightarrow> (Inr (), m\<lparr>sm_engine := g, sm_tools := gm_put sourceID loaded (sm_tools m)\<rparr>))))"

section \<open>Events\<close>

definition not_owned :: "string \<Rightarrow> tool_id \<Rightarrow> gerr" where
  "not_owned sourceID i = ErrNew (''source '' @ go_quote sourceID @ '' does not own '' @ tool_id_String i)"

definition source_Apply ::
  "'f tool_source option \<Rightarrow> 'f source_event \<Rightarrow> 'f source_manager \<Rightarrow> ('f source_manager, unit) outcome" where
  "source_Apply so ev m =
     (case so of
        None \<Rightarrow> (Inl (ErrNew ''tool source is required''), m)
      | Some s \<Rightarrow>
          let sid = ts_SourceID s in
          if sid = [] then (Inl (ErrNew ''tool source is required''), m)
          else case gm_get (sm_tools m) sid of
            None \<Rightarrow> (Inl (ErrNew (''tool source '' @ go_quote sid @ '' is not loaded'')), m)
          | Some loaded \<Rightarrow>
              (case ev of
                 SourceEventUpsert rn \<Rightarrow>
                   (case validateSourceRegistrations sid (ts_TrustLevel s) [rn] of
                      Some err \<Rightarrow> (Inl err, m)
                    | None \<Rightarrow>
                        (case engine_Replace rn (sm_engine m) of
                           (Inl err, g) \<Rightarrow> (Inl (ErrWrap (''replace source '' @ go_quote sid @ '' tool: '') err []), m\<lparr>sm_engine := g\<rparr>)
                         | (Inr _, g) \<Rightarrow> (Inr (), m\<lparr>sm_engine := g,
                             sm_tools := gm_put sid (List.insert (reg_id rn) loaded) (sm_tools m)\<rparr>)))
               | SourceEventEnable i \<Rightarrow>
                   if i \<notin> set loaded then (Inl (not_owned sid i), m)
                   else (case engine_Enable i (sm_engine m) of (res, g) \<Rightarrow> (res, m\<lparr>sm_engine := g\<rparr>))
               | SourceEventDisable i \<Rightarrow>
                   if i \<notin> set loaded then (Inl (not_owned sid i), m)
                   else (case engine_Disable i (sm_engine m) of (res, g) \<Rightarrow> (res, m\<lparr>sm_engine := g\<rparr>))
               | SourceEventUnload i force \<Rightarrow>
                   if i \<notin> set loaded then (Inl (not_owned sid i), m)
                   else (case engine_Unload i force (sm_engine m) of
                           (Inl err, g) \<Rightarrow> (Inl err, m\<lparr>sm_engine := g\<rparr>)
                         | (Inr complete, g) \<Rightarrow> (Inr (), m\<lparr>sm_engine := g,
                             sm_tools := (if complete then gm_put sid (removeAll i loaded) (sm_tools m) else sm_tools m)\<rparr>))
               | SourceEventOther k \<Rightarrow> (Inl (ErrNew (''unknown source event kind '' @ dec k)), m)))"

text \<open>The loop of \<^verbatim>\<open>Unload\<close>: the tools still loaded, whether all were complete, and a fatal error.\<close>

fun unload_loop ::
  "bool \<Rightarrow> tool_id list \<Rightarrow> tool_id list \<Rightarrow> bool \<Rightarrow> 'f engine \<Rightarrow> ((tool_id \<times> gerr) option \<times> tool_id list \<times> bool) \<times> 'f engine" where
  "unload_loop force [] loaded complete g = ((None, loaded, complete), g)"
| "unload_loop force (i # is) loaded complete g =
     (case engine_Unload i force g of
        (Inl err, g') \<Rightarrow>
          if \<not> errors_is err ErrToolNotFound then ((Some (i, err), loaded, complete), g')
          else unload_loop force is (removeAll i loaded) complete g'
      | (Inr unloaded, g') \<Rightarrow>
          if unloaded then unload_loop force is (removeAll i loaded) complete g'
          else unload_loop force is loaded False g')"

definition source_Unload :: "string \<Rightarrow> bool \<Rightarrow> 'f source_manager \<Rightarrow> ('f source_manager, bool) outcome" where
  "source_Unload sid force m =
     (case gm_get (sm_tools m) sid of
        None \<Rightarrow> (Inl (ErrNew (''tool source '' @ go_quote sid @ '' is not loaded'')), m)
      | Some loaded \<Rightarrow>
          (case unload_loop force loaded loaded True (sm_engine m) of
             ((Some (i, err), rest, complete), g) \<Rightarrow>
               (Inl (ErrWrap (''unload source '' @ go_quote sid @ '' tool '' @ tool_id_String i @ '': '') err []),
                m\<lparr>sm_engine := g, sm_tools := gm_put sid rest (sm_tools m)\<rparr>)
           | ((None, rest, complete), g) \<Rightarrow>
               if rest = [] then (Inr True, m\<lparr>sm_engine := g, sm_tools := gm_del sid (sm_tools m)\<rparr>)
               else (Inr complete, m\<lparr>sm_engine := g, sm_tools := gm_put sid rest (sm_tools m)\<rparr>)))"

text \<open>
  \<^verbatim>\<open>Run\<close>: what each \<^verbatim>\<open>select\<close> of the loop yields is a list; \<open>None\<close> as the first component means that the loop
  is still waiting when the list is used up.
\<close>

datatype 'f source_select = SelDone ctx_state | SelClosed | SelEvent "'f source_event"

fun run_events ::
  "'f tool_source option \<Rightarrow> 'f source_select list \<Rightarrow> 'f source_manager \<Rightarrow> gerr option option \<times> 'f source_manager" where
  "run_events so [] m = (None, m)"
| "run_events so (SelDone c # rest) m = (Some (ctx_err c), m)"
| "run_events so (SelClosed # rest) m = (Some None, m)"
| "run_events so (SelEvent ev # rest) m =
     (case source_Apply so ev m of
        (Inl err, m') \<Rightarrow> (Some (Some err), m')
      | (Inr _, m') \<Rightarrow> run_events so rest m')"

definition source_Run ::
  "'f tool_source option \<Rightarrow> gerr + 'f source_select list \<Rightarrow> 'f source_manager \<Rightarrow> gerr option option \<times> 'f source_manager" where
  "source_Run so watch m =
     (case source_Load so m of
        (Inl err, m1) \<Rightarrow> (Some (Some err), m1)
      | (Inr _, m1) \<Rightarrow>
          (case watch of
             Inl err \<Rightarrow> (Some (Some (ErrWrap (''watch tool source '' @
                go_quote (case so of Some s \<Rightarrow> ts_SourceID s | None \<Rightarrow> []) @ '': '') err [])), m1)
           | Inr events \<Rightarrow> run_events so events m1))"

section \<open>A failed load changes nothing\<close>

text \<open>Two engines that show the same registrations and catalog entries.\<close>

definition eng_equiv :: "'f engine \<Rightarrow> 'f engine \<Rightarrow> bool" where
  "eng_equiv g h \<longleftrightarrow> (\<forall>i. registry_lookup (eng_registry h) i = registry_lookup (eng_registry g) i \<and>
     gm_get (cat_entries (eng_catalog h)) i = gm_get (cat_entries (eng_catalog g)) i)"

text \<open>\<open>added ids g h\<close>: \<open>h\<close> is \<open>g\<close> with the idle tools \<open>ids\<close> added, none of which \<open>g\<close> had.\<close>

definition added :: "tool_id list \<Rightarrow> 'f engine \<Rightarrow> 'f engine \<Rightarrow> bool" where
  "added ids g h \<longleftrightarrow> eng_sync h \<and>
     (\<forall>i. if i \<in> set ids
          then registry_lookup (eng_registry g) i = None \<and> gm_get (cat_entries (eng_catalog g)) i = None \<and>
            (\<exists>a m. registry_lookup (eng_registry h) i = Some (a, m) \<and> mr_inFlight m = [])
          else registry_lookup (eng_registry h) i = registry_lookup (eng_registry g) i \<and>
            gm_get (cat_entries (eng_catalog h)) i = gm_get (cat_entries (eng_catalog g)) i)"

lemma added_Nil: "added [] g h \<longleftrightarrow> eng_sync h \<and> eng_equiv g h"
  by (simp add: added_def eng_equiv_def)

lemma added_at:
  assumes "added ids g h"
  shows "eng_sync h" "i \<in> set ids \<Longrightarrow> \<exists>a m. registry_lookup (eng_registry h) i = Some (a, m) \<and> mr_inFlight m = []"
    "i \<in> set ids \<Longrightarrow> registry_lookup (eng_registry g) i = None \<and> gm_get (cat_entries (eng_catalog g)) i = None"
    "i \<notin> set ids \<Longrightarrow> registry_lookup (eng_registry h) i = registry_lookup (eng_registry g) i \<and>
       gm_get (cat_entries (eng_catalog h)) i = gm_get (cat_entries (eng_catalog g)) i"
  using assms by (auto simp: added_def split: if_splits)

lemma engine_Register_Inl: "engine_Register rn g = (Inl err, g') \<Longrightarrow> eng_sync g \<Longrightarrow> g' = g"
  by (auto simp: engine_Register_def engine_register_def Let_def registry_register_def
      split: if_splits option.splits prod.splits)

lemma engine_Register_Inr:
  assumes sync: "eng_sync g" and ok: "engine_Register rn g = (Inr (), g')"
  shows "registry_lookup (eng_registry g) (reg_id rn) = None" "gm_get (cat_entries (eng_catalog g)) (reg_id rn) = None"
    "\<exists>a m. registry_lookup (eng_registry g') (reg_id rn) = Some (a, m) \<and> mr_inFlight m = []"
    "i \<noteq> reg_id rn \<Longrightarrow> registry_lookup (eng_registry g') i = registry_lookup (eng_registry g) i \<and>
       gm_get (cat_entries (eng_catalog g')) i = gm_get (cat_entries (eng_catalog g)) i"
proof -
  from ok obtain gen r' where
    reg: "registry_register rn False (eng_registry g) = (Inr gen, r')" and
    g': "g' = g\<lparr>eng_registry := r', eng_catalog := snd (catalog_upsert (reg_Descriptor rn) gen ToolStatusActive (eng_catalog g))\<rparr>" and
    ex: "catalog_byModelName (tid_Namespace (reg_id rn)) (tid_Name (reg_id rn)) (eng_catalog g) = []"
    by (auto simp: engine_Register_def engine_register_def Let_def split: if_splits option.splits sum.splits prod.splits)
  from ex byModelName_Nil_iff[OF eng_syncD(2)[OF sync]]
  show none: "gm_get (cat_entries (eng_catalog g)) (reg_id rn) = None"
    by (metis not_None_eq)
  with eng_syncD(3)[OF sync, of "reg_id rn"] show "registry_lookup (eng_registry g) (reg_id rn) = None"
    by (auto simp: sync_at_def split: option.splits)
  have r': "r' = snd (registry_register rn False (eng_registry g))" "\<exists>x. fst (registry_register rn False (eng_registry g)) = Inr x"
    using reg by simp_all
  show "\<exists>a m. registry_lookup (eng_registry g') (reg_id rn) = Some (a, m) \<and> mr_inFlight m = []"
    using r' by (simp add: g' lookup_register[OF eng_syncD(1)[OF sync]])
  show "i \<noteq> reg_id rn \<Longrightarrow> registry_lookup (eng_registry g') i = registry_lookup (eng_registry g) i \<and>
       gm_get (cat_entries (eng_catalog g')) i = gm_get (cat_entries (eng_catalog g)) i"
    by (simp add: g' r'(1) lookup_register[OF eng_syncD(1)[OF sync]] get_upsert)
qed

lemma added_register:
  assumes "added ids g h" "engine_Register rn h = (Inr (), h')"
  shows "added (List.insert (reg_id rn) ids) g h'"
proof -
  note r = engine_Register_Inr[OF added_at(1)[OF assms(1)] assms(2)]
  have "eng_sync h'"
    using engine_register_sync[OF added_at(1)[OF assms(1)], of rn False] assms(2) by (simp add: engine_Register_def)
  moreover have "reg_id rn \<notin> set ids" using added_at(2)[OF assms(1), of "reg_id rn"] r(1) by auto
  moreover have "if j \<in> set (List.insert (reg_id rn) ids)
          then registry_lookup (eng_registry g) j = None \<and> gm_get (cat_entries (eng_catalog g)) j = None \<and>
            (\<exists>a m. registry_lookup (eng_registry h') j = Some (a, m) \<and> mr_inFlight m = [])
          else registry_lookup (eng_registry h') j = registry_lookup (eng_registry g) j \<and>
            gm_get (cat_entries (eng_catalog h')) j = gm_get (cat_entries (eng_catalog g)) j" for j
    using added_at(2-4)[OF assms(1), of j] r(1-3) r(4)[of j] calculation(2)
    by (cases "j = reg_id rn") auto
  ultimately show ?thesis by (simp add: added_def)
qed

lemma added_unload:
  assumes "added (i # ids) g h" "i \<notin> set ids"
  shows "\<exists>h'. engine_Unload i False h = (Inr True, h') \<and> added ids g h'"
proof -
  note sync = added_at(1)[OF assms(1)]
  note wf = eng_syncD(1)[OF sync]
  from added_at(2)[OF assms(1), of i] obtain a m where
    m: "registry_lookup (eng_registry h) i = Some (a, m)" "mr_inFlight m = []" by auto
  obtain h' where h': "engine_Unload i False h = (Inr True, h')"
    "eng_registry h' = snd (registry_unload i False (eng_registry h))"
    "eng_catalog h' = snd (catalog_remove i (eng_catalog h))"
  proof -
    obtain r' where "registry_unload i False (eng_registry h) = (Inr (rg_generation (eng_registry h) + 1, True), r')"
      using unload_empty(1)[OF wf m, of False] by (metis prod.collapse)
    then show ?thesis
      using that[of "h\<lparr>eng_registry := r', eng_catalog := snd (catalog_remove i (eng_catalog h))\<rparr>"]
      by (simp add: engine_Unload_def)
  qed
  have "eng_sync h'" using engine_Unload_sync[OF sync, of i False] h'(1) by simp
  moreover have "if j \<in> set ids
          then registry_lookup (eng_registry g) j = None \<and> gm_get (cat_entries (eng_catalog g)) j = None \<and>
            (\<exists>a m. registry_lookup (eng_registry h') j = Some (a, m) \<and> mr_inFlight m = [])
          else registry_lookup (eng_registry h') j = registry_lookup (eng_registry g) j \<and>
            gm_get (cat_entries (eng_catalog h')) j = gm_get (cat_entries (eng_catalog g)) j" for j
    using added_at(2-4)[OF assms(1), of j] assms(2) m h'(2,3)
    by (cases "j = i") (auto simp: lookup_unload[OF wf] get_remove)
  ultimately show ?thesis using h'(1) by (auto simp: added_def)
qed

lemma rollback_restores: "added ids g h \<Longrightarrow> distinct ids \<Longrightarrow> \<exists>h'. rollback ids h = (None, h') \<and> added [] g h'"
proof (induction ids arbitrary: h)
  case (Cons i ids)
  from added_unload[OF Cons.prems(1)] Cons.prems(2) obtain h' where
    h': "engine_Unload i False h = (Inr True, h')" "added ids g h'" by auto
  with Cons.IH[OF h'(2)] Cons.prems(2) show ?case by simp
qed simp

lemma load_loop_result:
  assumes "added ids g h" "distinct ids" "load_loop sid ids rns h = (res, h')"
  shows "case res of Inl err \<Rightarrow> added [] g h' | Inr ids' \<Rightarrow> added ids' g h' \<and> distinct ids' \<and> set ids' = set ids \<union> reg_id ` set rns"
  using assms
proof (induction sid ids rns h rule: load_loop.induct)
  case (2 sid ids rn rest h)
  obtain o1 h1 where h1: "engine_Register rn h = (o1, h1)" by (cases "engine_Register rn h")
  show ?case
  proof (cases o1)
    case (Inl err)
    with engine_Register_Inl h1 added_at(1)[OF 2(2)] have "h1 = h" by blast
    with rollback_restores[OF 2(2,3)] obtain h2 where "rollback ids h1 = (None, h2)" "added [] g h2" by auto
    with 2(4) h1 Inl show ?thesis by (auto simp: added_Nil)
  next
    case (Inr u)
    with h1 have "engine_Register rn h = (Inr (), h1)" by simp
    from 2(1)[OF h1[symmetric] Inr added_register[OF 2(2) this] distinct_insert[THEN iffD2, OF 2(3)]] 2(4) h1 Inr
    show ?thesis by (auto split: sum.splits)
  qed
qed auto

lemma source_Load_Inl:
  assumes "source_Load so m = (Inl err, m')"
  shows "m' = m \<or> (\<exists>sid rns g. load_loop sid [] rns (sm_engine m) = (Inl err, g) \<and> m' = m\<lparr>sm_engine := g\<rparr>)"
  using assms by (auto simp: source_Load_def Let_def split: option.splits if_splits sum.splits prod.splits)

lemma source_Load_Inr:
  assumes "source_Load so m = (Inr u, m')"
  shows "\<exists>s rns loaded g. so = Some s \<and> ts_Snapshot s = Inr rns \<and>
     validateSourceRegistrations (ts_SourceID s) (ts_TrustLevel s) rns = None \<and> gm_get (sm_tools m) (ts_SourceID s) = None \<and>
     load_loop (ts_SourceID s) [] rns (sm_engine m) = (Inr loaded, g) \<and>
     m' = m\<lparr>sm_engine := g, sm_tools := gm_put (ts_SourceID s) loaded (sm_tools m)\<rparr>"
  using assms by (auto simp: source_Load_def Let_def split: option.splits if_splits sum.splits prod.splits)

lemma eng_equiv_refl [simp]: "eng_equiv g g"
  by (simp add: eng_equiv_def)

lemma load_loop_Inl:
  assumes "eng_sync g" "load_loop sid [] rns g = (Inl err, h)"
  shows "eng_sync h" "eng_equiv g h"
  using load_loop_result[of "[]" g g sid rns "Inl err" h] assms by (simp_all add: added_Nil)

text \<open>Loading a source is all or nothing: when it fails, for whatever reason and after however many
  registrations, every lookup in the registry and the catalog gives what it gave before, and no tool is
  recorded for the source.\<close>

lemma failed_load_restores:
  assumes "eng_reachable (sm_engine m)" "source_Load so m = (Inl err, m')"
  shows "eng_equiv (sm_engine m) (sm_engine m') \<and> sm_tools m' = sm_tools m"
proof -
  from load_loop_Inl(2)[OF eng_reachable_sync[OF assms(1)]] source_Load_Inl[OF assms(2)]
  show ?thesis by auto
qed

section \<open>Ownership\<close>

definition src_at :: "'f engine \<Rightarrow> tool_id \<Rightarrow> string option" where
  "src_at g i = map_option (\<lambda>e. src_ID (td_Source (ce_descriptor e))) (gm_get (cat_entries (eng_catalog g)) i)"

text \<open>Every tool a source owns has a catalog entry of that source.\<close>

definition owns_wf :: "'f source_manager \<Rightarrow> bool" where
  "owns_wf m \<longleftrightarrow> eng_sync (sm_engine m) \<and>
     (\<forall>sid loaded. gm_get (sm_tools m) sid = Some loaded \<longrightarrow>
        distinct loaded \<and> (\<forall>i \<in> set loaded. src_at (sm_engine m) i = Some sid))"

lemma owns_wfD:
  assumes "owns_wf m"
  shows "eng_sync (sm_engine m)"
    "gm_get (sm_tools m) sid = Some loaded \<Longrightarrow> i \<in> set loaded \<Longrightarrow> src_at (sm_engine m) i = Some sid"
    "gm_get (sm_tools m) sid = Some loaded \<Longrightarrow> distinct loaded"
  using assms by (auto simp: owns_wf_def)

lemma src_at_catalog_setStatus [simp]:
  "src_at (g\<lparr>eng_registry := r, eng_catalog := snd (catalog_setStatus i st (eng_catalog g))\<rparr>) j = src_at g j"
  by (simp add: src_at_def get_setStatus option.map_comp comp_def)

lemma src_at_registry [simp]: "src_at (g\<lparr>eng_registry := r\<rparr>) j = src_at g j"
  by (simp add: src_at_def)

lemma src_at_setStatus [simp]: "src_at (snd (engine_setStatus verb st i g)) j = src_at g j"
proof -
  obtain o1 r' where r': "registry_setStatus i st (eng_registry g) = (o1, r')"
    by (cases "registry_setStatus i st (eng_registry g)")
  obtain p c' where c': "catalog_setStatus i st (eng_catalog g) = (p, c')"
    by (cases "catalog_setStatus i st (eng_catalog g)")
  have "src_at (g\<lparr>eng_registry := r', eng_catalog := c'\<rparr>) j = src_at g j"
    using src_at_catalog_setStatus[where g = g and r = r' and i = i and st = st and j = j] c' by simp
  then show ?thesis
    using r' c' by (simp add: engine_setStatus_def split: sum.split prod.split)
qed

lemma src_at_drain_replaced:
  "eng_sync g \<Longrightarrow> src_at (snd (drain_replaced rn es g)) j = src_at g j"
proof (induction es arbitrary: g)
  case (Cons x es)
  have "src_at (drain_one i g) j = src_at g j" for i by (simp add: drain_one_def)
  with Cons show ?case
    by (simp add: drain_replaced_Cons drain_one_sync del: drain_replaced.simps(2))
qed simp

lemma src_at_Unload:
  "src_at (snd (engine_Unload i force g)) j =
     (if j = i \<and> fst (engine_Unload i force g) = Inr True then None else src_at g j)"
proof -
  obtain o1 r' where r': "registry_unload i force (eng_registry g) = (o1, r')"
    by (cases "registry_unload i force (eng_registry g)")
  show ?thesis
    using r' by (auto simp: engine_Unload_def src_at_def get_remove get_setStatus option.map_comp comp_def
        split: sum.split prod.split)
qed

text \<open>A registration succeeds only where the name is free or belongs to the same source.\<close>

lemma src_at_register:
  assumes sync: "eng_sync g" and reg: "engine_register rn replace g = (res, g')"
  shows "res = Inl err \<Longrightarrow> src_at g' j = src_at g j"
    "res = Inr () \<Longrightarrow> src_at g' j = (if j = reg_id rn then Some (src_ID (td_Source (reg_Descriptor rn))) else src_at g j)"
    "res = Inr () \<Longrightarrow> src_at g (reg_id rn) = None \<or> src_at g (reg_id rn) = Some (src_ID (td_Source (reg_Descriptor rn)))"
proof -
  let ?ex = "catalog_byModelName (tid_Namespace (reg_id rn)) (tid_Name (reg_id rn)) (eng_catalog g)"
  define d where "d = (if replace then drain_replaced rn ?ex g else (Inr (), g))"
  obtain o1 g1 where g1: "d = (o1, g1)" by (cases d)
  have src1: "src_at g1 j = src_at g j" for j
    using src_at_drain_replaced[OF sync, of rn ?ex j] g1 by (auto simp: d_def split: if_splits)
  obtain o2 r' where r': "registry_register rn replace (eng_registry g1) = (o2, r')"
    by (cases "registry_register rn replace (eng_registry g1)")
  have ups: "src_at (g1\<lparr>eng_registry := r', eng_catalog := snd (catalog_upsert (reg_Descriptor rn) gen st (eng_catalog g1))\<rparr>) j =
      (if j = reg_id rn then Some (src_ID (td_Source (reg_Descriptor rn))) else src_at g1 j)" for gen st j
    by (simp add: src_at_def get_upsert)
  note unf = reg[unfolded engine_register_def Let_def d_def[symmetric] g1]
  from unf r' src1 show "res = Inl err \<Longrightarrow> src_at g' j = src_at g j"
    by (auto split: if_splits option.splits sum.splits)
  from unf r' src1 ups show "res = Inr () \<Longrightarrow>
      src_at g' j = (if j = reg_id rn then Some (src_ID (td_Source (reg_Descriptor rn))) else src_at g j)"
    by (auto split: if_splits option.splits sum.splits)
  assume "res = Inr ()"
  with unf have o1: "o1 = Inr ()" "replace \<or> ?ex = []" by (auto split: if_splits option.splits sum.splits)
  show "src_at g (reg_id rn) = None \<or> src_at g (reg_id rn) = Some (src_ID (td_Source (reg_Descriptor rn)))"
  proof (cases "gm_get (cat_entries (eng_catalog g)) (reg_id rn)")
    case (Some e)
    then have mem: "e \<in> set ?ex" using byModelName_iff[OF eng_syncD(2)[OF sync]] by blast
    with o1 g1 have "drain_replaced rn ?ex g = (Inr (), g1)" by (auto simp: d_def split: if_splits)
    with drain_replaced_foreign[OF sync mem, of rn] Some show ?thesis by (force simp: src_at_def)
  qed (simp add: src_at_def)
qed

lemma validate_source:
  assumes "validate_registrations sid trust seen rns = None"
  shows "rn \<in> set rns \<Longrightarrow> src_ID (td_Source (reg_Descriptor rn)) = sid"
  using assms
  by (induction sid trust seen rns rule: validate_registrations.induct) (auto simp: Let_def split: if_splits option.splits)

lemma load_loop_src:
  assumes "eng_sync g" "load_loop sid ids rns g = (Inr loaded, h)"
    "\<And>rn. rn \<in> set rns \<Longrightarrow> src_ID (td_Source (reg_Descriptor rn)) = sid"
  shows "eng_sync h" "j \<in> set ids \<Longrightarrow> src_at g j = Some sid \<Longrightarrow> src_at h j = Some sid"
    "j \<in> reg_id ` set rns \<Longrightarrow> src_at h j = Some sid"
    "src_at g j = Some x \<Longrightarrow> src_at h j = Some x"
    "set loaded = set ids \<union> reg_id ` set rns"
proof -
  have "eng_sync h \<and> (\<forall>j x. src_at g j = Some x \<longrightarrow> src_at h j = Some x) \<and>
      (\<forall>j \<in> reg_id ` set rns. src_at h j = Some sid) \<and> set loaded = set ids \<union> reg_id ` set rns"
    using assms
  proof (induction rns arbitrary: ids g)
    case (Cons rn rns)
    obtain o1 g1 where g1: "engine_Register rn g = (o1, g1)" by (cases "engine_Register rn g")
    with Cons.prems(2) have ok: "o1 = Inr ()" "load_loop sid (List.insert (reg_id rn) ids) rns g1 = (Inr loaded, h)"
      by (auto split: sum.splits prod.splits option.splits)
    have sync1: "eng_sync g1"
      using engine_register_sync[OF Cons.prems(1), of rn False] g1 by (simp add: engine_Register_def)
    have r: "engine_register rn False g = (Inr (), g1)" using g1 ok by (simp add: engine_Register_def)
    note src = src_at_register(2)[OF Cons.prems(1) r refl]
    have none: "src_at g (reg_id rn) = None"
      using engine_Register_Inr(2)[OF Cons.prems(1), of rn g1] g1 ok by (simp add: src_at_def)
    have keep: "src_at g j = Some x \<Longrightarrow> src_at g1 j = Some x" for j x using src[of j] none by auto
    have new: "src_at g1 (reg_id rn) = Some sid" using src[of "reg_id rn"] Cons.prems(3)[of rn] by simp
    from Cons.IH[OF sync1 ok(2)] Cons.prems(3) have
      ih: "eng_sync h" "\<forall>j x. src_at g1 j = Some x \<longrightarrow> src_at h j = Some x" "\<forall>j \<in> reg_id ` set rns. src_at h j = Some sid"
      "set loaded = set (List.insert (reg_id rn) ids) \<union> reg_id ` set rns" by auto
    from ih keep new show ?case by auto
  qed auto
  then show "eng_sync h" "j \<in> set ids \<Longrightarrow> src_at g j = Some sid \<Longrightarrow> src_at h j = Some sid"
    "j \<in> reg_id ` set rns \<Longrightarrow> src_at h j = Some sid" "src_at g j = Some x \<Longrightarrow> src_at h j = Some x"
    "set loaded = set ids \<union> reg_id ` set rns" by auto
qed

lemma owns_wf_Load:
  assumes "owns_wf m"
  shows "owns_wf (snd (source_Load so m))"
proof -
  obtain res m' where r: "source_Load so m = (res, m')" by (cases "source_Load so m")
  show ?thesis
  proof (cases res)
    case (Inl err)
    have "owns_wf (m\<lparr>sm_engine := g\<rparr>)" if "load_loop sid [] rns (sm_engine m) = (Inl err, g)" for sid rns g
      using load_loop_Inl[OF owns_wfD(1)[OF assms] that] assms by (auto simp: owns_wf_def src_at_def eng_equiv_def)
    with source_Load_Inl[of so m err m'] r Inl assms show ?thesis by auto
  next
    case (Inr u)
    from r Inr have "source_Load so m = (Inr u, m')" by simp
    from source_Load_Inr[OF this] obtain s rns loaded g where "so = Some s" and
      l: "validateSourceRegistrations (ts_SourceID s) (ts_TrustLevel s) rns = None"
      "load_loop (ts_SourceID s) [] rns (sm_engine m) = (Inr loaded, g)"
      "m' = m\<lparr>sm_engine := g, sm_tools := gm_put (ts_SourceID s) loaded (sm_tools m)\<rparr>" by blast
    have "src_ID (td_Source (reg_Descriptor rn)) = ts_SourceID s" if "rn \<in> set rns" for rn
      using validate_source[OF l(1)[unfolded validateSourceRegistrations_def] that] .
    note ls = load_loop_src[OF owns_wfD(1)[OF assms] l(2) this]
    have "added [] (sm_engine m) (sm_engine m)" by (simp add: added_Nil owns_wfD(1)[OF assms])
    from load_loop_result[OF this _ l(2)] have "distinct loaded" by simp
    then show ?thesis
      using ls(1,3,4,5) owns_wfD(2,3)[OF assms] r l(3) by (auto simp: owns_wf_def split: if_splits)
  qed
qed

text \<open>Changing the engine without taking any source's tool away keeps ownership.\<close>

lemma owns_wf_engine:
  assumes "owns_wf m" "eng_sync g" "\<And>j x. src_at (sm_engine m) j = Some x \<Longrightarrow> src_at g j = Some x"
  shows "owns_wf (m\<lparr>sm_engine := g\<rparr>)"
  using assms by (auto simp: owns_wf_def)

lemma owns_wf_owner: "owns_wf m \<Longrightarrow> gm_get (sm_tools m) a = Some la \<Longrightarrow> gm_get (sm_tools m) b = Some lb \<Longrightarrow>
    i \<in> set la \<Longrightarrow> i \<in> set lb \<Longrightarrow> a = b"
  using owns_wfD(2) by (metis option.inject)

lemma owns_wf_Unload_one:
  assumes m: "owns_wf m" and l: "gm_get (sm_tools m) sid = Some loaded" "i \<in> set loaded"
    and u: "engine_Unload i force (sm_engine m) = (res, g)"
  shows "res \<noteq> Inr True \<Longrightarrow> owns_wf (m\<lparr>sm_engine := g\<rparr>)"
    "distinct rest \<Longrightarrow> set rest \<subseteq> set loaded - {i} \<Longrightarrow> owns_wf (m\<lparr>sm_engine := g, sm_tools := gm_put sid rest (sm_tools m)\<rparr>)"
proof -
  have sync: "eng_sync g" using engine_Unload_sync[OF owns_wfD(1)[OF m], of i force] u by simp
  have src: "src_at g j = (if j = i \<and> res = Inr True then None else src_at (sm_engine m) j)" for j
    using src_at_Unload[of i force "sm_engine m" j] u by simp
  show "res \<noteq> Inr True \<Longrightarrow> owns_wf (m\<lparr>sm_engine := g\<rparr>)"
    using owns_wf_engine[OF m sync] src by simp
  assume d: "distinct rest" and rest: "set rest \<subseteq> set loaded - {i}"
  have "src_at g j = Some s'" if "gm_get (gm_put sid rest (sm_tools m)) s' = Some l'" "j \<in> set l'" for s' l' j
  proof -
    from that rest obtain l0 where l0: "gm_get (sm_tools m) s' = Some l0" "j \<in> set l0" "s' = sid \<longrightarrow> j \<noteq> i"
      using l(1) by (cases "s' = sid") auto
    then have "j \<noteq> i" using owns_wf_owner[OF m l0(1) l(1), of i] l(2) by auto
    with src owns_wfD(2)[OF m l0(1,2)] show ?thesis by simp
  qed
  with sync d owns_wfD(3)[OF m] show "owns_wf (m\<lparr>sm_engine := g, sm_tools := gm_put sid rest (sm_tools m)\<rparr>)"
    by (simp add: owns_wf_def)
qed

lemma replace_foreign_kept:
  assumes "eng_sync g" "engine_Replace rn g = (res, g')" "gm_get (cat_entries (eng_catalog g)) i = Some e"
    "src_ID (td_Source (ce_descriptor e)) \<noteq> src_ID (td_Source (reg_Descriptor rn))"
  shows "gm_get (cat_entries (eng_catalog g')) i = Some e"
proof -
  note wf = eng_syncD(2)[OF assms(1)]
  let ?ex = "catalog_byModelName (tid_Namespace (reg_id rn)) (tid_Name (reg_id rn)) (eng_catalog g)"
  obtain o1 g1 where d: "drain_replaced rn ?ex g = (o1, g1)" by (cases "drain_replaced rn ?ex g")
  have "src_ID (td_Source (ce_descriptor x)) \<noteq> src_ID (td_Source (reg_Descriptor rn))"
    if x: "x \<in> set ?ex" "td_ID (ce_descriptor x) = i" for x
  proof -
    from x(1) obtain j where "gm_get (cat_entries (eng_catalog g)) j = Some x"
      by (auto simp: byModelName_iff[OF wf])
    with catalog_wfD(2)[OF wf] x(2) assms(3,4) show ?thesis by auto
  qed
  from drain_replaced_other[OF assms(1) d this] have kept: "gm_get (cat_entries (eng_catalog g1)) i = Some e"
    using assms(3) by simp
  have "i \<noteq> reg_id rn" if "res = Inr ()"
    using src_at_register(3)[OF assms(1) assms(2)[unfolded engine_Replace_def] that] assms(3,4)
    by (auto simp: src_at_def)
  with assms(2) d kept assms(3) show ?thesis
    by (auto simp: engine_Replace_def engine_register_def Let_def get_upsert
        split: if_splits option.splits sum.splits prod.splits)
qed

lemma owns_wf_Apply:
  assumes m: "owns_wf m"
  shows "owns_wf (snd (source_Apply so ev m))"
proof -
  note sync = owns_wfD(1)[OF m]
  have "owns_wf (m\<lparr>sm_engine := snd (engine_setStatus verb st i (sm_engine m))\<rparr>)" for verb st i
    by (rule owns_wf_engine[OF m engine_setStatus_sync[OF sync]]) simp
  then have status: "owns_wf (snd (case engine_setStatus verb st i (sm_engine m) of (res, g) \<Rightarrow> (res, m\<lparr>sm_engine := g\<rparr>)))" for verb st i
    by (simp add: case_prod_beta)
  have unload: "owns_wf (snd (case engine_Unload i force (sm_engine m) of
        (Inl err, g) \<Rightarrow> (Inl err, m\<lparr>sm_engine := g\<rparr>)
      | (Inr complete, g) \<Rightarrow> (Inr (), m\<lparr>sm_engine := g,
          sm_tools := (if complete then gm_put sid (removeAll i loaded) (sm_tools m) else sm_tools m)\<rparr>)))"
    if l: "gm_get (sm_tools m) sid = Some loaded" "i \<in> set loaded" for i force sid loaded
  proof -
    obtain res g where u: "engine_Unload i force (sm_engine m) = (res, g)"
      by (cases "engine_Unload i force (sm_engine m)")
    from owns_wf_Unload_one(1)[OF m l u] owns_wf_Unload_one(2)[OF m l u, of "removeAll i loaded"] u
      owns_wfD(3)[OF m l(1)] show ?thesis
      by (auto simp: distinct_removeAll split: sum.split)
  qed
  have upsert: "owns_wf (snd (case engine_Replace rn (sm_engine m) of
        (Inl err, g) \<Rightarrow> (Inl (f err), m\<lparr>sm_engine := g\<rparr>)
      | (Inr _, g) \<Rightarrow> (Inr (), m\<lparr>sm_engine := g, sm_tools := gm_put sid (List.insert (reg_id rn) loaded) (sm_tools m)\<rparr>)))"
    if l: "gm_get (sm_tools m) sid = Some loaded" "src_ID (td_Source (reg_Descriptor rn)) = sid"
    for rn sid loaded and f :: "gerr \<Rightarrow> gerr"
  proof -
    obtain res g where r: "engine_register rn True (sm_engine m) = (res, g)"
      by (cases "engine_register rn True (sm_engine m)")
    have g: "eng_sync g" using engine_register_sync[OF sync, of rn True] r by simp
    show ?thesis
    proof (cases res)
      case (Inl err)
      with src_at_register(1)[OF sync r] owns_wf_engine[OF m g] r show ?thesis
        by (simp add: engine_Replace_def)
    next
      case (Inr u)
      then have u: "res = Inr ()" by simp
      note src = src_at_register(2)[OF sync r u] src_at_register(3)[OF sync r u]
      have keep: "src_at g j = Some x" if "src_at (sm_engine m) j = Some x" for j x
        using src l(2) that by (auto split: if_splits)
      have "owns_wf (m\<lparr>sm_engine := g, sm_tools := gm_put sid (List.insert (reg_id rn) loaded) (sm_tools m)\<rparr>)"
        using g keep src(1)[of "reg_id rn"] l owns_wfD(2,3)[OF m]
        by (simp add: owns_wf_def)
      with r u show ?thesis by (simp add: engine_Replace_def)
    qed
  qed
  show ?thesis
    using m status unload upsert validate_source[of _ _ "[]"]
    by (cases ev) (auto simp: source_Apply_def Let_def validateSourceRegistrations_def engine_Enable_def engine_Disable_def
        split: option.split)
qed

lemma owns_wf_unload_loop:
  assumes "owns_wf m" "gm_get (sm_tools m) sid = Some loaded" "set is \<subseteq> set loaded" "distinct is"
    "unload_loop force is loaded complete (sm_engine m) = ((x, rest, c), g)"
  shows "owns_wf (m\<lparr>sm_engine := g, sm_tools := gm_put sid rest (sm_tools m)\<rparr>) \<and> set rest \<subseteq> set loaded"
  using assms
proof (induction "is" arbitrary: m loaded complete)
  case Nil
  then have same: "g = sm_engine m" "rest = loaded" by auto
  from Nil.prems(1,2) have "owns_wf (m\<lparr>sm_tools := gm_put sid loaded (sm_tools m)\<rparr>)" by (auto simp: owns_wf_def)
  with same show ?case by (simp add: surjective)
next
  case (Cons i "is")
  obtain res g1 where u: "engine_Unload i force (sm_engine m) = (res, g1)"
    by (cases "engine_Unload i force (sm_engine m)")
  have i: "i \<in> set loaded" using Cons.prems(3) by simp
  note one = owns_wf_Unload_one[OF Cons.prems(1,2) i u]
  let ?m1 = "m\<lparr>sm_engine := g1\<rparr>" and ?m2 = "m\<lparr>sm_engine := g1, sm_tools := gm_put sid (removeAll i loaded) (sm_tools m)\<rparr>"
  have sub: "set is \<subseteq> set (removeAll i loaded)" using Cons.prems(3,4) by auto
  have m2: "owns_wf ?m2" by (rule one(2)) (use owns_wfD(3)[OF Cons.prems(1,2)] in \<open>auto simp: distinct_removeAll\<close>)
  consider (fatal) "g = g1" "rest = loaded" "res \<noteq> Inr True"
    | (drop) "unload_loop force is (removeAll i loaded) complete (sm_engine ?m2) = ((x, rest, c), g)"
    | (keep) "res \<noteq> Inr True" "unload_loop force is loaded False (sm_engine ?m1) = ((x, rest, c), g)"
    using Cons.prems(5) u by (auto split: sum.splits if_splits)
  then show ?case
  proof cases
    case fatal
    with one(1) Cons.prems(2) show ?thesis by (auto simp: owns_wf_def)
  next
    case drop
    from Cons.IH[OF m2 _ sub _ drop] Cons.prems(4) show ?thesis by simp auto
  next
    case keep
    from Cons.IH[OF one(1)[OF keep(1)] _ _ _ keep(2)] Cons.prems show ?thesis by simp
  qed
qed

lemma owns_wf_Unload:
  assumes m: "owns_wf m"
  shows "owns_wf (snd (source_Unload sid force m))"
proof (cases "gm_get (sm_tools m) sid")
  case (Some loaded)
  obtain x rest c g where u: "unload_loop force loaded loaded True (sm_engine m) = ((x, rest, c), g)"
    by (metis prod.collapse)
  from owns_wf_unload_loop[OF m Some order_refl owns_wfD(3)[OF m Some] u]
  have put: "owns_wf (m\<lparr>sm_engine := g, sm_tools := gm_put sid rest (sm_tools m)\<rparr>)" by simp
  then have "owns_wf (m\<lparr>sm_engine := g, sm_tools := gm_del sid (sm_tools m)\<rparr>)"
    by (auto simp: owns_wf_def split: if_splits)
  with put u Some show ?thesis by (auto simp: source_Unload_def split: option.split)
qed (use m in \<open>simp add: source_Unload_def\<close>)

text \<open>The manager's operations, interleaved with the calls that use the engine.\<close>

inductive sm_reachable :: "'f source_manager \<Rightarrow> bool" where
  sm_init: "sm_reachable (NewSourceManager NewEngine)"
| sm_load: "sm_reachable m \<Longrightarrow> sm_reachable (snd (source_Load so m))"
| sm_apply: "sm_reachable m \<Longrightarrow> sm_reachable (snd (source_Apply so ev m))"
| sm_unload: "sm_reachable m \<Longrightarrow> sm_reachable (snd (source_Unload sid force m))"
| sm_begin: "sm_reachable m \<Longrightarrow>
    sm_reachable (m\<lparr>sm_engine := snd (execute_begin policy sha now snapshot invocation grant (sm_engine m))\<rparr>)"
| sm_end: "sm_reachable m \<Longrightarrow>
    sm_reachable (m\<lparr>sm_engine := (sm_engine m)\<lparr>eng_registry := registry_release a n (eng_registry (sm_engine m))\<rparr>\<rparr>)"

lemma sm_reachable_owns: "sm_reachable m \<Longrightarrow> owns_wf m"
proof (induction rule: sm_reachable.induct)
  case sm_init
  then show ?case by (simp add: owns_wf_def NewSourceManager_def NewEngine_sync)
next
  case (sm_begin m policy sha now snapshot invocation grant)
  show ?case
    by (rule owns_wf_engine[OF sm_begin(2) execute_begin_sync[OF owns_wfD(1)[OF sm_begin(2)]]]) (simp add: src_at_def)
next
  case (sm_end m a n)
  show ?case
    by (rule owns_wf_engine[OF sm_end(2) release_sync[OF owns_wfD(1)[OF sm_end(2)]]]) simp
qed (simp_all add: owns_wf_Load owns_wf_Apply owns_wf_Unload)

lemma sm_engine_case:
  "sm_engine (snd (case sm of Inl er \<Rightarrow> (Inl (f er), m\<lparr>sm_engine := g\<rparr>)
     | Inr b \<Rightarrow> (Inr (), m\<lparr>sm_engine := g, sm_tools := h b\<rparr>))) = g"
  "sm_engine (snd (case sm of Inl er \<Rightarrow> (Inl er, m\<lparr>sm_engine := g\<rparr>)
     | Inr b \<Rightarrow> (Inr (), m\<lparr>sm_engine := g, sm_tools := h b\<rparr>))) = g"
  by (simp_all split: sum.split)

text \<open>Sources are isolated from each other: whatever event a source sends, and whether it succeeds or
  fails, the catalog entry of a tool that belongs to another source stays exactly as it was.\<close>

lemma apply_isolates_sources:
  assumes "sm_reachable m" "gm_get (cat_entries (eng_catalog (sm_engine m))) i = Some e"
    "src_ID (td_Source (ce_descriptor e)) \<noteq> ts_SourceID s"
  shows "gm_get (cat_entries (eng_catalog (sm_engine (snd (source_Apply (Some s) ev m))))) i = Some e"
proof -
  note m = sm_reachable_owns[OF assms(1)]
  note sync = owns_wfD(1)[OF m]
  have own: "j \<noteq> i" if "gm_get (sm_tools m) (ts_SourceID s) = Some loaded" "j \<in> set loaded" for j loaded
    using owns_wfD(2)[OF m that] assms(2,3) by (auto simp: src_at_def)
  have status: "gm_get (cat_entries (eng_catalog (snd (engine_setStatus verb st j (sm_engine m))))) i = Some e"
    if "j \<noteq> i" for verb st j
    using that assms(2) get_setStatus[of j st "eng_catalog (sm_engine m)" i]
    by (auto simp: engine_setStatus_def split: sum.split prod.split)
  have unload: "gm_get (cat_entries (eng_catalog (snd (engine_Unload j force (sm_engine m))))) i = Some e"
    if "j \<noteq> i" for j force
    using that assms(2) by (auto simp: engine_Unload_def get_remove get_setStatus split: sum.split prod.split)
  have replace: "gm_get (cat_entries (eng_catalog (snd (engine_Replace rn (sm_engine m))))) i = Some e"
    if "validate_registrations (ts_SourceID s) trust [] [rn] = None" for trust rn
    using replace_foreign_kept[OF sync prod.collapse[symmetric] assms(2), of rn] validate_source[OF that, of rn] assms(3)
    by simp
  show ?thesis
  proof (cases "ts_SourceID s \<noteq> [] \<and> gm_get (sm_tools m) (ts_SourceID s) \<noteq> None")
    case True
    then obtain loaded where l: "ts_SourceID s \<noteq> []" "gm_get (sm_tools m) (ts_SourceID s) = Some loaded" by auto
    show ?thesis
      using own[OF l(2)] status unload replace[of "ts_TrustLevel s"] assms(2)
      by (cases ev) (auto simp: source_Apply_def Let_def l validateSourceRegistrations_def engine_Enable_def engine_Disable_def
          sm_engine_case case_prod_beta split: option.split)
  qed (use assms(2) in \<open>auto simp: source_Apply_def Let_def\<close>)
qed

section \<open>Concrete runs\<close>

text \<open>Two versions of one tool: the second registration is refused and the first rolled back.\<close>

definition sample_source :: "unit tool_source" where
  "sample_source = \<lparr>ts_SourceID = ''builtin'', ts_TrustLevel = TrustBuiltin,
     ts_Snapshot = Inr [sample_registration sample_tool, sample_registration (sample_tool\<lparr>tid_Version := ''2.0.0''\<rparr>)]\<rparr>"

definition sample_manager :: "unit source_manager" where
  "sample_manager = snd (source_Load (Some (sample_source\<lparr>ts_Snapshot := Inr [sample_registration sample_tool]\<rparr>)) (NewSourceManager NewEngine))"

end
