(* ===== verification/Agent_Policy.thy ===== *)
theory Agent_Policy
  imports Tool_Engine
begin

text \<open>
  The policy the manager installs in the tool engine
  (src/pkg/liaison/manager/agent/policy/authorization.go). The authorizer consults the IAM service and is
  the parameter \<open>authorize\<close>: \<open>None\<close> grants the action on the resource.

  The lemmas: what each decision means for the principal's rights at the time of the call, and the
  consequence for execution through the engine.
\<close>

type_synonym authorize_func = "principal \<Rightarrow> string \<Rightarrow> string \<Rightarrow> gerr option"

definition agentSessionResource :: string where
  "agentSessionResource = ''agent_sessions''"

definition NewAuthorizationPolicy :: "authorize_func option \<Rightarrow> gerr + authorize_func" where
  "NewAuthorizationPolicy a =
     (case a of None \<Rightarrow> Inl (ErrNew ''agent tool policy requires an authorizer'') | Some f \<Rightarrow> Inr f)"

definition session_resource :: "tool_invocation \<Rightarrow> string" where
  "session_resource invocation =
     (if bind_SessionKind (inv_Binding invocation) = SessionManagement then ''management_agent_sessions''
      else agentSessionResource)"

definition deny :: "string \<Rightarrow> decision" where
  "deny reason = \<lparr>dec_Effect = DecisionDeny, dec_Reason = reason, dec_Risk = RiskReadOnly,
     dec_ApprovalPolicy = [], dec_NormalizedInput = []\<rparr>"

definition AuthorizationPolicy_Evaluate ::
  "authorize_func \<Rightarrow> tool_invocation \<Rightarrow> tool_descriptor \<Rightarrow> gerr + decision" where
  "AuthorizationPolicy_Evaluate authorize invocation d =
     (let principal = bind_Principal (inv_Binding invocation) in
      if prin_UserID principal = 0 \<or> prin_OrganizationID principal = 0 then Inr (deny ''missing principal binding'')
      else case authorize principal (session_resource invocation) ''use'' of
        Some err \<Rightarrow> Inl err
      | None \<Rightarrow>
          let decision =
            (let base = \<lparr>dec_Effect = DecisionAllow, dec_Reason = [], dec_Risk = td_Risk d, dec_ApprovalPolicy = [],
                         dec_NormalizedInput = call_Input (inv_Call invocation)\<rparr>
             in if td_Approval d = ApprovalAlways \<or> td_Approval d = ApprovalByPolicy \<and> td_Risk d \<ge> RiskMedium
                then base\<lparr>dec_Effect := DecisionRequireApproval, dec_Reason := ''operation requires explicit approval'',
                          dec_ApprovalPolicy := ''agent-medium-risk-v1''\<rparr>
                else base)
          in case td_Permission d of
               None \<Rightarrow> Inr decision
             | Some permission \<Rightarrow>
                 if perm_Resource permission = [] \<or> perm_Action permission = []
                 then Inr (deny ''invalid resource permission'')
                 else case authorize principal (perm_Resource permission) (perm_Action permission) of
                        Some err \<Rightarrow> Inl err
                      | None \<Rightarrow> Inr decision)"

text \<open>The rights a call needs: use of the session's resource and the tool's own permission.\<close>

definition call_authorized :: "authorize_func \<Rightarrow> tool_invocation \<Rightarrow> tool_descriptor \<Rightarrow> bool" where
  "call_authorized authorize invocation d \<longleftrightarrow>
     (let principal = bind_Principal (inv_Binding invocation) in
      prin_UserID principal \<noteq> 0 \<and> prin_OrganizationID principal \<noteq> 0 \<and>
      authorize principal (session_resource invocation) ''use'' = None \<and>
      (case td_Permission d of None \<Rightarrow> True
       | Some p \<Rightarrow> perm_Resource p \<noteq> [] \<and> perm_Action p \<noteq> [] \<and> authorize principal (perm_Resource p) (perm_Action p) = None))"

definition needs_approval :: "tool_descriptor \<Rightarrow> bool" where
  "needs_approval d \<longleftrightarrow> td_Approval d = ApprovalAlways \<or> td_Approval d = ApprovalByPolicy \<and> td_Risk d \<ge> RiskMedium"

lemma evaluate_Inr_cases:
  assumes "AuthorizationPolicy_Evaluate authorize invocation d = Inr dc"
  shows "dec_Effect dc = DecisionDeny \<or>
    call_authorized authorize invocation d \<and> dec_NormalizedInput dc = call_Input (inv_Call invocation) \<and>
    dec_Effect dc = (if needs_approval d then DecisionRequireApproval else DecisionAllow)"
  using assms
  by (auto simp: AuthorizationPolicy_Evaluate_def call_authorized_def needs_approval_def deny_def Let_def
      split: if_splits option.splits)

text \<open>The policy allows a call outright exactly when the principal is complete, holds at this moment the
  right to use the session's kind of agent and the tool's own permission, and the tool needs no
  approval; it asks for approval exactly when the rights hold and the tool needs approval.\<close>

lemma policy_decides_exactly:
  "((\<exists>dc. AuthorizationPolicy_Evaluate authorize invocation d = Inr dc \<and> dec_Effect dc = DecisionAllow) \<longleftrightarrow>
      call_authorized authorize invocation d \<and> \<not> needs_approval d) \<and>
   ((\<exists>dc. AuthorizationPolicy_Evaluate authorize invocation d = Inr dc \<and> dec_Effect dc = DecisionRequireApproval) \<longleftrightarrow>
      call_authorized authorize invocation d \<and> needs_approval d)"
  by (auto simp: AuthorizationPolicy_Evaluate_def call_authorized_def needs_approval_def deny_def Let_def
      split: if_splits option.splits)

text \<open>C3: under this policy no tool runs for a principal without the current rights, and a tool that needs
  approval runs only on a grant that validates exactly this call: its input is the one requested.\<close>

theorem authorized_execution:
  assumes "execute_begin (AuthorizationPolicy_Evaluate authorize) sha now snapshot invocation grant g =
    (Inr (inv2, exposed, lease), g')"
  shows "call_authorized authorize invocation (exp_Descriptor exposed) \<and>
    call_Input (inv_Call inv2) = call_Input (inv_Call invocation) \<and>
    (needs_approval (exp_Descriptor exposed) \<longrightarrow> (\<exists>gr. grant = Some gr \<and> grant_validates sha gr inv2 snapshot now))"
proof -
  note c = execute_check_Inr[OF execute_begin_Inr(1)[OF assms]]
  let ?inv = "invocation\<lparr>inv_RegistrationGeneration := exp_RegistrationGeneration exposed\<rparr>"
  from c(8) obtain dc where dc: "AuthorizationPolicy_Evaluate authorize ?inv (exp_Descriptor exposed) = Inr dc"
    "decision_blocks sha now snapshot grant inv2 dc = None" by auto
  have auth: "call_authorized authorize ?inv d \<longleftrightarrow> call_authorized authorize invocation d" for d
    by (simp add: call_authorized_def session_resource_def Let_def)
  from evaluate_Inr_cases[OF dc(1)] dc(2) have
    r: "call_authorized authorize invocation (exp_Descriptor exposed)"
    "dec_NormalizedInput dc = call_Input (inv_Call invocation)"
    "needs_approval (exp_Descriptor exposed) \<Longrightarrow> dec_Effect dc = DecisionRequireApproval"
    by (auto simp: auth decision_blocks_None)
  have "call_Input (inv_Call inv2) = call_Input (inv_Call invocation)"
    using c(9)[OF dc(1)] r(2) by simp
  with r dc(2) show ?thesis by (auto simp: decision_blocks_None)
qed

theorem authorized_execution_witness:
  "\<exists>inv2 exposed lease g'. execute_begin (AuthorizationPolicy_Evaluate (\<lambda>p r a. None)) (\<lambda>c. c) 7 sample_snap sample_call None sample_engine =
     (Inr (inv2, exposed, lease), g') \<and> call_authorized (\<lambda>p r a. None) sample_call (exp_Descriptor exposed)"
proof -
  have "\<not> isl (fst (execute_begin (AuthorizationPolicy_Evaluate (\<lambda>p r a. None)) (\<lambda>c. c) 7 sample_snap sample_call None sample_engine))"
    by code_simp
  then obtain inv2 exposed lease g' where
    b: "execute_begin (AuthorizationPolicy_Evaluate (\<lambda>p r a. None)) (\<lambda>c. c) 7 sample_snap sample_call None sample_engine =
     (Inr (inv2, exposed, lease), g')"
    by (metis (no_types, lifting) isl_def prod.collapse sum.collapse(2))
  from authorized_execution[OF b] b show ?thesis by blast
qed

end
