(* ===== verification/Access_Sessions.thy ===== *)
theory Access_Sessions
  imports Liaison_Prelude
begin

text \<open>
  The registry of live protocol sessions (src/pkg/liaison/manager/accesssession/registry.go). A handle carries the descriptor
  the server wrote for the connection and the handlers of its protocol; a handler is an opaque connection identity, type \<open>'c\<close>.
  The mutex makes every method one transition; the closure that \<^verbatim>\<open>Register\<close> returns is the pair of identifier and
  generation it captured.

  Main lemma: whoever learned a descriptor can only ever resolve it to the very connection it described, however many connections
  were registered under the same identifier since (\<open>same_generation_same_handle\<close>).
\<close>

section \<open>Handles and the registry\<close>

record descriptor =
  ds_ID :: string
  ds_UserID :: nat
  ds_AccessID :: nat
  ds_ApplicationID :: nat
  ds_Protocol :: string
  ds_Capabilities :: "string list"
  ds_Generation :: u64

record resolve_request =
  rr_ID :: string
  rr_UserID :: nat
  rr_AccessID :: nat
  rr_ApplicationID :: nat
  rr_Protocol :: string
  rr_Generation :: u64

record 'c handle =
  hd_Descriptor :: descriptor
  hd_Terminal :: "'c option"
  hd_Data :: "'c option"
  hd_Desktop :: "'c option"

record 'c access_registry =
  ar_handles :: "(string, 'c handle) gomap"
  ar_generations :: "(string, u64) gomap"

definition NewAccessRegistry :: "'c access_registry" where
  "NewAccessRegistry = \<lparr>ar_handles = [], ar_generations = []\<rparr>"

text \<open>The result: the descriptor and what the unregister closure captured.\<close>

definition access_Register :: "'c handle \<Rightarrow> 'c access_registry \<Rightarrow> (gerr + descriptor \<times> (string \<times> u64)) \<times> 'c access_registry" where
  "access_Register h r =
     (let d = hd_Descriptor h in
      if ds_ID d = [] \<or> ds_UserID d = 0 \<or> ds_AccessID d = 0 \<or> ds_Protocol d = []
      then (Inl (ErrNew ''access session descriptor is incomplete''), r)
      else if hd_Terminal h = None \<and> hd_Data h = None \<and> hd_Desktop h = None
      then (Inl (ErrNew ''access session requires a protocol handler''), r)
      else
        let generation = gm_getz 0 (ar_generations r) (ds_ID d) + 1;
            d' = d\<lparr>ds_Generation := generation\<rparr>
        in (Inr (d', (ds_ID d, generation)),
            r\<lparr>ar_generations := gm_put (ds_ID d) generation (ar_generations r),
              ar_handles := gm_put (ds_ID d) (h\<lparr>hd_Descriptor := d'\<rparr>) (ar_handles r)\<rparr>))"

definition access_unregister :: "string \<times> u64 \<Rightarrow> 'c access_registry \<Rightarrow> 'c access_registry" where
  "access_unregister u r =
     (case u of (i, generation) \<Rightarrow>
        (case gm_get (ar_handles r) i of
           None \<Rightarrow> r
         | Some current \<Rightarrow>
             if ds_Generation (hd_Descriptor current) = generation then r\<lparr>ar_handles := gm_del i (ar_handles r)\<rparr> else r))"

definition access_Resolve :: "ctx_state \<Rightarrow> resolve_request \<Rightarrow> 'c access_registry \<Rightarrow> gerr + 'c handle" where
  "access_Resolve ctx request r =
     (case ctx_err ctx of Some err \<Rightarrow> Inl err
      | None \<Rightarrow>
          (case gm_get (ar_handles r) (rr_ID request) of
             None \<Rightarrow> Inl (errw ErrHandleNotFound (rr_ID request))
           | Some h \<Rightarrow>
               let d = hd_Descriptor h in
               if ds_UserID d \<noteq> rr_UserID request \<or> ds_AccessID d \<noteq> rr_AccessID request \<or>
                  ds_ApplicationID d \<noteq> rr_ApplicationID request \<or> ds_Protocol d \<noteq> rr_Protocol request \<or>
                  ds_Generation d \<noteq> rr_Generation request
               then Inl (Sentinel ErrHandleMismatch) else Inr h))"

definition access_Describe :: "ctx_state \<Rightarrow> string \<Rightarrow> nat \<Rightarrow> 'c access_registry \<Rightarrow> gerr + descriptor" where
  "access_Describe ctx i userID r =
     (case ctx_err ctx of Some err \<Rightarrow> Inl err
      | None \<Rightarrow>
          (case gm_get (ar_handles r) i of
             None \<Rightarrow> Inl (errw ErrHandleNotFound i)
           | Some h \<Rightarrow>
               if userID = 0 \<or> ds_UserID (hd_Descriptor h) \<noteq> userID then Inl (Sentinel ErrHandleMismatch)
               else Inr (hd_Descriptor h)))"

text \<open>\<open>sha\<close> is the hexadecimal SHA-256 digest; the public reference shows 24 of its digits.\<close>

definition PublicReference :: "(string \<Rightarrow> string) \<Rightarrow> string \<Rightarrow> string" where
  "PublicReference sha i = take 29 (''conn_'' @ sha i)"

text \<open>Go iterates over the map in some order, here the order of the list.\<close>

definition access_DescribeReference :: "(string \<Rightarrow> string) \<Rightarrow> ctx_state \<Rightarrow> string \<Rightarrow> nat \<Rightarrow> 'c access_registry \<Rightarrow> gerr + descriptor" where
  "access_DescribeReference sha ctx reference userID r =
     (case ctx_err ctx of Some err \<Rightarrow> Inl err
      | None \<Rightarrow>
          if userID = 0 then Inl (Sentinel ErrHandleNotFound)
          else case find (\<lambda>(_, h). ds_UserID (hd_Descriptor h) = userID \<and> PublicReference sha (ds_ID (hd_Descriptor h)) = reference) (ar_handles r) of
                 None \<Rightarrow> Inl (Sentinel ErrHandleNotFound)
               | Some (_, h) \<Rightarrow> Inr ((hd_Descriptor h)\<lparr>ds_ID := []\<rparr>))"

section \<open>Registrations over time\<close>

text \<open>The registry with the list of all handles ever registered. A generation counter does not wrap.\<close>

record 'c access_sys =
  acs_registry :: "'c access_registry"
  acs_log :: "'c handle list"

definition new_access_sys :: "'c access_sys" where
  "new_access_sys = \<lparr>acs_registry = NewAccessRegistry, acs_log = []\<rparr>"

inductive access_step :: "'c access_sys \<Rightarrow> 'c access_sys \<Rightarrow> bool" where
  register: "gm_getz 0 (ar_generations (acs_registry s)) (ds_ID (hd_Descriptor h)) \<noteq> - 1 \<Longrightarrow>
    access_Register h (acs_registry s) = (Inr (d, u), r) \<Longrightarrow>
    access_step s \<lparr>acs_registry = r, acs_log = h\<lparr>hd_Descriptor := d\<rparr> # acs_log s\<rparr>"
| unregister: "h \<in> set (acs_log s) \<Longrightarrow>
    access_step s (s\<lparr>acs_registry := access_unregister (ds_ID (hd_Descriptor h), ds_Generation (hd_Descriptor h)) (acs_registry s)\<rparr>)"

inductive access_reachable :: "'c access_sys \<Rightarrow> bool" where
  empty: "access_reachable new_access_sys"
| extend: "access_reachable s \<Longrightarrow> access_step s s' \<Longrightarrow> access_reachable s'"

definition access_key :: "'c handle \<Rightarrow> string \<times> u64" where
  "access_key h = (ds_ID (hd_Descriptor h), ds_Generation (hd_Descriptor h))"

definition access_inv :: "'c access_sys \<Rightarrow> bool" where
  "access_inv s \<longleftrightarrow> distinct (map access_key (acs_log s)) \<and>
     list_all (\<lambda>h. ds_Generation (hd_Descriptor h) \<le> gm_getz 0 (ar_generations (acs_registry s)) (ds_ID (hd_Descriptor h))) (acs_log s) \<and>
     gm_all (\<lambda>i h. ds_ID (hd_Descriptor h) = i \<and> h \<in> set (acs_log s)) (ar_handles (acs_registry s))"

lemma register_effect:
  "access_Register h r = (Inr (d, u), r') \<longleftrightarrow>
     ds_ID (hd_Descriptor h) \<noteq> [] \<and> ds_UserID (hd_Descriptor h) \<noteq> 0 \<and> ds_AccessID (hd_Descriptor h) \<noteq> 0 \<and> ds_Protocol (hd_Descriptor h) \<noteq> [] \<and>
     (hd_Terminal h \<noteq> None \<or> hd_Data h \<noteq> None \<or> hd_Desktop h \<noteq> None) \<and>
     d = (hd_Descriptor h)\<lparr>ds_Generation := gm_getz 0 (ar_generations r) (ds_ID (hd_Descriptor h)) + 1\<rparr> \<and> u = (ds_ID d, ds_Generation d) \<and>
     r' = r\<lparr>ar_generations := gm_put (ds_ID d) (ds_Generation d) (ar_generations r), ar_handles := gm_put (ds_ID d) (h\<lparr>hd_Descriptor := d\<rparr>) (ar_handles r)\<rparr>"
  by (auto simp: access_Register_def Let_def)

lemma unregister_gets:
  "gm_get (ar_handles (access_unregister u r)) i = Some h \<Longrightarrow> gm_get (ar_handles r) i = Some h"
  "ar_generations (access_unregister u r) = ar_generations r"
  by (auto simp: access_unregister_def split: prod.splits option.splits if_splits)

lemma unregister_all: "gm_all P (ar_handles r) \<Longrightarrow> gm_all P (ar_handles (access_unregister u r))"
  by (rule gm_allI) (blast dest: unregister_gets(1) gm_allD)

lemma access_step_inv:
  assumes "access_step s s'" "access_inv s"
  shows "access_inv s'"
  using assms
proof cases
  case (register h d u r)
  let ?gens = "ar_generations (acs_registry s)" and ?i = "ds_ID (hd_Descriptor h)"
  from register(3) have eff: "d = (hd_Descriptor h)\<lparr>ds_Generation := gm_getz 0 ?gens ?i + 1\<rparr>"
    "r = (acs_registry s)\<lparr>ar_generations := gm_put ?i (gm_getz 0 ?gens ?i + 1) ?gens, ar_handles := gm_put ?i (h\<lparr>hd_Descriptor := d\<rparr>) (ar_handles (acs_registry s))\<rparr>"
    by (auto simp: register_effect)
  have lt: "gm_getz 0 ?gens ?i < - 1" using register(2) by (simp add: order_less_le)
  have below: "ds_Generation (hd_Descriptor x) < gm_getz 0 ?gens ?i + 1" if "x \<in> set (acs_log s)" "ds_ID (hd_Descriptor x) = ?i" for x
    using assms(2) that u64_inc_mono[OF lt] by (auto simp: access_inv_def list_all_iff)
  then have "access_key (h\<lparr>hd_Descriptor := d\<rparr>) \<notin> set (map access_key (acs_log s))"
    by (fastforce simp: access_key_def eff(1))
  with assms(2) below show ?thesis
    by (auto simp: access_inv_def register(1) eff list_all_iff less_imp_le intro!: gm_all_put elim: gm_all_mono)
next
  case (unregister h)
  with assms(2) show ?thesis by (simp add: access_inv_def unregister_gets(2) unregister_all)
qed

lemma access_reachable_inv: "access_reachable s \<Longrightarrow> access_inv s"
proof (induction rule: access_reachable.induct)
  case empty
  show ?case by (simp add: access_inv_def new_access_sys_def NewAccessRegistry_def)
qed (rule access_step_inv)

lemma access_log_grows: "access_step\<^sup>*\<^sup>* s s' \<Longrightarrow> set (acs_log s) \<subseteq> set (acs_log s')"
  by (induction rule: rtranclp_induct) (auto elim!: access_step.cases)

lemma access_run_reachable: "access_step\<^sup>*\<^sup>* s s' \<Longrightarrow> access_reachable s \<Longrightarrow> access_reachable s'"
  by (induction rule: rtranclp_induct) (auto intro: extend)

lemma same_generation_same_handle:
  assumes "access_reachable s" "access_step\<^sup>*\<^sup>* s s'" "gm_get (ar_handles (acs_registry s)) i = Some h"
    "gm_get (ar_handles (acs_registry s')) i = Some h'" "ds_Generation (hd_Descriptor h') = ds_Generation (hd_Descriptor h)"
  shows "h' = h"
proof -
  note inv = access_reachable_inv[OF assms(1)] and inv' = access_reachable_inv[OF access_run_reachable[OF assms(2,1)]]
  have "h \<in> set (acs_log s')" "h' \<in> set (acs_log s')" "ds_ID (hd_Descriptor h) = i" "ds_ID (hd_Descriptor h') = i"
    using inv inv' assms(3,4) access_log_grows[OF assms(2)] by (auto simp: access_inv_def dest: gm_allD)
  moreover from this assms(5) have "access_key h' = access_key h" by (simp add: access_key_def)
  ultimately show ?thesis using inv' by (auto simp: access_inv_def distinct_map inj_on_def)
qed

definition described_request :: "descriptor \<Rightarrow> resolve_request" where
  "described_request d = \<lparr>rr_ID = ds_ID d, rr_UserID = ds_UserID d, rr_AccessID = ds_AccessID d, rr_ApplicationID = ds_ApplicationID d,
     rr_Protocol = ds_Protocol d, rr_Generation = ds_Generation d\<rparr>"

lemma access_Resolve_Inr:
  "access_Resolve ctx rq r = Inr h \<longleftrightarrow> ctx = CtxLive \<and> gm_get (ar_handles r) (rr_ID rq) = Some h \<and>
     ds_UserID (hd_Descriptor h) = rr_UserID rq \<and> ds_AccessID (hd_Descriptor h) = rr_AccessID rq \<and>
     ds_ApplicationID (hd_Descriptor h) = rr_ApplicationID rq \<and> ds_Protocol (hd_Descriptor h) = rr_Protocol rq \<and>
     ds_Generation (hd_Descriptor h) = rr_Generation rq"
  by (cases ctx) (auto simp: access_Resolve_def Let_def split: option.splits)

lemma access_Describe_Inr:
  "access_Describe ctx i uid r = Inr d \<longleftrightarrow> ctx = CtxLive \<and> uid \<noteq> 0 \<and>
     (\<exists>h. gm_get (ar_handles r) i = Some h \<and> d = hd_Descriptor h \<and> ds_UserID d = uid)"
  by (cases ctx) (auto simp: access_Describe_def split: option.splits)

lemma describe_resolve:
  assumes "access_reachable s" "access_Describe ctx i uid (acs_registry s) = Inr d"
  shows "\<exists>h. access_Resolve CtxLive (described_request d) (acs_registry s) = Inr h \<and> hd_Descriptor h = d"
  using assms(2) access_reachable_inv[OF assms(1)]
  by (auto simp: access_Describe_Inr access_Resolve_Inr described_request_def access_inv_def dest: gm_allD)

end
