(* ===== verification/Agent_Executor.thy ===== *)
theory Agent_Executor
  imports Tool_Source Tool_Discovery Agent_Policy Access_Sessions
begin

text \<open>
  Execution of protocol tools on live connections (src/pkg/liaison/manager/agent/executor): \<^verbatim>\<open>binding.go\<close> turns an opaque handle
  into the attachment of a call, \<^verbatim>\<open>router.go\<close> picks the executor of a protocol, \<^verbatim>\<open>session.go\<close> resolves the attachment and performs
  one operation on the connection, \<^verbatim>\<open>tools.go\<close> registers the tools.

  What a connection answers is the parameter \<open>respond\<close>; decoding of the input documents and of the result envelope is the parameter
  \<open>executor_json\<close>. An execution returns, beside its result, the operations it performed on connections, so that the properties speak
  about effects and not only about results.
\<close>

section \<open>Binding\<close>

definition AttachmentBinder_Bind :: "ctx_state \<Rightarrow> principal \<Rightarrow> string \<Rightarrow> 'c access_registry \<Rightarrow> gerr + attachment_snapshot" where
  "AttachmentBinder_Bind ctx prin handleID r =
     (if prin_UserID prin = 0 then Inl (ErrNew ''attachment principal is required'')
      else case access_Describe ctx handleID (prin_UserID prin) r of
        Inl err \<Rightarrow> Inl (ErrWrap ''describe access session: '' err [])
      | Inr d \<Rightarrow> Inr \<lparr>att_ID = ds_ID d, att_AccessID = ds_AccessID d, att_ApplicationID = ds_ApplicationID d,
          att_Protocol = ds_Protocol d, att_Capabilities = ds_Capabilities d, att_Generation = ds_Generation d,
          att_AccessHandleID = ds_ID d\<rparr>)"

section \<open>Routing\<close>

type_synonym operation = string

abbreviation OperationTerminalRead :: operation where "OperationTerminalRead \<equiv> ''terminal.read''"
abbreviation OperationTerminalExecute :: operation where "OperationTerminalExecute \<equiv> ''terminal.execute''"
abbreviation OperationDataSchema :: operation where "OperationDataSchema \<equiv> ''data.schema''"
abbreviation OperationDataQuery :: operation where "OperationDataQuery \<equiv> ''data.query''"
abbreviation OperationDesktopInfo :: operation where "OperationDesktopInfo \<equiv> ''desktop.session_info''"
abbreviation OperationDesktopCapture :: operation where "OperationDesktopCapture \<equiv> ''desktop.capture''"
abbreviation OperationDesktopInput :: operation where "OperationDesktopInput \<equiv> ''desktop.input''"

record executor_request =
  xr_Invocation :: tool_invocation
  xr_Operation :: operation
  xr_Input :: bytes

record executor_result =
  xs_Kind :: output_kind
  xs_IsError :: bool
  xs_Content :: bytes
  xs_Truncated :: bool
  xs_ArtifactID :: string

text \<open>A protocol executor; \<open>pe_ref\<close> is the identity that \<^verbatim>\<open>==\<close> compares, \<open>'e\<close> its effects on the outside.\<close>

record 'e protocol_executor =
  pe_ref :: nat
  pe_Protocols :: "protocol list"
  pe_Operations :: "operation list"
  pe_Execute :: "executor_request \<Rightarrow> (gerr + executor_result) \<times> 'e list"

type_synonym 'e router = "(protocol, 'e protocol_executor) gomap"

definition NewRouter :: "'e router" where
  "NewRouter = []"

fun router_conflict :: "'e router \<Rightarrow> protocol list \<Rightarrow> gerr option" where
  "router_conflict rt [] = None"
| "router_conflict rt (p # ps) =
     (if p = [] \<or> p = ProtocolAny then Some (ErrNew (''invalid concrete executor protocol '' @ go_quote p))
      else if gm_get rt p \<noteq> None then Some (ErrNew (''protocol '' @ p @ '' already has an executor''))
      else router_conflict rt ps)"

definition router_Register :: "'e protocol_executor \<Rightarrow> 'e router \<Rightarrow> ('e router, unit) outcome" where
  "router_Register x rt =
     (if pe_Protocols x = [] \<or> pe_Operations x = []
      then (Inl (ErrNew ''protocol executor requires protocols and operations''), rt)
      else case router_conflict rt (pe_Protocols x) of
        Some err \<Rightarrow> (Inl err, rt)
      | None \<Rightarrow> (Inr (), fold (\<lambda>p. gm_put p x) (pe_Protocols x) rt))"

definition router_Unregister :: "'e protocol_executor \<Rightarrow> 'e router \<Rightarrow> 'e router" where
  "router_Unregister x rt = filter (\<lambda>(_, registered). pe_ref registered \<noteq> pe_ref x) rt"

definition supportsOperation :: "operation list \<Rightarrow> operation \<Rightarrow> bool" where
  "supportsOperation operations wanted = list_ex (\<lambda>operation. operation = wanted) operations"

definition router_Execute :: "'e router \<Rightarrow> executor_request \<Rightarrow> (gerr + executor_result) \<times> 'e list" where
  "router_Execute rt request =
     (let protocol = att_Protocol (bind_Attachment (inv_Binding (xr_Invocation request))) in
      case gm_get rt protocol of
        None \<Rightarrow> (Inl (errw ErrExecutorNotFound protocol), [])
      | Some x \<Rightarrow>
          if \<not> supportsOperation (pe_Operations x) (xr_Operation request)
          then (Inl (errw ErrOperationDenied (xr_Operation request @ '' on '' @ protocol)), [])
          else case pe_Execute x request of
            (Inl err, es) \<Rightarrow> (Inl (ErrWrap (''execute '' @ xr_Operation request @ '' on '' @ protocol @ '': '') err []), es)
          | (Inr result, es) \<Rightarrow>
              (if xs_Content result = [] \<or> \<not> json_valid (xs_Content result)
               then Inl (ErrNew ''protocol executor returned invalid JSON content'') else Inr result, es))"

section \<open>Sessions\<close>

text \<open>The calls on \<^verbatim>\<open>Terminal\<close>, \<^verbatim>\<open>Data\<close> and \<^verbatim>\<open>Desktop\<close>.\<close>

datatype conn_call = TerminalRead int | TerminalExecute string | DataSchema "string list" | DataQuery string | DesktopSessionInfo

record executor_json =
  xj_maxLines :: "bytes \<Rightarrow> gerr + int"
  xj_command :: "bytes \<Rightarrow> gerr + string"
  xj_path :: "bytes \<Rightarrow> gerr + string list"
  xj_statement :: "bytes \<Rightarrow> gerr + string"
  xj_envelope :: "bytes \<Rightarrow> (string \<times> bool) option"

definition decodeInput :: "(bytes \<Rightarrow> gerr + 'a) \<Rightarrow> bytes \<Rightarrow> gerr + 'a" where
  "decodeInput unmarshal input =
     (case unmarshal (if input = [] then ''{}'' else input) of
        Inl err \<Rightarrow> Inl (ErrWrap ''decode protocol tool input: '' err []) | Inr v \<Rightarrow> Inr v)"

definition protocolResult :: "executor_json \<Rightarrow> output_kind \<Rightarrow> gerr + bytes \<Rightarrow> gerr + executor_result" where
  "protocolResult js kind answer =
     (case answer of
        Inl err \<Rightarrow> Inl err
      | Inr content \<Rightarrow>
          if content = [] \<or> \<not> json_valid content then Inl (ErrNew ''access session returned invalid JSON content'')
          else case xj_envelope js content of
            Some (err, truncated) \<Rightarrow>
              if err \<noteq> []
              then Inr \<lparr>xs_Kind = OutputError, xs_IsError = True, xs_Content = content, xs_Truncated = truncated, xs_ArtifactID = []\<rparr>
              else Inr \<lparr>xs_Kind = kind, xs_IsError = False, xs_Content = content, xs_Truncated = truncated, xs_ArtifactID = []\<rparr>
          | None \<Rightarrow> Inr \<lparr>xs_Kind = kind, xs_IsError = False, xs_Content = content, xs_Truncated = False, xs_ArtifactID = []\<rparr>)"

definition session_Protocols :: "protocol list" where
  "session_Protocols = [''web_ssh'', ''mysql'', ''mariadb'', ''sqlserver'', ''oracle'', ''clickhouse'', ''elasticsearch'',
     ''opensearch'', ''postgresql'', ''redis'', ''memcached'', ''s3'', ''mongodb'', ''rdp'', ''vnc'']"

definition session_Operations :: "operation list" where
  "session_Operations = [OperationTerminalRead, OperationTerminalExecute, OperationDataSchema, OperationDataQuery, OperationDesktopInfo]"

definition attachment_request :: "tool_binding \<Rightarrow> resolve_request" where
  "attachment_request b =
     \<lparr>rr_ID = att_AccessHandleID (bind_Attachment b), rr_UserID = prin_UserID (bind_Principal b), rr_AccessID = att_AccessID (bind_Attachment b),
      rr_ApplicationID = att_ApplicationID (bind_Attachment b), rr_Protocol = att_Protocol (bind_Attachment b),
      rr_Generation = att_Generation (bind_Attachment b)\<rparr>"

text \<open>One call on a connection and what becomes of its answer.\<close>

definition perform :: "executor_json \<Rightarrow> ('c \<Rightarrow> conn_call \<Rightarrow> gerr + bytes) \<Rightarrow> output_kind \<Rightarrow> 'c \<Rightarrow> conn_call \<Rightarrow>
   (gerr + executor_result) \<times> ('c \<times> conn_call) list" where
  "perform js respond kind c call = (protocolResult js kind (respond c call), [(c, call)])"

definition session_Execute :: "executor_json \<Rightarrow> ('c \<Rightarrow> conn_call \<Rightarrow> gerr + bytes) \<Rightarrow> ctx_state \<Rightarrow> 'c access_registry \<Rightarrow>
   executor_request \<Rightarrow> (gerr + executor_result) \<times> ('c \<times> conn_call) list" where
  "session_Execute js respond ctx r request =
     (case access_Resolve ctx (attachment_request (inv_Binding (xr_Invocation request))) r of
        Inl err \<Rightarrow> (Inl (ErrWrap ''resolve attached access session: '' err []), [])
      | Inr h \<Rightarrow>
          if xr_Operation request = OperationTerminalRead then
            (case hd_Terminal h of None \<Rightarrow> (Inl (Sentinel ErrOperationDenied), [])
             | Some c \<Rightarrow>
                 (case decodeInput (xj_maxLines js) (xr_Input request) of Inl err \<Rightarrow> (Inl err, [])
                  | Inr maxLines \<Rightarrow> perform js respond OutputText c (TerminalRead maxLines)))
          else if xr_Operation request = OperationTerminalExecute then
            (case hd_Terminal h of None \<Rightarrow> (Inl (Sentinel ErrOperationDenied), [])
             | Some c \<Rightarrow>
                 (case decodeInput (xj_command js) (xr_Input request) of Inl err \<Rightarrow> (Inl err, [])
                  | Inr raw \<Rightarrow>
                      let command = trim_space raw in
                      if command = [] then (Inl (ErrNew ''terminal command is required''), [])
                      else perform js respond OutputText c (TerminalExecute command)))
          else if xr_Operation request = OperationDataSchema then
            (case hd_Data h of None \<Rightarrow> (Inl (Sentinel ErrOperationDenied), [])
             | Some c \<Rightarrow>
                 (case decodeInput (xj_path js) (xr_Input request) of Inl err \<Rightarrow> (Inl err, [])
                  | Inr path \<Rightarrow> perform js respond OutputFacts c (DataSchema path)))
          else if xr_Operation request = OperationDataQuery then
            (case hd_Data h of None \<Rightarrow> (Inl (Sentinel ErrOperationDenied), [])
             | Some c \<Rightarrow>
                 (case decodeInput (xj_statement js) (xr_Input request) of Inl err \<Rightarrow> (Inl err, [])
                  | Inr raw \<Rightarrow>
                      let statement = trim_space raw in
                      if statement = [] then (Inl (ErrNew ''data statement is required''), [])
                      else perform js respond OutputTable c (DataQuery statement)))
          else if xr_Operation request = OperationDesktopInfo then
            (case hd_Desktop h of None \<Rightarrow> (Inl (Sentinel ErrOperationDenied), [])
             | Some c \<Rightarrow> perform js respond OutputFacts c DesktopSessionInfo)
          else (Inl (errw ErrOperationDenied (xr_Operation request)), []))"

definition session_executor :: "nat \<Rightarrow> executor_json \<Rightarrow> ('c \<Rightarrow> conn_call \<Rightarrow> gerr + bytes) \<Rightarrow> ctx_state \<Rightarrow> 'c access_registry \<Rightarrow>
   ('c \<times> conn_call) protocol_executor" where
  "session_executor ref js respond ctx r =
     \<lparr>pe_ref = ref, pe_Protocols = session_Protocols, pe_Operations = session_Operations, pe_Execute = session_Execute js respond ctx r\<rparr>"

section \<open>Tools\<close>

definition builtinSourceID :: string where
  "builtinSourceID = ''liaison-protocol-executors''"

definition registration_descriptor ::
  "string \<Rightarrow> string \<Rightarrow> operation \<Rightarrow> string \<Rightarrow> string \<Rightarrow> protocol list \<Rightarrow> capability list \<Rightarrow> risk_level \<Rightarrow> approval_mode \<Rightarrow>
   bytes \<Rightarrow> output_kind list \<Rightarrow> tool_descriptor" where
  "registration_descriptor namespace name op displayName description protocols capabilities risk approval schema outputs =
     \<lparr>td_SessionKinds = [], td_Permission = None, td_ID = \<lparr>tid_Namespace = namespace, tid_Name = name, tid_Version = ''1.0.0''\<rparr>,
      td_DisplayName = displayName, td_Description = description, td_WhenToUse = description, td_InputSchema = schema,
      td_OutputKinds = outputs, td_Protocols = protocols, td_Capabilities = capabilities, td_Tags = [], td_Risk = risk,
      td_Approval = approval, td_Disclosure = DisclosureAttachment,
      td_DefaultTimeout = (if op = OperationTerminalExecute then 120 * 10 ^ 9 else 30 * 10 ^ 9),
      td_Source = \<lparr>src_ID = builtinSourceID, src_Kind = ''builtin'', src_Trust = TrustBuiltin\<rparr>\<rparr>"

definition terminal_read_descriptor :: tool_descriptor where
  "terminal_read_descriptor = registration_descriptor ''terminal'' ''read'' OperationTerminalRead ''Read terminal output''
     (''Read recent visible output from the attached SSH terminal.'')
     [''ssh'', ''web_ssh''] [''terminal.read''] RiskReadOnly ApprovalNever
     (json_quotes ''{`type`:`object`,`properties`:{`max_lines`:{`type`:`integer`,`minimum`:1,`maximum`:500}},`additionalProperties`:false}'')
     [OutputText]"

definition terminal_execute_descriptor :: tool_descriptor where
  "terminal_execute_descriptor = registration_descriptor ''terminal'' ''execute'' OperationTerminalExecute ''Execute terminal command''
     (''Execute a command through the attached SSH connection using a separate exec channel. This does not type into the interactive terminal or inherit its current directory or shell variables. Use explicit paths and report the returned output. User approval may be required.'')
     [''ssh'', ''web_ssh''] [''terminal.execute''] RiskMedium ApprovalByPolicy
     (json_quotes ''{`type`:`object`,`properties`:{`command`:{`type`:`string`,`minLength`:1,`maxLength`:8192}},`required`:[`command`],`additionalProperties`:false}'')
     [OutputText, OutputArtifact]"

definition data_schema_descriptor :: tool_descriptor where
  "data_schema_descriptor = registration_descriptor ''data'' ''schema'' OperationDataSchema ''Inspect data schema''
     (json_quotes ''Inspect the attached database or S3 session. For S3, empty path returns browser_context (untrusted navigation hints) and visible buckets; path=[bucket,bucket_name,prefix,continuation_token] lists up to 200 prefixes and object metadata. Preserve exact keys. No file contents, writes or downloads are available to Agent. Listing may be partial: use next_token, never infer totals from one page. Empty path returns current_database and a tree of databases, schemas, tables, collections or keys. To inspect an object use path=[type,database,schema,name]: MySQL/MariaDB [table,db,``,table], PostgreSQL/SQL Server [table,db,schema,table], MongoDB [collection,db,``,collection], Redis [key,current_db_number,``,key]. Object details include columns/indexes/DDL for SQL, index-derived fields/indexes for MongoDB (not a complete document schema), and type/TTL/memory for Redis in its currently selected DB. Use names from the tree, do not invent them. Use an approved bounded query to sample documents or read key values.'')
     [''s3'', ''memcached'', ''elasticsearch'', ''opensearch'', ''mysql'', ''mariadb'', ''sqlserver'', ''oracle'', ''clickhouse'', ''postgresql'', ''redis'', ''mongodb''] [''data.schema''] RiskReadOnly ApprovalNever
     (json_quotes ''{`type`:`object`,`properties`:{`path`:{`type`:`array`,`items`:{`type`:`string`},`maxItems`:4}},`additionalProperties`:false}'')
     [OutputFacts, OutputTable]"

definition data_query_descriptor :: tool_descriptor where
  "data_query_descriptor = registration_descriptor ''data'' ''query'' OperationDataQuery ''Query data''
     (json_quotes ''Run one statement in the attached data session after approval. MySQL/MariaDB/PostgreSQL: SQL, prefer qualified table names and LIMIT. SQL Server: T-SQL with TOP (n), schema-qualified names, no LIMIT or GO separators. Redis: native command text (GET, SCAN, HGETALL, etc.), prefer SCAN over KEYS. MongoDB: a JSON database command, NOT mongosh JavaScript; e.g. {`find`:`items`,`filter`:{},`limit`:20}, {`aggregate`:`items`,`pipeline`:[{`$limit`:20}],`cursor`:{}}. MongoDB executes in current_database from data.schema; do not claim to switch databases. Writes, updates, deletes and DDL all require approval. Explain failures using the returned error, never claim success for an error result.'')
     [''memcached'', ''elasticsearch'', ''opensearch'', ''mysql'', ''mariadb'', ''sqlserver'', ''oracle'', ''clickhouse'', ''postgresql'', ''redis'', ''mongodb''] [''data.query''] RiskHigh ApprovalByPolicy
     (json_quotes ''{`type`:`object`,`properties`:{`statement`:{`type`:`string`,`minLength`:1,`maxLength`:65536}},`required`:[`statement`],`additionalProperties`:false}'')
     [OutputTable, OutputFacts, OutputText, OutputArtifact]"

definition desktop_session_info_descriptor :: tool_descriptor where
  "desktop_session_info_descriptor = registration_descriptor ''desktop'' ''session_info'' OperationDesktopInfo ''Inspect desktop session''
     (''Read the attached RDP or VNC session status, display size and target metadata.'')
     [''rdp'', ''vnc''] [''desktop.session_info''] RiskReadOnly ApprovalNever
     (json_quotes ''{`type`:`object`,`properties`:{},`additionalProperties`:false}'')
     [OutputFacts]"

definition desktop_capture_descriptor :: tool_descriptor where
  "desktop_capture_descriptor = registration_descriptor ''desktop'' ''capture'' OperationDesktopCapture ''Capture desktop''
     (''Capture the current frame of the attached RDP or VNC desktop.'')
     [''rdp'', ''vnc''] [''desktop.capture''] RiskReadOnly ApprovalNever
     (json_quotes ''{`type`:`object`,`properties`:{`quality`:{`type`:`integer`,`minimum`:30,`maximum`:100}},`additionalProperties`:false}'')
     [OutputImage, OutputArtifact]"

definition desktop_input_descriptor :: tool_descriptor where
  "desktop_input_descriptor = registration_descriptor ''desktop'' ''input'' OperationDesktopInput ''Control desktop''
     (''Send keyboard or pointer input to the attached RDP or VNC desktop.'')
     [''rdp'', ''vnc''] [''desktop.input''] RiskMedium ApprovalByPolicy
     (json_quotes ''{`type`:`object`,`properties`:{`events`:{`type`:`array`,`items`:{`type`:`object`},`minItems`:1,`maxItems`:100}},`required`:[`events`],`additionalProperties`:false}'')
     [OutputFacts]"

text \<open>A factory is a \<^verbatim>\<open>routeFactory\<close>: the operation, for the one router of the manager.\<close>

definition builtinRegistrations :: "operation tool_registration list" where
  "builtinRegistrations =
     [\<lparr>reg_Descriptor = terminal_read_descriptor, reg_Factory = Some OperationTerminalRead\<rparr>,
      \<lparr>reg_Descriptor = terminal_execute_descriptor, reg_Factory = Some OperationTerminalExecute\<rparr>,
      \<lparr>reg_Descriptor = data_schema_descriptor, reg_Factory = Some OperationDataSchema\<rparr>,
      \<lparr>reg_Descriptor = data_query_descriptor, reg_Factory = Some OperationDataQuery\<rparr>,
      \<lparr>reg_Descriptor = desktop_session_info_descriptor, reg_Factory = Some OperationDesktopInfo\<rparr>,
      \<lparr>reg_Descriptor = desktop_capture_descriptor, reg_Factory = Some OperationDesktopCapture\<rparr>,
      \<lparr>reg_Descriptor = desktop_input_descriptor, reg_Factory = Some OperationDesktopInput\<rparr>]"

definition NewToolSource :: "operation tool_source" where
  "NewToolSource = \<lparr>ts_SourceID = builtinSourceID, ts_TrustLevel = TrustBuiltin, ts_Snapshot = Inr builtinRegistrations\<rparr>"

definition route_ExecuteInvocation :: "'e router \<Rightarrow> operation \<Rightarrow> tool_invocation \<Rightarrow> (gerr + tool_result) \<times> 'e list" where
  "route_ExecuteInvocation rt op invocation =
     (case router_Execute rt \<lparr>xr_Invocation = invocation, xr_Operation = op, xr_Input = call_Input (inv_Call invocation)\<rparr> of
        (Inl err, es) \<Rightarrow> (Inl err, es)
      | (Inr result, es) \<Rightarrow> (Inr \<lparr>res_Kind = xs_Kind result, res_Content = xs_Content result, res_IsError = xs_IsError result,
          res_Truncated = xs_Truncated result, res_ArtifactID = xs_ArtifactID result\<rparr>, es))"

definition route_Execute :: "'e router \<Rightarrow> operation \<Rightarrow> tool_binding \<Rightarrow> bytes \<Rightarrow> (gerr + tool_result) \<times> 'e list" where
  "route_Execute rt op binding input =
     route_ExecuteInvocation rt op
       \<lparr>inv_ID = [], inv_Call = \<lparr>call_ID = \<lparr>tid_Namespace = [], tid_Name = [], tid_Version = []\<rparr>, call_Input = input\<rparr>,
        inv_Binding = binding, inv_RegistrationGeneration = 0\<rparr>"

definition route_Bind :: "'e router \<Rightarrow> operation \<Rightarrow> tool_binding \<Rightarrow> gerr + tool_executor option" where
  "route_Bind rt op binding =
     (if att_ID (bind_Attachment binding) = [] then Inl (ErrNew (op @ '' requires an attached protocol session''))
      else Inr (Some \<lparr>ex_Execute = (\<lambda>input. fst (route_Execute rt op binding input)),
                      ex_ExecuteInvocation = Some (\<lambda>invocation. fst (route_ExecuteInvocation rt op invocation))\<rparr>))"

text \<open>The router the manager builds (src/pkg/liaison/liaison.go): the session executor for all its protocols.\<close>

definition manager_router :: "nat \<Rightarrow> executor_json \<Rightarrow> ('c \<Rightarrow> conn_call \<Rightarrow> gerr + bytes) \<Rightarrow> ctx_state \<Rightarrow> 'c access_registry \<Rightarrow>
   ('c \<times> conn_call) router" where
  "manager_router ref js respond ctx r = snd (router_Register (session_executor ref js respond ctx r) NewRouter)"

section \<open>Effects of an execution\<close>

fun call_operation :: "conn_call \<Rightarrow> operation" where
  "call_operation (TerminalRead _) = OperationTerminalRead"
| "call_operation (TerminalExecute _) = OperationTerminalExecute"
| "call_operation (DataSchema _) = OperationDataSchema"
| "call_operation (DataQuery _) = OperationDataQuery"
| "call_operation DesktopSessionInfo = OperationDesktopInfo"

fun call_connection :: "conn_call \<Rightarrow> 'c handle \<Rightarrow> 'c option" where
  "call_connection (TerminalRead _) h = hd_Terminal h"
| "call_connection (TerminalExecute _) h = hd_Terminal h"
| "call_connection (DataSchema _) h = hd_Data h"
| "call_connection (DataQuery _) h = hd_Data h"
| "call_connection DesktopSessionInfo h = hd_Desktop h"

text \<open>An execution performs nothing, or one call of the requested kind on the connection of the resolved handle.\<close>

definition one_call :: "operation \<Rightarrow> 'c handle \<Rightarrow> ('c \<times> conn_call) list \<Rightarrow> bool" where
  "one_call op h es \<longleftrightarrow> (\<exists>c call. es = [(c, call)] \<and> call_operation call = op \<and> call_connection call h = Some c)"

lemma session_effects:
  assumes "session_Execute js respond ctx r request = (res, es)" "es \<noteq> []"
  shows "\<exists>h. access_Resolve ctx (attachment_request (inv_Binding (xr_Invocation request))) r = Inr h \<and> one_call (xr_Operation request) h es"
  using assms
  by (auto simp: session_Execute_def perform_def Let_def one_call_def split: sum.splits if_splits option.splits)

lemma fold_put_get: "gm_get (fold (\<lambda>p. gm_put p x) ps m) k = (if k \<in> set ps then Some x else gm_get m k)"
  by (induction ps arbitrary: m) auto

lemma no_conflict: "\<forall>p \<in> set ps. p \<noteq> [] \<and> p \<noteq> ProtocolAny \<Longrightarrow> router_conflict [] ps = None"
  by (induction ps) auto

lemma session_no_conflict: "router_conflict [] session_Protocols = None"
  by (rule no_conflict) (simp add: session_Protocols_def)

lemma manager_router_get:
  "gm_get (manager_router ref js respond ctx r) p =
     (if p \<in> set session_Protocols then Some (session_executor ref js respond ctx r) else None)"
proof -
  have "session_Protocols \<noteq> []" "session_Operations \<noteq> []" by (simp_all add: session_Protocols_def session_Operations_def)
  then show ?thesis by (simp add: session_no_conflict manager_router_def router_Register_def session_executor_def NewRouter_def fold_put_get)
qed

lemma route_effects:
  assumes "route_ExecuteInvocation (manager_router ref js respond ctx r) op invocation = (res, es)" "es \<noteq> []"
  shows "\<exists>h. access_Resolve ctx (attachment_request (inv_Binding invocation)) r = Inr h \<and> one_call op h es"
proof -
  let ?q = "\<lparr>xr_Invocation = invocation, xr_Operation = op, xr_Input = call_Input (inv_Call invocation)\<rparr>"
  from assms obtain res' where "session_Execute js respond ctx r ?q = (res', es)"
    by (auto simp: route_ExecuteInvocation_def router_Execute_def Let_def manager_router_get session_executor_def
        split: prod.splits sum.splits if_splits)
  from session_effects[OF this assms(2)] show ?thesis by simp
qed

text \<open>C6: a tool call touches at most one live connection, with the one operation its tool stands for, and that connection was
  registered for the caller's own user, access entry, application and protocol and is the current generation. A call
  whose attachment names somebody else's handle performs nothing.\<close>

theorem execution_on_own_connection:
  assumes "route_ExecuteInvocation (manager_router ref js respond ctx r) op invocation = (res, es)" "(c, call) \<in> set es"
  shows "es = [(c, call)] \<and> call_operation call = op \<and>
    (\<exists>h. gm_get (ar_handles r) (att_AccessHandleID (bind_Attachment (inv_Binding invocation))) = Some h \<and> call_connection call h = Some c \<and>
       ds_UserID (hd_Descriptor h) = prin_UserID (bind_Principal (inv_Binding invocation)) \<and>
       ds_AccessID (hd_Descriptor h) = att_AccessID (bind_Attachment (inv_Binding invocation)) \<and>
       ds_ApplicationID (hd_Descriptor h) = att_ApplicationID (bind_Attachment (inv_Binding invocation)) \<and>
       ds_Protocol (hd_Descriptor h) = att_Protocol (bind_Attachment (inv_Binding invocation)) \<and>
       ds_Generation (hd_Descriptor h) = att_Generation (bind_Attachment (inv_Binding invocation)))"
proof -
  from assms(2) have "es \<noteq> []" by auto
  from route_effects[OF assms(1) this] assms(2) show ?thesis by (auto simp: access_Resolve_Inr attachment_request_def one_call_def)
qed

lemma bind_effect:
  assumes "access_reachable s" "AttachmentBinder_Bind ctx prin i (acs_registry s) = Inr att"
  shows "\<exists>h. gm_get (ar_handles (acs_registry s)) i = Some h \<and> ds_UserID (hd_Descriptor h) = prin_UserID prin \<and> att_AccessHandleID att = i \<and>
    att_Generation att = ds_Generation (hd_Descriptor h)"
proof -
  from assms(2) obtain h where h: "gm_get (ar_handles (acs_registry s)) i = Some h" "ds_UserID (hd_Descriptor h) = prin_UserID prin"
    "att_AccessHandleID att = ds_ID (hd_Descriptor h)" "att_Generation att = ds_Generation (hd_Descriptor h)"
    by (auto simp: AttachmentBinder_Bind_def access_Describe_Inr split: if_splits sum.splits)
  moreover have "ds_ID (hd_Descriptor h) = i" using access_reachable_inv[OF assms(1)] h(1) by (auto simp: access_inv_def dest: gm_allD)
  ultimately show ?thesis by auto
qed

text \<open>C5: an attachment bound to a live handle stays bound to that connection. Whatever connections are closed and registered under the
  same identifier afterwards, a later call with the attachment reaches the connection it was bound to, or none.\<close>

theorem bound_connection_never_replaced:
  assumes "access_reachable s" "AttachmentBinder_Bind ctx prin i (acs_registry s) = Inr att" "access_step\<^sup>*\<^sup>* s s'"
    "bind_Attachment (inv_Binding invocation) = att"
    "route_ExecuteInvocation (manager_router ref js respond ctx' (acs_registry s')) op invocation = (res, es)" "(c, call) \<in> set es"
  shows "\<exists>h. gm_get (ar_handles (acs_registry s)) i = Some h \<and> call_connection call h = Some c \<and> ds_UserID (hd_Descriptor h) = prin_UserID prin"
proof -
  from bind_effect[OF assms(1,2)] obtain h where h: "gm_get (ar_handles (acs_registry s)) i = Some h"
    "ds_UserID (hd_Descriptor h) = prin_UserID prin" "att_AccessHandleID att = i" "att_Generation att = ds_Generation (hd_Descriptor h)" by blast
  from assms(6) have "es \<noteq> []" by auto
  from route_effects[OF assms(5) this] assms(6) obtain h' where
    h': "access_Resolve ctx' (attachment_request (inv_Binding invocation)) (acs_registry s') = Inr h'" "call_connection call h' = Some c"
    by (auto simp: one_call_def)
  then have "gm_get (ar_handles (acs_registry s')) i = Some h'" "ds_Generation (hd_Descriptor h') = ds_Generation (hd_Descriptor h)"
    using h(3,4) assms(4) by (auto simp: access_Resolve_Inr attachment_request_def)
  from same_generation_same_handle[OF assms(1,3) h(1) this] h h'(2) show ?thesis by auto
qed

section \<open>Approval of changes\<close>

text \<open>The calls that may change the remote system.\<close>

fun changes_remote :: "conn_call \<Rightarrow> bool" where
  "changes_remote (TerminalExecute _) = True"
| "changes_remote (DataQuery _) = True"
| "changes_remote _ = False"

lemma builtin_needs_approval:
  assumes "rn \<in> set builtinRegistrations" "reg_Factory rn = Some (call_operation call)" "changes_remote call"
  shows "needs_approval (reg_Descriptor rn)"
proof -
  have "needs_approval terminal_execute_descriptor" "needs_approval data_query_descriptor"
    by (simp_all add: needs_approval_def terminal_execute_descriptor_def data_query_descriptor_def registration_descriptor_def less_eq_risk_level_def)
  with assms show ?thesis by (cases call) (auto simp: builtinRegistrations_def)
qed

text \<open>C4: under the manager's policy a built-in tool runs a terminal command or a data statement only with an approval grant that
  validates this very call, from disclosure to the connection: for a snapshot built from the engine, a call that got a lease on a built-in
  registration and whose executor performs such an operation carries the grant.\<close>

theorem remote_change_approved:
  assumes "eng_reachable g" "engine_BuildSnapshot vis rnd now0 g req = Inr snapshot"
    "execute_begin (AuthorizationPolicy_Evaluate authorize) sha now snapshot invocation grant g = (Inr (inv2, exposed, lease), g')"
    "lease_registration lease \<in> set builtinRegistrations" "reg_Factory (lease_registration lease) = Some op"
    "route_ExecuteInvocation (manager_router ref js respond ctx r) op inv2 = (res, es)" "(c, call) \<in> set es" "changes_remote call"
  shows "\<exists>gr. grant = Some gr \<and> grant_validates sha gr inv2 snapshot now"
proof -
  from assms(7) have "es \<noteq> []" by auto
  from route_effects[OF assms(6) this] assms(7) have op: "op = call_operation call" by (auto simp: one_call_def)
  note check = execute_check_Inr[OF execute_begin_Inr(1)[OF assms(3)]]
  note found = snapshot_Find_Some[OF check(1)]
  have t: "exposed \<in> set (snap_Tools snapshot)" "td_ID (exp_Descriptor exposed) = call_ID (inv_Call inv2)" using found check(6) by auto
  note sync = eng_reachable_sync[OF assms(1)]
  from snapshot_tool_entry[OF eng_syncD(2)[OF sync] assms(2)[unfolded engine_BuildSnapshot_def] t(1)]
  obtain e cd where e: "gm_get (cat_entries (eng_catalog g)) (td_ID (exp_Descriptor exposed)) = Some e" "candidate_of vis req e = Some cd"
    "exposed = expose cd" "rk_entry cd = e" by blast
  from execute_begin_Inr(2)[OF assms(3)] obtain a m where m: "registry_lookup (eng_registry g) (td_ID (exp_Descriptor exposed)) = Some (a, m)"
    "lease_registration lease = mr_registration m" by (auto simp: registry_acquire_Inr_iff t(2))
  have "reg_Descriptor (lease_registration lease) = exp_Descriptor exposed"
    using eng_syncD(3)[OF sync, of "td_ID (exp_Descriptor exposed)"] e m by (auto simp: sync_at_def)
  then have "needs_approval (exp_Descriptor exposed)"
    using builtin_needs_approval[OF assms(4) assms(5)[unfolded op] assms(8)] by simp
  moreover from check(8) obtain dc where dc: "AuthorizationPolicy_Evaluate authorize (invocation\<lparr>inv_RegistrationGeneration := exp_RegistrationGeneration exposed\<rparr>)
      (exp_Descriptor exposed) = Inr dc" "decision_blocks sha now snapshot grant inv2 dc = None" by auto
  ultimately show ?thesis using evaluate_Inr_cases[OF dc(1)] by (auto simp: decision_blocks_None)
qed

section \<open>A concrete connection\<close>

definition sample_handle :: "string handle" where
  "sample_handle = \<lparr>hd_Descriptor = \<lparr>ds_ID = ''h1'', ds_UserID = 1, ds_AccessID = 7, ds_ApplicationID = 9, ds_Protocol = ''web_ssh'',
     ds_Capabilities = [''terminal.read'', ''terminal.execute''], ds_Generation = 0\<rparr>, hd_Terminal = Some ''tty'', hd_Data = None, hd_Desktop = None\<rparr>"

definition sample_access :: "string access_sys" where
  "sample_access = \<lparr>acs_registry = snd (access_Register sample_handle NewAccessRegistry),
     acs_log = [sample_handle\<lparr>hd_Descriptor := (hd_Descriptor sample_handle)\<lparr>ds_Generation := 1\<rparr>\<rparr>]\<rparr>"

lemma sample_access_reachable: "access_reachable sample_access"
proof -
  have "access_Register sample_handle (acs_registry new_access_sys) =
      (Inr ((hd_Descriptor sample_handle)\<lparr>ds_Generation := 1\<rparr>, ''h1'', 1), acs_registry sample_access)"
    by (simp add: sample_access_def access_Register_def new_access_sys_def NewAccessRegistry_def sample_handle_def gm_getz_def Let_def)
  from access_step.register[OF _ this] show ?thesis
    by (auto simp: sample_access_def new_access_sys_def NewAccessRegistry_def gm_getz_def intro: extend[OF empty])
qed

definition sample_json :: executor_json where
  "sample_json = \<lparr>xj_maxLines = (\<lambda>_. Inr 100), xj_command = (\<lambda>_. Inr '' uptime ''), xj_path = (\<lambda>_. Inr []),
     xj_statement = (\<lambda>_. Inr []), xj_envelope = (\<lambda>_. None)\<rparr>"

definition sample_respond :: "string \<Rightarrow> conn_call \<Rightarrow> gerr + bytes" where
  "sample_respond c call = Inr ''{}''"

definition sample_prin :: principal where
  "sample_prin = \<lparr>prin_UserID = 1, prin_OrganizationID = 1\<rparr>"

definition sample_att :: attachment_snapshot where
  "sample_att = (case AttachmentBinder_Bind CtxLive sample_prin ''h1'' (acs_registry sample_access) of Inl _ \<Rightarrow> no_attachment | Inr a \<Rightarrow> a)"

definition terminal_tool :: tool_id where
  "terminal_tool = td_ID terminal_execute_descriptor"

definition sample_engine2 :: "operation engine" where
  "sample_engine2 = snd (engine_Register (builtinRegistrations ! 1) NewEngine)"

lemma terminal_execute_valid: "ValidateDescriptor terminal_execute_descriptor = None"
  by code_simp

lemma sample_engine2_eval [code]:
  "sample_engine2 = \<lparr>eng_catalog = snd (catalog_upsert terminal_execute_descriptor 1 ToolStatusActive NewCatalog),
     eng_registry = snd (registry_register \<lparr>reg_Descriptor = terminal_execute_descriptor, reg_Factory = Some OperationTerminalExecute\<rparr> False NewRegistry)\<rparr>"
  by (simp add: sample_engine2_def engine_Register_def engine_register_def builtinRegistrations_def terminal_execute_valid
        NewEngine_def NewCatalog_def catalog_byModelName_def registry_register_def NewRegistry_def registry_lookup_def)

lemma sample_att_eval [code]: "sample_att = \<lparr>att_ID = ''h1'', att_AccessID = 7, att_ApplicationID = 9, att_Protocol = ''web_ssh'',
   att_Capabilities = [''terminal.read'', ''terminal.execute''], att_Generation = 1, att_AccessHandleID = ''h1''\<rparr>"
  by code_simp

definition sample_request2 :: disclosure_request where
  "sample_request2 = sample_request\<lparr>dr_Attachments := [sample_att], dr_Primary := att_ID sample_att\<rparr>"

definition sample_snap2 :: tool_set_snapshot where
  "sample_snap2 = \<lparr>snap_ID = ''tls_73656564'', snap_CatalogGeneration = 1, snap_PolicyRevision = [], snap_AttachmentGeneration = [(''h1'', 1)],
     snap_Tools = [\<lparr>exp_Descriptor = terminal_execute_descriptor, exp_RegistrationGeneration = 1, exp_EstimatedTokens = 180\<rparr>], snap_CreatedAt = 5\<rparr>"

lemma sample_snap2_built:
  "engine_BuildSnapshot AllowAllVisibility_AllowTool (Inr ''seed'') 5 sample_engine2 sample_request2 = Inr sample_snap2"
  by code_simp

definition sample_call2 :: tool_invocation where
  "sample_call2 = \<lparr>inv_ID = ''i1'', inv_Call = \<lparr>call_ID = terminal_tool, call_Input = ''{}''\<rparr>,
     inv_Binding = \<lparr>bind_SessionKind = SessionAccess, bind_Principal = sample_prin, bind_Attachment = sample_att,
       bind_ToolSnapshotID = snap_ID sample_snap2\<rparr>, inv_RegistrationGeneration = 0\<rparr>"

definition sample_grant2 :: approval_grant where
  "sample_grant2 = \<lparr>grant_ApprovalID = ''a1'', grant_InvocationID = ''i1'', grant_ToolID = terminal_tool,
     grant_ToolSnapshotID = snap_ID sample_snap2, grant_InputSHA256 = ''{}'', grant_AttachmentGeneration = att_Generation sample_att,
     grant_ExpiresAt = 100\<rparr>"

definition sample_begin2 where
  "sample_begin2 = execute_begin (AuthorizationPolicy_Evaluate (\<lambda>p r a. None)) (\<lambda>c. c) 7 sample_snap2 sample_call2 (Some sample_grant2) sample_engine2"

lemma sample_parts:
  "(case sample_begin2 of (Inl _, _) \<Rightarrow> False
    | (Inr (inv2, _, lease), _) \<Rightarrow> inv2 = sample_call2\<lparr>inv_RegistrationGeneration := 1\<rparr> \<and> lease_registration lease = builtinRegistrations ! 1)"
  by code_simp

lemma sample_effect:
  "snd (route_ExecuteInvocation (manager_router 1 sample_json sample_respond CtxLive (acs_registry sample_access)) OperationTerminalExecute
     (sample_call2\<lparr>inv_RegistrationGeneration := 1\<rparr>)) = [(''tty'', TerminalExecute ''uptime'')]"
  by code_simp

definition sample_run :: "(gerr + tool_result) \<times> (string \<times> conn_call) list" where
  "sample_run = route_ExecuteInvocation (manager_router 1 sample_json sample_respond CtxLive (acs_registry sample_access)) OperationTerminalExecute
     (sample_call2\<lparr>inv_RegistrationGeneration := 1\<rparr>)"

lemma sample_run_effect:
  "route_ExecuteInvocation (manager_router 1 sample_json sample_respond CtxLive (acs_registry sample_access)) OperationTerminalExecute
     (sample_call2\<lparr>inv_RegistrationGeneration := 1\<rparr>) = (fst sample_run, snd sample_run)"
  "(''tty'', TerminalExecute ''uptime'') \<in> set (snd sample_run)"
  unfolding sample_run_def by (simp, simp only: sample_effect list.set_intros(1))

theorem execution_on_own_connection_witness:
  "\<exists>h. gm_get (ar_handles (acs_registry sample_access)) ''h1'' = Some h \<and> ds_UserID (hd_Descriptor h) = 1"
  using execution_on_own_connection[OF sample_run_effect]
  by (auto simp: sample_call2_def sample_prin_def sample_att_eval)

theorem bound_connection_never_replaced_witness:
  "\<exists>h. gm_get (ar_handles (acs_registry sample_access)) ''h1'' = Some h \<and> hd_Terminal h = Some ''tty''"
proof -
  have "AttachmentBinder_Bind CtxLive sample_prin ''h1'' (acs_registry sample_access) = Inr sample_att"
    unfolding sample_att_eval by code_simp
  from bound_connection_never_replaced[OF sample_access_reachable this rtranclp.rtrancl_refl _ sample_run_effect]
  show ?thesis by (auto simp: sample_call2_def)
qed

theorem remote_change_approved_witness:
  "\<exists>gr. Some sample_grant2 = Some gr \<and> grant_validates (\<lambda>c. c) gr (sample_call2\<lparr>inv_RegistrationGeneration := 1\<rparr>) sample_snap2 7"
proof -
  have reach: "eng_reachable sample_engine2"
    unfolding sample_engine2_def by (rule eng_next[OF eng_init]) (rule eng_step.intros)
  obtain q g' where q: "sample_begin2 = (q, g')" by (cases sample_begin2)
  from sample_parts[unfolded q] obtain exposed lease where "q = Inr (sample_call2\<lparr>inv_RegistrationGeneration := 1\<rparr>, exposed, lease)"
    and l: "lease_registration lease = builtinRegistrations ! 1" by (cases q) auto
  with q have b: "execute_begin (AuthorizationPolicy_Evaluate (\<lambda>p r a. None)) (\<lambda>c. c) 7 sample_snap2
      sample_call2 (Some sample_grant2) sample_engine2 = (Inr (sample_call2\<lparr>inv_RegistrationGeneration := 1\<rparr>, exposed, lease), g')"
    by (simp only: sample_begin2_def)
  have mem: "lease_registration lease \<in> set builtinRegistrations" "reg_Factory (lease_registration lease) = Some OperationTerminalExecute"
    unfolding l by (rule nth_mem, simp add: builtinRegistrations_def) (simp add: builtinRegistrations_def)
  from remote_change_approved[OF reach sample_snap2_built b mem sample_run_effect] show ?thesis by simp
qed

end
