(* ===== verification/Go_Encoding.thy ===== *)
theory Go_Encoding
  imports Liaison_Prelude
begin

text \<open>
  The text encodings of byte strings the code takes from Go's standard library: \<^verbatim>\<open>base64.RawStdEncoding\<close> (encoding and
  decoding, no padding, stray bits of the last character ignored, line breaks skipped) and \<^verbatim>\<open>base32.StdEncoding\<close> (encoding).
\<close>

section \<open>base64, without padding\<close>

text \<open>The alphabet: \<^verbatim>\<open>A-Z a-z 0-9 + /\<close>.\<close>

definition base64_char :: "nat \<Rightarrow> char" where
  "base64_char n = (if n < 26 then char_of (n + 65) else if n < 52 then char_of (n + 71) else if n < 62 then char_of (n - 4)
     else if n = 62 then CHR ''+'' else CHR ''/'')"

fun sextets :: "nat list \<Rightarrow> nat list" where
  "sextets [] = []"
| "sextets [a] = [a div 4, a mod 4 * 16]"
| "sextets [a, b] = [a div 4, a mod 4 * 16 + b div 16, b mod 16 * 4]"
| "sextets (a # b # c # rest) = a div 4 # (a mod 4 * 16 + b div 16) # (b mod 16 * 4 + c div 64) # c mod 64 # sextets rest"

definition base64_encode :: "bytes \<Rightarrow> string" where
  "base64_encode bs = map base64_char (sextets (map of_char bs))"

definition base64_value :: "char \<Rightarrow> nat option" where
  "base64_value c = (let n = of_char c :: nat in
     if 65 \<le> n \<and> n \<le> 90 then Some (n - 65)
     else if 97 \<le> n \<and> n \<le> 122 then Some (n - 71)
     else if 48 \<le> n \<and> n \<le> 57 then Some (n + 4)
     else if n = 43 then Some 62 else if n = 47 then Some 63 else None)"

definition corrupt_base64 :: "nat \<Rightarrow> gerr" where
  "corrupt_base64 offset = ErrNew (''illegal base64 data at input byte '' @ dec offset)"

text \<open>The values of the characters from an offset on; the first character outside the alphabet is an error.\<close>

fun base64_values :: "nat \<Rightarrow> string \<Rightarrow> gerr + nat list" where
  "base64_values offset [] = Inr []"
| "base64_values offset (c # cs) =
     (if c = CHR 0x0A \<or> c = CHR 0x0D then base64_values (offset + 1) cs
      else case base64_value c of
        None \<Rightarrow> Inl (corrupt_base64 offset)
      | Some v \<Rightarrow> (case base64_values (offset + 1) cs of Inl err \<Rightarrow> Inl err | Inr vs \<Rightarrow> Inr (v # vs)))"

text \<open>Bytes of the values; \<open>None\<close> for a single value at the end.\<close>

fun unsextets :: "nat list \<Rightarrow> nat list option" where
  "unsextets [] = Some []"
| "unsextets [v] = None"
| "unsextets [v, w] = Some [v * 4 + w div 16]"
| "unsextets [v, w, x] = Some [v * 4 + w div 16, w mod 16 * 16 + x div 4]"
| "unsextets (v # w # x # y # rest) =
     map_option (\<lambda>bs. (v * 4 + w div 16) # (w mod 16 * 16 + x div 4) # (x mod 4 * 64 + y) # bs) (unsextets rest)"

definition base64_decode :: "string \<Rightarrow> gerr + bytes" where
  "base64_decode s = (case base64_values 0 s of
     Inl err \<Rightarrow> Inl err
   | Inr vs \<Rightarrow> (case unsextets vs of None \<Rightarrow> Inl (corrupt_base64 (length s - 1)) | Some bs \<Rightarrow> Inr (map char_of bs)))"

subsection \<open>Decoding reads back what was encoded\<close>

lemma sextet_lt:
  fixes a b c :: nat
  shows "b < 256 \<Longrightarrow> b div 4 < 64" "c < 256 \<Longrightarrow> a mod 4 * 16 + c div 16 < 64" "c < 256 \<Longrightarrow> b mod 16 * 4 + c div 64 < 64"
proof -
  show "b < 256 \<Longrightarrow> b div 4 < 64" by (simp add: div_less_iff_less_mult)
  have "c < 256 \<Longrightarrow> c div 16 < 16" "a mod 4 < 4" by (simp_all add: div_less_iff_less_mult)
  then show "c < 256 \<Longrightarrow> a mod 4 * 16 + c div 16 < 64" by linarith
  have "c < 256 \<Longrightarrow> c div 64 < 4" "b mod 16 < 16" by (simp_all add: div_less_iff_less_mult)
  then show "c < 256 \<Longrightarrow> b mod 16 * 4 + c div 64 < 64" by linarith
qed

lemma sextets_lt: "(\<And>b. b \<in> set bs \<Longrightarrow> b < 256) \<Longrightarrow> v \<in> set (sextets bs) \<Longrightarrow> v < 64"
proof (induction bs rule: sextets.induct)
  case (4 a b c rest)
  then have "a < 256" "b < 256" "c < 256" by simp_all
  with 4 show ?case using sextet_lt[of a] sextet_lt(2)[of b a] sextet_lt(3)[of c b] by auto
next
  case (3 a b)
  then have "a < 256" "b < 256" by simp_all
  with 3 show ?case using sextet_lt(1)[of a] sextet_lt(2)[of b a] by auto
next
  case (2 a)
  then have "a < 256" by simp
  with 2 show ?case using sextet_lt(1)[of a] by auto
qed simp

lemma unsextets_sextets: "(\<And>b. b \<in> set bs \<Longrightarrow> b < 256) \<Longrightarrow> unsextets (sextets bs) = Some bs"
proof (induction bs rule: sextets.induct)
  case (4 a b c rest)
  then have "a < 256" "b < 256" "c < 256" "unsextets (sextets rest) = Some rest" by simp_all
  then show ?case by (simp add: div_less_iff_less_mult)
qed (auto simp: div_less_iff_less_mult)

lemma base64_value_char: "n < 64 \<Longrightarrow> base64_value (base64_char n) = Some n"
  by (auto simp: base64_value_def base64_char_def Let_def)

lemma base64_char_plain: "n < 64 \<Longrightarrow> of_char (base64_char n) \<ge> (43 :: nat)"
  by (auto simp: base64_char_def)

lemma base64_values_encoded: "(\<And>v. v \<in> set vs \<Longrightarrow> v < 64) \<Longrightarrow> base64_values i (map base64_char vs) = Inr vs"
proof (induction vs arbitrary: i)
  case (Cons v vs)
  then have "base64_value (base64_char v) = Some v" "of_char (base64_char v) \<ge> (43 :: nat)"
    by (simp_all add: base64_value_char base64_char_plain)
  moreover from this(2) have "base64_char v \<noteq> CHR 0x0A" "base64_char v \<noteq> CHR 0x0D" by auto
  ultimately show ?case using Cons by simp
qed simp

lemma byte_sextets_lt: "v \<in> set (sextets (map of_char (bs :: bytes))) \<Longrightarrow> v < 64"
  by (rule sextets_lt) auto

lemma byte_unsextets: "unsextets (sextets (map of_char (bs :: bytes))) = Some (map of_char bs)"
  by (rule unsextets_sextets) auto

lemma base64_roundtrip [simp]: "base64_decode (base64_encode bs) = Inr bs"
  using base64_values_encoded[of "sextets (map of_char bs)" 0] byte_sextets_lt[of _ bs]
  by (simp add: base64_decode_def base64_encode_def byte_unsextets comp_def)

text \<open>The encoding never contains the separator of password hashes.\<close>

lemma base64_no_dollar: "CHR ''$'' \<notin> set (base64_encode bs)"
proof
  assume "CHR ''$'' \<in> set (base64_encode bs)"
  then obtain v where "v < 64" "CHR ''$'' = base64_char v" by (auto simp: base64_encode_def dest: byte_sextets_lt)
  then have "(43 :: nat) \<le> of_char (CHR ''$'')" using base64_char_plain[of v] by simp
  then show False by simp
qed

section \<open>base32\<close>

text \<open>The alphabet: \<^verbatim>\<open>A-Z 2-7\<close>.\<close>

definition base32_char :: "nat \<Rightarrow> char" where
  "base32_char n = (if n < 26 then char_of (n + 65) else char_of (n + 24))"

text \<open>Up to five bytes give eight characters, the last ones padding when bytes are missing.\<close>

definition base32_block :: "nat list \<Rightarrow> string" where
  "base32_block bs =
     (let n = foldl (\<lambda>n b. n * 256 + b) 0 (take 5 (bs @ replicate 5 0));
          used = (length bs * 8 + 4) div 5
      in map (\<lambda>i. if i < used then base32_char (n div 32 ^ (7 - i) mod 32) else CHR ''='') [0..<8])"

fun base32_blocks :: "nat list \<Rightarrow> string" where
  "base32_blocks [] = []"
| "base32_blocks (a # b # c # d # e # rest) = base32_block [a, b, c, d, e] @ base32_blocks rest"
| "base32_blocks rest = base32_block rest"

definition base32_encode :: "bytes \<Rightarrow> string" where
  "base32_encode bs = base32_blocks (map of_char bs)"

lemma base32_block_length [simp]: "length (base32_block bs) = 8"
  by (simp add: base32_block_def Let_def)

lemma base32_whole_block: "length bs = 5 \<Longrightarrow> set (base32_block bs) \<subseteq> base32_char ` {..<32}"
  by (auto simp: base32_block_def Let_def)

lemma base32_whole_blocks: "length bs = 5 * k \<Longrightarrow> length (base32_blocks bs) = 8 * k \<and> set (base32_blocks bs) \<subseteq> base32_char ` {..<32}"
proof (induction k arbitrary: bs)
  case (Suc k)
  then obtain a b c d e rest where bs: "bs = a # b # c # d # e # rest" by (auto simp: length_Suc_conv eval_nat_numeral)
  with Suc show ?case using base32_whole_block[of "[a, b, c, d, e]"] by simp
qed simp

lemma base32_encode_whole:
  assumes "length bs = 5 * k"
  shows "length (base32_encode bs) = 8 * k" "set (base32_encode bs) \<subseteq> base32_char ` {..<32}"
  using base32_whole_blocks[of "map of_char bs" k] assms by (simp_all add: base32_encode_def)

end
