(* ===== verification/Iam_Store.thy ===== *)
theory Iam_Store
  imports Liaison_Prelude
begin

text \<open>
  The tables behind identity and access management and the statements over them
  (src/pkg/liaison/repo/model/model_organization.go, model_user.go, model_user_api_token.go, repo/dao/dao_organization.go,
  dao_user_api_token.go, dao.go), and the
  programs the service is made of.

  A table is the list of its rows in order of their identifiers. Deletion is soft: a deleted row stays, is invisible to queries, still
  occupies its unique keys, and comes back when an upsert conflicts with it. Display texts of roles are left out.
  The connection pool has one connection, so a transaction runs alone.
\<close>

lemma find_ex: "(\<exists>x \<in> set xs. P x) \<longleftrightarrow> (\<exists>x. find P xs = Some x)"
  by (induction xs) auto

section \<open>Rows\<close>

type_synonym role_code = string

abbreviation IAMRoleAdmin :: role_code where "IAMRoleAdmin \<equiv> ''admin''"
abbreviation IAMRoleUser :: role_code where "IAMRoleUser \<equiv> ''user''"

definition IsValidIAMRoleCode :: "role_code \<Rightarrow> bool" where
  "IsValidIAMRoleCode code \<longleftrightarrow> code = IAMRoleAdmin \<or> code = IAMRoleUser"

definition DefaultOrganizationName :: string where
  "DefaultOrganizationName = [CHR 0xE9, CHR 0xBB, CHR 0x98, CHR 0xE8, CHR 0xAE, CHR 0xA4, CHR 0xE7, CHR 0xBB, CHR 0x84, CHR 0xE7, CHR 0xBB, CHR 0x87]"

record organization =
  og_ID :: nat
  og_Name :: string
  og_Description :: string
  og_ParentID :: "nat option"
  og_IsRoot :: bool
  og_Deleted :: bool

record organization_membership =
  mb_ID :: nat
  mb_OrganizationID :: nat
  mb_UserID :: nat
  mb_Deleted :: bool

record iam_role =
  ro_ID :: nat
  ro_Code :: role_code

record iam_permission =
  pm_ID :: nat
  pm_Code :: string
  pm_Resource :: string
  pm_Action :: string

record iam_role_binding =
  bd_ID :: nat
  bd_UserID :: nat
  bd_RoleID :: nat
  bd_OrganizationID :: nat
  bd_InheritChildren :: bool
  bd_Deleted :: bool

record iam_user =
  us_ID :: nat
  us_Name :: string
  us_Email :: string
  us_Password :: string
  us_Status :: string
  us_LastLogin :: "gtime option"
  us_LoginIP :: string
  us_Deleted :: bool

record iam_resource_relation =
  rl_ResourceType :: string
  rl_ResourceID :: nat
  rl_Relation :: string
  rl_SubjectType :: string
  rl_SubjectID :: nat
  rl_CreatedBy :: nat
  rl_Deleted :: bool

text \<open>Personal access tokens; a revoked token keeps its row.\<close>

record user_api_token =
  tk_ID :: nat
  tk_UserID :: nat
  tk_Name :: string
  tk_TokenPrefix :: string
  tk_TokenHash :: string
  tk_Scope :: string
  tk_LastUsedAt :: "gtime option"
  tk_LastUsedIP :: string
  tk_ExpiresAt :: "gtime option"
  tk_RevokedAt :: "gtime option"

record iam_db =
  idb_users :: "iam_user list"
  idb_organizations :: "organization list"
  idb_memberships :: "organization_membership list"
  idb_roles :: "iam_role list"
  idb_permissions :: "iam_permission list"
  idb_role_permissions :: "(nat \<times> nat) list"
  idb_bindings :: "iam_role_binding list"
  idb_relations :: "iam_resource_relation list"
  idb_tokens :: "user_api_token list"

definition empty_iam_db :: iam_db where
  "empty_iam_db = \<lparr>idb_users = [], idb_organizations = [], idb_memberships = [], idb_roles = [], idb_permissions = [],
     idb_role_permissions = [], idb_bindings = [], idb_relations = [], idb_tokens = []\<rparr>"

section \<open>Programs of the service\<close>

text \<open>The state: the tables, the casbin enforcer and the errors the coming statements and enforcer calls meet
  (\<open>None\<close> or the end of the list: no error).\<close>

record 'e iam_sys =
  sv_db :: iam_db
  sv_enf :: 'e
  sv_faults :: "gerr option list"

type_synonym ('e, 'a) svc = "'e iam_sys \<Rightarrow> ('e iam_sys, 'a) outcome"

definition svc_return :: "'a \<Rightarrow> ('e, 'a) svc" where
  "svc_return x s = (Inr x, s)"

definition svc_fail :: "gerr \<Rightarrow> ('e, 'a) svc" where
  "svc_fail err s = (Inl err, s)"

definition svc_bind :: "('e, 'a) svc \<Rightarrow> ('a \<Rightarrow> ('e, 'b) svc) \<Rightarrow> ('e, 'b) svc" where
  "svc_bind m k s = (case m s of (Inl err, s') \<Rightarrow> (Inl err, s') | (Inr x, s') \<Rightarrow> k x s')"

definition svc_wrap :: "string \<Rightarrow> ('e, 'a) svc \<Rightarrow> ('e, 'a) svc" where
  "svc_wrap pre m s = (case m s of (Inl err, s') \<Rightarrow> (Inl (ErrWrap pre err []), s') | (Inr x, s') \<Rightarrow> (Inr x, s'))"

definition svc_guard :: "bool \<Rightarrow> gerr \<Rightarrow> ('e, unit) svc" where
  "svc_guard ok err = (if ok then svc_return () else svc_fail err)"

text \<open>The value of an option, or the error the code returns for nil.\<close>

definition svc_some :: "gerr \<Rightarrow> 'a option \<Rightarrow> ('e, 'a) svc" where
  "svc_some err v = (case v of None \<Rightarrow> svc_fail err | Some x \<Rightarrow> svc_return x)"

text \<open>The next statement fails or not.\<close>

definition may_fail :: "('e, unit) svc" where
  "may_fail s = (case sv_faults s of
     [] \<Rightarrow> (Inr (), s)
   | None # fs \<Rightarrow> (Inr (), s\<lparr>sv_faults := fs\<rparr>)
   | Some err # fs \<Rightarrow> (Inl err, s\<lparr>sv_faults := fs\<rparr>))"

definition query :: "(iam_db \<Rightarrow> 'a) \<Rightarrow> ('e, 'a) svc" where
  "query f = svc_bind may_fail (\<lambda>_ s. (Inr (f (sv_db s)), s))"

definition exec :: "(iam_db \<Rightarrow> gerr + 'a \<times> iam_db) \<Rightarrow> ('e, 'a) svc" where
  "exec f = svc_bind may_fail (\<lambda>_ s. case f (sv_db s) of Inl err \<Rightarrow> (Inl err, s) | Inr (x, db) \<Rightarrow> (Inr x, s\<lparr>sv_db := db\<rparr>))"

definition exec_total :: "(iam_db \<Rightarrow> iam_db) \<Rightarrow> ('e, unit) svc" where
  "exec_total f = exec (\<lambda>db. Inr ((), f db))"

text \<open>\<^verbatim>\<open>Begin\<close>, the statements, then \<^verbatim>\<open>Rollback\<close> on an error or \<^verbatim>\<open>Commit\<close>; a commit that fails leaves the tables as they were.\<close>

definition in_tx :: "(gerr \<Rightarrow> gerr) \<Rightarrow> ('e, 'a) svc \<Rightarrow> ('e, 'a) svc" where
  "in_tx commit_error body s =
     (case body s of
        (Inl err, s') \<Rightarrow> (Inl err, s'\<lparr>sv_db := sv_db s\<rparr>)
      | (Inr x, s') \<Rightarrow>
          (case may_fail s' of
             (Inl err, s'') \<Rightarrow> (Inl (commit_error err), s''\<lparr>sv_db := sv_db s\<rparr>)
           | (Inr _, s'') \<Rightarrow> (Inr x, s'')))"

fun svc_foreach :: "('a \<Rightarrow> ('e, unit) svc) \<Rightarrow> 'a list \<Rightarrow> ('e, unit) svc" where
  "svc_foreach f [] = svc_return ()"
| "svc_foreach f (x # xs) = svc_bind (f x) (\<lambda>_. svc_foreach f xs)"

fun svc_map :: "('a \<Rightarrow> ('e, 'b) svc) \<Rightarrow> 'a list \<Rightarrow> ('e, 'b list) svc" where
  "svc_map f [] = svc_return []"
| "svc_map f (x # xs) = svc_bind (f x) (\<lambda>y. svc_bind (svc_map f xs) (\<lambda>ys. svc_return (y # ys)))"

section \<open>When a program succeeds, and what it leaves\<close>

text \<open>\<open>svc_ok\<close> reads a successful run backwards, statement by statement.\<close>

named_theorems svc_ok \<open>runs that end without an error\<close>

lemma svc_bind_Inr [svc_ok]: "svc_bind m k s = (Inr y, s') \<longleftrightarrow> (\<exists>x t. m s = (Inr x, t) \<and> k x t = (Inr y, s'))"
  by (auto simp: svc_bind_def split: prod.splits sum.splits)

lemma svc_wrap_Inr [svc_ok]: "svc_wrap pre m s = (Inr y, s') \<longleftrightarrow> m s = (Inr y, s')"
  by (auto simp: svc_wrap_def split: prod.splits sum.splits)

lemma svc_return_Inr [svc_ok]: "svc_return x s = (Inr y, s') \<longleftrightarrow> y = x \<and> s' = s"
  by (auto simp: svc_return_def)

lemma svc_fail_Inr [svc_ok]: "svc_fail err s = (Inr y, s') \<longleftrightarrow> False"
  by (simp add: svc_fail_def)

lemma svc_guard_Inr [svc_ok]: "svc_guard c err s = (Inr y, s') \<longleftrightarrow> c \<and> s' = s"
  by (auto simp: svc_guard_def svc_return_def svc_fail_def)

lemma svc_some_Inr [svc_ok]: "svc_some err v s = (Inr y, s') \<longleftrightarrow> v = Some y \<and> s' = s"
  by (auto simp: svc_some_def svc_return_def svc_fail_def split: option.splits)

text \<open>What a statement consumes besides is its outcome.\<close>

definition same_tables :: "'e iam_sys \<Rightarrow> 'e iam_sys \<Rightarrow> bool" where
  "same_tables s s' \<longleftrightarrow> sv_db s' = sv_db s \<and> sv_enf s' = sv_enf s"

lemma may_fail_same: "may_fail s = (r, s') \<Longrightarrow> same_tables s s'"
  by (auto simp: may_fail_def same_tables_def split: list.splits option.splits)

lemma query_Inr [svc_ok]: "query f s = (Inr x, s') \<longleftrightarrow> may_fail s = (Inr (), s') \<and> x = f (sv_db s')"
  by (auto simp: query_def svc_ok)

lemma query_InrD: "query f s = (Inr x, s') \<Longrightarrow> same_tables s s' \<and> f (sv_db s) = x"
  by (auto simp: query_Inr same_tables_def dest: may_fail_same)

lemma exec_Inr [svc_ok]:
  "exec f s = (Inr x, s') \<longleftrightarrow> (\<exists>t db. may_fail s = (Inr (), t) \<and> f (sv_db t) = Inr (x, db) \<and> s' = t\<lparr>sv_db := db\<rparr>)"
proof -
  have "(case f (sv_db t) of Inl err \<Rightarrow> (Inl err, t) | Inr (x, db) \<Rightarrow> (Inr x, t\<lparr>sv_db := db\<rparr>)) = (Inr x, s') \<longleftrightarrow>
      (\<exists>db. f (sv_db t) = Inr (x, db) \<and> s' = t\<lparr>sv_db := db\<rparr>)" for t
    by (auto split: sum.splits)
  then show ?thesis by (simp add: exec_def svc_ok)
qed

lemma exec_total_Inr [svc_ok]: "exec_total f s = (Inr x, s') \<longleftrightarrow> (\<exists>t. may_fail s = (Inr (), t) \<and> s' = t\<lparr>sv_db := f (sv_db t)\<rparr>)"
  by (auto simp: exec_total_def svc_ok)

lemma in_tx_Inr [svc_ok]: "in_tx c body s = (Inr x, s') \<longleftrightarrow> (\<exists>t. body s = (Inr x, t) \<and> may_fail t = (Inr (), s'))"
  by (auto simp: in_tx_def split: prod.splits sum.splits)

text \<open>A program that only reads leaves tables and enforcer as they were, however it ends.\<close>

definition reads :: "('e, 'a) svc \<Rightarrow> bool" where
  "reads m \<longleftrightarrow> (\<forall>s. same_tables s (snd (m s)))"

named_theorems reads_intro \<open>programs that only read\<close>

lemma readsD: "reads m \<Longrightarrow> m s = (r, s') \<Longrightarrow> same_tables s s'"
  by (metis reads_def snd_conv)

lemma reads_return [reads_intro]: "reads (svc_return x)"
  by (simp add: reads_def svc_return_def same_tables_def)

lemma reads_fail [reads_intro]: "reads (svc_fail err)"
  by (simp add: reads_def svc_fail_def same_tables_def)

lemma reads_guard [reads_intro]: "reads (svc_guard c err)"
  by (simp add: svc_guard_def reads_intro)

lemma reads_some [reads_intro]: "reads (svc_some err v)"
  by (simp add: svc_some_def reads_intro split: option.splits)

lemma reads_may_fail [reads_intro]: "reads may_fail"
  using may_fail_same by (metis reads_def surjective_pairing)

lemma reads_bind [reads_intro]:
  assumes "reads m" "\<And>x. reads (k x)"
  shows "reads (svc_bind m k)"
  unfolding reads_def
proof
  fix s
  obtain r t where m: "m s = (r, t)" by force
  with assms(1) have "same_tables s t" by (auto dest: readsD)
  moreover have "same_tables t (snd (k x t))" for x using assms(2) by (simp add: reads_def)
  ultimately show "same_tables s (snd (svc_bind m k s))"
    by (auto simp: svc_bind_def m same_tables_def split: sum.splits)
qed

lemma reads_wrap [reads_intro]: "reads m \<Longrightarrow> reads (svc_wrap pre m)"
  by (auto simp: reads_def svc_wrap_def split: prod.splits sum.splits) (metis snd_conv)+

lemma reads_query [reads_intro]: "reads (query f)"
  unfolding query_def by (rule reads_bind[OF reads_may_fail]) (simp add: reads_def same_tables_def)

lemma reads_if [reads_intro]: "reads m \<Longrightarrow> reads m' \<Longrightarrow> reads (if c then m else m')"
  by simp

lemma reads_case_option [reads_intro]: "reads m \<Longrightarrow> (\<And>x. reads (f x)) \<Longrightarrow> reads (case v of None \<Rightarrow> m | Some x \<Rightarrow> f x)"
  by (cases v) auto

lemma reads_foreach [reads_intro]: "(\<And>x. reads (f x)) \<Longrightarrow> reads (svc_foreach f xs)"
  by (induction xs) (auto intro: reads_intro)

lemma reads_map [reads_intro]: "(\<And>x. reads (f x)) \<Longrightarrow> reads (svc_map f xs)"
  by (induction xs) (auto intro: reads_intro)

text \<open>A loop whose rounds each add to a collection.\<close>

lemma svc_foreach_collects:
  assumes "\<And>x t t' R. x \<in> set xs \<Longrightarrow> f x t = (Inr (), t') \<Longrightarrow> P R t \<Longrightarrow> P (R \<union> A x) t'"
    and "svc_foreach f xs s = (Inr (), s')" "P R s"
  shows "P (R \<union> (\<Union>x\<in>set xs. A x)) s'"
  using assms
proof (induction xs arbitrary: s R)
  case (Cons x xs)
  then obtain t where t: "f x s = (Inr (), t)" "svc_foreach f xs t = (Inr (), s')" by (auto simp: svc_ok)
  then have "P (R \<union> A x) t" by (simp add: Cons.prems(1,3))
  then have "P ((R \<union> A x) \<union> (\<Union>x\<in>set xs. A x)) s'" using Cons.prems(1) by (intro Cons.IH[OF _ t(2)]) auto
  then show ?case by (simp add: Un_assoc)
qed (simp add: svc_ok)

section \<open>Statements\<close>

definition next_id :: "nat list \<Rightarrow> nat" where
  "next_id ids = fold max ids 0 + 1"

definition unique_violation :: "string \<Rightarrow> gerr" where
  "unique_violation column = ErrNew (''UNIQUE constraint failed: '' @ column)"

text \<open>The row comes back with its identifier.\<close>

definition db_CreateOrganization :: "string \<Rightarrow> string \<Rightarrow> nat option \<Rightarrow> bool \<Rightarrow> iam_db \<Rightarrow> gerr + organization \<times> iam_db" where
  "db_CreateOrganization name description parent isRoot db =
     (if list_ex (\<lambda>x. og_Name x = name) (idb_organizations db) then Inl (unique_violation ''iam_organizations.name'')
      else let org = \<lparr>og_ID = next_id (map og_ID (idb_organizations db)), og_Name = name, og_Description = description,
                      og_ParentID = parent, og_IsRoot = isRoot, og_Deleted = False\<rparr>
           in Inr (org, db\<lparr>idb_organizations := idb_organizations db @ [org]\<rparr>))"

definition organizations :: "iam_db \<Rightarrow> organization list" where
  "organizations db = filter (\<lambda>x. \<not> og_Deleted x) (idb_organizations db)"

definition db_GetOrganizationByID :: "nat \<Rightarrow> iam_db \<Rightarrow> organization option" where
  "db_GetOrganizationByID i db = find (\<lambda>x. og_ID x = i) (organizations db)"

definition db_GetRootOrganization :: "iam_db \<Rightarrow> organization option" where
  "db_GetRootOrganization db = find og_IsRoot (organizations db)"

text \<open>\<^verbatim>\<open>ORDER BY parent_id IS NOT NULL, parent_id, id\<close>\<close>

definition organization_less :: "organization \<Rightarrow> organization \<Rightarrow> bool" where
  "organization_less a b =
     (case (og_ParentID a, og_ParentID b) of
        (None, None) \<Rightarrow> og_ID a < og_ID b
      | (None, Some _) \<Rightarrow> True
      | (Some _, None) \<Rightarrow> False
      | (Some p, Some q) \<Rightarrow> if p = q then og_ID a < og_ID b else p < q)"

definition db_ListOrganizations :: "iam_db \<Rightarrow> organization list" where
  "db_ListOrganizations db = go_sort organization_less (organizations db)"

text \<open>\<^verbatim>\<open>Save\<close> writes every column of the row with that identifier, or inserts the row when there is none.\<close>

definition save_row :: "('a \<Rightarrow> nat) \<Rightarrow> 'a \<Rightarrow> 'a list \<Rightarrow> 'a list" where
  "save_row key row rows =
     (if list_ex (\<lambda>x. key x = key row) rows then map (\<lambda>x. if key x = key row then row else x) rows else rows @ [row])"

definition db_UpdateOrganization :: "organization \<Rightarrow> iam_db \<Rightarrow> gerr + unit \<times> iam_db" where
  "db_UpdateOrganization org db =
     (if list_ex (\<lambda>x. og_ID x \<noteq> og_ID org \<and> og_Name x = og_Name org) (idb_organizations db)
      then Inl (unique_violation ''iam_organizations.name'')
      else Inr ((), db\<lparr>idb_organizations := save_row og_ID org (idb_organizations db)\<rparr>))"

definition db_DeleteOrganization :: "nat \<Rightarrow> iam_db \<Rightarrow> iam_db" where
  "db_DeleteOrganization i db =
     db\<lparr>idb_organizations := map (\<lambda>x. if og_ID x = i then x\<lparr>og_Deleted := True\<rparr> else x) (idb_organizations db)\<rparr>"

definition db_CountOrganizationChildren :: "nat \<Rightarrow> iam_db \<Rightarrow> nat" where
  "db_CountOrganizationChildren i db = length (filter (\<lambda>x. og_ParentID x = Some i) (organizations db))"

definition memberships :: "iam_db \<Rightarrow> organization_membership list" where
  "memberships db = filter (\<lambda>m. \<not> mb_Deleted m) (idb_memberships db)"

definition db_UpsertOrganizationMembership :: "nat \<Rightarrow> nat \<Rightarrow> iam_db \<Rightarrow> iam_db" where
  "db_UpsertOrganizationMembership oid uid db =
     (if list_ex (\<lambda>m. mb_OrganizationID m = oid \<and> mb_UserID m = uid) (idb_memberships db)
      then db\<lparr>idb_memberships := map (\<lambda>m. if mb_OrganizationID m = oid \<and> mb_UserID m = uid then m\<lparr>mb_Deleted := False\<rparr> else m) (idb_memberships db)\<rparr>
      else db\<lparr>idb_memberships := idb_memberships db @
             [\<lparr>mb_ID = next_id (map mb_ID (idb_memberships db)), mb_OrganizationID = oid, mb_UserID = uid, mb_Deleted = False\<rparr>]\<rparr>)"

definition db_GetOrganizationMembership :: "nat \<Rightarrow> nat \<Rightarrow> iam_db \<Rightarrow> organization_membership option" where
  "db_GetOrganizationMembership oid uid db = find (\<lambda>m. mb_OrganizationID m = oid \<and> mb_UserID m = uid) (memberships db)"

definition db_ListOrganizationMembers :: "nat \<Rightarrow> iam_db \<Rightarrow> organization_membership list" where
  "db_ListOrganizationMembers oid db = filter (\<lambda>m. mb_OrganizationID m = oid) (memberships db)"

definition db_ListUserOrganizations :: "nat \<Rightarrow> iam_db \<Rightarrow> organization_membership list" where
  "db_ListUserOrganizations uid db = filter (\<lambda>m. mb_UserID m = uid) (memberships db)"

definition delete_memberships :: "(organization_membership \<Rightarrow> bool) \<Rightarrow> iam_db \<Rightarrow> iam_db" where
  "delete_memberships P db = db\<lparr>idb_memberships := map (\<lambda>m. if P m then m\<lparr>mb_Deleted := True\<rparr> else m) (idb_memberships db)\<rparr>"

definition db_DeleteOrganizationMembership :: "nat \<Rightarrow> nat \<Rightarrow> iam_db \<Rightarrow> iam_db" where
  "db_DeleteOrganizationMembership oid uid = delete_memberships (\<lambda>m. mb_OrganizationID m = oid \<and> mb_UserID m = uid)"

definition db_DeleteOrganizationMembershipsByOrganization :: "nat \<Rightarrow> iam_db \<Rightarrow> iam_db" where
  "db_DeleteOrganizationMembershipsByOrganization oid = delete_memberships (\<lambda>m. mb_OrganizationID m = oid)"

definition db_DeleteOrganizationMembershipsByUser :: "nat \<Rightarrow> iam_db \<Rightarrow> iam_db" where
  "db_DeleteOrganizationMembershipsByUser uid = delete_memberships (\<lambda>m. mb_UserID m = uid)"

definition db_UpsertIAMRole :: "role_code \<Rightarrow> iam_db \<Rightarrow> iam_db" where
  "db_UpsertIAMRole code db =
     (if list_ex (\<lambda>r. ro_Code r = code) (idb_roles db) then db
      else db\<lparr>idb_roles := idb_roles db @ [\<lparr>ro_ID = next_id (map ro_ID (idb_roles db)), ro_Code = code\<rparr>]\<rparr>)"

definition db_GetIAMRoleByCode :: "role_code \<Rightarrow> iam_db \<Rightarrow> iam_role option" where
  "db_GetIAMRoleByCode code db = find (\<lambda>r. ro_Code r = code) (idb_roles db)"

definition role_by_id :: "nat \<Rightarrow> iam_db \<Rightarrow> iam_role option" where
  "role_by_id i db = find (\<lambda>r. ro_ID r = i) (idb_roles db)"

definition db_UpsertIAMPermission :: "string \<Rightarrow> string \<Rightarrow> string \<Rightarrow> iam_db \<Rightarrow> iam_db" where
  "db_UpsertIAMPermission code resource action db =
     (if list_ex (\<lambda>p. pm_Code p = code) (idb_permissions db)
      then db\<lparr>idb_permissions := map (\<lambda>p. if pm_Code p = code then p\<lparr>pm_Resource := resource, pm_Action := action\<rparr> else p) (idb_permissions db)\<rparr>
      else db\<lparr>idb_permissions := idb_permissions db @
             [\<lparr>pm_ID = next_id (map pm_ID (idb_permissions db)), pm_Code = code, pm_Resource = resource, pm_Action = action\<rparr>]\<rparr>)"

definition db_GetIAMPermissionByCode :: "string \<Rightarrow> iam_db \<Rightarrow> iam_permission option" where
  "db_GetIAMPermissionByCode code db = find (\<lambda>p. pm_Code p = code) (idb_permissions db)"

definition db_ListIAMPermissionsByRole :: "nat \<Rightarrow> iam_db \<Rightarrow> iam_permission list" where
  "db_ListIAMPermissionsByRole rid db = filter (\<lambda>p. (rid, pm_ID p) \<in> set (idb_role_permissions db)) (idb_permissions db)"

definition db_UpsertIAMRolePermission :: "nat \<Rightarrow> nat \<Rightarrow> iam_db \<Rightarrow> iam_db" where
  "db_UpsertIAMRolePermission rid pid db =
     (if (rid, pid) \<in> set (idb_role_permissions db) then db
      else db\<lparr>idb_role_permissions := idb_role_permissions db @ [(rid, pid)]\<rparr>)"

definition db_ReplaceIAMRolePermissionSubset :: "nat \<Rightarrow> nat list \<Rightarrow> nat list \<Rightarrow> iam_db \<Rightarrow> gerr + unit \<times> iam_db" where
  "db_ReplaceIAMRolePermissionSubset rid replaced enabled db =
     (let kept = filter (\<lambda>(r, p). \<not> (r = rid \<and> p \<in> set replaced)) (idb_role_permissions db) in
      if \<not> distinct enabled \<or> list_ex (\<lambda>p. (rid, p) \<in> set kept) enabled
      then Inl (unique_violation ''iam_role_permissions.role_id, iam_role_permissions.permission_id'')
      else Inr ((), db\<lparr>idb_role_permissions := kept @ map (\<lambda>p. (rid, p)) enabled\<rparr>))"

definition bindings :: "iam_db \<Rightarrow> iam_role_binding list" where
  "bindings db = filter (\<lambda>b. \<not> bd_Deleted b) (idb_bindings db)"

definition db_UpsertIAMRoleBinding :: "nat \<Rightarrow> nat \<Rightarrow> nat \<Rightarrow> bool \<Rightarrow> iam_db \<Rightarrow> iam_db" where
  "db_UpsertIAMRoleBinding oid uid rid inherit db =
     (let same = (\<lambda>b. bd_UserID b = uid \<and> bd_RoleID b = rid \<and> bd_OrganizationID b = oid) in
      if list_ex same (idb_bindings db)
      then db\<lparr>idb_bindings := map (\<lambda>b. if same b then b\<lparr>bd_InheritChildren := inherit, bd_Deleted := False\<rparr> else b) (idb_bindings db)\<rparr>
      else db\<lparr>idb_bindings := idb_bindings db @
             [\<lparr>bd_ID = next_id (map bd_ID (idb_bindings db)), bd_UserID = uid, bd_RoleID = rid, bd_OrganizationID = oid,
               bd_InheritChildren = inherit, bd_Deleted = False\<rparr>]\<rparr>)"

text \<open>A binding with its preloaded role.\<close>

definition db_GetIAMRoleBinding :: "nat \<Rightarrow> nat \<Rightarrow> iam_db \<Rightarrow> (iam_role_binding \<times> iam_role option) option" where
  "db_GetIAMRoleBinding oid uid db =
     map_option (\<lambda>b. (b, role_by_id (bd_RoleID b) db)) (find (\<lambda>b. bd_OrganizationID b = oid \<and> bd_UserID b = uid) (bindings db))"

text \<open>With the preloaded organization too.\<close>

definition db_ListIAMRoleBindings :: "iam_db \<Rightarrow> (iam_role_binding \<times> iam_role option \<times> organization option) list" where
  "db_ListIAMRoleBindings db =
     map (\<lambda>b. (b, role_by_id (bd_RoleID b) db, db_GetOrganizationByID (bd_OrganizationID b) db)) (bindings db)"

definition db_ListIAMRoleBindingsByUser :: "nat \<Rightarrow> iam_db \<Rightarrow> (iam_role_binding \<times> iam_role option \<times> organization option) list" where
  "db_ListIAMRoleBindingsByUser uid db = filter (\<lambda>(b, _). bd_UserID b = uid) (db_ListIAMRoleBindings db)"

definition delete_bindings :: "(iam_role_binding \<Rightarrow> bool) \<Rightarrow> iam_db \<Rightarrow> iam_db" where
  "delete_bindings P db = db\<lparr>idb_bindings := map (\<lambda>b. if P b then b\<lparr>bd_Deleted := True\<rparr> else b) (idb_bindings db)\<rparr>"

definition db_DeleteIAMRoleBinding :: "nat \<Rightarrow> nat \<Rightarrow> iam_db \<Rightarrow> iam_db" where
  "db_DeleteIAMRoleBinding oid uid = delete_bindings (\<lambda>b. bd_OrganizationID b = oid \<and> bd_UserID b = uid)"

definition db_DeleteIAMRoleBindingsByOrganization :: "nat \<Rightarrow> iam_db \<Rightarrow> iam_db" where
  "db_DeleteIAMRoleBindingsByOrganization oid = delete_bindings (\<lambda>b. bd_OrganizationID b = oid)"

definition db_DeleteIAMRoleBindingsByUser :: "nat \<Rightarrow> iam_db \<Rightarrow> iam_db" where
  "db_DeleteIAMRoleBindingsByUser uid = delete_bindings (\<lambda>b. bd_UserID b = uid)"

definition users :: "iam_db \<Rightarrow> iam_user list" where
  "users db = filter (\<lambda>u. \<not> us_Deleted u) (idb_users db)"

definition db_CreateUser :: "string \<Rightarrow> string \<Rightarrow> string \<Rightarrow> string \<Rightarrow> iam_db \<Rightarrow> gerr + iam_user \<times> iam_db" where
  "db_CreateUser name email password status db =
     (if list_ex (\<lambda>u. us_Email u = email) (idb_users db) then Inl (unique_violation ''users.email'')
      else let user = \<lparr>us_ID = next_id (map us_ID (idb_users db)), us_Name = name, us_Email = email, us_Password = password,
                       us_Status = status, us_LastLogin = None, us_LoginIP = [], us_Deleted = False\<rparr>
           in Inr (user, db\<lparr>idb_users := idb_users db @ [user]\<rparr>))"

definition db_GetUserByID :: "nat \<Rightarrow> iam_db \<Rightarrow> iam_user option" where
  "db_GetUserByID i db = find (\<lambda>u. us_ID u = i) (users db)"

definition db_GetUserByEmail :: "string \<Rightarrow> iam_db \<Rightarrow> iam_user option" where
  "db_GetUserByEmail email db = find (\<lambda>u. us_Email u = email) (users db)"

definition db_UpdateUser :: "iam_user \<Rightarrow> iam_db \<Rightarrow> gerr + unit \<times> iam_db" where
  "db_UpdateUser user db =
     (if list_ex (\<lambda>u. us_ID u \<noteq> us_ID user \<and> us_Email u = us_Email user) (idb_users db) then Inl (unique_violation ''users.email'')
      else Inr ((), db\<lparr>idb_users := save_row us_ID user (idb_users db)\<rparr>))"

definition db_ListUsers :: "nat \<Rightarrow> nat \<Rightarrow> iam_db \<Rightarrow> iam_user list" where
  "db_ListUsers offset limit db = take limit (drop offset (users db))"

definition db_DeleteUser :: "nat \<Rightarrow> iam_db \<Rightarrow> iam_db" where
  "db_DeleteUser i db = db\<lparr>idb_users := map (\<lambda>u. if us_ID u = i then u\<lparr>us_Deleted := True\<rparr> else u) (idb_users db)\<rparr>"

definition db_CheckUserExists :: "string \<Rightarrow> iam_db \<Rightarrow> bool" where
  "db_CheckUserExists email db = list_ex (\<lambda>u. us_Email u = email) (users db)"

definition update_user :: "nat \<Rightarrow> (iam_user \<Rightarrow> iam_user) \<Rightarrow> iam_db \<Rightarrow> iam_db" where
  "update_user i f db = db\<lparr>idb_users := map (\<lambda>u. if us_ID u = i \<and> \<not> us_Deleted u then f u else u) (idb_users db)\<rparr>"

definition db_UpdateUserLastLogin :: "gtime \<Rightarrow> nat \<Rightarrow> iam_db \<Rightarrow> iam_db" where
  "db_UpdateUserLastLogin now i = update_user i (\<lambda>u. u\<lparr>us_LastLogin := Some now\<rparr>)"

definition db_UpdateUserLastLoginAndIP :: "gtime \<Rightarrow> nat \<Rightarrow> string \<Rightarrow> iam_db \<Rightarrow> iam_db" where
  "db_UpdateUserLastLoginAndIP now i ip = update_user i (\<lambda>u. u\<lparr>us_LastLogin := Some now, us_LoginIP := ip\<rparr>)"

text \<open>The statements of repo/dao/dao_user_api_token.go.\<close>

definition db_CreateUserAPIToken :: "user_api_token \<Rightarrow> iam_db \<Rightarrow> gerr + user_api_token \<times> iam_db" where
  "db_CreateUserAPIToken tok db =
     (let tok = tok\<lparr>tk_ID := next_id (map tk_ID (idb_tokens db))\<rparr> in Inr (tok, db\<lparr>idb_tokens := idb_tokens db @ [tok]\<rparr>))"

definition live_tokens :: "iam_db \<Rightarrow> user_api_token list" where
  "live_tokens db = filter (\<lambda>k. tk_RevokedAt k = None) (idb_tokens db)"

definition db_ListUserAPITokens :: "nat \<Rightarrow> iam_db \<Rightarrow> user_api_token list" where
  "db_ListUserAPITokens uid db = rev (filter (\<lambda>k. tk_UserID k = uid) (live_tokens db))"

definition db_GetUserAPITokensByPrefix :: "string \<Rightarrow> iam_db \<Rightarrow> user_api_token list" where
  "db_GetUserAPITokensByPrefix pre db = filter (\<lambda>k. tk_TokenPrefix k = pre) (live_tokens db)"

definition update_tokens :: "(user_api_token \<Rightarrow> bool) \<Rightarrow> (user_api_token \<Rightarrow> user_api_token) \<Rightarrow> iam_db \<Rightarrow> iam_db" where
  "update_tokens P f db = db\<lparr>idb_tokens := map (\<lambda>k. if P k then f k else k) (idb_tokens db)\<rparr>"

definition db_RevokeUserAPIToken :: "gtime \<Rightarrow> nat \<Rightarrow> nat \<Rightarrow> iam_db \<Rightarrow> iam_db" where
  "db_RevokeUserAPIToken now uid i =
     update_tokens (\<lambda>k. tk_ID k = i \<and> tk_UserID k = uid \<and> tk_RevokedAt k = None) (\<lambda>k. k\<lparr>tk_RevokedAt := Some now\<rparr>)"

definition db_TouchUserAPIToken :: "gtime \<Rightarrow> nat \<Rightarrow> string \<Rightarrow> iam_db \<Rightarrow> iam_db" where
  "db_TouchUserAPIToken now i ip = update_tokens (\<lambda>k. tk_ID k = i) (\<lambda>k. k\<lparr>tk_LastUsedAt := Some now, tk_LastUsedIP := ip\<rparr>)"

definition db_CountUserAPITokens :: "nat \<Rightarrow> iam_db \<Rightarrow> nat" where
  "db_CountUserAPITokens uid db = length (filter (\<lambda>k. tk_UserID k = uid) (live_tokens db))"

definition relations :: "iam_db \<Rightarrow> iam_resource_relation list" where
  "relations db = filter (\<lambda>r. \<not> rl_Deleted r) (idb_relations db)"

definition same_relation :: "iam_resource_relation \<Rightarrow> iam_resource_relation \<Rightarrow> bool" where
  "same_relation a b \<longleftrightarrow> rl_ResourceType a = rl_ResourceType b \<and> rl_ResourceID a = rl_ResourceID b \<and> rl_Relation a = rl_Relation b \<and>
     rl_SubjectType a = rl_SubjectType b \<and> rl_SubjectID a = rl_SubjectID b"

definition db_UpsertIAMResourceRelation :: "iam_resource_relation \<Rightarrow> iam_db \<Rightarrow> iam_db" where
  "db_UpsertIAMResourceRelation rel db =
     (if list_ex (same_relation rel) (idb_relations db)
      then db\<lparr>idb_relations := map (\<lambda>r. if same_relation rel r then r\<lparr>rl_CreatedBy := rl_CreatedBy rel, rl_Deleted := False\<rparr> else r) (idb_relations db)\<rparr>
      else db\<lparr>idb_relations := idb_relations db @ [rel\<lparr>rl_Deleted := False\<rparr>]\<rparr>)"

definition db_ListIAMResourceIDsForSubject :: "string \<Rightarrow> string \<Rightarrow> nat \<Rightarrow> iam_db \<Rightarrow> nat list" where
  "db_ListIAMResourceIDsForSubject resourceType subjectType subjectID db =
     sort (remdups (map rl_ResourceID (filter (\<lambda>r. rl_ResourceType r = resourceType \<and> rl_SubjectType r = subjectType \<and>
       rl_SubjectID r = subjectID) (relations db))))"

definition db_DeleteIAMResourceRelations :: "string \<Rightarrow> nat \<Rightarrow> iam_db \<Rightarrow> iam_db" where
  "db_DeleteIAMResourceRelations resourceType resourceID db =
     db\<lparr>idb_relations := map (\<lambda>r. if rl_ResourceType r = resourceType \<and> rl_ResourceID r = resourceID then r\<lparr>rl_Deleted := True\<rparr> else r)
         (idb_relations db)\<rparr>"

end
