(* ===== verification/Iam_Authorizer.thy ===== *)
theory Iam_Authorizer
  imports Iam_Store
begin

text \<open>
  The in-memory authorization decision (src/pkg/liaison/manager/iam/authorization.go) and its reload from the tables
  (iam/organization.go, \<^verbatim>\<open>reloadAuthorization\<close>, \<^verbatim>\<open>isOrganizationDescendant\<close>).

  The casbin enforcer is a library. Its operations are the fields of \<open>casbin\<close>, together with what can be observed of its state: the
  policy rules, the groupings, and whether the role links are built for them. The locale \<open>casbin_enforcer\<close> states what the library
  documents for the model of casbin/model.conf; a grouping only ever leads from a user to a role here.
\<close>

type_synonym rule = "string \<times> string \<times> string \<times> string"
type_synonym grouping = "string \<times> string \<times> string"

record 'e casbin =
  cb_Enforce :: "'e \<Rightarrow> string \<Rightarrow> string \<Rightarrow> string \<Rightarrow> string \<Rightarrow> gerr + bool"
  cb_ClearPolicy :: "'e \<Rightarrow> 'e"
  cb_AddPolicy :: "'e \<Rightarrow> rule \<Rightarrow> gerr + 'e"
  cb_AddGroupingPolicy :: "'e \<Rightarrow> grouping \<Rightarrow> gerr + 'e"
  cb_BuildRoleLinks :: "'e \<Rightarrow> gerr + 'e"
  cb_RemoveFilteredGroupingPolicy :: "'e \<Rightarrow> string \<Rightarrow> gerr + 'e"
  cb_keyMatch2 :: "string \<Rightarrow> string \<Rightarrow> bool"
  cb_regexMatch :: "string \<Rightarrow> string \<Rightarrow> bool"
  cb_rules :: "'e \<Rightarrow> rule set"
  cb_groupings :: "'e \<Rightarrow> grouping set"
  cb_linked :: "'e \<Rightarrow> bool"

section \<open>The matcher of casbin/model.conf\<close>

abbreviation globalDomain :: string where "globalDomain \<equiv> ''*''"

definition flat_groupings :: "grouping set \<Rightarrow> bool" where
  "flat_groupings gs \<longleftrightarrow> (\<forall>(u, r, d) \<in> gs. \<forall>(u', r', d') \<in> gs. r \<noteq> u')"

definition has_role :: "grouping set \<Rightarrow> string \<Rightarrow> string \<Rightarrow> string \<Rightarrow> bool" where
  "has_role gs sub role d \<longleftrightarrow> sub = role \<or> (sub, role, d) \<in> gs"

definition rule_matches :: "'e casbin \<Rightarrow> grouping set \<Rightarrow> string \<Rightarrow> string \<Rightarrow> string \<Rightarrow> string \<Rightarrow> rule \<Rightarrow> bool" where
  "rule_matches cb gs sub d obj act rule =
     (case rule of (psub, pdom, pobj, pact) \<Rightarrow>
        (has_role gs sub psub d \<or> has_role gs sub psub globalDomain) \<and> (pdom = globalDomain \<or> d = pdom) \<and>
        cb_keyMatch2 cb obj pobj \<and> cb_regexMatch cb act pact)"

text \<open>The policy effect: some rule matches.\<close>

definition policy_allows :: "'e casbin \<Rightarrow> rule set \<Rightarrow> grouping set \<Rightarrow> string \<Rightarrow> string \<Rightarrow> string \<Rightarrow> string \<Rightarrow> bool" where
  "policy_allows cb rules gs sub d obj act \<longleftrightarrow> (\<exists>rule \<in> rules. rule_matches cb gs sub d obj act rule)"

section \<open>authorizer\<close>

definition userSubject :: "nat \<Rightarrow> string" where
  "userSubject userID = ''user:'' @ dec userID"

definition roleSubject :: "role_code \<Rightarrow> string" where
  "roleSubject code = ''role:'' @ code"

definition organizationDomain :: "nat \<Rightarrow> string" where
  "organizationDomain i = ''org:'' @ dec i"

definition organizationObject :: "nat \<Rightarrow> string" where
  "organizationObject i = ''/organizations/'' @ dec i"

definition organizationMembersObject :: "nat \<Rightarrow> string" where
  "organizationMembersObject i = organizationObject i @ ''/members''"

text \<open>A call of the enforcer that changes its state.\<close>

definition on_enforcer :: "('e \<Rightarrow> gerr + 'e) \<Rightarrow> ('e, unit) svc" where
  "on_enforcer f s = (case f (sv_enf s) of Inl err \<Rightarrow> (Inl err, s) | Inr e' \<Rightarrow> (Inr (), s\<lparr>sv_enf := e'\<rparr>))"

definition enforce_subject :: "'e casbin \<Rightarrow> string \<Rightarrow> string \<Rightarrow> string \<Rightarrow> string \<Rightarrow> ('e, bool) svc" where
  "enforce_subject cb sub domain object action s = (cb_Enforce cb (sv_enf s) sub domain object action, s)"

definition enforce :: "'e casbin \<Rightarrow> nat \<Rightarrow> string \<Rightarrow> string \<Rightarrow> string \<Rightarrow> ('e, bool) svc" where
  "enforce cb userID domain object action =
     svc_wrap ''enforce casbin policy: '' (enforce_subject cb (userSubject userID) domain object action)"

definition authorizer_reset :: "'e casbin \<Rightarrow> ('e, unit) svc" where
  "authorizer_reset cb = on_enforcer (\<lambda>e. Inr (cb_ClearPolicy cb e))"

definition addPermission :: "'e casbin \<Rightarrow> role_code \<Rightarrow> string \<Rightarrow> string \<Rightarrow> ('e, unit) svc" where
  "addPermission cb role resource action =
     svc_wrap ''load role permission: '' (on_enforcer (\<lambda>e. cb_AddPolicy cb e (roleSubject role, globalDomain, resource, action)))"

definition addBinding :: "'e casbin \<Rightarrow> nat \<Rightarrow> role_code \<Rightarrow> string \<Rightarrow> ('e, unit) svc" where
  "addBinding cb userID role domain =
     svc_wrap ''load role binding: '' (on_enforcer (\<lambda>e. cb_AddGroupingPolicy cb e (userSubject userID, roleSubject role, domain)))"

definition rebuildRoleLinks :: "'e casbin \<Rightarrow> ('e, unit) svc" where
  "rebuildRoleLinks cb = svc_wrap ''rebuild casbin role links: '' (on_enforcer (cb_BuildRoleLinks cb))"

definition removeUser :: "'e casbin \<Rightarrow> nat \<Rightarrow> ('e, unit) svc" where
  "removeUser cb userID =
     svc_wrap ''remove user role bindings: '' (on_enforcer (\<lambda>e. cb_RemoveFilteredGroupingPolicy cb e (userSubject userID)))"

section \<open>isOrganizationDescendant\<close>

definition organization_parents :: "organization list \<Rightarrow> nat \<Rightarrow> nat option" where
  "organization_parents orgs i = Option.bind (find (\<lambda>x. og_ID x = i) (rev orgs)) og_ParentID"

fun descends_within :: "nat \<Rightarrow> (nat \<Rightarrow> nat option) \<Rightarrow> nat \<Rightarrow> nat \<Rightarrow> bool" where
  "descends_within 0 parents current ancestorID = False"
| "descends_within (Suc hops) parents current ancestorID =
     (case parents current of
        None \<Rightarrow> False
      | Some p \<Rightarrow> p = ancestorID \<or> descends_within hops parents p ancestorID)"

definition isOrganizationDescendant :: "organization list \<Rightarrow> nat \<Rightarrow> nat \<Rightarrow> bool" where
  "isOrganizationDescendant orgs candidateID ancestorID =
     descends_within (length orgs) (organization_parents orgs) candidateID ancestorID"

section \<open>reloadAuthorization\<close>

definition load_role :: "'e casbin \<Rightarrow> iam_role \<Rightarrow> ('e, unit) svc" where
  "load_role cb role =
     svc_bind (svc_wrap (''list permissions for role '' @ ro_Code role @ '': '') (query (db_ListIAMPermissionsByRole (ro_ID role))))
       (svc_foreach (\<lambda>p. addPermission cb (ro_Code role) (pm_Resource p) (pm_Action p)))"

definition inherited_organizations :: "organization list \<Rightarrow> nat \<Rightarrow> organization list" where
  "inherited_organizations orgs i = filter (\<lambda>x. og_ID x \<noteq> i \<and> isOrganizationDescendant orgs (og_ID x) i) orgs"

definition load_binding :: "'e casbin \<Rightarrow> organization list \<Rightarrow> iam_role_binding \<times> iam_role option \<times> organization option \<Rightarrow> ('e, unit) svc" where
  "load_binding cb orgs row =
     (case row of (b, role, org) \<Rightarrow>
        svc_bind (svc_some (ErrNew (''role binding '' @ dec (bd_ID b) @ '' has no role'')) role) (\<lambda>role.
        svc_bind (addBinding cb (bd_UserID b) (ro_Code role) (organizationDomain (bd_OrganizationID b))) (\<lambda>_.
        svc_bind (case org of
            Some x \<Rightarrow> if og_IsRoot x then addBinding cb (bd_UserID b) (ro_Code role) globalDomain else svc_return ()
          | None \<Rightarrow> svc_return ()) (\<lambda>_.
        if bd_InheritChildren b
        then svc_foreach (\<lambda>x. addBinding cb (bd_UserID b) (ro_Code role) (organizationDomain (og_ID x)))
               (inherited_organizations orgs (bd_OrganizationID b))
        else svc_return ()))))"

definition reloadAuthorization :: "'e casbin \<Rightarrow> ('e, unit) svc" where
  "reloadAuthorization cb =
     svc_bind (authorizer_reset cb) (\<lambda>_.
     svc_bind (svc_wrap ''list roles for authorization: '' (query idb_roles)) (\<lambda>roles.
     svc_bind (svc_foreach (load_role cb) roles) (\<lambda>_.
     svc_bind (svc_wrap ''list role bindings for authorization: '' (query db_ListIAMRoleBindings)) (\<lambda>rows.
     svc_bind (svc_wrap ''list organizations for authorization: '' (query db_ListOrganizations)) (\<lambda>orgs.
     svc_bind (svc_foreach (load_binding cb orgs) rows) (\<lambda>_.
     rebuildRoleLinks cb))))))"

section \<open>The contract of the enforcer\<close>

locale casbin_enforcer =
  fixes cb :: "'e casbin"
  assumes clear_rules: "cb_rules cb (cb_ClearPolicy cb e) = {}"
    and clear_groupings: "cb_groupings cb (cb_ClearPolicy cb e) = {}"
    and add_policy: "cb_AddPolicy cb e r = Inr e' \<Longrightarrow> cb_rules cb e' = insert r (cb_rules cb e) \<and> cb_groupings cb e' = cb_groupings cb e"
    and add_grouping: "cb_AddGroupingPolicy cb e g = Inr e' \<Longrightarrow>
      cb_groupings cb e' = insert g (cb_groupings cb e) \<and> cb_rules cb e' = cb_rules cb e"
    and remove_groupings: "cb_RemoveFilteredGroupingPolicy cb e u = Inr e' \<Longrightarrow>
      cb_groupings cb e' = {g \<in> cb_groupings cb e. fst g \<noteq> u} \<and> cb_rules cb e' = cb_rules cb e \<and> cb_linked cb e' = cb_linked cb e"
    and build_links: "cb_BuildRoleLinks cb e = Inr e' \<Longrightarrow>
      cb_rules cb e' = cb_rules cb e \<and> cb_groupings cb e' = cb_groupings cb e \<and> cb_linked cb e'"
    and enforce_matcher: "cb_linked cb e \<Longrightarrow> flat_groupings (cb_groupings cb e) \<Longrightarrow>
      cb_Enforce cb e sub d obj act = Inr (policy_allows cb (cb_rules cb e) (cb_groupings cb e) sub d obj act)"

section \<open>Descendants\<close>

definition parent_edges :: "organization list \<Rightarrow> (nat \<times> nat) set" where
  "parent_edges orgs = {(c, p). organization_parents orgs c = Some p}"

lemma organization_parents_in: "organization_parents orgs c = Some p \<Longrightarrow> c \<in> og_ID ` set orgs"
proof -
  assume "organization_parents orgs c = Some p"
  then obtain x where "find (\<lambda>x. og_ID x = c) (rev orgs) = Some x" by (auto simp: organization_parents_def bind_eq_Some_conv)
  then have "x \<in> set (rev orgs)" "og_ID x = c" by (auto dest: find_SomeD simp del: set_rev)
  then show ?thesis by auto
qed

lemma finite_parent_edges: "finite (parent_edges orgs)" "card (parent_edges orgs) \<le> length orgs"
proof -
  let ?R = "parent_edges orgs"
  have inj: "inj_on fst ?R" by (auto simp: inj_on_def parent_edges_def)
  have sub: "fst ` ?R \<subseteq> og_ID ` set orgs" by (auto simp: parent_edges_def dest: organization_parents_in)
  then show "finite ?R" using inj finite_imageD finite_subset by blast
  have "card ?R = card (fst ` ?R)" using inj by (simp add: card_image)
  also have "\<dots> \<le> card (og_ID ` set orgs)" using sub by (simp add: card_mono)
  also have "\<dots> \<le> length orgs" by (meson card_image_le card_length finite_set le_trans)
  finally show "card ?R \<le> length orgs" .
qed

lemma descends_within_iff: "descends_within n par c a \<longleftrightarrow> (\<exists>k. 0 < k \<and> k \<le> n \<and> (c, a) \<in> {(x, y). par x = Some y} ^^ k)"
proof (induction n arbitrary: c)
  case (Suc n)
  let ?R = "{(x, y). par x = Some y}"
  have suc: "(c, a) \<in> ?R ^^ Suc k \<longleftrightarrow> (\<exists>p. par c = Some p \<and> (p, a) \<in> ?R ^^ k)" for k
    by (auto intro: relpow_Suc_I2 dest!: relpow_Suc_D2 simp del: relpow.simps)
  have "(\<exists>k. 0 < k \<and> k \<le> Suc n \<and> (c, a) \<in> ?R ^^ k) \<longleftrightarrow> (\<exists>k \<le> n. (c, a) \<in> ?R ^^ Suc k)"
    by (metis Suc_le_mono gr0_conv_Suc zero_less_Suc)
  also have "\<dots> \<longleftrightarrow> (\<exists>p. par c = Some p \<and> (\<exists>k \<le> n. (p, a) \<in> ?R ^^ k))"
    by (simp only: suc) blast
  also have "\<dots> \<longleftrightarrow> (\<exists>p. par c = Some p \<and> (p = a \<or> (\<exists>k. 0 < k \<and> k \<le> n \<and> (p, a) \<in> ?R ^^ k)))"
    by (metis gr0I le0 relpow_0_E relpow_0_I)
  finally show ?case using Suc by (auto split: option.splits)
qed simp

lemma isOrganizationDescendant_iff: "isOrganizationDescendant orgs c a \<longleftrightarrow> (c, a) \<in> (parent_edges orgs)\<^sup>+"
proof
  assume "isOrganizationDescendant orgs c a"
  then show "(c, a) \<in> (parent_edges orgs)\<^sup>+"
    by (auto simp: isOrganizationDescendant_def descends_within_iff parent_edges_def trancl_power)
next
  assume "(c, a) \<in> (parent_edges orgs)\<^sup>+"
  then obtain k where "0 < k" "k \<le> card (parent_edges orgs)" "(c, a) \<in> parent_edges orgs ^^ k"
    using trancl_finite_eq_relpow[OF finite_parent_edges(1)[of orgs]] by auto
  then show "isOrganizationDescendant orgs c a"
    using finite_parent_edges(2)[of orgs] le_trans
    by (auto simp: isOrganizationDescendant_def descends_within_iff parent_edges_def)
qed

section \<open>What the tables grant\<close>

text \<open>The domains a binding covers: its organization, every domain for a binding on the root organization, and with inheritance
  every live organization below it.\<close>

definition binding_domains :: "iam_db \<Rightarrow> iam_role_binding \<Rightarrow> string set" where
  "binding_domains db b =
     {organizationDomain (bd_OrganizationID b)} \<union>
     (if (\<exists>x. db_GetOrganizationByID (bd_OrganizationID b) db = Some x \<and> og_IsRoot x) then {globalDomain} else {}) \<union>
     (if bd_InheritChildren b
      then {organizationDomain (og_ID x) | x. x \<in> set (organizations db) \<and> og_ID x \<noteq> bd_OrganizationID b \<and>
              (og_ID x, bd_OrganizationID b) \<in> (parent_edges (db_ListOrganizations db))\<^sup>+}
      else {})"

definition role_grants :: "'e casbin \<Rightarrow> iam_db \<Rightarrow> role_code \<Rightarrow> string \<Rightarrow> string \<Rightarrow> bool" where
  "role_grants cb db code obj act \<longleftrightarrow>
     (\<exists>role \<in> set (idb_roles db). ro_Code role = code \<and>
        (\<exists>p \<in> set (db_ListIAMPermissionsByRole (ro_ID role) db). cb_keyMatch2 cb obj (pm_Resource p) \<and> cb_regexMatch cb act (pm_Action p)))"

definition authorized :: "'e casbin \<Rightarrow> iam_db \<Rightarrow> nat \<Rightarrow> string \<Rightarrow> string \<Rightarrow> string \<Rightarrow> bool" where
  "authorized cb db u d obj act \<longleftrightarrow>
     (\<exists>b \<in> set (bindings db). bd_UserID b = u \<and> (d \<in> binding_domains db b \<or> globalDomain \<in> binding_domains db b) \<and>
        (\<exists>role. role_by_id (bd_RoleID b) db = Some role \<and> role_grants cb db (ro_Code role) obj act))"

text \<open>The policy a complete reload leaves in the enforcer.\<close>

definition role_rules :: "iam_db \<Rightarrow> iam_role \<Rightarrow> rule set" where
  "role_rules db role = (\<lambda>p. (roleSubject (ro_Code role), globalDomain, pm_Resource p, pm_Action p)) ` set (db_ListIAMPermissionsByRole (ro_ID role) db)"

definition table_rules :: "iam_db \<Rightarrow> rule set" where
  "table_rules db = (\<Union>role \<in> set (idb_roles db). role_rules db role)"

definition binding_groupings :: "iam_db \<Rightarrow> iam_role_binding \<Rightarrow> grouping set" where
  "binding_groupings db b = (case role_by_id (bd_RoleID b) db of
     None \<Rightarrow> {} | Some role \<Rightarrow> (\<lambda>d. (userSubject (bd_UserID b), roleSubject (ro_Code role), d)) ` binding_domains db b)"

definition table_groupings :: "iam_db \<Rightarrow> grouping set" where
  "table_groupings db = (\<Union>b \<in> set (bindings db). binding_groupings db b)"

definition reflects :: "'e casbin \<Rightarrow> iam_db \<Rightarrow> 'e \<Rightarrow> bool" where
  "reflects cb db e \<longleftrightarrow> cb_linked cb e \<and> cb_rules cb e = table_rules db \<and> cb_groupings cb e = table_groupings db"

lemma subject_simps [simp]:
  "userSubject u = userSubject v \<longleftrightarrow> u = v" "roleSubject c = roleSubject c' \<longleftrightarrow> c = c'"
  "userSubject u \<noteq> roleSubject c" "roleSubject c \<noteq> userSubject u"
  by (auto simp: userSubject_def roleSubject_def)

lemma flat_table_groupings: "flat_groupings (table_groupings db)"
  by (auto simp: flat_groupings_def table_groupings_def binding_groupings_def split: option.splits)

text \<open>The matcher over that policy is what the tables grant.\<close>

lemma policy_allows_tables: "policy_allows cb (table_rules db) (table_groupings db) (userSubject u) d obj act \<longleftrightarrow> authorized cb db u d obj act"
proof -
  have role: "has_role (table_groupings db) (userSubject u) (roleSubject c) x \<longleftrightarrow>
      (\<exists>b \<in> set (bindings db). bd_UserID b = u \<and> x \<in> binding_domains db b \<and> (\<exists>r. role_by_id (bd_RoleID b) db = Some r \<and> ro_Code r = c))" for c x
    by (fastforce simp: has_role_def table_groupings_def binding_groupings_def split: option.splits)
  have "policy_allows cb (table_rules db) (table_groupings db) (userSubject u) d obj act \<longleftrightarrow>
      (\<exists>c. (has_role (table_groupings db) (userSubject u) (roleSubject c) d \<or> has_role (table_groupings db) (userSubject u) (roleSubject c) globalDomain)
           \<and> role_grants cb db c obj act)"
    by (auto simp: policy_allows_def table_rules_def role_rules_def rule_matches_def role_grants_def)
  also have "\<dots> \<longleftrightarrow> authorized cb db u d obj act"
    unfolding role authorized_def by (intro iffI; elim exE conjE bexE disjE; blast)
  finally show ?thesis .
qed

section \<open>A complete reload\<close>

lemma on_enforcer_Inr [svc_ok]: "on_enforcer f s = (Inr x, s') \<longleftrightarrow> (\<exists>e'. f (sv_enf s) = Inr e' \<and> s' = s\<lparr>sv_enf := e'\<rparr>)"
  by (auto simp: on_enforcer_def split: sum.splits)

definition view :: "'e casbin \<Rightarrow> iam_db \<Rightarrow> rule set \<Rightarrow> grouping set \<Rightarrow> 'e iam_sys \<Rightarrow> bool" where
  "view cb db rules gs s \<longleftrightarrow> sv_db s = db \<and> cb_rules cb (sv_enf s) = rules \<and> cb_groupings cb (sv_enf s) = gs"

lemma query_view: "query f s = (Inr x, s') \<Longrightarrow> view cb db rules gs s \<Longrightarrow> view cb db rules gs s' \<and> x = f db"
  by (auto simp: svc_ok view_def same_tables_def dest: may_fail_same)

context casbin_enforcer
begin

lemma reset_view: "authorizer_reset cb s = (Inr (), s') \<Longrightarrow> view cb (sv_db s) {} {} s'"
  by (auto simp: authorizer_reset_def svc_ok view_def clear_rules clear_groupings)

lemma addPermission_view:
  "addPermission cb code obj act s = (Inr (), s') \<Longrightarrow> view cb db rules gs s \<Longrightarrow>
   view cb db (insert (roleSubject code, globalDomain, obj, act) rules) gs s'"
  by (auto simp: addPermission_def svc_ok view_def dest: add_policy)

lemma addBinding_view:
  "addBinding cb u code d s = (Inr (), s') \<Longrightarrow> view cb db rules gs s \<Longrightarrow>
   view cb db rules (insert (userSubject u, roleSubject code, d) gs) s'"
  by (auto simp: addBinding_def svc_ok view_def dest: add_grouping)

lemma rebuildRoleLinks_view:
  "rebuildRoleLinks cb s = (Inr (), s') \<Longrightarrow> view cb db rules gs s \<Longrightarrow> view cb db rules gs s' \<and> cb_linked cb (sv_enf s')"
  by (auto simp: rebuildRoleLinks_def svc_ok view_def dest: build_links)

lemma load_role_view:
  assumes "load_role cb role s = (Inr (), s')" "view cb db rules gs s"
  shows "view cb db (rules \<union> role_rules db role) gs s'"
proof -
  obtain t where t: "view cb db rules gs t"
    and loop: "svc_foreach (\<lambda>p. addPermission cb (ro_Code role) (pm_Resource p) (pm_Action p)) (db_ListIAMPermissionsByRole (ro_ID role) db) t = (Inr (), s')"
    using assms by (auto simp: load_role_def svc_bind_Inr svc_wrap_Inr dest!: query_view)
  have "view cb db (rules \<union> (\<Union>p \<in> set (db_ListIAMPermissionsByRole (ro_ID role) db).
      {(roleSubject (ro_Code role), globalDomain, pm_Resource p, pm_Action p)})) gs s'"
    by (rule svc_foreach_collects[where P = "\<lambda>r. view cb db r gs", OF _ loop t]) (auto dest: addPermission_view)
  then show ?thesis by (simp add: role_rules_def UNION_singleton_eq_range)
qed

lemma load_binding_view:
  assumes "load_binding cb (db_ListOrganizations db) (b, role, db_GetOrganizationByID (bd_OrganizationID b) db) s = (Inr (), s')"
    and "view cb db rules gs s" "role = role_by_id (bd_RoleID b) db"
  shows "view cb db rules (gs \<union> binding_groupings db b) s'"
proof -
  let ?x = "db_GetOrganizationByID (bd_OrganizationID b) db" and ?inherited = "inherited_organizations (db_ListOrganizations db) (bd_OrganizationID b)"
  obtain r t1 t2 where r: "role = Some r"
    and t1: "addBinding cb (bd_UserID b) (ro_Code r) (organizationDomain (bd_OrganizationID b)) s = (Inr (), t1)"
    and t2: "(case ?x of Some x \<Rightarrow> if og_IsRoot x then addBinding cb (bd_UserID b) (ro_Code r) globalDomain else svc_return () | None \<Rightarrow> svc_return ()) t1 = (Inr (), t2)"
    and s': "(if bd_InheritChildren b then svc_foreach (\<lambda>x. addBinding cb (bd_UserID b) (ro_Code r) (organizationDomain (og_ID x))) ?inherited
              else svc_return ()) t2 = (Inr (), s')"
    using assms(1) by (auto simp: load_binding_def svc_bind_Inr svc_some_Inr)
  let ?g = "\<lambda>d. (userSubject (bd_UserID b), roleSubject (ro_Code r), d)"
  have 1: "view cb db rules (gs \<union> {?g (organizationDomain (bd_OrganizationID b))}) t1"
    using addBinding_view[OF t1 assms(2)] by simp
  have 2: "view cb db rules (gs \<union> ?g ` ({organizationDomain (bd_OrganizationID b)} \<union> (if (\<exists>x. ?x = Some x \<and> og_IsRoot x) then {globalDomain} else {}))) t2"
    using 1 t2 by (auto simp: svc_ok insert_commute split: option.splits if_splits dest!: addBinding_view)
  have "view cb db rules (gs \<union> ?g ` binding_domains db b) s'"
  proof (cases "bd_InheritChildren b")
    case True
    with s' have loop: "svc_foreach (\<lambda>x. addBinding cb (bd_UserID b) (ro_Code r) (organizationDomain (og_ID x))) ?inherited t2 = (Inr (), s')" by simp
    have "view cb db rules ((gs \<union> ?g ` ({organizationDomain (bd_OrganizationID b)} \<union> (if (\<exists>x. ?x = Some x \<and> og_IsRoot x) then {globalDomain} else {})))
        \<union> (\<Union>x \<in> set ?inherited. {?g (organizationDomain (og_ID x))})) s'"
      by (rule svc_foreach_collects[where P = "view cb db rules", OF _ loop 2]) (auto dest: addBinding_view)
    moreover have "(\<Union>x \<in> set ?inherited. {?g (organizationDomain (og_ID x))}) =
        ?g ` {organizationDomain (og_ID x) | x. x \<in> set (organizations db) \<and> og_ID x \<noteq> bd_OrganizationID b \<and>
              (og_ID x, bd_OrganizationID b) \<in> (parent_edges (db_ListOrganizations db))\<^sup>+}"
      by (auto simp: inherited_organizations_def isOrganizationDescendant_iff db_ListOrganizations_def)
    ultimately show ?thesis by (simp add: binding_domains_def True image_Un Un_assoc)
  next
    case False
    with 2 s' show ?thesis by (simp add: binding_domains_def svc_ok)
  qed
  moreover have "role_by_id (bd_RoleID b) db = Some r" using assms(3) r by simp
  ultimately show ?thesis by (simp add: binding_groupings_def)
qed

theorem reload_reflects:
  assumes "reloadAuthorization cb s = (Inr (), s')"
  shows "sv_db s' = sv_db s \<and> reflects cb (sv_db s) (sv_enf s')"
proof -
  let ?db = "sv_db s"
  obtain t1 t2 roles t3 t4 rows t5 orgs t6
    where t1: "authorizer_reset cb s = (Inr (), t1)"
      and t2: "query idb_roles t1 = (Inr roles, t2)" and t3: "svc_foreach (load_role cb) roles t2 = (Inr (), t3)"
      and t4: "query db_ListIAMRoleBindings t3 = (Inr rows, t4)" and t5: "query db_ListOrganizations t4 = (Inr orgs, t5)"
      and t6: "svc_foreach (load_binding cb orgs) rows t5 = (Inr (), t6)" and s': "rebuildRoleLinks cb t6 = (Inr (), s')"
    using assms by (auto simp: reloadAuthorization_def svc_bind_Inr svc_wrap_Inr)
  have v2: "view cb ?db {} {} t2" and roles: "roles = idb_roles ?db"
    using query_view[OF t2 reset_view[OF t1]] by auto
  have "view cb ?db ({} \<union> (\<Union>role \<in> set roles. role_rules ?db role)) {} t3"
    by (rule svc_foreach_collects[where P = "\<lambda>r. view cb ?db r {}", OF _ t3 v2]) (rule load_role_view)
  then have v3: "view cb ?db (table_rules ?db) {} t3" by (simp add: roles table_rules_def)
  have v4: "view cb ?db (table_rules ?db) {} t4" and rows: "rows = db_ListIAMRoleBindings ?db" using query_view[OF t4 v3] by auto
  have v5: "view cb ?db (table_rules ?db) {} t5" and orgs: "orgs = db_ListOrganizations ?db" using query_view[OF t5 v4] by auto
  have "view cb ?db (table_rules ?db) ({} \<union> (\<Union>row \<in> set rows. binding_groupings ?db (fst row))) t6"
    by (rule svc_foreach_collects[where P = "view cb ?db (table_rules ?db)", OF _ t6 v5])
       (auto simp: rows orgs db_ListIAMRoleBindings_def intro: load_binding_view)
  then have "view cb ?db (table_rules ?db) (table_groupings ?db) t6"
    by (simp add: rows db_ListIAMRoleBindings_def table_groupings_def)
  from rebuildRoleLinks_view[OF s' this] show ?thesis by (simp add: view_def reflects_def)
qed

lemma reflects_Enforce: "reflects cb db e \<Longrightarrow> cb_Enforce cb e (userSubject u) d obj act = Inr (authorized cb db u d obj act)"
  by (simp add: reflects_def enforce_matcher flat_table_groupings policy_allows_tables)

end

end
