(* ===== verification/Iam_Features.thy ===== *)
theory Iam_Features
  imports Iam_Authorizer
begin

text \<open>
  Feature switches and the permission checks every request goes through (src/pkg/liaison/manager/iam/features.go; the checks of
  iam/organization.go), and the built-in catalog. An actor is the identifier of the signed-in user, or \<open>None\<close> for nil.
\<close>

section \<open>The feature catalog\<close>

abbreviation FeatureAudit :: string where "FeatureAudit \<equiv> ''audit.read''"
abbreviation FeatureOrganizations :: string where "FeatureOrganizations \<equiv> ''organizations.read''"
abbreviation FeatureHomeAI :: string where "FeatureHomeAI \<equiv> ''ai.home.use''"
abbreviation FeatureAccessAI :: string where "FeatureAccessAI \<equiv> ''ai.access.use''"
abbreviation FeatureSettingsRead :: string where "FeatureSettingsRead \<equiv> ''settings.global.read''"
abbreviation FeatureSettingsWrite :: string where "FeatureSettingsWrite \<equiv> ''settings.global.update''"
abbreviation FeaturePermissions :: string where "FeaturePermissions \<equiv> ''permissions.manage''"
abbreviation FeatureFilesRead :: string where "FeatureFilesRead \<equiv> ''webssh.files.read''"
abbreviation FeatureFilesUpload :: string where "FeatureFilesUpload \<equiv> ''webssh.files.upload''"
abbreviation FeatureStorageUpload :: string where "FeatureStorageUpload \<equiv> ''webs3.files.upload''"

record feature =
  ft_Code :: string
  ft_Name :: string

definition featureCatalog :: "feature list" where
  "featureCatalog =
     [\<lparr>ft_Code = FeatureFilesRead, ft_Name = [CHR 0xE6, CHR 0x96, CHR 0x87, CHR 0xE4, CHR 0xBB, CHR 0xB6, CHR 0xE6, CHR 0xB5, CHR 0x8F, CHR 0xE8, CHR 0xA7, CHR 0x88]\<rparr>,
      \<lparr>ft_Code = FeatureFilesUpload, ft_Name = [CHR 0xE6, CHR 0x96, CHR 0x87, CHR 0xE4, CHR 0xBB, CHR 0xB6, CHR 0xE4, CHR 0xB8, CHR 0x8A, CHR 0xE4, CHR 0xBC, CHR 0xA0]\<rparr>,
      \<lparr>ft_Code = FeatureStorageUpload, ft_Name = [CHR 0xE5, CHR 0xAF, CHR 0xB9, CHR 0xE8, CHR 0xB1, CHR 0xA1, CHR 0xE4, CHR 0xB8, CHR 0x8A, CHR 0xE4, CHR 0xBC, CHR 0xA0]\<rparr>,
      \<lparr>ft_Code = FeatureAudit, ft_Name = [CHR 0xE6, CHR 0x97, CHR 0xA5, CHR 0xE5, CHR 0xBF, CHR 0x97, CHR 0xE4, CHR 0xB8, CHR 0x8E, CHR 0xE5, CHR 0xAE, CHR 0xA1, CHR 0xE8, CHR 0xAE, CHR 0xA1]\<rparr>,
      \<lparr>ft_Code = FeatureHomeAI, ft_Name = [CHR 0xE9, CHR 0xA6, CHR 0x96, CHR 0xE9, CHR 0xA1, CHR 0xB5, CHR 0x20, CHR 0x41, CHR 0x49]\<rparr>,
      \<lparr>ft_Code = FeatureAccessAI, ft_Name = [CHR 0xE8, CHR 0xAE, CHR 0xBF, CHR 0xE9, CHR 0x97, CHR 0xAE, CHR 0xE5, CHR 0xB1, CHR 0x82, CHR 0x20, CHR 0x41, CHR 0x49]\<rparr>,
      \<lparr>ft_Code = FeatureSettingsRead, ft_Name = [CHR 0xE6, CHR 0x9F, CHR 0xA5, CHR 0xE7, CHR 0x9C, CHR 0x8B, CHR 0xE5, CHR 0x85, CHR 0xA8, CHR 0xE5, CHR 0xB1, CHR 0x80, CHR 0xE9, CHR 0x85, CHR 0x8D, CHR 0xE7, CHR 0xBD, CHR 0xAE]\<rparr>,
      \<lparr>ft_Code = FeatureSettingsWrite, ft_Name = [CHR 0xE4, CHR 0xBF, CHR 0xAE, CHR 0xE6, CHR 0x94, CHR 0xB9, CHR 0xE5, CHR 0x85, CHR 0xA8, CHR 0xE5, CHR 0xB1, CHR 0x80, CHR 0xE9, CHR 0x85, CHR 0x8D, CHR 0xE7, CHR 0xBD, CHR 0xAE]\<rparr>]"

definition allFeatures :: "feature list" where
  "allFeatures = featureCatalog @
     [\<lparr>ft_Code = FeaturePermissions, ft_Name = [CHR 0xE6, CHR 0x9D, CHR 0x83, CHR 0xE9, CHR 0x99, CHR 0x90, CHR 0xE7, CHR 0xAE, CHR 0xA1, CHR 0xE7, CHR 0x90, CHR 0x86]\<rparr>,
      \<lparr>ft_Code = FeatureOrganizations, ft_Name = [CHR 0xE7, CHR 0xBB, CHR 0x84, CHR 0xE7, CHR 0xBB, CHR 0x87, CHR 0xE6, CHR 0x9E, CHR 0xB6, CHR 0xE6, CHR 0x9E, CHR 0x84]\<rparr>]"

definition nil_dereference :: gerr where
  "nil_dereference = ErrNew ''runtime error: invalid memory address or nil pointer dereference''"

definition ensure_feature :: "iam_role \<Rightarrow> feature \<Rightarrow> ('e, unit) svc" where
  "ensure_feature admin feature =
     svc_bind (exec_total (db_UpsertIAMPermission (ft_Code feature) (''/features/'' @ ft_Code feature) ''use'')) (\<lambda>_.
     svc_bind (query (db_GetIAMPermissionByCode (ft_Code feature))) (\<lambda>stored.
     svc_bind (svc_some nil_dereference stored) (\<lambda>p.
     exec_total (db_UpsertIAMRolePermission (ro_ID admin) (pm_ID p)))))"

definition ensureFeatureCatalog :: "('e, unit) svc" where
  "ensureFeatureCatalog =
     svc_bind (query (db_GetIAMRoleByCode IAMRoleAdmin)) (\<lambda>admin.
     svc_bind (svc_some (Sentinel ErrForbidden) admin) (\<lambda>admin.
     svc_foreach (ensure_feature admin) allFeatures))"

section \<open>The built-in roles and permissions\<close>

record permission_seed =
  sd_code :: string
  sd_resource :: string
  sd_action :: string
  sd_roles :: "role_code list"

definition builtInPermissionSeeds :: "permission_seed list" where
  "builtInPermissionSeeds =
     [\<lparr>sd_code = ''settings.model.manage'', sd_resource = ''/settings/model'', sd_action = ''(read|update|test)'', sd_roles = [IAMRoleAdmin]\<rparr>,
      \<lparr>sd_code = ''users.collection.manage'', sd_resource = ''/users'', sd_action = ''(read|create)'', sd_roles = [IAMRoleAdmin]\<rparr>,
      \<lparr>sd_code = ''users.item.manage'', sd_resource = ''/users/:id'', sd_action = ''(update|delete)'', sd_roles = [IAMRoleAdmin]\<rparr>,
      \<lparr>sd_code = ''users.password.reset'', sd_resource = ''/users/:id/password'', sd_action = ''reset'', sd_roles = [IAMRoleAdmin]\<rparr>,
      \<lparr>sd_code = ''organizations.collection.manage'', sd_resource = ''/organizations'', sd_action = ''(read|create)'', sd_roles = [IAMRoleAdmin]\<rparr>,
      \<lparr>sd_code = ''organizations.item.manage'', sd_resource = ''/organizations/:id'', sd_action = ''(read|update|delete|create_child)'', sd_roles = [IAMRoleAdmin]\<rparr>,
      \<lparr>sd_code = ''organizations.members.manage'', sd_resource = ''/organizations/:id/members'', sd_action = ''(read|write)'', sd_roles = [IAMRoleAdmin]\<rparr>,
      \<lparr>sd_code = ''resources.admin'', sd_resource = ''/resources/*'', sd_action = ''(read|create|update|delete|use)'', sd_roles = [IAMRoleAdmin]\<rparr>,
      \<lparr>sd_code = ''organizations.collection.read'', sd_resource = ''/organizations'', sd_action = ''read'', sd_roles = [IAMRoleUser]\<rparr>,
      \<lparr>sd_code = ''organizations.item.read'', sd_resource = ''/organizations/:id'', sd_action = ''read'', sd_roles = [IAMRoleUser]\<rparr>,
      \<lparr>sd_code = ''organizations.members.read'', sd_resource = ''/organizations/:id/members'', sd_action = ''read'', sd_roles = [IAMRoleUser]\<rparr>,
      \<lparr>sd_code = ''resources.own'', sd_resource = ''/resources/*'', sd_action = ''(read|create|update|delete|use)'', sd_roles = [IAMRoleUser]\<rparr>]"

definition bind_seed :: "permission_seed \<Rightarrow> iam_permission option \<Rightarrow> role_code \<Rightarrow> ('e, unit) svc" where
  "bind_seed seed stored code =
     svc_bind (query (db_GetIAMRoleByCode code)) (\<lambda>role.
     case (role, stored) of
       (Some role, Some p) \<Rightarrow>
         svc_wrap (''bind IAM permission '' @ sd_code seed @ '': '') (exec_total (db_UpsertIAMRolePermission (ro_ID role) (pm_ID p)))
     | _ \<Rightarrow> svc_fail (ErrNew ''seed IAM catalog: role or permission missing''))"

definition ensure_seed :: "permission_seed \<Rightarrow> ('e, unit) svc" where
  "ensure_seed seed =
     svc_bind (svc_wrap (''seed IAM permission '' @ sd_code seed @ '': '')
       (exec_total (db_UpsertIAMPermission (sd_code seed) (sd_resource seed) (sd_action seed)))) (\<lambda>_.
     svc_bind (query (db_GetIAMPermissionByCode (sd_code seed))) (\<lambda>stored.
     svc_foreach (bind_seed seed stored) (sd_roles seed)))"

definition ensureIAMCatalog :: "('e, unit) svc" where
  "ensureIAMCatalog =
     svc_bind (svc_foreach (\<lambda>code. svc_wrap (''seed IAM role '' @ code @ '': '') (exec_total (db_UpsertIAMRole code))) [IAMRoleAdmin, IAMRoleUser])
       (\<lambda>_. svc_foreach ensure_seed builtInPermissionSeeds)"

text \<open>\<^verbatim>\<open>NewIAMService\<close> after the enforcer is made.\<close>

definition NewIAMService :: "'e casbin \<Rightarrow> ('e, unit) svc" where
  "NewIAMService cb = svc_bind ensureIAMCatalog (\<lambda>_. svc_bind ensureFeatureCatalog (\<lambda>_. reloadAuthorization cb))"

section \<open>Checks\<close>

definition hasPermission :: "'e casbin \<Rightarrow> nat option \<Rightarrow> string \<Rightarrow> string \<Rightarrow> string \<Rightarrow> ('e, bool) svc" where
  "hasPermission cb actor domain object action =
     (case actor of None \<Rightarrow> svc_return False | Some u \<Rightarrow> enforce cb u domain object action)"

text \<open>\<^verbatim>\<open>RequireFeature\<close> without its first step; for the organization feature that step checks the permission feature.\<close>

definition require_feature :: "'e casbin \<Rightarrow> nat option \<Rightarrow> string \<Rightarrow> ('e, unit) svc" where
  "require_feature cb actor code =
     svc_bind (query db_GetRootOrganization) (\<lambda>root.
     case (root, actor) of
       (Some root, Some u) \<Rightarrow>
         if u = 0 then svc_fail (Sentinel ErrForbidden)
         else svc_bind (hasPermission cb actor (organizationDomain (og_ID root)) (''/features/'' @ code) ''use'') (\<lambda>allowed.
           if allowed then svc_return ()
           else if code = FeaturePermissions then svc_fail (Sentinel ErrForbidden)
           else svc_bind (query (db_ListIAMRoleBindingsByUser u)) (\<lambda>rows.
             if rows = [] then svc_fail (Sentinel ErrForbidden)
             else svc_bind (enforce_subject cb (roleSubject IAMRoleUser) (organizationDomain (og_ID root)) (''/features/'' @ code) ''use'')
               (\<lambda>allowed. svc_guard allowed (Sentinel ErrForbidden))))
     | _ \<Rightarrow> svc_fail (Sentinel ErrForbidden))"

definition RequireFeature :: "'e casbin \<Rightarrow> nat option \<Rightarrow> string \<Rightarrow> ('e, unit) svc" where
  "RequireFeature cb actor code =
     (if code = FeatureOrganizations
      then svc_bind (require_feature cb actor FeaturePermissions) (\<lambda>_. require_feature cb actor code)
      else require_feature cb actor code)"

definition requirePermission :: "'e casbin \<Rightarrow> nat option \<Rightarrow> string \<Rightarrow> string \<Rightarrow> string \<Rightarrow> ('e, unit) svc" where
  "requirePermission cb actor domain object action =
     svc_bind (if take 14 object = ''/organizations'' \<and> action = ''read'' then RequireFeature cb actor FeatureOrganizations else svc_return ()) (\<lambda>_.
     case actor of
       None \<Rightarrow> svc_fail (Sentinel ErrForbidden)
     | Some u \<Rightarrow> svc_bind (enforce cb u domain object action) (\<lambda>allowed. svc_guard allowed (Sentinel ErrForbidden)))"

definition RequireModelSettingsPermission :: "'e casbin \<Rightarrow> nat option \<Rightarrow> string \<Rightarrow> ('e, unit) svc" where
  "RequireModelSettingsPermission cb actor action =
     (if action = ''read'' then RequireFeature cb actor FeatureSettingsRead
      else if action = ''update'' \<or> action = ''test'' then RequireFeature cb actor FeatureSettingsWrite
      else svc_fail (Sentinel ErrForbidden))"

definition requireResourceFeature :: "'e casbin \<Rightarrow> nat option \<Rightarrow> string \<Rightarrow> ('e, unit) svc" where
  "requireResourceFeature cb actor resource =
     (if resource = ''logs'' then RequireFeature cb actor FeatureAudit
      else if resource = ''agent_sessions'' then RequireFeature cb actor FeatureAccessAI
      else if resource = ''management_agent_sessions'' then RequireFeature cb actor FeatureHomeAI
      else svc_return ())"

definition trim_slashes :: "string \<Rightarrow> string" where
  "trim_slashes s = rev (dropWhile (\<lambda>c. c = CHR ''/'') (rev (dropWhile (\<lambda>c. c = CHR ''/'') s)))"

text \<open>The loop over the bindings: the first organization in which the action is allowed.\<close>

fun allowed_in_some :: "'e casbin \<Rightarrow> nat option \<Rightarrow> string \<Rightarrow> string \<Rightarrow> nat list \<Rightarrow> ('e, unit) svc" where
  "allowed_in_some cb actor object action [] = svc_fail (Sentinel ErrForbidden)"
| "allowed_in_some cb actor object action (i # is) =
     svc_bind (hasPermission cb actor (organizationDomain i) object action) (\<lambda>allowed.
       if allowed then svc_return () else allowed_in_some cb actor object action is)"

definition RequireResourcePermission :: "'e casbin \<Rightarrow> nat option \<Rightarrow> string \<Rightarrow> string \<Rightarrow> ('e, unit) svc" where
  "RequireResourcePermission cb actor resource action =
     svc_bind (requireResourceFeature cb actor resource) (\<lambda>_.
     let resource' = trim_slashes (trim_space resource) in
     svc_bind (svc_guard (resource' \<noteq> []) (errw ErrInvalid ''resource type is required'')) (\<lambda>_.
     case actor of
       None \<Rightarrow> svc_fail (Sentinel ErrForbidden)
     | Some u \<Rightarrow>
         svc_bind (query (db_ListIAMRoleBindingsByUser u)) (\<lambda>rows.
         allowed_in_some cb actor (''/resources/'' @ resource') action (map (\<lambda>(b, _). bd_OrganizationID b) rows))))"

definition RequireOrganizationResourcePermission :: "'e casbin \<Rightarrow> nat option \<Rightarrow> nat \<Rightarrow> string \<Rightarrow> string \<Rightarrow> ('e, unit) svc" where
  "RequireOrganizationResourcePermission cb actor organizationID resource action =
     svc_bind (requireResourceFeature cb actor resource) (\<lambda>_.
     let resource' = trim_slashes (trim_space resource) in
     svc_bind (svc_guard (organizationID \<noteq> 0 \<and> resource' \<noteq> []) (errw ErrInvalid ''organization and resource type are required'')) (\<lambda>_.
     requirePermission cb actor (organizationDomain organizationID) (''/resources/'' @ resource') action))"

text \<open>The outcome of a program as a value.\<close>

definition svc_attempt :: "('e, 'a) svc \<Rightarrow> ('e, gerr + 'a) svc" where
  "svc_attempt m s = (case m s of (r, s') \<Rightarrow> (Inr r, s'))"

definition EffectiveFeatures :: "'e casbin \<Rightarrow> nat option \<Rightarrow> ('e, (string \<times> bool) list) svc" where
  "EffectiveFeatures cb actor =
     svc_map (\<lambda>f. svc_bind (svc_attempt (RequireFeature cb actor (ft_Code f))) (\<lambda>r.
       case r of
         Inr _ \<Rightarrow> svc_return (ft_Code f, True)
       | Inl err \<Rightarrow> if err = Sentinel ErrForbidden then svc_return (ft_Code f, False) else svc_fail err)) allFeatures"

section \<open>The policy of the user role\<close>

record user_feature_policy =
  fp_Catalog :: "feature list"
  fp_Enabled :: "string list"

definition UserFeaturePolicy :: "'e casbin \<Rightarrow> nat option \<Rightarrow> ('e, user_feature_policy) svc" where
  "UserFeaturePolicy cb actor =
     svc_bind (RequireFeature cb actor FeaturePermissions) (\<lambda>_.
     svc_bind (query (db_GetIAMRoleByCode IAMRoleUser)) (\<lambda>role.
     svc_bind (svc_some (Sentinel ErrForbidden) role) (\<lambda>role.
     svc_bind (query (db_ListIAMPermissionsByRole (ro_ID role))) (\<lambda>permissions.
     svc_return \<lparr>fp_Catalog = featureCatalog,
       fp_Enabled = concat (map (\<lambda>f. map (\<lambda>_. ft_Code f) (filter (\<lambda>p. pm_Code p = ft_Code f) permissions)) featureCatalog)\<rparr>))))"

definition feature_permission :: "feature \<Rightarrow> ('e, string \<times> nat) svc" where
  "feature_permission f =
     svc_bind (query (db_GetIAMPermissionByCode (ft_Code f))) (\<lambda>p.
     svc_bind (svc_some (Sentinel ErrInvalid) p) (\<lambda>p. svc_return (ft_Code f, pm_ID p)))"

definition SetUserFeaturePolicy :: "'e casbin \<Rightarrow> nat option \<Rightarrow> string list \<Rightarrow> ('e, unit) svc" where
  "SetUserFeaturePolicy cb actor enabled =
     svc_bind (RequireFeature cb actor FeaturePermissions) (\<lambda>_.
     svc_bind (svc_guard (list_all (\<lambda>code. code \<in> ft_Code ` set featureCatalog) enabled) (errw ErrInvalid ''unknown feature'')) (\<lambda>_.
     svc_bind (svc_guard (\<not> (FeatureSettingsWrite \<in> set enabled \<and> FeatureSettingsRead \<notin> set enabled))
       (errw ErrInvalid ''modifying settings requires read permission'')) (\<lambda>_.
     svc_bind (svc_guard (\<not> (FeatureFilesUpload \<in> set enabled \<and> FeatureFilesRead \<notin> set enabled))
       (errw ErrInvalid ''file upload requires file browsing permission'')) (\<lambda>_.
     svc_bind (query (db_GetIAMRoleByCode IAMRoleUser)) (\<lambda>role.
     svc_bind (svc_some (Sentinel ErrForbidden) role) (\<lambda>role.
     svc_bind (svc_map feature_permission featureCatalog) (\<lambda>ps.
     svc_bind (exec (db_ReplaceIAMRolePermissionSubset (ro_ID role) (map snd ps) (map snd (filter (\<lambda>(code, _). code \<in> set enabled) ps)))) (\<lambda>_.
     reloadAuthorization cb))))))))"

section \<open>The checks only read\<close>

lemma reads_enforce_subject [reads_intro]: "reads (enforce_subject cb sub d obj act)"
  by (simp add: reads_def enforce_subject_def same_tables_def)

lemma reads_enforce [reads_intro]: "reads (enforce cb u d obj act)"
  by (simp add: enforce_def reads_intro)

lemma reads_hasPermission [reads_intro]: "reads (hasPermission cb actor d obj act)"
  by (cases actor) (simp_all add: hasPermission_def reads_intro)

lemma reads_require_feature [reads_intro]: "reads (require_feature cb actor code)"
  unfolding require_feature_def by (cases actor) (auto intro!: reads_intro split: option.splits)

lemma reads_RequireFeature [reads_intro]: "reads (RequireFeature cb actor code)"
  by (simp add: RequireFeature_def reads_intro)

lemma reads_requirePermission [reads_intro]: "reads (requirePermission cb actor d obj act)"
  by (cases actor) (auto simp: requirePermission_def intro!: reads_intro)

end
