(* ===== verification/Iam_Organizations.thy ===== *)
theory Iam_Organizations
  imports Iam_Features
begin

text \<open>
  The management operations of src/pkg/liaison/manager/iam/organization.go: users, organizations, members and roles. Every operation
  starts with the permission checks of the code, ends with the reload where the code reloads, and returns the error of the first
  statement that fails. Password generation and hashing (crypto/rand and bcrypt) are parameters.
\<close>

record iam_env =
  env_generate :: "gerr + string"  \<comment> \<open>\<^verbatim>\<open>utils.GenerateRandomPassword(16)\<close>\<close>
  env_hash :: "string \<Rightarrow> gerr + string"  \<comment> \<open>\<^verbatim>\<open>utils.HashPassword\<close>\<close>

definition svc_lift :: "gerr + 'a \<Rightarrow> ('e, 'a) svc" where
  "svc_lift r s = (r, s)"

section \<open>Roles\<close>

definition setOrganizationRole :: "'e casbin \<Rightarrow> nat \<Rightarrow> nat \<Rightarrow> role_code \<Rightarrow> bool \<Rightarrow> ('e, unit) svc" where
  "setOrganizationRole cb organizationID userID roleCode inheritChildren =
     svc_bind (svc_guard (IsValidIAMRoleCode roleCode) (errw ErrInvalid ''invalid role'')) (\<lambda>_.
     svc_bind (query (db_GetIAMRoleByCode roleCode)) (\<lambda>role.
     svc_bind (svc_some (errw ErrNotFound ''role not found'') role) (\<lambda>role.
     svc_bind (in_tx (\<lambda>err. ErrWrap ''commit role binding: '' err [])
       (svc_bind (svc_wrap ''save organization membership: '' (exec_total (db_UpsertOrganizationMembership organizationID userID))) (\<lambda>_.
        svc_bind (svc_wrap ''replace role binding: '' (exec_total (db_DeleteIAMRoleBinding organizationID userID))) (\<lambda>_.
        svc_wrap ''save role binding: '' (exec_total (db_UpsertIAMRoleBinding organizationID userID (ro_ID role) inheritChildren)))))) (\<lambda>_.
     reloadAuthorization cb))))"

definition UserRole :: "nat \<Rightarrow> ('e, role_code) svc" where
  "UserRole userID =
     svc_bind (query (db_ListIAMRoleBindingsByUser userID)) (\<lambda>rows.
     let codes = map ro_Code (List.map_filter (\<lambda>(_, role, _). role) rows) in
     if IAMRoleAdmin \<in> set codes then svc_return IAMRoleAdmin
     else if IAMRoleUser \<in> set codes then svc_return IAMRoleUser
     else svc_fail (Sentinel ErrNotFound))"

section \<open>Bootstrap\<close>

definition root_description :: string where
  "root_description = [CHR 0xE7, CHR 0xB3, CHR 0xBB, CHR 0xE7, CHR 0xBB, CHR 0x9F, CHR 0xE6, CHR 0xA0, CHR 0xB9, CHR 0xE7, CHR 0xBB, CHR 0x84, CHR 0xE7, CHR 0xBB, CHR 0x87]"

definition bootstrap_membership :: "organization \<Rightarrow> iam_user \<Rightarrow> ('e, unit) svc" where
  "bootstrap_membership root user =
     svc_bind (svc_wrap ''get bootstrap membership: '' (query (db_GetOrganizationMembership (og_ID root) (us_ID user)))) (\<lambda>membership.
     if membership = None
     then svc_wrap ''create bootstrap membership: '' (exec_total (db_UpsertOrganizationMembership (og_ID root) (us_ID user)))
     else svc_return ())"

definition bootstrap_binding :: "organization \<Rightarrow> iam_user \<Rightarrow> role_code \<Rightarrow> ('e, unit) svc" where
  "bootstrap_binding root user roleCode =
     svc_bind (svc_wrap ''get bootstrap role binding: '' (query (db_GetIAMRoleBinding (og_ID root) (us_ID user)))) (\<lambda>binding.
     if binding \<noteq> None then svc_return ()
     else
       svc_bind (query (db_GetIAMRoleByCode roleCode)) (\<lambda>role.
       svc_bind (svc_some (ErrNew (''bootstrap role '' @ roleCode @ '' not found'')) role) (\<lambda>role.
       svc_wrap ''create bootstrap role binding: ''
         (exec_total (db_UpsertIAMRoleBinding (og_ID root) (us_ID user) (ro_ID role) (roleCode = IAMRoleAdmin))))))"

definition bootstrap_user :: "organization \<Rightarrow> nat \<times> iam_user \<Rightarrow> ('e, unit) svc" where
  "bootstrap_user root iu =
     (case iu of (i, user) \<Rightarrow>
        svc_bind (bootstrap_membership root user) (\<lambda>_.
        bootstrap_binding root user (if i = 0 then IAMRoleAdmin else IAMRoleUser)))"

definition EnsureOrganizationBootstrap :: "'e casbin \<Rightarrow> ('e, unit) svc" where
  "EnsureOrganizationBootstrap cb =
     svc_bind (svc_wrap ''list users for organization bootstrap: '' (svc_bind may_fail (\<lambda>_. query (db_ListUsers 0 100000)))) (\<lambda>users.
     if users = [] then svc_return ()
     else
       let users = go_sort (\<lambda>a b. us_ID a < us_ID b) users in
       svc_bind (svc_wrap ''get default organization: '' (query db_GetRootOrganization)) (\<lambda>found.
       svc_bind (case found of
           Some root \<Rightarrow> svc_return root
         | None \<Rightarrow> svc_wrap ''create default organization: '' (exec (db_CreateOrganization DefaultOrganizationName root_description None True))) (\<lambda>root.
       svc_bind (svc_foreach (bootstrap_user root) (enumerate 0 users)) (\<lambda>_.
       reloadAuthorization cb))))"

section \<open>Users\<close>

definition ListUsersFor :: "'e casbin \<Rightarrow> nat option \<Rightarrow> ('e, iam_user list \<times> nat) svc" where
  "ListUsersFor cb actor =
     svc_bind (requirePermission cb actor globalDomain ''/users'' ''read'') (\<lambda>_.
     svc_bind (query (length \<circ> users)) (\<lambda>total.
     svc_bind (query (db_ListUsers 0 100000)) (\<lambda>us. svc_return (us, total))))"

definition accountName :: "string \<Rightarrow> string" where
  "accountName email =
     (let name = takeWhile (\<lambda>c. c \<noteq> CHR ''@'') (trim_space email) in if name = [] then ''user'' else name)"

definition new_password :: "iam_env \<Rightarrow> string \<Rightarrow> ('e, string \<times> string) svc" where
  "new_password env password =
     (if password = [] then svc_bind (svc_wrap ''generate password: '' (svc_lift (env_generate env))) (\<lambda>g. svc_return (g, g))
      else svc_return (password, []))"

definition CreateUserFor ::
  "'e casbin \<Rightarrow> iam_env \<Rightarrow> nat option \<Rightarrow> nat \<Rightarrow> string \<Rightarrow> string \<Rightarrow> string \<Rightarrow> role_code \<Rightarrow> ('e, iam_user \<times> string) svc" where
  "CreateUserFor cb env actor organizationID name email password roleCode =
     svc_bind (requirePermission cb actor globalDomain ''/users'' ''create'') (\<lambda>_.
     svc_bind (svc_guard (organizationID \<noteq> 0) (errw ErrInvalid ''organization is required'')) (\<lambda>_.
     svc_bind (query (db_GetOrganizationByID organizationID)) (\<lambda>organization.
     svc_bind (svc_some (errw ErrInvalid ''organization not found'') organization) (\<lambda>organization.
     svc_bind (requirePermission cb actor (organizationDomain organizationID) (organizationObject organizationID) ''update'') (\<lambda>_.
     let name = trim_space name; email = to_lower (trim_space email) in
     svc_bind (svc_guard (email \<noteq> [] \<and> CHR ''@'' \<in> set email) (errw ErrInvalid ''valid email required'')) (\<lambda>_.
     svc_bind (query (db_CheckUserExists email)) (\<lambda>exists.
     svc_bind (svc_guard (\<not> exists) (errw ErrInvalid ''email already exists'')) (\<lambda>_.
     let roleCode = (if roleCode = [] then IAMRoleUser else roleCode) in
     svc_bind (svc_guard (IsValidIAMRoleCode roleCode) (errw ErrInvalid ''invalid role'')) (\<lambda>_.
     svc_bind (new_password env password) (\<lambda>(password, generated).
     svc_bind (svc_guard (length password \<ge> 8) (errw ErrInvalid ''password must contain at least 8 characters'')) (\<lambda>_.
     svc_bind (svc_wrap ''hash password: '' (svc_lift (env_hash env password))) (\<lambda>hash.
     svc_bind (svc_wrap ''create user: '' (exec (db_CreateUser (if name = [] then accountName email else name) email hash ''active''))) (\<lambda>user.
     svc_bind (setOrganizationRole cb (og_ID organization) (us_ID user) roleCode (roleCode = IAMRoleAdmin)) (\<lambda>_.
     svc_return (user, generated)))))))))))))))"

definition UpdateUserFor ::
  "'e casbin \<Rightarrow> nat option \<Rightarrow> nat \<Rightarrow> string \<Rightarrow> string \<Rightarrow> role_code option \<Rightarrow> ('e, iam_user) svc" where
  "UpdateUserFor cb actor i name status roleCode =
     svc_bind (requirePermission cb actor globalDomain (''/users/'' @ dec i) ''update'') (\<lambda>_.
     svc_bind (query (db_GetUserByID i)) (\<lambda>user.
     svc_bind (svc_some (Sentinel ErrNotFound) user) (\<lambda>user.
     let user = (if trim_space name \<noteq> [] then user\<lparr>us_Name := trim_space name\<rparr> else user) in
     svc_bind (svc_guard (status \<in> {[], ''active'', ''inactive'', ''locked''}) (errw ErrInvalid ''invalid status'')) (\<lambda>_.
     let user = (if status \<noteq> [] then user\<lparr>us_Status := status\<rparr> else user) in
     svc_bind (case roleCode of
         None \<Rightarrow> svc_return ()
       | Some code \<Rightarrow>
           svc_bind (svc_guard (IsValidIAMRoleCode code) (errw ErrInvalid ''invalid role'')) (\<lambda>_.
           svc_guard (\<not> (actor = Some i \<and> code \<noteq> IAMRoleAdmin)) (errw ErrInvalid ''cannot remove your own administrator role''))) (\<lambda>_.
     svc_bind (svc_wrap ''update user: '' (exec (db_UpdateUser user))) (\<lambda>_.
     svc_bind (case roleCode of
         None \<Rightarrow> svc_return ()
       | Some code \<Rightarrow>
           svc_bind (query db_GetRootOrganization) (\<lambda>root.
           svc_bind (svc_some (Sentinel ErrNotFound) root) (\<lambda>root.
           setOrganizationRole cb (og_ID root) (us_ID user) code (code = IAMRoleAdmin)))) (\<lambda>_.
     svc_return user)))))))"

definition ResetUserPasswordFor :: "'e casbin \<Rightarrow> iam_env \<Rightarrow> nat option \<Rightarrow> nat \<Rightarrow> string \<Rightarrow> ('e, unit) svc" where
  "ResetUserPasswordFor cb env actor i password =
     svc_bind (requirePermission cb actor globalDomain (''/users/'' @ dec i @ ''/password'') ''reset'') (\<lambda>_.
     svc_bind (svc_guard (length password \<ge> 8) (errw ErrInvalid ''password must contain at least 8 characters'')) (\<lambda>_.
     svc_bind (query (db_GetUserByID i)) (\<lambda>user.
     svc_bind (svc_some (Sentinel ErrNotFound) user) (\<lambda>user.
     svc_bind (svc_wrap ''hash password: '' (svc_lift (env_hash env password))) (\<lambda>hash.
     exec (db_UpdateUser (user\<lparr>us_Password := hash\<rparr>)))))))"

definition DeleteUserFor :: "'e casbin \<Rightarrow> nat option \<Rightarrow> nat \<Rightarrow> ('e, unit) svc" where
  "DeleteUserFor cb actor i =
     svc_bind (requirePermission cb actor globalDomain (''/users/'' @ dec i) ''delete'') (\<lambda>_.
     svc_bind (svc_guard (actor \<noteq> Some i) (errw ErrInvalid ''cannot delete your own account'')) (\<lambda>_.
     svc_bind (query (db_GetUserByID i)) (\<lambda>user.
     svc_bind (svc_some (Sentinel ErrNotFound) user) (\<lambda>_.
     svc_bind (in_tx id
       (svc_bind (svc_wrap ''delete role bindings: '' (exec_total (db_DeleteIAMRoleBindingsByUser i))) (\<lambda>_.
        svc_bind (svc_wrap ''delete memberships: '' (exec_total (db_DeleteOrganizationMembershipsByUser i))) (\<lambda>_.
        svc_wrap ''delete user: '' (exec_total (db_DeleteUser i)))))) (\<lambda>_.
     removeUser cb i)))))"

section \<open>Organizations\<close>

definition ListOrganizationsFor :: "'e casbin \<Rightarrow> nat option \<Rightarrow> ('e, organization list) svc" where
  "ListOrganizationsFor cb actor =
     svc_bind (requirePermission cb actor globalDomain ''/organizations'' ''read'') (\<lambda>_. query db_ListOrganizations)"

definition CanManageOrganization :: "'e casbin \<Rightarrow> nat option \<Rightarrow> nat \<Rightarrow> ('e, bool) svc" where
  "CanManageOrganization cb actor i = hasPermission cb actor (organizationDomain i) (organizationObject i) ''update''"

definition CanDeleteOrganization :: "'e casbin \<Rightarrow> nat option \<Rightarrow> nat \<Rightarrow> ('e, bool) svc" where
  "CanDeleteOrganization cb actor i = hasPermission cb actor (organizationDomain i) (organizationObject i) ''delete''"

definition CreateOrganizationFor :: "'e casbin \<Rightarrow> nat option \<Rightarrow> string \<Rightarrow> string \<Rightarrow> nat option \<Rightarrow> ('e, organization) svc" where
  "CreateOrganizationFor cb actor name description parentID =
     (let name = trim_space name in
     svc_bind (svc_guard (name \<noteq> [] \<and> length name \<le> 128)
       (errw ErrInvalid ''organization name is required and must be at most 128 characters'')) (\<lambda>_.
     svc_bind (case parentID of
         Some p \<Rightarrow> svc_return (Some p)
       | None \<Rightarrow> svc_bind (query db_GetRootOrganization) (\<lambda>root. svc_return (map_option og_ID root))) (\<lambda>parentID.
     svc_bind (case parentID of
         Some p \<Rightarrow>
           svc_bind (query (db_GetOrganizationByID p)) (\<lambda>parent.
           svc_bind (svc_some (errw ErrInvalid ''parent organization not found'') parent) (\<lambda>_.
           requirePermission cb actor (organizationDomain p) (organizationObject p) ''create_child''))
       | None \<Rightarrow> requirePermission cb actor globalDomain ''/organizations'' ''create'') (\<lambda>_.
     svc_bind (in_tx (\<lambda>err. ErrWrap ''commit organization creation: '' err [])
       (svc_wrap ''create organization: '' (exec (db_CreateOrganization name (trim_space description) parentID False)))) (\<lambda>org.
     svc_bind (case actor of
         Some u \<Rightarrow> setOrganizationRole cb (og_ID org) u IAMRoleAdmin True
       | None \<Rightarrow> svc_return ()) (\<lambda>_.
     svc_return org))))))"

text \<open>The walk from the new parent to the top, at most 1024 hops; reaching the organization itself is a cycle.\<close>

fun check_no_cycle :: "nat \<Rightarrow> nat \<Rightarrow> nat \<Rightarrow> ('e, unit) svc" where
  "check_no_cycle 0 i cursor = svc_return ()"
| "check_no_cycle (Suc hops) i cursor =
     svc_bind (query (db_GetOrganizationByID cursor)) (\<lambda>ancestor.
     svc_bind (svc_some (errw ErrInvalid ''parent organization not found'') ancestor) (\<lambda>ancestor.
     svc_bind (svc_guard (og_ID ancestor \<noteq> i) (errw ErrInvalid ''organization hierarchy cycle'')) (\<lambda>_.
     case og_ParentID ancestor of
       None \<Rightarrow> svc_return ()
     | Some p \<Rightarrow> check_no_cycle hops i p)))"

definition set_parent :: "'e casbin \<Rightarrow> nat option \<Rightarrow> nat \<Rightarrow> nat option \<Rightarrow> bool \<Rightarrow> organization \<Rightarrow> ('e, organization) svc" where
  "set_parent cb actor i parentID setParent org =
     (if \<not> setParent then svc_return org
      else
        svc_bind (svc_guard (\<not> (og_IsRoot org \<and> parentID \<noteq> None)) (errw ErrInvalid ''root organization cannot be moved'')) (\<lambda>_.
        svc_bind (case parentID of
            None \<Rightarrow> svc_return ()
          | Some p \<Rightarrow>
              svc_bind (svc_guard (p \<noteq> i) (errw ErrInvalid ''organization cannot be its own parent'')) (\<lambda>_.
              svc_bind (requirePermission cb actor (organizationDomain p) (organizationObject p) ''create_child'') (\<lambda>_.
              check_no_cycle 1024 i p))) (\<lambda>_.
        svc_return (org\<lparr>og_ParentID := parentID\<rparr>))))"

definition UpdateOrganizationFor ::
  "'e casbin \<Rightarrow> nat option \<Rightarrow> nat \<Rightarrow> string \<Rightarrow> string \<Rightarrow> nat option \<Rightarrow> bool \<Rightarrow> ('e, organization) svc" where
  "UpdateOrganizationFor cb actor i name description parentID setParent =
     svc_bind (requirePermission cb actor (organizationDomain i) (organizationObject i) ''update'') (\<lambda>_.
     svc_bind (query (db_GetOrganizationByID i)) (\<lambda>org.
     svc_bind (svc_some (Sentinel ErrNotFound) org) (\<lambda>org.
     svc_bind (svc_guard (\<not> (og_IsRoot org \<and> trim_space name \<noteq> [] \<and> trim_space name \<noteq> og_Name org))
       (errw ErrInvalid ''default organization cannot be renamed'')) (\<lambda>_.
     let org = org\<lparr>og_Name := (if trim_space name \<noteq> [] then trim_space name else og_Name org), og_Description := trim_space description\<rparr> in
     svc_bind (set_parent cb actor i parentID setParent org) (\<lambda>org.
     svc_bind (svc_wrap ''update organization: '' (exec (db_UpdateOrganization org))) (\<lambda>_.
     svc_return org))))))"

definition DeleteOrganizationFor :: "'e casbin \<Rightarrow> nat option \<Rightarrow> nat \<Rightarrow> ('e, unit) svc" where
  "DeleteOrganizationFor cb actor i =
     svc_bind (requirePermission cb actor (organizationDomain i) (organizationObject i) ''delete'') (\<lambda>_.
     svc_bind (query (db_GetOrganizationByID i)) (\<lambda>org.
     svc_bind (svc_some (Sentinel ErrNotFound) org) (\<lambda>org.
     svc_bind (svc_guard (\<not> og_IsRoot org) (errw ErrInvalid ''default organization cannot be deleted'')) (\<lambda>_.
     svc_bind (query (db_CountOrganizationChildren i)) (\<lambda>count.
     svc_bind (svc_guard (count = 0) (errw ErrInvalid ''move child organizations first'')) (\<lambda>_.
     svc_bind (in_tx id
       (svc_bind (exec_total (db_DeleteIAMRoleBindingsByOrganization i)) (\<lambda>_.
        svc_bind (exec_total (db_DeleteOrganizationMembershipsByOrganization i)) (\<lambda>_.
        exec_total (db_DeleteOrganization i))))) (\<lambda>_.
     reloadAuthorization cb)))))))"

section \<open>Members\<close>

text \<open>A membership with the role the API shows for it; the empty code when there is none.\<close>

definition listOrganizationMembersWithRoles :: "nat \<Rightarrow> ('e, (organization_membership \<times> role_code) list) svc" where
  "listOrganizationMembersWithRoles organizationID =
     svc_bind (query (db_ListOrganizationMembers organizationID)) (\<lambda>members.
     svc_map (\<lambda>m. svc_bind (query (db_GetIAMRoleBinding organizationID (mb_UserID m))) (\<lambda>binding.
       svc_return (m, case binding of Some (_, Some role) \<Rightarrow> ro_Code role | _ \<Rightarrow> []))) members)"

definition count_admins :: "(organization_membership \<times> role_code) list \<Rightarrow> nat" where
  "count_admins members = length (filter (\<lambda>(_, code). code = IAMRoleAdmin) members)"

definition ListOrganizationMembersFor :: "'e casbin \<Rightarrow> nat option \<Rightarrow> nat \<Rightarrow> ('e, (organization_membership \<times> role_code) list) svc" where
  "ListOrganizationMembersFor cb actor organizationID =
     svc_bind (requirePermission cb actor (organizationDomain organizationID) (organizationMembersObject organizationID) ''read'') (\<lambda>_.
     listOrganizationMembersWithRoles organizationID)"

definition is_admin_binding :: "(iam_role_binding \<times> iam_role option) option \<Rightarrow> bool" where
  "is_admin_binding current = (case current of Some (_, Some role) \<Rightarrow> ro_Code role = IAMRoleAdmin | _ \<Rightarrow> False)"

definition UpsertOrganizationMemberFor ::
  "'e casbin \<Rightarrow> nat option \<Rightarrow> nat \<Rightarrow> nat \<Rightarrow> role_code \<Rightarrow> ('e, (organization_membership \<times> role_code) option) svc" where
  "UpsertOrganizationMemberFor cb actor organizationID userID role =
     svc_bind (requirePermission cb actor (organizationDomain organizationID) (organizationMembersObject organizationID) ''write'') (\<lambda>_.
     svc_bind (svc_guard (IsValidIAMRoleCode role) (errw ErrInvalid ''invalid organization role'')) (\<lambda>_.
     svc_bind (query (db_GetOrganizationByID organizationID)) (\<lambda>org.
     svc_bind (svc_some (Sentinel ErrNotFound) org) (\<lambda>_.
     svc_bind (query (db_GetUserByID userID)) (\<lambda>user.
     svc_bind (svc_some (errw ErrInvalid ''user not found'') user) (\<lambda>_.
     svc_bind (query (db_GetIAMRoleBinding organizationID userID)) (\<lambda>current.
     svc_bind (if is_admin_binding current \<and> role \<noteq> IAMRoleAdmin
       then svc_bind (listOrganizationMembersWithRoles organizationID) (\<lambda>members.
         svc_guard (count_admins members > 1) (errw ErrInvalid ''organization must keep at least one administrator''))
       else svc_return ()) (\<lambda>_.
     svc_bind (setOrganizationRole cb organizationID userID role (role = IAMRoleAdmin)) (\<lambda>_.
     svc_bind (query (db_GetOrganizationMembership organizationID userID)) (\<lambda>membership.
     svc_return (map_option (\<lambda>m. (m, role)) membership)))))))))))"

definition UpsertOrganizationMemberByEmailFor ::
  "'e casbin \<Rightarrow> nat option \<Rightarrow> nat \<Rightarrow> string \<Rightarrow> role_code \<Rightarrow> ('e, (organization_membership \<times> role_code) option) svc" where
  "UpsertOrganizationMemberByEmailFor cb actor organizationID email role =
     svc_bind (query (db_GetUserByEmail (to_lower (trim_space email)))) (\<lambda>user.
     svc_bind (svc_some (errw ErrInvalid ''user not found'') user) (\<lambda>user.
     UpsertOrganizationMemberFor cb actor organizationID (us_ID user) role))"

definition RemoveOrganizationMemberFor :: "'e casbin \<Rightarrow> nat option \<Rightarrow> nat \<Rightarrow> nat \<Rightarrow> ('e, unit) svc" where
  "RemoveOrganizationMemberFor cb actor organizationID userID =
     svc_bind (requirePermission cb actor (organizationDomain organizationID) (organizationMembersObject organizationID) ''write'') (\<lambda>_.
     svc_bind (listOrganizationMembersWithRoles organizationID) (\<lambda>members.
     svc_bind (query (db_GetIAMRoleBinding organizationID userID)) (\<lambda>current.
     svc_bind (svc_guard (current \<noteq> None) (Sentinel ErrNotFound)) (\<lambda>_.
     svc_bind (svc_guard (\<not> (is_admin_binding current \<and> count_admins members \<le> 1))
       (errw ErrInvalid ''organization must keep at least one administrator'')) (\<lambda>_.
     svc_bind (in_tx id
       (svc_bind (exec_total (db_DeleteIAMRoleBinding organizationID userID)) (\<lambda>_.
        exec_total (db_DeleteOrganizationMembership organizationID userID)))) (\<lambda>_.
     reloadAuthorization cb))))))"

end
