(* ===== verification/Iam_Password.thy ===== *)
theory Iam_Password
  imports Go_Encoding Iam_Organizations
begin

text \<open>
  Password hashes and generated passwords (src/pkg/utils/password.go). The key derivation argon2id is a library: its version number and
  the function are parameters, where \<open>Inl\<close> stands for a panic; so are the bytes read from the random source and the text
  of a failed \<^verbatim>\<open>fmt.Sscanf\<close>.
\<close>

record argon2_lib =
  ar_Version :: nat
  ar_IDKey :: "bytes \<Rightarrow> bytes \<Rightarrow> nat \<Rightarrow> nat \<Rightarrow> nat \<Rightarrow> nat \<Rightarrow> gerr + bytes"  \<comment> \<open>password, salt, time, memory, threads, length\<close>
  ar_scan_error :: "string \<Rightarrow> gerr"

section \<open>fmt.Sscanf\<close>

text \<open>The directives the code uses: literal text and \<^verbatim>\<open>%d\<close>, which skips blanks. What is left of the input is ignored.\<close>

definition scan_literal :: "string \<Rightarrow> string \<Rightarrow> string option" where
  "scan_literal p s = (if take (length p) s = p then Some (drop (length p) s) else None)"

definition skip_blanks :: "string \<Rightarrow> string option" where
  "skip_blanks s = (case dropWhile (\<lambda>c. c \<in> {CHR 0x20, CHR 0x09, CHR 0x0B, CHR 0x0C, CHR 0x0D}) s of
     c # cs \<Rightarrow> if c = CHR 0x0A then None else Some (c # cs)
   | [] \<Rightarrow> None)"

definition is_digit :: "char \<Rightarrow> bool" where
  "is_digit c \<longleftrightarrow> 48 \<le> (of_char c :: nat) \<and> of_char c \<le> (57 :: nat)"

definition scan_digits :: "string \<Rightarrow> (nat \<times> string) option" where
  "scan_digits s = (case takeWhile is_digit s of [] \<Rightarrow> None | ds \<Rightarrow> Some (undec ds, dropWhile is_digit s))"

definition scan_uint :: "nat \<Rightarrow> string \<Rightarrow> (nat \<times> string) option" where
  "scan_uint bits s = Option.bind (skip_blanks s) (\<lambda>s. Option.bind (scan_digits s) (\<lambda>(n, rest). if n < 2 ^ bits then Some (n, rest) else None))"

definition scan_int :: "string \<Rightarrow> (int \<times> string) option" where
  "scan_int s = Option.bind (skip_blanks s) (\<lambda>s.
     case s of
       c # cs \<Rightarrow>
         if c = CHR ''-'' then Option.bind (scan_digits cs) (\<lambda>(n, rest). if n \<le> 2 ^ 63 then Some (- int n, rest) else None)
         else Option.bind (scan_digits (if c = CHR ''+'' then cs else s)) (\<lambda>(n, rest). if n < 2 ^ 63 then Some (int n, rest) else None)
     | [] \<Rightarrow> None)"

definition scan_version :: "string \<Rightarrow> int option" where
  "scan_version s = Option.bind (scan_literal ''v='' s) (\<lambda>s. map_option fst (scan_int s))"

definition scan_parameters :: "string \<Rightarrow> (nat \<times> nat \<times> nat) option" where
  "scan_parameters s =
     Option.bind (scan_literal ''m='' s) (\<lambda>s. Option.bind (scan_uint 32 s) (\<lambda>(m, s).
     Option.bind (scan_literal '',t='' s) (\<lambda>s. Option.bind (scan_uint 32 s) (\<lambda>(t, s).
     Option.bind (scan_literal '',p='' s) (\<lambda>s. Option.bind (scan_uint 8 s) (\<lambda>(p, s). Some (m, t, p)))))))"

section \<open>Hashing and verification\<close>

record password_config =
  pc_Time :: nat
  pc_Memory :: nat
  pc_Threads :: nat
  pc_KeyLen :: nat

definition DefaultPasswordConfig :: password_config where
  "DefaultPasswordConfig = \<lparr>pc_Time = 1, pc_Memory = 64 * 1024, pc_Threads = 4, pc_KeyLen = 32\<rparr>"

definition encoded_hash :: "argon2_lib \<Rightarrow> password_config \<Rightarrow> bytes \<Rightarrow> bytes \<Rightarrow> string" where
  "encoded_hash lib cfg salt hash =
     ''$argon2id$v='' @ dec (ar_Version lib) @ ''$m='' @ dec (pc_Memory cfg) @ '',t='' @ dec (pc_Time cfg) @ '',p='' @ dec (pc_Threads cfg) @
     ''$'' @ base64_encode salt @ ''$'' @ base64_encode hash"

definition argon2_default :: "argon2_lib \<Rightarrow> bytes \<Rightarrow> bytes \<Rightarrow> gerr + bytes" where
  "argon2_default lib password salt =
     ar_IDKey lib password salt (pc_Time DefaultPasswordConfig) (pc_Memory DefaultPasswordConfig) (pc_Threads DefaultPasswordConfig)
       (pc_KeyLen DefaultPasswordConfig)"

text \<open>The salt: sixteen bytes from the random source, or its error.\<close>

definition HashPassword :: "argon2_lib \<Rightarrow> gerr + bytes \<Rightarrow> string \<Rightarrow> gerr + string" where
  "HashPassword lib random password =
     (case random of
        Inl err \<Rightarrow> Inl err
      | Inr salt \<Rightarrow>
          (case argon2_default lib password salt of
             Inl err \<Rightarrow> Inl err
           | Inr hash \<Rightarrow> Inr (encoded_hash lib DefaultPasswordConfig salt hash)))"

definition VerifyPassword :: "argon2_lib \<Rightarrow> string \<Rightarrow> string \<Rightarrow> gerr + bool" where
  "VerifyPassword lib password encodedHash =
     (let parts = split_on (CHR ''$'') encodedHash in
      if length parts \<noteq> 6 then Inl (ErrNew ''invalid hash format'')
      else if parts ! 1 \<noteq> ''argon2id'' then Inl (ErrNew (''unsupported algorithm: '' @ parts ! 1))
      else case scan_version (parts ! 2) of
        None \<Rightarrow> Inl (ar_scan_error lib (parts ! 2))
      | Some version \<Rightarrow>
          if version \<noteq> int (ar_Version lib)
          then Inl (ErrNew (''incompatible version: '' @ (if version < 0 then ''-'' else []) @ dec (nat \<bar>version\<bar>)))
          else case scan_parameters (parts ! 3) of
            None \<Rightarrow> Inl (ar_scan_error lib (parts ! 3))
          | Some (memory, time, threads) \<Rightarrow>
              (case base64_decode (parts ! 4) of
                 Inl err \<Rightarrow> Inl err
               | Inr salt \<Rightarrow>
                   (case base64_decode (parts ! 5) of
                      Inl err \<Rightarrow> Inl err
                    | Inr hash \<Rightarrow>
                        (case ar_IDKey lib password salt time memory threads (length hash) of
                           Inl err \<Rightarrow> Inl err
                         | Inr otherHash \<Rightarrow> Inr (hash = otherHash)))))"

section \<open>Generated passwords\<close>

definition password_charset :: string where
  "password_charset = ''abcdefghijklmnopqrstuvwxyzABCDEFGHIJKLMNOPQRSTUVWXYZ0123456789!@#$%^&*''"

definition GenerateRandomPassword :: "(nat \<Rightarrow> gerr + bytes) \<Rightarrow> nat \<Rightarrow> gerr + string" where
  "GenerateRandomPassword random n =
     (case random n of
        Inl err \<Rightarrow> Inl err
      | Inr bs \<Rightarrow> Inr (map (\<lambda>b. password_charset ! (of_char b mod length password_charset)) bs))"

text \<open>The password functions the management operations use, with what the random source gives for a password and for a salt.\<close>

definition password_env :: "argon2_lib \<Rightarrow> (nat \<Rightarrow> gerr + bytes) \<Rightarrow> gerr + bytes \<Rightarrow> iam_env" where
  "password_env lib random salt = \<lparr>env_generate = GenerateRandomPassword random 16, env_hash = HashPassword lib salt\<rparr>"

section \<open>A stored hash accepts its password\<close>

lemma dec_digits_digits: "set (dec_digits f n) \<subseteq> {c. is_digit c}"
  by (induction f n rule: dec_digits.induct) (auto simp: is_digit_def)

lemma dec_digit: "c \<in> set (dec n) \<Longrightarrow> is_digit c"
  using dec_digits_digits[of "Suc n" n] unfolding dec_def by blast

lemma dec_digits_ne: "f > 0 \<Longrightarrow> dec_digits f n \<noteq> []"
  by (cases f) auto

lemma scan_digits_dec:
  assumes "rest = [] \<or> \<not> is_digit (hd rest)"
  shows "scan_digits (dec n @ rest) = Some (n, rest)"
proof -
  have "takeWhile is_digit (dec n @ rest) = dec n" "dropWhile is_digit (dec n @ rest) = rest"
    using assms dec_digit[of _ n] by (cases rest; simp add: takeWhile_append2)+
  moreover have "dec n \<noteq> []" by (simp add: dec_def)
  moreover have "undec (dec n) = n" unfolding dec_def by (rule undec_dec_digits) simp
  ultimately show ?thesis unfolding scan_digits_def by (cases "dec n") simp_all
qed

lemma skip_blanks_dec: "skip_blanks (dec n @ rest) = Some (dec n @ rest)"
proof -
  obtain c cs where c: "dec n = c # cs" using dec_digits_ne[of "Suc n" n] by (cases "dec n") (auto simp: dec_def)
  then have "is_digit c" using dec_digit[of c n] by simp
  then have "c \<notin> {CHR 0x20, CHR 0x09, CHR 0x0B, CHR 0x0C, CHR 0x0D, CHR 0x0A}" by (auto simp: is_digit_def)
  then show ?thesis by (simp add: skip_blanks_def c)
qed

lemma scan_uint_dec: "n < 2 ^ bits \<Longrightarrow> rest = [] \<or> \<not> is_digit (hd rest) \<Longrightarrow> scan_uint bits (dec n @ rest) = Some (n, rest)"
  by (simp add: scan_uint_def skip_blanks_dec scan_digits_dec)

lemma scan_int_dec: "n < 2 ^ 63 \<Longrightarrow> scan_int (dec n) = Some (int n, [])"
proof -
  assume n: "n < 2 ^ 63"
  obtain c cs where c: "dec n = c # cs" using dec_digits_ne[of "Suc n" n] by (cases "dec n") (auto simp: dec_def)
  then have "is_digit c" using dec_digit[of c n] by simp
  then have "c \<noteq> CHR ''-''" "c \<noteq> CHR ''+''" by (auto simp: is_digit_def)
  then show ?thesis using n skip_blanks_dec[of n "[]"] scan_digits_dec[of "[]" n] by (simp add: scan_int_def c)
qed

lemma scan_version_dec: "n < 2 ^ 63 \<Longrightarrow> scan_version (''v='' @ dec n) = Some (int n)"
  by (simp add: scan_version_def scan_literal_def scan_int_dec)

lemma scan_parameters_dec:
  "m < 2 ^ 32 \<Longrightarrow> t < 2 ^ 32 \<Longrightarrow> p < 2 ^ 8 \<Longrightarrow> scan_parameters (''m='' @ dec m @ '',t='' @ dec t @ '',p='' @ dec p) = Some (m, t, p)"
  using scan_uint_dec[of p 8 "[]"] by (simp add: scan_parameters_def scan_literal_def scan_uint_dec is_digit_def)

lemma dec_no_dollar: "CHR ''$'' \<notin> set (dec n)"
  using dec_digit[of "CHR ''$''" n] by (auto simp: is_digit_def)

lemma encoded_hash_parts:
  "split_on (CHR ''$'') (encoded_hash lib cfg salt hash) =
     [[], ''argon2id'', ''v='' @ dec (ar_Version lib), ''m='' @ dec (pc_Memory cfg) @ '',t='' @ dec (pc_Time cfg) @ '',p='' @ dec (pc_Threads cfg),
      base64_encode salt, base64_encode hash]"
proof -
  have "encoded_hash lib cfg salt hash = [] @ CHR ''$'' # ''argon2id'' @ CHR ''$'' # (''v='' @ dec (ar_Version lib)) @ CHR ''$'' #
    (''m='' @ dec (pc_Memory cfg) @ '',t='' @ dec (pc_Time cfg) @ '',p='' @ dec (pc_Threads cfg)) @ CHR ''$'' # base64_encode salt @
    CHR ''$'' # base64_encode hash"
    by (simp add: encoded_hash_def)
  then show ?thesis
    using split_on_single[OF base64_no_dollar, of hash]
    by (simp only:) ((subst split_on_join, simp add: dec_no_dollar base64_no_dollar)+, simp)
qed

text \<open>Verifying against a stored hash derives the key with the stored parameters and salt and compares.\<close>

lemma VerifyPassword_hashed:
  assumes "ar_Version lib < 2 ^ 63" "length hash = 32"
  shows "VerifyPassword lib password (encoded_hash lib DefaultPasswordConfig salt hash) =
    (case argon2_default lib password salt of Inl err \<Rightarrow> Inl err | Inr key \<Rightarrow> Inr (hash = key))"
  using assms scan_version_dec[of "ar_Version lib"] scan_parameters_dec[of 65536 1 4]
  by (simp add: VerifyPassword_def encoded_hash_parts DefaultPasswordConfig_def argon2_default_def)

end
