(* ===== verification/Iam_Management.thy ===== *)
theory Iam_Management
  imports Iam_Organizations
begin

text \<open>
  The management operations as the actions of one system: who may change the tables, what every action keeps of the organization
  hierarchy, and when the enforcer agrees with the tables.
\<close>

datatype iam_op =
    OpCreateUser nat string string string role_code
  | OpUpdateUser nat string string "role_code option"
  | OpResetUserPassword nat string
  | OpDeleteUser nat
  | OpCreateOrganization string string "nat option"
  | OpUpdateOrganization nat string string "nat option" bool
  | OpDeleteOrganization nat
  | OpUpsertMember nat nat role_code
  | OpUpsertMemberByEmail nat string role_code
  | OpRemoveMember nat nat
  | OpSetUserFeaturePolicy "string list"

definition svc_void :: "('e, 'a) svc \<Rightarrow> ('e, unit) svc" where
  "svc_void m = svc_bind m (\<lambda>_. svc_return ())"

fun run_op :: "'e casbin \<Rightarrow> iam_env \<Rightarrow> nat option \<Rightarrow> iam_op \<Rightarrow> ('e, unit) svc" where
  "run_op cb env actor (OpCreateUser i name email password role) = svc_void (CreateUserFor cb env actor i name email password role)"
| "run_op cb env actor (OpUpdateUser i name status role) = svc_void (UpdateUserFor cb actor i name status role)"
| "run_op cb env actor (OpResetUserPassword i password) = ResetUserPasswordFor cb env actor i password"
| "run_op cb env actor (OpDeleteUser i) = DeleteUserFor cb actor i"
| "run_op cb env actor (OpCreateOrganization name description parent) = svc_void (CreateOrganizationFor cb actor name description parent)"
| "run_op cb env actor (OpUpdateOrganization i name description parent setParent) =
     svc_void (UpdateOrganizationFor cb actor i name description parent setParent)"
| "run_op cb env actor (OpDeleteOrganization i) = DeleteOrganizationFor cb actor i"
| "run_op cb env actor (OpUpsertMember i u role) = svc_void (UpsertOrganizationMemberFor cb actor i u role)"
| "run_op cb env actor (OpUpsertMemberByEmail i email role) = svc_void (UpsertOrganizationMemberByEmailFor cb actor i email role)"
| "run_op cb env actor (OpRemoveMember i u) = RemoveOrganizationMemberFor cb actor i u"
| "run_op cb env actor (OpSetUserFeaturePolicy enabled) = SetUserFeaturePolicy cb actor enabled"

text \<open>The request the enforcer has to allow before the action changes anything: domain, object and action.\<close>

definition feature_request :: "iam_db \<Rightarrow> string \<Rightarrow> string \<times> string \<times> string" where
  "feature_request db code =
     (case db_GetRootOrganization db of
        Some root \<Rightarrow> (organizationDomain (og_ID root), ''/features/'' @ code, ''use'')
      | None \<Rightarrow> ([], [], []))"

fun op_request :: "iam_db \<Rightarrow> iam_op \<Rightarrow> string \<times> string \<times> string" where
  "op_request db (OpCreateUser i _ _ _ _) = (organizationDomain i, organizationObject i, ''update'')"
| "op_request db (OpUpdateUser i _ _ _) = (globalDomain, ''/users/'' @ dec i, ''update'')"
| "op_request db (OpResetUserPassword i _) = (globalDomain, ''/users/'' @ dec i @ ''/password'', ''reset'')"
| "op_request db (OpDeleteUser i) = (globalDomain, ''/users/'' @ dec i, ''delete'')"
| "op_request db (OpCreateOrganization _ _ parent) =
     (case (case parent of Some p \<Rightarrow> Some p | None \<Rightarrow> map_option og_ID (db_GetRootOrganization db)) of
        Some p \<Rightarrow> (organizationDomain p, organizationObject p, ''create_child'')
      | None \<Rightarrow> (globalDomain, ''/organizations'', ''create''))"
| "op_request db (OpUpdateOrganization i _ _ _ _) = (organizationDomain i, organizationObject i, ''update'')"
| "op_request db (OpDeleteOrganization i) = (organizationDomain i, organizationObject i, ''delete'')"
| "op_request db (OpUpsertMember i _ _) = (organizationDomain i, organizationMembersObject i, ''write'')"
| "op_request db (OpUpsertMemberByEmail i _ _) = (organizationDomain i, organizationMembersObject i, ''write'')"
| "op_request db (OpRemoveMember i _) = (organizationDomain i, organizationMembersObject i, ''write'')"
| "op_request db (OpSetUserFeaturePolicy _) = feature_request db FeaturePermissions"

section \<open>Only a permitted actor changes anything\<close>

definition permitted :: "'e casbin \<Rightarrow> 'e \<Rightarrow> nat option \<Rightarrow> string \<times> string \<times> string \<Rightarrow> bool" where
  "permitted cb e actor request =
     (case (actor, request) of
        (Some u, d, obj, act) \<Rightarrow> cb_Enforce cb e (userSubject u) d obj act = Inr True
      | (None, _) \<Rightarrow> False)"

lemma same_tables_refl [simp]: "same_tables s s"
  by (simp add: same_tables_def)

lemma enforce_subject_Inr [svc_ok]:
  "enforce_subject cb sub d obj act s = (Inr x, s') \<longleftrightarrow> cb_Enforce cb (sv_enf s) sub d obj act = Inr x \<and> s' = s"
  by (auto simp: enforce_subject_def)

lemma enforce_Inr [svc_ok]:
  "enforce cb u d obj act s = (Inr x, s') \<longleftrightarrow> cb_Enforce cb (sv_enf s) (userSubject u) d obj act = Inr x \<and> s' = s"
  by (simp add: enforce_def svc_ok)

lemma requirePermission_Inr:
  assumes "requirePermission cb actor d obj act s = (Inr x, s')"
  shows "permitted cb (sv_enf s) actor (d, obj, act) \<and> same_tables s s'"
proof -
  have same: "same_tables s s'" using reads_requirePermission assms by (rule readsD)
  then have "sv_enf s' = sv_enf s" by (simp add: same_tables_def)
  with same assms show ?thesis
    by (auto simp: requirePermission_def permitted_def svc_ok split: option.splits)
qed

lemma require_feature_Inr:
  assumes "require_feature cb actor code s = (Inr x, s')"
  obtains root u where "db_GetRootOrganization (sv_db s) = Some root" "actor = Some u" "u \<noteq> 0"
    "cb_Enforce cb (sv_enf s) (userSubject u) (organizationDomain (og_ID root)) (''/features/'' @ code) ''use'' = Inr True \<or> code \<noteq> FeaturePermissions"
proof -
  obtain found t where t: "query db_GetRootOrganization s = (Inr found, t)"
    using assms by (auto simp: require_feature_def svc_bind_Inr)
  then have same: "sv_db t = sv_db s" "sv_enf t = sv_enf s" "found = db_GetRootOrganization (sv_db s)"
    by (auto simp: same_tables_def dest: query_InrD)
  obtain root u where found: "found = Some root" "actor = Some u" "u \<noteq> 0"
    using assms t by (cases found; cases actor) (auto simp: require_feature_def svc_bind_Inr svc_fail_Inr split: if_splits)
  have root: "db_GetRootOrganization (sv_db s) = Some root" using same(3) found(1) by simp
  show thesis
    by (rule that[OF root found(2,3)])
       (use assms t[unfolded found(1)] same(1,2) found(2,3) in
         \<open>auto simp: require_feature_def hasPermission_def svc_bind_Inr enforce_Inr svc_fail_Inr split: if_splits\<close>)
qed

lemma require_permissions_feature_Inr:
  assumes "RequireFeature cb actor FeaturePermissions s = (Inr x, s')"
  shows "permitted cb (sv_enf s) actor (feature_request (sv_db s) FeaturePermissions) \<and> same_tables s s'"
proof -
  have "require_feature cb actor FeaturePermissions s = (Inr x, s')" using assms by (simp add: RequireFeature_def)
  then show ?thesis
    using readsD[OF reads_RequireFeature assms] by (auto simp: permitted_def feature_request_def elim!: require_feature_Inr)
qed

text \<open>A program changes something only past the checks it starts with.\<close>

lemma change_past_bind:
  assumes "reads m" "\<not> same_tables s (snd (svc_bind m k s))"
  obtains x t where "m s = (Inr x, t)" "same_tables s t" "\<not> same_tables t (snd (k x t))"
proof -
  obtain r t where m: "m s = (r, t)" by force
  then have same: "same_tables s t" using assms(1) by (auto dest: readsD)
  then obtain x where "r = Inr x" using assms(2) by (cases r) (auto simp: svc_bind_def m)
  then show thesis using that[of x t] m same assms(2) by (auto simp: svc_bind_def same_tables_def)
qed

lemma change_past_void: "\<not> same_tables s (snd (svc_void m s)) \<Longrightarrow> \<not> same_tables s (snd (m s))"
  by (auto simp: svc_void_def svc_bind_def svc_return_def split: prod.splits sum.splits)

lemma change_past_permission:
  "\<not> same_tables s (snd (svc_bind (requirePermission cb actor d obj act) k s)) \<Longrightarrow> permitted cb (sv_enf s) actor (d, obj, act)"
  by (meson change_past_bind reads_requirePermission requirePermission_Inr)

lemma permitted_same: "same_tables s t \<Longrightarrow> permitted cb (sv_enf t) = permitted cb (sv_enf s)"
  by (simp add: same_tables_def)

lemma change_past_reads:
  assumes "\<not> same_tables s (snd (svc_bind m k s))" "reads m"
  obtains x t where "sv_enf t = sv_enf s" "sv_db t = sv_db s" "\<not> same_tables t (snd (k x t))"
  using change_past_bind[OF assms(2,1)] same_tables_def by metis

text \<open>Skips the reading statement a program starts with.\<close>

lemmas past_query = change_past_reads[OF _ reads_query]
  and past_some = change_past_reads[OF _ reads_some]
  and past_guard = change_past_reads[OF _ reads_guard]
  and past_permission = change_past_reads[OF _ reads_requirePermission]

lemma CreateUserFor_permitted:
  assumes "\<not> same_tables s (snd (CreateUserFor cb env actor i name email password role s))"
  shows "permitted cb (sv_enf s) actor (organizationDomain i, organizationObject i, ''update'')"
  using assms unfolding CreateUserFor_def
  by (elim past_permission, elim past_guard, elim past_query, elim past_some) (auto dest!: change_past_permission)

lemma CreateOrganizationFor_permitted:
  assumes "\<not> same_tables s (snd (CreateOrganizationFor cb actor name description parent s))"
  shows "permitted cb (sv_enf s) actor (op_request (sv_db s) (OpCreateOrganization name description parent))"
proof -
  let ?choose = "case parent of Some p \<Rightarrow> svc_return (Some p) | None \<Rightarrow> svc_bind (query db_GetRootOrganization) (\<lambda>root. svc_return (map_option og_ID root))"
  let ?check = "\<lambda>parentID. case parentID of
         Some p \<Rightarrow>
           svc_bind (query (db_GetOrganizationByID p)) (\<lambda>parent.
           svc_bind (svc_some (errw ErrInvalid ''parent organization not found'') parent) (\<lambda>_.
           requirePermission cb actor (organizationDomain p) (organizationObject p) ''create_child''))
       | None \<Rightarrow> requirePermission cb actor globalDomain ''/organizations'' ''create''"
  have reads: "reads ?choose" "\<And>p. reads (?check p)"
    by (auto intro!: reads_intro split: option.splits)
  obtain t where t: "sv_enf t = sv_enf s" "sv_db t = sv_db s" and rest: "\<not> same_tables t (snd (svc_bind ?choose (\<lambda>p. svc_bind (?check p) (\<lambda>_.
     svc_bind (in_tx (\<lambda>err. ErrWrap ''commit organization creation: '' err [])
       (svc_wrap ''create organization: '' (exec (db_CreateOrganization (trim_space name) (trim_space description) p False)))) (\<lambda>org.
     svc_bind (case actor of Some u \<Rightarrow> setOrganizationRole cb (og_ID org) u IAMRoleAdmin True | None \<Rightarrow> svc_return ()) (\<lambda>_.
     svc_return org)))) t))"
    using assms unfolding CreateOrganizationFor_def Let_def by (elim past_guard) blast
  obtain p t1 where p: "?choose t = (Inr p, t1)" "same_tables t t1" and rest1: "\<not> same_tables t1 (snd (svc_bind (?check p) (\<lambda>_.
     svc_bind (in_tx (\<lambda>err. ErrWrap ''commit organization creation: '' err [])
       (svc_wrap ''create organization: '' (exec (db_CreateOrganization (trim_space name) (trim_space description) p False)))) (\<lambda>org.
     svc_bind (case actor of Some u \<Rightarrow> setOrganizationRole cb (og_ID org) u IAMRoleAdmin True | None \<Rightarrow> svc_return ()) (\<lambda>_.
     svc_return org))) t1))"
    using change_past_bind[OF reads(1) rest] by blast
  have parent: "p = (case parent of Some p \<Rightarrow> Some p | None \<Rightarrow> map_option og_ID (db_GetRootOrganization (sv_db s)))"
    using p t by (auto simp: svc_ok same_tables_def split: option.splits)
  obtain x t2 where "?check p t1 = (Inr x, t2)"
    using change_past_bind[OF reads(2) rest1] by blast
  then have "permitted cb (sv_enf t1) actor (case p of
      Some p \<Rightarrow> (organizationDomain p, organizationObject p, ''create_child'') | None \<Rightarrow> (globalDomain, ''/organizations'', ''create''))"
    by (auto simp: svc_ok same_tables_def split: option.splits dest!: requirePermission_Inr may_fail_same)
  with parent p(2) t(1) show ?thesis by (simp add: same_tables_def)
qed

lemma UpsertByEmail_permitted:
  assumes "\<not> same_tables s (snd (UpsertOrganizationMemberByEmailFor cb actor i email role s))"
  shows "permitted cb (sv_enf s) actor (organizationDomain i, organizationMembersObject i, ''write'')"
  using assms unfolding UpsertOrganizationMemberByEmailFor_def
  by (elim past_query, elim past_some) (auto simp: UpsertOrganizationMemberFor_def dest!: change_past_permission)

lemma SetUserFeaturePolicy_permitted:
  assumes "\<not> same_tables s (snd (SetUserFeaturePolicy cb actor enabled s))"
  shows "permitted cb (sv_enf s) actor (feature_request (sv_db s) FeaturePermissions)"
  using assms unfolding SetUserFeaturePolicy_def
  by (meson change_past_bind reads_RequireFeature require_permissions_feature_Inr)

end
