(* ===== verification/Iam_Forest.thy ===== *)
theory Iam_Forest
  imports Iam_Management
begin

text \<open>
  The organization hierarchy stays a forest: parents are live organizations, nothing is its own ancestor, and there is one root, which
  has no parent. The walk of \<^verbatim>\<open>UpdateOrganizationFor\<close> against cycles is bounded by 1024 hops, so the claim is for
  fewer than 1024 live organizations.
\<close>

section \<open>What a program keeps of the tables\<close>

definition keeps :: "(iam_db \<Rightarrow> 'b) \<Rightarrow> ('e, 'a) svc \<Rightarrow> bool" where
  "keeps f m \<longleftrightarrow> (\<forall>s. f (sv_db (snd (m s))) = f (sv_db s))"

named_theorems keeps_intro \<open>programs that keep a part of the tables\<close>

lemma keepsD: "keeps f m \<Longrightarrow> m s = (r, s') \<Longrightarrow> f (sv_db s') = f (sv_db s)"
  by (metis keeps_def snd_conv)

lemma reads_keeps: "reads m \<Longrightarrow> keeps f m"
  by (simp add: reads_def keeps_def same_tables_def)

lemma keeps_bind [keeps_intro]: "keeps f m \<Longrightarrow> (\<And>x. keeps f (k x)) \<Longrightarrow> keeps f (svc_bind m k)"
  unfolding keeps_def svc_bind_def by (auto split: prod.splits sum.splits) (metis snd_conv)+

lemma keeps_wrap [keeps_intro]: "keeps f m \<Longrightarrow> keeps f (svc_wrap pre m)"
  unfolding keeps_def svc_wrap_def by (auto split: prod.splits sum.splits) (metis snd_conv)+

lemma keeps_foreach [keeps_intro]: "(\<And>x. keeps f (g x)) \<Longrightarrow> keeps f (svc_foreach g xs)"
  by (induction xs) (auto intro: keeps_intro reads_keeps reads_intro)

lemma keeps_exec_total [keeps_intro]: "(\<And>db. f (g db) = f db) \<Longrightarrow> keeps f (exec_total g)"
  unfolding keeps_def exec_total_def exec_def svc_bind_def
  by (auto split: prod.splits sum.splits) (metis may_fail_same same_tables_def)+

lemma keeps_exec [keeps_intro]: "(\<And>db x db'. g db = Inr (x, db') \<Longrightarrow> f db' = f db) \<Longrightarrow> keeps f (exec g)"
  unfolding keeps_def exec_def svc_bind_def
  by (auto split: prod.splits sum.splits) (metis may_fail_same same_tables_def)+

lemma keeps_tx [keeps_intro]: "keeps f m \<Longrightarrow> keeps f (in_tx c m)"
  unfolding keeps_def in_tx_def by (auto split: prod.splits sum.splits) (metis may_fail_same same_tables_def snd_conv)

lemma keeps_on_enforcer [keeps_intro]: "keeps f (on_enforcer g)"
  by (auto simp: keeps_def on_enforcer_def split: sum.splits)

lemma keeps_reads_bases [keeps_intro]:
  "keeps f (svc_return x)" "keeps f (svc_fail err)" "keeps f (svc_guard c err)" "keeps f (svc_some err v)" "keeps f (query q)"
  "keeps f (requirePermission cb actor d obj act)" "keeps f (RequireFeature cb actor code)" "keeps f (svc_lift r)"
  by (auto intro!: reads_keeps reads_intro simp: reads_def svc_lift_def)

lemma keeps_option [keeps_intro]: "keeps f m \<Longrightarrow> (\<And>x. keeps f (g x)) \<Longrightarrow> keeps f (case v of None \<Rightarrow> m | Some x \<Rightarrow> g x)"
  by (cases v) auto

lemma keeps_if [keeps_intro]: "keeps f m \<Longrightarrow> keeps f m' \<Longrightarrow> keeps f (if c then m else m')"
  by simp

lemma keeps_map [keeps_intro]: "(\<And>x. keeps f (g x)) \<Longrightarrow> keeps f (svc_map g xs)"
  by (induction xs) (auto intro: keeps_intro)

lemma keeps_prod [keeps_intro]: "(\<And>a b. keeps f (g a b)) \<Longrightarrow> keeps f (case p of (a, b) \<Rightarrow> g a b)"
  by (cases p) auto

lemma keeps_void [keeps_intro]: "keeps f m \<Longrightarrow> keeps f (svc_void m)"
  unfolding svc_void_def by (intro keeps_intro)

lemma keeps_reloadAuthorization [keeps_intro]: "keeps f (reloadAuthorization cb)"
  unfolding reloadAuthorization_def load_role_def load_binding_def authorizer_reset_def addPermission_def addBinding_def rebuildRoleLinks_def
  by (intro keeps_intro)

lemma setOrganizationRole_keeps_organizations [keeps_intro]: "keeps idb_organizations (setOrganizationRole cb i u role inherit)"
  unfolding setOrganizationRole_def
  by (intro keeps_intro) (auto simp: db_UpsertOrganizationMembership_def db_DeleteIAMRoleBinding_def delete_bindings_def
      db_UpsertIAMRoleBinding_def Let_def)

section \<open>Forests\<close>

definition org_forest :: "iam_db \<Rightarrow> bool" where
  "org_forest db \<longleftrightarrow> distinct (map og_ID (idb_organizations db)) \<and> acyclic (parent_edges (organizations db)) \<and>
     (\<forall>x \<in> set (organizations db). \<forall>p. og_ParentID x = Some p \<longrightarrow> p \<in> og_ID ` set (organizations db)) \<and>
     (\<forall>x \<in> set (organizations db). og_IsRoot x \<longrightarrow> og_ParentID x = None) \<and>
     (\<forall>x \<in> set (organizations db). \<forall>y \<in> set (organizations db). og_IsRoot x \<longrightarrow> og_IsRoot y \<longrightarrow> x = y)"

lemma set_organizations: "set (organizations db) = {x \<in> set (idb_organizations db). \<not> og_Deleted x}"
  by (auto simp: organizations_def)

lemma distinct_organizations: "distinct (map og_ID (idb_organizations db)) \<Longrightarrow> distinct (map og_ID (organizations db))"
  by (simp add: organizations_def distinct_map_filter)

lemma find_distinct: "distinct (map k xs) \<Longrightarrow> x \<in> set xs \<Longrightarrow> List.find (\<lambda>y. k y = k x) xs = Some x"
  by (induction xs) (auto simp: image_iff)

lemma parent_edges_iff:
  assumes "distinct (map og_ID orgs)"
  shows "(c, p) \<in> parent_edges orgs \<longleftrightarrow> (\<exists>x \<in> set orgs. og_ID x = c \<and> og_ParentID x = Some p)"
proof
  assume "(c, p) \<in> parent_edges orgs"
  then obtain x where "List.find (\<lambda>y. og_ID y = c) (rev orgs) = Some x" "og_ParentID x = Some p"
    by (auto simp: parent_edges_def organization_parents_def bind_eq_Some_conv)
  then show "\<exists>x \<in> set orgs. og_ID x = c \<and> og_ParentID x = Some p" using find_SomeD[of _ "rev orgs"] by auto
next
  assume "\<exists>x \<in> set orgs. og_ID x = c \<and> og_ParentID x = Some p"
  then obtain x where x: "x \<in> set (rev orgs)" "og_ID x = c" "og_ParentID x = Some p" by auto
  moreover have "distinct (map og_ID (rev orgs))" using assms by (simp add: rev_map[symmetric])
  ultimately show "(c, p) \<in> parent_edges orgs"
    using find_distinct[of og_ID "rev orgs" x] by (auto simp: parent_edges_def organization_parents_def)
qed

lemma GetOrganizationByID_iff:
  assumes "distinct (map og_ID (idb_organizations db))"
  shows "db_GetOrganizationByID i db = Some x \<longleftrightarrow> x \<in> set (organizations db) \<and> og_ID x = i"
  using find_SomeD[of "\<lambda>x. og_ID x = i" "organizations db" x] find_distinct[OF distinct_organizations[OF assms], of x]
  by (auto simp: db_GetOrganizationByID_def)

text \<open>A new identifier is above all given ones.\<close>

lemma next_id_fresh: "i \<in> set ids \<Longrightarrow> i < next_id ids"
proof -
  have mono: "a \<le> fold max xs a \<and> (\<forall>x \<in> set xs. x \<le> fold max xs a)" for a and xs :: "nat list"
  proof (induction xs arbitrary: a)
    case (Cons x xs)
    from Cons[of "max x a"] show ?case by auto
  qed simp
  show "i \<in> set ids \<Longrightarrow> i < next_id ids" using mono[of 0 ids] by (auto simp: next_id_def less_Suc_eq_le)
qed

text \<open>A node no edge leads to can be linked below any other node.\<close>

lemma acyclic_link:
  assumes "acyclic R" "(p, c) \<notin> R\<^sup>*"
  shows "acyclic (insert (c, p) R)"
  using assms by (simp add: acyclic_insert)

lemma acyclic_new_leaf:
  assumes "acyclic R" "c \<noteq> p" "\<And>x. (x, c) \<notin> R"
  shows "acyclic (insert (c, p) R)"
  using assms by (intro acyclic_link) (auto elim: rtranclE)

lemma create_forest:
  assumes forest: "org_forest db" and create: "db_CreateOrganization name description parent isRoot db = Inr (org, db')"
    and parent: "\<And>p. parent = Some p \<Longrightarrow> p \<in> og_ID ` set (organizations db)"
    and root: "isRoot \<Longrightarrow> parent = None \<and> db_GetRootOrganization db = None"
  shows "org_forest db'"
proof -
  let ?i = "next_id (map og_ID (idb_organizations db))"
  let ?R = "parent_edges (organizations db)"
  have org: "og_ID org = ?i" "og_ParentID org = parent" "og_IsRoot org = isRoot" "\<not> og_Deleted org"
    and db': "idb_organizations db' = idb_organizations db @ [org]"
    using create by (auto simp: db_CreateOrganization_def Let_def split: if_splits)
  have live: "organizations db' = organizations db @ [org]" using db' org(4) by (simp add: organizations_def)
  have fresh: "x \<in> set (idb_organizations db) \<Longrightarrow> og_ID x < ?i" for x by (rule next_id_fresh) simp
  have dist: "distinct (map og_ID (idb_organizations db))" and acyclic: "acyclic ?R"
    and parents: "\<And>x p. x \<in> set (organizations db) \<Longrightarrow> og_ParentID x = Some p \<Longrightarrow> p \<in> og_ID ` set (organizations db)"
    using forest by (auto simp: org_forest_def)
  have notin: "?i \<notin> og_ID ` set (idb_organizations db)" using fresh by (metis imageE less_irrefl)
  then have dist': "distinct (map og_ID (idb_organizations db'))" using dist by (simp add: db' org)
  have edges: "parent_edges (organizations db') = ?R \<union> {(?i, p) | p. parent = Some p}"
    using parent_edges_iff[OF distinct_organizations[OF dist]] parent_edges_iff[OF distinct_organizations[OF dist']] org by (auto simp: live)
  have into: "(x, ?i) \<notin> ?R" for x
  proof
    assume "(x, ?i) \<in> ?R"
    then have "?i \<in> og_ID ` set (organizations db)" using parents parent_edges_iff[OF distinct_organizations[OF dist]] by blast
    then show False using notin by (auto simp: set_organizations)
  qed
  have "acyclic (parent_edges (organizations db'))"
  proof (cases parent)
    case (Some p)
    then have "p \<noteq> ?i" using parent fresh by (force simp: set_organizations)
    then have "acyclic (insert (?i, p) ?R)" by (intro acyclic_new_leaf[OF acyclic _ into]) simp
    moreover have "parent_edges (organizations db') = insert (?i, p) ?R" by (auto simp: edges Some)
    ultimately show ?thesis by simp
  qed (simp add: edges acyclic)
  moreover have "x \<in> set (organizations db) \<Longrightarrow> og_IsRoot x \<Longrightarrow> \<not> isRoot" for x
    using root find_ex[of "organizations db" og_IsRoot] by (auto simp: db_GetRootOrganization_def)
  ultimately show ?thesis
    using forest parent root dist' by (auto simp: org_forest_def live org)
qed

lemma delete_forest:
  assumes forest: "org_forest db" and children: "db_CountOrganizationChildren i db = 0"
  shows "org_forest (db_DeleteOrganization i db)"
proof -
  let ?db = "db_DeleteOrganization i db"
  have dist: "distinct (map og_ID (idb_organizations db))" using forest by (simp add: org_forest_def)
  have ids: "map og_ID (idb_organizations ?db) = map og_ID (idb_organizations db)" by (simp add: db_DeleteOrganization_def)
  have live: "set (organizations ?db) = {x \<in> set (organizations db). og_ID x \<noteq> i}"
    by (auto simp: set_organizations db_DeleteOrganization_def)
  have dist': "distinct (map og_ID (idb_organizations ?db))" using dist ids by simp
  have edges: "parent_edges (organizations ?db) \<subseteq> parent_edges (organizations db)"
    using parent_edges_iff[OF distinct_organizations[OF dist]] parent_edges_iff[OF distinct_organizations[OF dist']] by (auto simp: live)
  have "og_ParentID x \<noteq> Some i" if "x \<in> set (organizations db)" for x
    using children that by (auto simp: db_CountOrganizationChildren_def filter_empty_conv)
  then have "p \<in> og_ID ` set (organizations ?db)" if "x \<in> set (organizations ?db)" "og_ParentID x = Some p" for x p
    using that forest by (fastforce simp: org_forest_def live)
  then show ?thesis
    using forest dist' acyclic_subset[OF _ edges] by (auto simp: org_forest_def live)
qed

section \<open>Moving an organization\<close>

text \<open>The walk from \<open>c\<close> upwards succeeds only when it does not meet the organization within its hops.\<close>

lemma check_no_cycle_sound:
  assumes "check_no_cycle n i c s = (Inr (), s')" "distinct (map og_ID (idb_organizations (sv_db s)))" "k < n"
  shows "(c, i) \<notin> parent_edges (organizations (sv_db s)) ^^ k"
  using assms
proof (induction n arbitrary: c s k)
  case (Suc n)
  obtain x t where t: "same_tables s t" "db_GetOrganizationByID c (sv_db s) = Some x" "og_ID x \<noteq> i"
    and rest: "(case og_ParentID x of None \<Rightarrow> svc_return () | Some p \<Rightarrow> check_no_cycle n i p) t = (Inr (), s')"
    using Suc.prems(1) by (auto simp: svc_bind_Inr svc_some_Inr svc_guard_Inr dest!: query_InrD)
  have x: "x \<in> set (organizations (sv_db s))" "og_ID x = c" using t(2) GetOrganizationByID_iff[OF Suc.prems(2)] by auto
  show ?case
  proof (cases k)
    case 0
    with t x show ?thesis by auto
  next
    case (Suc k')
    have False if path: "(c, i) \<in> parent_edges (organizations (sv_db s)) ^^ Suc k'"
    proof -
      obtain p where p: "(c, p) \<in> parent_edges (organizations (sv_db s))" "(p, i) \<in> parent_edges (organizations (sv_db s)) ^^ k'"
        using relpow_Suc_D2[OF path] by blast
      then obtain y where "y \<in> set (organizations (sv_db s))" "og_ID y = c" "og_ParentID y = Some p"
        using parent_edges_iff[OF distinct_organizations[OF Suc.prems(2)]] by auto
      then have "og_ParentID x = Some p" using x t(2) GetOrganizationByID_iff[OF Suc.prems(2)] by (metis option.inject)
      with rest have "check_no_cycle n i p t = (Inr (), s')" by simp
      moreover have "sv_db t = sv_db s" using t(1) by (simp add: same_tables_def)
      ultimately show False using Suc.IH[of p t k'] Suc.prems p(2) Suc by simp
    qed
    with Suc show ?thesis by blast
  qed
qed simp

lemma check_no_cycle_complete:
  assumes "check_no_cycle 1024 i c s = (Inr (), s')" "distinct (map og_ID (idb_organizations (sv_db s)))"
    and "length (organizations (sv_db s)) < 1024"
  shows "(c, i) \<notin> (parent_edges (organizations (sv_db s)))\<^sup>*"
proof
  let ?R = "parent_edges (organizations (sv_db s))"
  assume "(c, i) \<in> ?R\<^sup>*"
  then obtain k where "k \<le> card ?R" "(c, i) \<in> ?R ^^ k"
    using rtrancl_finite_eq_relpow[OF finite_parent_edges(1)[of "organizations (sv_db s)"]] by auto
  moreover have "k < 1024" using calculation(1) finite_parent_edges(2)[of "organizations (sv_db s)"] assms(3) by linarith
  ultimately show False using check_no_cycle_sound[OF assms(1,2)] by blast
qed

lemma save_forest:
  assumes forest: "org_forest db" and old: "x \<in> set (organizations db)" and org: "og_ID org = og_ID x" "og_IsRoot org = og_IsRoot x" "\<not> og_Deleted org"
    and save: "db_UpdateOrganization org db = Inr ((), db')"
    and parent: "og_ParentID org = og_ParentID x \<or>
      (case og_ParentID org of None \<Rightarrow> True
       | Some p \<Rightarrow> \<not> og_IsRoot x \<and> p \<in> og_ID ` set (organizations db) \<and> (p, og_ID x) \<notin> (parent_edges (organizations db))\<^sup>*)"
  shows "org_forest db'"
proof -
  let ?R = "parent_edges (organizations db)" and ?i = "og_ID x"
  have dist: "distinct (map og_ID (idb_organizations db))" using forest by (simp add: org_forest_def)
  have mem: "x \<in> set (idb_organizations db)" using old by (simp add: set_organizations)
  have db': "idb_organizations db' = map (\<lambda>y. if og_ID y = ?i then org else y) (idb_organizations db)"
    using save mem org(1) by (auto simp: db_UpdateOrganization_def save_row_def list_ex_iff split: if_splits)
  have ids: "map og_ID (idb_organizations db') = map og_ID (idb_organizations db)" using org(1) by (simp add: db')
  have dist': "distinct (map og_ID (idb_organizations db'))" using dist ids by simp
  have same: "y \<in> set (idb_organizations db) \<Longrightarrow> og_ID y = ?i \<Longrightarrow> y = x" for y using dist mem by (auto simp: distinct_map dest: inj_onD)
  have live: "set (organizations db') = insert org {y \<in> set (organizations db). og_ID y \<noteq> ?i}"
    using mem old org(3) same by (auto simp: set_organizations db' image_iff)
  have live_ids: "og_ID ` set (organizations db') = og_ID ` set (organizations db)"
    using old org(1) by (auto simp: live)
  have edges: "parent_edges (organizations db') \<subseteq> (?R - {?i} \<times> UNIV) \<union> {(?i, p) | p. og_ParentID org = Some p}"
    using parent_edges_iff[OF distinct_organizations[OF dist]] parent_edges_iff[OF distinct_organizations[OF dist']] org(1) by (auto simp: live)
  have acyclic: "acyclic ?R" using forest by (simp add: org_forest_def)
  have "acyclic (parent_edges (organizations db'))"
  proof (cases "og_ParentID org = og_ParentID x")
    case True
    then have "{(?i, p) | p. og_ParentID org = Some p} \<subseteq> ?R"
      using parent_edges_iff[OF distinct_organizations[OF dist]] old by auto
    then show ?thesis using edges by (intro acyclic_subset[OF acyclic]) blast
  next
    case False
    show ?thesis
    proof (cases "og_ParentID org")
      case None
      with edges show ?thesis by (intro acyclic_subset[OF acyclic]) auto
    next
      case (Some p)
      with parent False have "(p, ?i) \<notin> ?R\<^sup>*" by simp
      then have "acyclic (insert (?i, p) ?R)" using acyclic by (rule acyclic_link[rotated])
      moreover have "parent_edges (organizations db') \<subseteq> insert (?i, p) ?R" using edges Some by auto
      ultimately show ?thesis by (rule acyclic_subset)
    qed
  qed
  moreover have "p \<in> og_ID ` set (organizations db')" if "y \<in> set (organizations db')" "og_ParentID y = Some p" for y p
  proof (cases "y = org")
    case True
    with that(2) parent have "og_ParentID x = Some p \<or> p \<in> og_ID ` set (organizations db)" by auto
    then show ?thesis using forest old by (auto simp: live_ids org_forest_def simp del: image_iff)
  next
    case False
    with that(1) have "y \<in> set (organizations db)" by (simp add: live)
    with that(2) show ?thesis using forest by (auto simp: live_ids org_forest_def simp del: image_iff)
  qed
  ultimately show ?thesis
    using forest dist' parent old org by (auto simp: org_forest_def live split: option.splits)
qed

section \<open>Every operation keeps the forest\<close>

text \<open>From a state with an invariant, a program ends in one, also when it fails.\<close>

definition pres :: "(iam_db \<Rightarrow> bool) \<Rightarrow> ('e, 'a) svc \<Rightarrow> 'e iam_sys \<Rightarrow> bool" where
  "pres I m s \<longleftrightarrow> (I (sv_db s) \<longrightarrow> I (sv_db (snd (m s))))"

lemma pres_bind:
  assumes "pres I m s" "\<And>x t. m s = (Inr x, t) \<Longrightarrow> pres I (k x) t"
  shows "pres I (svc_bind m k) s"
  using assms by (auto simp: pres_def svc_bind_def split: prod.splits sum.splits)

lemma pres_reads: "reads m \<Longrightarrow> pres I m s"
  by (simp add: pres_def reads_def same_tables_def)

lemma pres_bind_reads:
  assumes "reads m" "\<And>x t. m s = (Inr x, t) \<Longrightarrow> sv_db t = sv_db s \<Longrightarrow> pres I (k x) t"
  shows "pres I (svc_bind m k) s"
proof (rule pres_bind[OF pres_reads[OF assms(1)]])
  fix x t
  assume m: "m s = (Inr x, t)"
  then show "pres I (k x) t" using assms(2) readsD[OF assms(1) m] by (simp add: same_tables_def)
qed

text \<open>Past the checks a program starts with.\<close>

lemmas pres_checks = pres_bind_reads[OF reads_requirePermission] pres_bind_reads[OF reads_query]
  pres_bind_reads[OF reads_some] pres_bind_reads[OF reads_guard]

lemma org_forest_keeps: "keeps idb_organizations m \<Longrightarrow> pres org_forest m s"
  by (simp add: pres_def keeps_def org_forest_def organizations_def)

lemma pres_wrap: "pres I m s \<Longrightarrow> pres I (svc_wrap pre m) s"
  by (auto simp: pres_def svc_wrap_def split: prod.splits sum.splits)

lemma pres_void: "pres I m s \<Longrightarrow> pres I (svc_void m) s"
  unfolding svc_void_def by (erule pres_bind) (rule pres_reads[OF reads_return])

lemma pres_exec:
  fixes s :: "'c iam_sys"
  assumes "\<And>x db'. f (sv_db s) = Inr (x, db') \<Longrightarrow> I (sv_db s) \<Longrightarrow> I db'"
  shows "pres I (exec f) s"
  unfolding exec_def
proof (rule pres_bind_reads[OF reads_may_fail])
  fix u :: unit and t :: "'c iam_sys"
  assume "sv_db t = sv_db s"
  then show "pres I (\<lambda>s. case f (sv_db s) of Inl err \<Rightarrow> (Inl err, s) | Inr (x, db) \<Rightarrow> (Inr x, s\<lparr>sv_db := db\<rparr>)) t"
    using assms by (auto simp: pres_def split: sum.splits)
qed

lemma pres_exec_total: "(I (sv_db s) \<Longrightarrow> I (f (sv_db s))) \<Longrightarrow> pres I (exec_total f) s"
  unfolding exec_total_def by (rule pres_exec) auto

lemma pres_tx:
  assumes "pres I m s"
  shows "pres I (in_tx c m) s"
proof -
  have commit: "sv_db t' = sv_db t" if "may_fail t = (r, t')" for t r t' using may_fail_same[OF that] by (simp add: same_tables_def)
  show ?thesis using assms by (auto simp: pres_def in_tx_def dest: commit split: prod.splits sum.splits)
qed

lemma CreateOrganizationFor_forest: "pres org_forest (CreateOrganizationFor cb actor name description parent) s"
proof -
  let ?create = "\<lambda>p. in_tx (\<lambda>err. ErrWrap ''commit organization creation: '' err [])
       (svc_wrap ''create organization: '' (exec (db_CreateOrganization (trim_space name) (trim_space description) p False)))"
  have create: "pres org_forest (?create p) t" if "\<And>q. p = Some q \<Longrightarrow> \<exists>x. db_GetOrganizationByID q (sv_db t) = Some x" for p t
    using that GetOrganizationByID_iff[of "sv_db t"]
    by (intro pres_tx pres_wrap pres_exec) (erule create_forest[rotated], auto simp: org_forest_def)
  have tail: "pres org_forest (svc_bind (case actor of Some u \<Rightarrow> setOrganizationRole cb (og_ID org) u IAMRoleAdmin True | None \<Rightarrow> svc_return ()) (\<lambda>_. svc_return org)) t" for org t
    by (intro org_forest_keeps keeps_intro)
  show ?thesis
    unfolding CreateOrganizationFor_def Let_def
    by (rule pres_bind_reads, intro reads_intro, rule pres_bind_reads, intro reads_intro, rule pres_bind_reads, intro reads_intro,
        rule pres_bind[OF create tail])
       (auto simp: svc_bind_Inr svc_some_Inr same_tables_def split: option.splits dest!: query_InrD)
qed

lemma reads_check_no_cycle [reads_intro]: "reads (check_no_cycle n i c)"
  by (induction n arbitrary: c) (auto intro!: reads_intro split: option.splits)

lemma reads_set_parent [reads_intro]: "reads (set_parent cb actor i parent setParent org)"
  unfolding set_parent_def by (auto intro!: reads_intro split: option.splits)

lemma check_no_cycle_live:
  assumes "check_no_cycle n i c s = (Inr (), s')" "0 < n"
  shows "\<exists>x. db_GetOrganizationByID c (sv_db s) = Some x"
  using assms by (cases n) (auto simp: svc_bind_Inr svc_some_Inr dest!: query_InrD)

lemma set_parent_Inr:
  assumes "set_parent cb actor i parent setParent org s = (Inr org', s')"
    and "distinct (map og_ID (idb_organizations (sv_db s)))" "length (organizations (sv_db s)) < 1024"
  shows "org' = org \<or> (org' = org\<lparr>og_ParentID := parent\<rparr> \<and> (case parent of None \<Rightarrow> True
     | Some p \<Rightarrow> \<not> og_IsRoot org \<and> p \<in> og_ID ` set (organizations (sv_db s)) \<and> (p, i) \<notin> (parent_edges (organizations (sv_db s)))\<^sup>*))"
proof (cases "setParent \<and> parent \<noteq> None")
  case True
  then obtain p where p: "parent = Some p" by auto
  obtain t where root: "\<not> og_IsRoot org" and org': "org' = org\<lparr>og_ParentID := parent\<rparr>"
    and t: "sv_db t = sv_db s" and walk: "check_no_cycle 1024 i p t = (Inr (), s')"
    using assms(1) True p
    by (auto simp: set_parent_def svc_bind_Inr svc_guard_Inr svc_return_Inr same_tables_def dest!: requirePermission_Inr)
  have "p \<in> og_ID ` set (organizations (sv_db s))"
    using check_no_cycle_live[OF walk] GetOrganizationByID_iff[OF assms(2)] t by auto
  moreover have "(p, i) \<notin> (parent_edges (organizations (sv_db s)))\<^sup>*"
    using check_no_cycle_complete[OF walk] assms(2,3) t by simp
  ultimately show ?thesis using root org' p by simp
next
  case False
  with assms(1) show ?thesis by (auto simp: set_parent_def svc_ok split: if_splits)
qed

lemma UpdateOrganizationFor_forest:
  assumes "length (organizations (sv_db s)) < 1024"
  shows "pres org_forest (UpdateOrganizationFor cb actor i name description parent setParent) s"
proof -
  have save: "pres org_forest (svc_bind (svc_wrap ''update organization: '' (exec (db_UpdateOrganization org'))) (\<lambda>_. svc_return org')) t"
    if "sv_db t = sv_db t1" "set_parent cb actor i parent setParent (x\<lparr>og_Name := n, og_Description := d\<rparr>) t1 = (Inr org', t)"
      "sv_db t1 = sv_db s" "db_GetOrganizationByID i (sv_db s) = Some x" for x n d t1 org' t
  proof -
    have "org_forest db'" if forest: "org_forest (sv_db t)" and db': "db_UpdateOrganization org' (sv_db t) = Inr ((), db')" for db'
    proof -
      have dist: "distinct (map og_ID (idb_organizations (sv_db s)))" using forest \<open>sv_db t = sv_db t1\<close> \<open>sv_db t1 = sv_db s\<close> by (simp add: org_forest_def)
      have x: "x \<in> set (organizations (sv_db s))" "og_ID x = i" using GetOrganizationByID_iff[OF dist] \<open>db_GetOrganizationByID i (sv_db s) = Some x\<close> by auto
      show ?thesis
        using set_parent_Inr[OF \<open>set_parent cb actor i parent setParent _ t1 = _\<close>] dist assms x forest db' \<open>sv_db t = sv_db t1\<close> \<open>sv_db t1 = sv_db s\<close>
        by (intro save_forest[of "sv_db s" x org' db']) (auto simp: set_organizations split: option.splits)
    qed
    then show ?thesis by (intro pres_bind pres_wrap pres_exec) (auto intro: pres_reads reads_intro)
  qed
  show ?thesis
    unfolding UpdateOrganizationFor_def Let_def
    by (intro pres_checks pres_bind_reads[OF reads_set_parent], erule (1) save) (auto simp: svc_some_Inr svc_guard_Inr same_tables_def dest!: query_InrD)
qed

lemma pres_bind_keeps:
  assumes "keeps idb_organizations m"
    and "\<And>x t. idb_organizations (sv_db t) = idb_organizations (sv_db s) \<Longrightarrow> pres org_forest (k x) t"
  shows "pres org_forest (svc_bind m k) s"
  by (rule pres_bind[OF org_forest_keeps[OF assms(1)]]) (rule assms(2), erule keepsD[OF assms(1)])

lemma delete_keeps_organizations:
  "keeps idb_organizations (exec_total (db_DeleteIAMRoleBindingsByOrganization i))"
  "keeps idb_organizations (exec_total (db_DeleteOrganizationMembershipsByOrganization i))"
  by (auto intro!: keeps_intro simp: db_DeleteIAMRoleBindingsByOrganization_def db_DeleteOrganizationMembershipsByOrganization_def
      delete_bindings_def delete_memberships_def)

lemma DeleteOrganizationFor_forest: "pres org_forest (DeleteOrganizationFor cb actor i) s"
proof -
  have tx: "pres org_forest (in_tx id
       (svc_bind (exec_total (db_DeleteIAMRoleBindingsByOrganization i)) (\<lambda>_.
        svc_bind (exec_total (db_DeleteOrganizationMembershipsByOrganization i)) (\<lambda>_.
        exec_total (db_DeleteOrganization i))))) t" if "db_CountOrganizationChildren i (sv_db t) = 0" for t
    using that
    by (intro pres_tx pres_bind_keeps delete_keeps_organizations pres_exec_total delete_forest)
       (simp_all add: db_CountOrganizationChildren_def organizations_def)
  have reload: "pres org_forest (reloadAuthorization cb) t" for t by (intro org_forest_keeps keeps_intro)
  show ?thesis
    unfolding DeleteOrganizationFor_def
    by (intro pres_bind_reads pres_bind[OF tx reload] reads_intro) (auto simp: svc_guard_Inr dest!: query_InrD)
qed

lemma CreateUser_keeps_organizations: "keeps idb_organizations (CreateUserFor cb env actor i name email password role)"
  unfolding CreateUserFor_def Let_def new_password_def
  by (intro keeps_intro) (auto simp: db_CreateUser_def Let_def split: if_splits)

lemma UpdateUser_keeps_organizations: "keeps idb_organizations (UpdateUserFor cb actor i name status role)"
  unfolding UpdateUserFor_def Let_def by (intro keeps_intro) (auto simp: db_UpdateUser_def split: if_splits)

lemma ResetPassword_keeps_organizations: "keeps idb_organizations (ResetUserPasswordFor cb env actor i password)"
  unfolding ResetUserPasswordFor_def by (intro keeps_intro) (auto simp: db_UpdateUser_def split: if_splits)

lemma DeleteUser_keeps_organizations: "keeps idb_organizations (DeleteUserFor cb actor i)"
  unfolding DeleteUserFor_def removeUser_def
  by (intro keeps_intro) (auto simp: db_DeleteIAMRoleBindingsByUser_def db_DeleteOrganizationMembershipsByUser_def db_DeleteUser_def
      delete_bindings_def delete_memberships_def)

lemma members_keep_organizations:
  "keeps idb_organizations (UpsertOrganizationMemberFor cb actor i u role)"
  "keeps idb_organizations (RemoveOrganizationMemberFor cb actor i u)"
  unfolding UpsertOrganizationMemberFor_def RemoveOrganizationMemberFor_def listOrganizationMembersWithRoles_def
  by (intro keeps_intro; auto simp: db_DeleteIAMRoleBinding_def db_DeleteOrganizationMembership_def delete_bindings_def delete_memberships_def)+

lemma features_keep_organizations: "keeps idb_organizations (SetUserFeaturePolicy cb actor enabled)"
  unfolding SetUserFeaturePolicy_def feature_permission_def
  by (intro keeps_intro) (auto simp: db_ReplaceIAMRolePermissionSubset_def Let_def split: if_splits)

lemmas ops_keep_organizations = CreateUser_keeps_organizations UpdateUser_keeps_organizations ResetPassword_keeps_organizations
  DeleteUser_keeps_organizations members_keep_organizations features_keep_organizations

lemma run_op_forest:
  assumes "length (organizations (sv_db s)) < 1024"
  shows "pres org_forest (run_op cb env actor op) s"
proof (cases op)
  case OpCreateOrganization
  then show ?thesis by (simp add: pres_void CreateOrganizationFor_forest)
next
  case OpUpdateOrganization
  then show ?thesis by (simp add: pres_void UpdateOrganizationFor_forest assms)
next
  case OpDeleteOrganization
  then show ?thesis by (simp add: DeleteOrganizationFor_forest)
next
  case (OpUpsertMemberByEmail i email role)
  then show ?thesis
    by (auto simp: UpsertOrganizationMemberByEmailFor_def intro!: org_forest_keeps keeps_intro ops_keep_organizations)
qed (auto intro!: org_forest_keeps keeps_void ops_keep_organizations)

section \<open>Starting the service\<close>

lemma NewIAMService_keeps_organizations: "keeps idb_organizations (NewIAMService cb)"
proof -
  have seed: "keeps idb_organizations (bind_seed seed stored code)" for seed stored code
    unfolding bind_seed_def
    by (intro keeps_intro) (auto intro!: keeps_intro simp: db_UpsertIAMRolePermission_def split: option.splits)
  show ?thesis
    unfolding NewIAMService_def ensureIAMCatalog_def ensure_seed_def ensureFeatureCatalog_def ensure_feature_def
    by (intro keeps_intro seed)
       (auto simp: db_UpsertIAMRole_def db_UpsertIAMPermission_def db_UpsertIAMRolePermission_def)
qed

lemma bootstrap_user_keeps_organizations: "keeps idb_organizations (bootstrap_user root iu)"
  unfolding bootstrap_user_def bootstrap_membership_def bootstrap_binding_def Let_def
  by (intro keeps_intro) (auto simp: db_UpsertOrganizationMembership_def db_UpsertIAMRoleBinding_def Let_def)

lemma EnsureOrganizationBootstrap_forest: "pres org_forest (EnsureOrganizationBootstrap cb) s"
proof -
  have root: "pres org_forest (case found of Some root \<Rightarrow> svc_return root
      | None \<Rightarrow> svc_wrap ''create default organization: '' (exec (db_CreateOrganization DefaultOrganizationName root_description None True))) t"
    if "found = db_GetRootOrganization (sv_db t)" for found t
  proof (cases found)
    case None
    with that show ?thesis by (auto intro!: pres_wrap pres_exec elim!: create_forest[rotated])
  qed (simp add: pres_reads reads_intro)
  have tail: "pres org_forest (svc_bind (svc_foreach (bootstrap_user root) us) (\<lambda>_. reloadAuthorization cb)) t" for root us t
    by (intro org_forest_keeps keeps_intro bootstrap_user_keeps_organizations)
  have rest: "pres org_forest (if us = [] then svc_return () else
       let users = go_sort (\<lambda>a b. us_ID a < us_ID b) us in
       svc_bind (svc_wrap ''get default organization: '' (query db_GetRootOrganization)) (\<lambda>found.
       svc_bind (case found of
           Some root \<Rightarrow> svc_return root
         | None \<Rightarrow> svc_wrap ''create default organization: '' (exec (db_CreateOrganization DefaultOrganizationName root_description None True))) (\<lambda>root.
       svc_bind (svc_foreach (bootstrap_user root) (enumerate 0 users)) (\<lambda>_. reloadAuthorization cb)))) t" for us t
    unfolding Let_def
    by (cases "us = []")
       (auto intro!: pres_reads[OF reads_return] pres_bind_reads[OF reads_wrap[OF reads_query]] pres_bind[OF root tail]
         simp: svc_wrap_Inr same_tables_def dest!: query_InrD)
  show ?thesis
    unfolding EnsureOrganizationBootstrap_def
    by (rule pres_bind_reads[OF _ rest]) (intro reads_intro)
qed

text \<open>
  The states of an installation: an empty database; the service starts (a fresh enforcer, the catalog, the bootstrap); accounts are
  registered; operations run, each to its end, whatever statements fail.
\<close>

inductive iam_reachable :: "'e casbin \<Rightarrow> iam_env \<Rightarrow> 'e iam_sys \<Rightarrow> bool" for cb env where
  install: "sv_db s = empty_iam_db \<Longrightarrow> iam_reachable cb env s"
| process: "iam_reachable cb env s \<Longrightarrow> iam_reachable cb env (s\<lparr>sv_enf := e, sv_faults := faults\<rparr>)"
| startup: "iam_reachable cb env s \<Longrightarrow> NewIAMService cb s = (r, s') \<Longrightarrow> iam_reachable cb env s'"
| bootstrap: "iam_reachable cb env s \<Longrightarrow> EnsureOrganizationBootstrap cb s = (r, s') \<Longrightarrow> iam_reachable cb env s'"
| register: "iam_reachable cb env s \<Longrightarrow> exec (db_CreateUser name email hash status) s = (r', s') \<Longrightarrow> iam_reachable cb env s'"
| operation: "iam_reachable cb env s \<Longrightarrow> length (organizations (sv_db s)) < 1024 \<Longrightarrow> run_op cb env actor op s = (r, s') \<Longrightarrow>
    iam_reachable cb env s'"

lemma presD: "pres I m s \<Longrightarrow> m s = (r, s') \<Longrightarrow> I (sv_db s) \<Longrightarrow> I (sv_db s')"
  by (simp add: pres_def)

lemma empty_forest: "org_forest empty_iam_db"
  by (simp add: org_forest_def empty_iam_db_def organizations_def parent_edges_def organization_parents_def acyclic_def)

lemma register_keeps_organizations: "keeps idb_organizations (exec (db_CreateUser name email hash status))"
  by (intro keeps_intro) (auto simp: db_CreateUser_def Let_def split: if_splits)

end
