(* ===== verification/Iam_Members.thy ===== *)
theory Iam_Members
  imports Iam_Forest
begin

text \<open>
  Members of an organization: the keys of the tables stay unique in every reachable state, and no member operation takes the last
  administrator away.
\<close>

section \<open>Invariants of the tables\<close>

definition always :: "(iam_db \<Rightarrow> bool) \<Rightarrow> ('e, 'a) svc \<Rightarrow> bool" where
  "always I m \<longleftrightarrow> (\<forall>s. pres I m s)"

named_theorems always_intro \<open>programs that keep an invariant of the tables\<close>

lemma always_bind [always_intro]: "always I m \<Longrightarrow> (\<And>x. always I (k x)) \<Longrightarrow> always I (svc_bind m k)"
  unfolding always_def by (blast intro: pres_bind)

lemma always_wrap [always_intro]: "always I m \<Longrightarrow> always I (svc_wrap pre m)"
  unfolding always_def by (blast intro: pres_wrap)

lemma always_void [always_intro]: "always I m \<Longrightarrow> always I (svc_void m)"
  unfolding always_def by (blast intro: pres_void)

lemma always_tx [always_intro]: "always I m \<Longrightarrow> always I (in_tx c m)"
  unfolding always_def by (blast intro: pres_tx)

lemma always_exec [always_intro]: "(\<And>db x db'. f db = Inr (x, db') \<Longrightarrow> I db \<Longrightarrow> I db') \<Longrightarrow> always I (exec f)"
  unfolding always_def by (blast intro: pres_exec)

lemma always_exec_total [always_intro]: "(\<And>db. I db \<Longrightarrow> I (f db)) \<Longrightarrow> always I (exec_total f)"
  unfolding always_def by (blast intro: pres_exec_total)

lemma always_reads: "reads m \<Longrightarrow> always I m"
  unfolding always_def by (blast intro: pres_reads)

lemma always_reads_bases [always_intro]:
  "always I (svc_return x)" "always I (svc_fail err)" "always I (svc_guard c err)" "always I (svc_some err v)" "always I (query q)" "always I may_fail"
  "always I (requirePermission cb actor d obj act)" "always I (RequireFeature cb actor code)" "always I (svc_lift r)"
  "always I (set_parent cb actor i parent setParent org)"
  by (auto intro!: always_reads reads_intro simp: reads_def svc_lift_def)

lemma always_foreach [always_intro]: "(\<And>x. always I (f x)) \<Longrightarrow> always I (svc_foreach f xs)"
  by (induction xs) (auto intro: always_intro)

lemma always_map [always_intro]: "(\<And>x. always I (f x)) \<Longrightarrow> always I (svc_map f xs)"
  by (induction xs) (auto intro: always_intro)

lemma always_if [always_intro]: "always I m \<Longrightarrow> always I m' \<Longrightarrow> always I (if c then m else m')"
  by simp

lemma always_option [always_intro]: "always I m \<Longrightarrow> (\<And>x. always I (f x)) \<Longrightarrow> always I (case v of None \<Rightarrow> m | Some x \<Rightarrow> f x)"
  by (cases v) auto

lemma always_prod [always_intro]: "(\<And>a b. always I (f a b)) \<Longrightarrow> always I (case p of (a, b) \<Rightarrow> f a b)"
  by (cases p) auto

lemma always_enforcer [always_intro]: "always I (on_enforcer f)"
  by (auto simp: always_def pres_def on_enforcer_def split: sum.splits)

lemma always_reload [always_intro]: "always I (reloadAuthorization cb)"
  using keeps_reloadAuthorization[of "\<lambda>db. db" cb] by (simp add: always_def pres_def keeps_def)

lemma alwaysD: "always I m \<Longrightarrow> m s = (r, s') \<Longrightarrow> I (sv_db s) \<Longrightarrow> I (sv_db s')"
  by (meson always_def presD)

section \<open>Unique keys\<close>

definition iam_keys :: "iam_db \<Rightarrow> bool" where
  "iam_keys db \<longleftrightarrow> distinct (map ro_ID (idb_roles db)) \<and> distinct (map ro_Code (idb_roles db)) \<and>
     distinct (map pm_ID (idb_permissions db)) \<and> distinct (map pm_Code (idb_permissions db)) \<and>
     distinct (map (\<lambda>m. (mb_OrganizationID m, mb_UserID m)) (idb_memberships db)) \<and> distinct (map us_ID (idb_users db))"

lemma next_id_notin: "next_id (map k xs) \<notin> k ` set xs"
  using next_id_fresh[of "next_id (map k xs)" "map k xs"] by auto

lemma keys_save_row: "distinct (map k xs) \<Longrightarrow> distinct (map k (save_row k row xs))"
proof (cases "list_ex (\<lambda>x. k x = k row) xs")
  case True
  have "map k (map (\<lambda>x. if k x = k row then row else x) xs) = map k xs" by simp
  then show "distinct (map k xs) \<Longrightarrow> ?thesis" using True unfolding save_row_def by (simp only: if_True)
next
  case False
  then show "distinct (map k xs) \<Longrightarrow> ?thesis" by (auto simp: save_row_def list_ex_iff)
qed

lemma keys_tables:
  "idb_roles db = idb_roles db' \<Longrightarrow> idb_permissions db = idb_permissions db' \<Longrightarrow>
   map (\<lambda>m. (mb_OrganizationID m, mb_UserID m)) (idb_memberships db) = map (\<lambda>m. (mb_OrganizationID m, mb_UserID m)) (idb_memberships db') \<Longrightarrow>
   map us_ID (idb_users db) = map us_ID (idb_users db') \<Longrightarrow> iam_keys db = iam_keys db'"
  by (simp add: iam_keys_def)

lemma keys_UpsertMembership: "iam_keys db \<Longrightarrow> iam_keys (db_UpsertOrganizationMembership i u db)"
proof -
  have "map (\<lambda>m. (mb_OrganizationID m, mb_UserID m)) (map (\<lambda>m. if P m then m\<lparr>mb_Deleted := b\<rparr> else m) ms) = map (\<lambda>m. (mb_OrganizationID m, mb_UserID m)) ms"
    for P b and ms :: "organization_membership list" by simp
  then show "iam_keys db \<Longrightarrow> ?thesis"
    by (auto simp: iam_keys_def db_UpsertOrganizationMembership_def list_ex_iff simp del: map_map)
qed

lemma keys_UpsertIAMRole: "iam_keys db \<Longrightarrow> iam_keys (db_UpsertIAMRole code db)"
  using next_id_notin[of ro_ID "idb_roles db"] by (auto simp: iam_keys_def db_UpsertIAMRole_def list_ex_iff)

lemma keys_UpsertIAMPermission:
  assumes "iam_keys db"
  shows "iam_keys (db_UpsertIAMPermission code resource action db)"
proof -
  let ?update = "\<lambda>p. if pm_Code p = code then p\<lparr>pm_Resource := resource, pm_Action := action\<rparr> else p"
  have "map pm_ID (map ?update ps) = map pm_ID ps" "map pm_Code (map ?update ps) = map pm_Code ps" for ps by simp_all
  note keys = this
  show ?thesis
  proof (cases "list_ex (\<lambda>p. pm_Code p = code) (idb_permissions db)")
    case True
    with assms show ?thesis by (simp add: iam_keys_def db_UpsertIAMPermission_def keys del: map_map)
  next
    case False
    with assms show ?thesis
      using next_id_notin[of pm_ID "idb_permissions db"] by (auto simp: iam_keys_def db_UpsertIAMPermission_def list_ex_iff)
  qed
qed

lemma keys_bindings:
  "iam_keys (db_UpsertIAMRoleBinding i u r inherit db) = iam_keys db" "iam_keys (delete_bindings P db) = iam_keys db"
  "iam_keys (db_UpsertIAMRolePermission r p db) = iam_keys db" "iam_keys (db_DeleteOrganization i db) = iam_keys db"
  by (rule keys_tables; simp add: db_UpsertIAMRoleBinding_def delete_bindings_def db_UpsertIAMRolePermission_def db_DeleteOrganization_def Let_def)+

lemma keys_deletes: "iam_keys (delete_memberships P db) = iam_keys db" "iam_keys (db_DeleteUser i db) = iam_keys db"
  by (rule keys_tables; simp add: delete_memberships_def db_DeleteUser_def)+

lemma keys_CreateUser: "db_CreateUser name email hash status db = Inr (x, db') \<Longrightarrow> iam_keys db \<Longrightarrow> iam_keys db'"
  using next_id_notin[of us_ID "idb_users db"] by (auto simp: iam_keys_def db_CreateUser_def Let_def split: if_splits)

lemma keys_UpdateUser: "db_UpdateUser user db = Inr (x, db') \<Longrightarrow> iam_keys db \<Longrightarrow> iam_keys db'"
  by (auto simp: iam_keys_def db_UpdateUser_def keys_save_row split: if_splits)

lemma keys_Organizations:
  "db_CreateOrganization name description parent isRoot db = Inr (y, db') \<Longrightarrow> iam_keys db \<Longrightarrow> iam_keys db'"
  "db_UpdateOrganization org db = Inr (x, db') \<Longrightarrow> iam_keys db \<Longrightarrow> iam_keys db'"
  "db_ReplaceIAMRolePermissionSubset r ps qs db = Inr (x, db') \<Longrightarrow> iam_keys db \<Longrightarrow> iam_keys db'"
  by (auto simp: iam_keys_def db_CreateOrganization_def db_UpdateOrganization_def db_ReplaceIAMRolePermissionSubset_def Let_def split: if_splits)

lemmas keys_statements = keys_UpsertMembership keys_UpsertIAMRole keys_UpsertIAMPermission keys_bindings keys_deletes keys_CreateUser keys_UpdateUser
  keys_Organizations db_DeleteIAMRoleBinding_def db_DeleteIAMRoleBindingsByOrganization_def db_DeleteIAMRoleBindingsByUser_def
  db_DeleteOrganizationMembership_def db_DeleteOrganizationMembershipsByOrganization_def db_DeleteOrganizationMembershipsByUser_def

lemma keys_setOrganizationRole [always_intro]: "always iam_keys (setOrganizationRole cb i u role inherit)"
  unfolding setOrganizationRole_def by (intro always_intro) (simp_all add: keys_statements)

lemma keys_startup: "always iam_keys (NewIAMService cb)"
proof -
  have seed: "always iam_keys (bind_seed seed stored code)" for seed stored code
    unfolding bind_seed_def by (intro always_intro) (auto intro!: always_intro simp: keys_statements split: option.splits)
  show ?thesis
    unfolding NewIAMService_def ensureIAMCatalog_def ensure_seed_def ensureFeatureCatalog_def ensure_feature_def
    by (intro always_intro seed) (simp_all add: keys_statements)
qed

lemma keys_bootstrap: "always iam_keys (EnsureOrganizationBootstrap cb)"
  unfolding EnsureOrganizationBootstrap_def bootstrap_user_def bootstrap_membership_def bootstrap_binding_def Let_def
  by (intro always_intro) (auto simp: keys_statements intro: keys_Organizations)

lemma keys_member_ops [always_intro]:
  "always iam_keys (UpsertOrganizationMemberFor cb actor i u role)" "always iam_keys (RemoveOrganizationMemberFor cb actor i u)"
  unfolding UpsertOrganizationMemberFor_def RemoveOrganizationMemberFor_def listOrganizationMembersWithRoles_def
  by (intro always_intro; simp add: keys_statements)+

lemma always_feature_permission [always_intro]: "always I (feature_permission f)"
  unfolding feature_permission_def by (intro always_intro)

lemma keys_operation: "always iam_keys (run_op cb env actor op)"
  by (cases op; simp only: run_op.simps CreateUserFor_def UpdateUserFor_def ResetUserPasswordFor_def DeleteUserFor_def CreateOrganizationFor_def
        UpdateOrganizationFor_def DeleteOrganizationFor_def UpsertOrganizationMemberByEmailFor_def SetUserFeaturePolicy_def new_password_def
        removeUser_def Let_def;
      intro always_intro; auto simp: keys_statements intro: keys_CreateUser keys_UpdateUser keys_Organizations)

lemma reachable_keys: "iam_reachable cb env s \<Longrightarrow> iam_keys (sv_db s)"
proof (induction rule: iam_reachable.induct)
  case (install s)
  then show ?case by (simp add: iam_keys_def empty_iam_db_def)
next
  case (startup s r s')
  then show ?case using alwaysD[OF keys_startup] by blast
next
  case (bootstrap s r s')
  then show ?case using alwaysD[OF keys_bootstrap] by blast
next
  case (register s name email hash status r' s')
  then show ?case using alwaysD[OF always_exec] keys_CreateUser by metis
next
  case (operation s actor op r s')
  then show ?case using alwaysD[OF keys_operation] by blast
qed simp

section \<open>Administrators\<close>

text \<open>The members of an organization the API shows as administrators.\<close>

definition org_admins :: "nat \<Rightarrow> iam_db \<Rightarrow> nat set" where
  "org_admins i db = {u. (\<exists>m \<in> set (db_ListOrganizationMembers i db). mb_UserID m = u) \<and> is_admin_binding (db_GetIAMRoleBinding i u db)}"

lemma find_filter: "List.find P (filter Q xs) = List.find (\<lambda>x. Q x \<and> P x) xs"
  by (induction xs) auto

text \<open>Statements about the member \<open>u\<close> of organization \<open>i\<close> concern no other member.\<close>

lemma find_map_other: "(\<And>x. f x \<noteq> x \<Longrightarrow> \<not> P x \<and> \<not> P (f x)) \<Longrightarrow> List.find P (map f xs) = List.find P xs"
  by (induction xs) (auto, metis+)

lemma binding_other:
  assumes "v \<noteq> u"
  shows "db_GetIAMRoleBinding i v (db_UpsertIAMRoleBinding i u r inherit db) = db_GetIAMRoleBinding i v db"
    "db_GetIAMRoleBinding i v (db_DeleteIAMRoleBinding i u db) = db_GetIAMRoleBinding i v db"
proof -
  have "List.find (\<lambda>x. \<not> bd_Deleted x \<and> bd_OrganizationID x = i \<and> bd_UserID x = v)
      (map (\<lambda>b. if bd_UserID b = u \<and> bd_RoleID b = r \<and> bd_OrganizationID b = i then b\<lparr>bd_InheritChildren := inherit, bd_Deleted := False\<rparr> else b) bs) =
    List.find (\<lambda>x. \<not> bd_Deleted x \<and> bd_OrganizationID x = i \<and> bd_UserID x = v) bs" for bs :: "iam_role_binding list"
    using assms by (intro find_map_other) (auto split: if_splits)
  moreover have "List.find P (bs @ [b]) = List.find P bs" if "\<not> P b" for P and bs :: "iam_role_binding list" and b
    using that by (induction bs) auto
  ultimately show "db_GetIAMRoleBinding i v (db_UpsertIAMRoleBinding i u r inherit db) = db_GetIAMRoleBinding i v db"
    using assms by (simp add: db_GetIAMRoleBinding_def bindings_def find_filter db_UpsertIAMRoleBinding_def Let_def role_by_id_def)
  have "List.find (\<lambda>x. \<not> bd_Deleted x \<and> bd_OrganizationID x = i \<and> bd_UserID x = v)
      (map (\<lambda>b. if bd_OrganizationID b = i \<and> bd_UserID b = u then b\<lparr>bd_Deleted := True\<rparr> else b) bs) =
    List.find (\<lambda>x. \<not> bd_Deleted x \<and> bd_OrganizationID x = i \<and> bd_UserID x = v) bs" for bs :: "iam_role_binding list"
    using assms by (intro find_map_other) (auto split: if_splits)
  then show "db_GetIAMRoleBinding i v (db_DeleteIAMRoleBinding i u db) = db_GetIAMRoleBinding i v db"
    by (simp add: db_GetIAMRoleBinding_def bindings_def find_filter db_DeleteIAMRoleBinding_def delete_bindings_def role_by_id_def)
qed

lemma binding_memberships [simp]:
  "db_GetIAMRoleBinding i v (db_UpsertOrganizationMembership j u db) = db_GetIAMRoleBinding i v db"
  "db_GetIAMRoleBinding i v (db_DeleteOrganizationMembership j u db) = db_GetIAMRoleBinding i v db"
  "db_ListOrganizationMembers i (db_UpsertIAMRoleBinding j u r inherit db) = db_ListOrganizationMembers i db"
  "db_ListOrganizationMembers i (db_DeleteIAMRoleBinding j u db) = db_ListOrganizationMembers i db"
  by (auto simp: db_GetIAMRoleBinding_def bindings_def db_UpsertOrganizationMembership_def db_DeleteOrganizationMembership_def delete_memberships_def
      role_by_id_def db_ListOrganizationMembers_def memberships_def db_UpsertIAMRoleBinding_def db_DeleteIAMRoleBinding_def delete_bindings_def Let_def)

definition is_member :: "nat \<Rightarrow> nat \<Rightarrow> iam_db \<Rightarrow> bool" where
  "is_member i u db \<longleftrightarrow> (\<exists>m \<in> set (db_ListOrganizationMembers i db). mb_UserID m = u)"

lemma is_member_iff: "is_member i u db \<longleftrightarrow> (\<exists>m \<in> set (idb_memberships db). \<not> mb_Deleted m \<and> mb_OrganizationID m = i \<and> mb_UserID m = u)"
  by (auto simp: is_member_def db_ListOrganizationMembers_def memberships_def)

lemma member_map:
  assumes "idb_memberships db' = map f (idb_memberships db)"
    and "\<And>m. (\<not> mb_Deleted (f m) \<and> mb_OrganizationID (f m) = i \<and> mb_UserID (f m) = v) \<longleftrightarrow> Q m"
  shows "is_member i v db' \<longleftrightarrow> (\<exists>m \<in> set (idb_memberships db). Q m)"
  using assms by (simp add: is_member_iff)

lemma member_upsert: "is_member i v (db_UpsertOrganizationMembership i u db) \<longleftrightarrow> v = u \<or> is_member i v db"
proof (cases "list_ex (\<lambda>m. mb_OrganizationID m = i \<and> mb_UserID m = u) (idb_memberships db)")
  case True
  have "is_member i v (db_UpsertOrganizationMembership i u db) \<longleftrightarrow> (\<exists>m \<in> set (idb_memberships db).
      (v = u \<and> mb_OrganizationID m = i \<and> mb_UserID m = u) \<or> (\<not> mb_Deleted m \<and> mb_OrganizationID m = i \<and> mb_UserID m = v))"
    by (rule member_map[where f = "\<lambda>m. if mb_OrganizationID m = i \<and> mb_UserID m = u then m\<lparr>mb_Deleted := False\<rparr> else m"])
       (use True in \<open>auto simp: db_UpsertOrganizationMembership_def\<close>)
  then show ?thesis using True by (auto simp: is_member_iff list_ex_iff)
qed (auto simp: is_member_iff db_UpsertOrganizationMembership_def)

lemma member_delete:
  assumes "v \<noteq> u"
  shows "is_member i v (db_DeleteOrganizationMembership i u db) \<longleftrightarrow> is_member i v db"
  unfolding is_member_iff[of i v db]
  by (rule member_map[where f = "\<lambda>m. if mb_OrganizationID m = i \<and> mb_UserID m = u then m\<lparr>mb_Deleted := True\<rparr> else m"])
     (use assms in \<open>auto simp: db_DeleteOrganizationMembership_def delete_memberships_def\<close>)

lemma org_admins_iff: "v \<in> org_admins i db \<longleftrightarrow> is_member i v db \<and> is_admin_binding (db_GetIAMRoleBinding i v db)"
  by (simp add: org_admins_def is_member_def)

text \<open>The new binding of the member is the one that was asked for.\<close>

lemma binding_inserted:
  assumes "db_GetIAMRoleBinding i u db = None"
  shows "\<exists>b. db_GetIAMRoleBinding i u (db_UpsertIAMRoleBinding i u r inherit db) = Some (b, role_by_id r db) \<and> bd_InheritChildren b = inherit"
proof -
  let ?db = "db_UpsertIAMRoleBinding i u r inherit db"
  let ?P = "\<lambda>x. \<not> bd_Deleted x \<and> bd_OrganizationID x = i \<and> bd_UserID x = u"
  have none: "List.find ?P (idb_bindings db) = None" using assms by (simp add: db_GetIAMRoleBinding_def bindings_def find_filter)
  have gone: "\<not> ?P b" if "b \<in> set (idb_bindings db)" for b
    using none that find_ex[of "idb_bindings db" ?P] by auto
  have all: "bd_RoleID b = r \<and> bd_InheritChildren b = inherit" if "b \<in> set (idb_bindings ?db)" "?P b" for b
  proof (rule ccontr)
    assume "\<not> (bd_RoleID b = r \<and> bd_InheritChildren b = inherit)"
    with that(1) have "b \<in> set (idb_bindings db)"
      by (auto simp: db_UpsertIAMRoleBinding_def Let_def split: if_splits)
    with gone that(2) show False by blast
  qed
  have "\<exists>b \<in> set (idb_bindings ?db). ?P b"
  proof (cases "list_ex (\<lambda>b. bd_UserID b = u \<and> bd_RoleID b = r \<and> bd_OrganizationID b = i) (idb_bindings db)")
    case True
    then obtain x where x: "x \<in> set (idb_bindings db)" "bd_UserID x = u" "bd_RoleID x = r" "bd_OrganizationID x = i" by (auto simp: list_ex_iff)
    then have "x\<lparr>bd_InheritChildren := inherit, bd_Deleted := False\<rparr> \<in> set (idb_bindings ?db)" using True by (simp add: db_UpsertIAMRoleBinding_def Let_def)
    with x show ?thesis by (intro bexI[where x = "x\<lparr>bd_InheritChildren := inherit, bd_Deleted := False\<rparr>"]) simp_all
  qed (simp add: db_UpsertIAMRoleBinding_def Let_def)
  then obtain b where b: "List.find ?P (idb_bindings ?db) = Some b" using find_ex[of "idb_bindings ?db" ?P] by blast
  moreover have "bd_RoleID b = r \<and> bd_InheritChildren b = inherit" using all[of b] find_SomeD[of ?P "idb_bindings ?db" b] b by blast
  moreover have "role_by_id r ?db = role_by_id r db"
    by (simp add: role_by_id_def db_UpsertIAMRoleBinding_def Let_def)
  ultimately show ?thesis by (simp add: db_GetIAMRoleBinding_def bindings_def find_filter)
qed

lemma binding_deleted: "db_GetIAMRoleBinding i u (db_DeleteIAMRoleBinding i u db) = None"
proof -
  have "bd_Deleted b" if "b \<in> set (idb_bindings (db_DeleteIAMRoleBinding i u db))" "bd_OrganizationID b = i" "bd_UserID b = u" for b
    using that unfolding db_DeleteIAMRoleBinding_def delete_bindings_def
    by (simp split del: if_split) (elim disjE imageE conjE; simp)
  then show ?thesis by (auto simp: db_GetIAMRoleBinding_def bindings_def find_filter find_None_iff)
qed

lemma binding_replaced:
  "\<exists>b. db_GetIAMRoleBinding i u (db_UpsertIAMRoleBinding i u r inherit (db_DeleteIAMRoleBinding i u db)) = Some (b, role_by_id r db)"
  using binding_inserted[OF binding_deleted, of i u r inherit db]
  by (auto simp: role_by_id_def db_DeleteIAMRoleBinding_def delete_bindings_def)

text \<open>More than one shown administrator: there is one besides the member in question.\<close>

lemma count_admins_other:
  assumes "iam_keys db" "1 < count_admins (map (\<lambda>m. (m, case db_GetIAMRoleBinding i (mb_UserID m) db of Some (_, Some role) \<Rightarrow> ro_Code role | _ \<Rightarrow> []))
     (db_ListOrganizationMembers i db))"
  shows "\<exists>v. v \<noteq> u \<and> v \<in> org_admins i db"
proof -
  let ?ms = "filter (\<lambda>m. is_admin_binding (db_GetIAMRoleBinding i (mb_UserID m) db)) (db_ListOrganizationMembers i db)"
  have code: "(case x of Some (_, Some role) \<Rightarrow> ro_Code role | _ \<Rightarrow> []) = IAMRoleAdmin \<longleftrightarrow> is_admin_binding x" for x
    by (auto simp: is_admin_binding_def split: option.splits)
  have "1 < length ?ms" using assms(2) by (simp add: count_admins_def filter_map o_def code)
  then obtain a b rest where ms: "?ms = a # b # rest" by (cases ?ms; cases "tl ?ms") auto
  have "distinct (map (\<lambda>m. (mb_OrganizationID m, mb_UserID m)) ?ms)"
    using assms(1) by (simp add: iam_keys_def db_ListOrganizationMembers_def memberships_def distinct_map_filter)
  moreover have "m \<in> set ?ms \<Longrightarrow> mb_OrganizationID m = i" for m by (auto simp: db_ListOrganizationMembers_def)
  ultimately have "mb_UserID a \<noteq> mb_UserID b" unfolding ms by auto
  moreover have "m \<in> set ?ms \<Longrightarrow> mb_UserID m \<in> org_admins i db" for m by (auto simp: org_admins_def)
  ultimately show ?thesis unfolding ms by (metis list.set_intros)
qed

section \<open>The last administrator stays\<close>

definition has_admin :: "nat \<Rightarrow> iam_db \<Rightarrow> bool" where
  "has_admin i db \<longleftrightarrow> org_admins i db \<noteq> {}"

lemma pres_tx_success:
  assumes "\<And>x t. m s = (Inr x, t) \<Longrightarrow> I (sv_db s) \<Longrightarrow> I (sv_db t)"
  shows "pres I (in_tx c m) s"
proof -
  have commit: "sv_db t' = sv_db t" if "may_fail t = (r, t')" for t r t' using may_fail_same[OF that] by (simp add: same_tables_def)
  show ?thesis using assms by (auto simp: pres_def in_tx_def dest: commit split: prod.splits sum.splits)
qed

lemma pres_then_reload: "pres I m s \<Longrightarrow> pres I (svc_bind m (\<lambda>_. reloadAuthorization cb)) s"
  by (rule pres_bind) (use always_reload in \<open>auto simp: always_def\<close>)

lemma setOrganizationRole_keeps_admin:
  assumes "iam_keys (sv_db s)" "role = IAMRoleAdmin \<or> (has_admin i (sv_db s) \<longrightarrow> (\<exists>v. v \<noteq> u \<and> v \<in> org_admins i (sv_db s)))"
  shows "pres (has_admin i) (setOrganizationRole cb i u role inherit) s"
proof -
  have tx: "has_admin i (db_UpsertIAMRoleBinding i u (ro_ID r) inherit (db_DeleteIAMRoleBinding i u (db_UpsertOrganizationMembership i u (sv_db s))))"
    if admins: "has_admin i (sv_db s)" and r: "db_GetIAMRoleByCode role (sv_db s) = Some r" for r
  proof (cases "role = IAMRoleAdmin")
    case True
    let ?db = "db_UpsertOrganizationMembership i u (sv_db s)"
    have "r \<in> set (idb_roles (sv_db s))" "ro_Code r = role" using r find_SomeD by (fastforce simp: db_GetIAMRoleByCode_def)+
    moreover have "List.find (\<lambda>x. ro_ID x = ro_ID r) (idb_roles (sv_db s)) = Some r"
      using assms(1) calculation(1) by (intro find_distinct) (simp_all add: iam_keys_def)
    moreover have "role_by_id (ro_ID r) ?db = role_by_id (ro_ID r) (sv_db s)" by (simp add: role_by_id_def db_UpsertOrganizationMembership_def)
    ultimately have "is_admin_binding (db_GetIAMRoleBinding i u (db_UpsertIAMRoleBinding i u (ro_ID r) inherit (db_DeleteIAMRoleBinding i u ?db)))"
      using binding_replaced[of i u "ro_ID r" inherit ?db] True by (auto simp: is_admin_binding_def role_by_id_def)
    moreover have "is_member i u (db_UpsertIAMRoleBinding i u (ro_ID r) inherit (db_DeleteIAMRoleBinding i u ?db))"
      using member_upsert[of i u u "sv_db s"] by (simp add: is_member_def)
    ultimately show ?thesis unfolding has_admin_def using org_admins_iff by blast
  next
    case False
    with assms(2) admins obtain v where "v \<noteq> u" "v \<in> org_admins i (sv_db s)" by auto
    then have "v \<in> org_admins i (db_UpsertIAMRoleBinding i u (ro_ID r) inherit (db_DeleteIAMRoleBinding i u (db_UpsertOrganizationMembership i u (sv_db s))))"
      using member_upsert[of i v u "sv_db s"] by (simp add: org_admins_iff binding_other is_member_def)
    then show ?thesis unfolding has_admin_def by blast
  qed
  show ?thesis
    unfolding setOrganizationRole_def
    by (intro pres_checks pres_then_reload pres_tx_success)
       (auto simp: svc_guard_Inr svc_some_Inr svc_bind_Inr svc_wrap_Inr exec_total_Inr same_tables_def dest!: query_InrD may_fail_same intro!: tx)
qed

lemma members_with_roles_Inr:
  assumes "listOrganizationMembersWithRoles i s = (Inr members, s')"
  shows "same_tables s s' \<and> members = map (\<lambda>m. (m, case db_GetIAMRoleBinding i (mb_UserID m) (sv_db s) of Some (_, Some role) \<Rightarrow> ro_Code role | _ \<Rightarrow> []))
     (db_ListOrganizationMembers i (sv_db s))"
proof -
  have roles: "same_tables t t' \<and> ys = map (\<lambda>m. (m, case db_GetIAMRoleBinding i (mb_UserID m) (sv_db t) of Some (_, Some role) \<Rightarrow> ro_Code role | _ \<Rightarrow> [])) ms"
    if "svc_map (\<lambda>m. svc_bind (query (db_GetIAMRoleBinding i (mb_UserID m))) (\<lambda>binding.
       svc_return (m, case binding of Some (_, Some role) \<Rightarrow> ro_Code role | _ \<Rightarrow> []))) ms t = (Inr ys, t')" for ms ys t t'
    using that
  proof (induction ms arbitrary: ys t)
    case (Cons m ms)
    then obtain t1 zs where t1: "same_tables t t1"
      and zs: "svc_map (\<lambda>m. svc_bind (query (db_GetIAMRoleBinding i (mb_UserID m))) (\<lambda>binding.
       svc_return (m, case binding of Some (_, Some role) \<Rightarrow> ro_Code role | _ \<Rightarrow> []))) ms t1 = (Inr zs, t')"
      and ys: "ys = (m, case db_GetIAMRoleBinding i (mb_UserID m) (sv_db t) of Some (_, Some role) \<Rightarrow> ro_Code role | _ \<Rightarrow> []) # zs"
      by (auto simp: svc_bind_Inr svc_return_Inr dest!: query_InrD)
    from Cons.IH[OF zs] t1 ys show ?case by (simp add: same_tables_def)
  qed (simp add: svc_return_Inr)
  obtain t where "same_tables s t" and "svc_map (\<lambda>m. svc_bind (query (db_GetIAMRoleBinding i (mb_UserID m))) (\<lambda>binding.
       svc_return (m, case binding of Some (_, Some role) \<Rightarrow> ro_Code role | _ \<Rightarrow> []))) (db_ListOrganizationMembers i (sv_db s)) t = (Inr members, s')"
    using assms by (auto simp: listOrganizationMembersWithRoles_def svc_bind_Inr dest!: query_InrD)
  from roles[OF this(2)] this(1) show ?thesis by (simp add: same_tables_def)
qed

lemma reads_members_with_roles [reads_intro]: "reads (listOrganizationMembersWithRoles i)"
  unfolding listOrganizationMembersWithRoles_def by (intro reads_intro)

lemma other_admin: "\<not> is_admin_binding (db_GetIAMRoleBinding i u db) \<Longrightarrow> has_admin i db \<Longrightarrow> \<exists>v. v \<noteq> u \<and> v \<in> org_admins i db"
  by (auto simp: has_admin_def org_admins_iff)

lemma UpsertMember_keeps_admin:
  assumes "iam_keys (sv_db s)"
  shows "pres (has_admin i) (UpsertOrganizationMemberFor cb actor i u role) s"
proof -
  let ?check = "\<lambda>current. if is_admin_binding current \<and> role \<noteq> IAMRoleAdmin
       then svc_bind (listOrganizationMembersWithRoles i) (\<lambda>members.
         svc_guard (count_admins members > 1) (errw ErrInvalid ''organization must keep at least one administrator''))
       else svc_return ()"
  have reads: "reads (?check current)" for current by (auto intro!: reads_intro)
  have passed: "role = IAMRoleAdmin \<or> (has_admin i (sv_db s) \<longrightarrow> (\<exists>v. v \<noteq> u \<and> v \<in> org_admins i (sv_db s)))"
    if "?check (db_GetIAMRoleBinding i u (sv_db s)) t = (Inr (), t')" "sv_db t = sv_db s" for t t'
    using that count_admins_other[OF assms, of i u] other_admin[of i u "sv_db s"]
    by (auto simp: svc_bind_Inr svc_guard_Inr split: if_splits dest!: members_with_roles_Inr)
  have tail: "pres (has_admin i) (svc_bind (query q) (\<lambda>membership. svc_return (g membership))) t" for t g and q :: "iam_db \<Rightarrow> 'b"
    by (intro pres_reads reads_intro)
  show ?thesis
    unfolding UpsertOrganizationMemberFor_def
    by (intro pres_checks, rule pres_bind_reads[OF reads], rule pres_bind[OF setOrganizationRole_keeps_admin tail])
       (use assms passed in \<open>auto simp: svc_guard_Inr svc_some_Inr same_tables_def split del: if_split dest!: requirePermission_Inr query_InrD\<close>)
qed

lemma RemoveMember_keeps_admin:
  assumes "iam_keys (sv_db s)"
  shows "pres (has_admin i) (RemoveOrganizationMemberFor cb actor i u) s"
proof -
  have tx: "has_admin i (db_DeleteOrganizationMembership i u (db_DeleteIAMRoleBinding i u (sv_db s)))"
    if "has_admin i (sv_db s)" "\<exists>v. v \<noteq> u \<and> v \<in> org_admins i (sv_db s)"
  proof -
    from that(2) obtain v where "v \<noteq> u" "v \<in> org_admins i (sv_db s)" by blast
    then have "v \<in> org_admins i (db_DeleteOrganizationMembership i u (db_DeleteIAMRoleBinding i u (sv_db s)))"
      using member_delete[of v u i "db_DeleteIAMRoleBinding i u (sv_db s)"] by (simp add: org_admins_iff binding_other is_member_def)
    then show ?thesis unfolding has_admin_def by blast
  qed
  have passed: "\<exists>v. v \<noteq> u \<and> v \<in> org_admins i (sv_db s)"
    if "\<not> (is_admin_binding (db_GetIAMRoleBinding i u (sv_db s)) \<and> count_admins (map (\<lambda>m. (m,
      case db_GetIAMRoleBinding i (mb_UserID m) (sv_db s) of Some (_, Some role) \<Rightarrow> ro_Code role | _ \<Rightarrow> [])) (db_ListOrganizationMembers i (sv_db s))) \<le> 1)"
      "has_admin i (sv_db s)"
    using that count_admins_other[OF assms, of i u] other_admin[of i u "sv_db s"] by force
  show ?thesis
    unfolding RemoveOrganizationMemberFor_def
    by (intro pres_checks pres_bind_reads[OF reads_members_with_roles] pres_then_reload pres_tx_success)
       (use tx passed in \<open>auto simp: svc_guard_Inr svc_bind_Inr exec_total_Inr same_tables_def
          dest!: members_with_roles_Inr requirePermission_Inr query_InrD may_fail_same\<close>)
qed

end
