(* ===== verification/Iam_Integrity.thy ===== *)
theory Iam_Integrity
  imports Iam_Members
begin

text \<open>
  The references between the tables: every binding names a role that exists, in every state of an installation. Together with the
  unique keys this is what a reload needs to complete.
\<close>

section \<open>Bindings name existing roles\<close>

definition known_role :: "nat \<Rightarrow> iam_db \<Rightarrow> bool" where
  "known_role i db \<longleftrightarrow> i \<in> ro_ID ` set (idb_roles db)"

definition roles_known :: "iam_db \<Rightarrow> bool" where
  "roles_known db \<longleftrightarrow> (\<forall>b \<in> set (idb_bindings db). known_role (bd_RoleID b) db)"

text \<open>Past the lookup of a role, the role is known to the rest of the program.\<close>

lemma always_found_role:
  assumes "\<And>r. always (\<lambda>db. I db \<and> known_role (ro_ID r) db) (k r)"
  shows "always I (svc_bind (query (db_GetIAMRoleByCode code)) (\<lambda>role. svc_bind (svc_some err role) k))"
  unfolding always_def
proof
  fix s
  show "pres I (svc_bind (query (db_GetIAMRoleByCode code)) (\<lambda>role. svc_bind (svc_some err role) k)) s"
  proof (rule pres_checks(2))
    fix role t
    assume q: "query (db_GetIAMRoleByCode code) s = (Inr role, t)" "sv_db t = sv_db s"
    show "pres I (svc_bind (svc_some err role) k) t"
    proof (rule pres_checks(3))
      fix r t'
      assume r: "svc_some err role t = (Inr r, t')" "sv_db t' = sv_db t"
      then have "find (\<lambda>r. ro_Code r = code) (idb_roles (sv_db t')) = Some r"
        using q query_InrD[OF q(1)] by (simp add: svc_some_Inr db_GetIAMRoleByCode_def)
      then have "known_role (ro_ID r) (sv_db t')" by (auto simp: known_role_def dest: find_SomeD)
      moreover have "pres (\<lambda>db. I db \<and> known_role (ro_ID r) db) (k r) t'" using assms by (simp add: always_def)
      ultimately show "pres I (k r) t'" by (simp add: pres_def)
    qed
  qed
qed

lemma known_role_statements:
  "known_role i (db_UpsertOrganizationMembership o' u db) = known_role i db"
  "known_role i (delete_bindings P db) = known_role i db"
  "known_role i (db_UpsertIAMRoleBinding o' u r inherit db) = known_role i db"
  "roles_known (db_UpsertOrganizationMembership o' u db) = roles_known db"
  "roles_known db \<Longrightarrow> roles_known (delete_bindings P db)"
  "roles_known db \<Longrightarrow> known_role r db \<Longrightarrow> roles_known (db_UpsertIAMRoleBinding o' u r inherit db)"
  by (auto simp: known_role_def roles_known_def db_UpsertOrganizationMembership_def delete_bindings_def db_UpsertIAMRoleBinding_def Let_def)

lemma roles_known_others:
  "roles_known db \<Longrightarrow> roles_known (db_UpsertIAMRole code db)"
  "roles_known db \<Longrightarrow> roles_known (db_UpsertIAMPermission code' resource action db)"
  "roles_known db \<Longrightarrow> roles_known (db_UpsertIAMRolePermission r p db)"
  "roles_known db \<Longrightarrow> roles_known (db_DeleteOrganization i db)"
  "roles_known db \<Longrightarrow> roles_known (delete_memberships Q db)"
  "roles_known db \<Longrightarrow> roles_known (db_DeleteUser i db)"
  by (auto simp: known_role_def roles_known_def db_UpsertIAMRole_def db_UpsertIAMPermission_def db_UpsertIAMRolePermission_def
      db_DeleteOrganization_def delete_memberships_def db_DeleteUser_def)

lemma roles_known_fallible:
  "db_CreateUser name email hash status db = Inr (x, db') \<Longrightarrow> roles_known db \<Longrightarrow> roles_known db'"
  "db_UpdateUser user db = Inr (y, db') \<Longrightarrow> roles_known db \<Longrightarrow> roles_known db'"
  "db_CreateOrganization name description parent isRoot db = Inr (z, db') \<Longrightarrow> roles_known db \<Longrightarrow> roles_known db'"
  "db_UpdateOrganization org db = Inr (y, db') \<Longrightarrow> roles_known db \<Longrightarrow> roles_known db'"
  "db_ReplaceIAMRolePermissionSubset r ps qs db = Inr (y, db') \<Longrightarrow> roles_known db \<Longrightarrow> roles_known db'"
  by (auto simp: known_role_def roles_known_def db_CreateUser_def db_UpdateUser_def db_CreateOrganization_def db_UpdateOrganization_def
      db_ReplaceIAMRolePermissionSubset_def Let_def split: if_splits)

lemmas role_statements = known_role_statements roles_known_others roles_known_fallible
  db_DeleteIAMRoleBinding_def db_DeleteIAMRoleBindingsByOrganization_def db_DeleteIAMRoleBindingsByUser_def
  db_DeleteOrganizationMembership_def db_DeleteOrganizationMembershipsByOrganization_def db_DeleteOrganizationMembershipsByUser_def

lemma roles_known_setOrganizationRole [always_intro]: "always roles_known (setOrganizationRole cb i u role inherit)"
  unfolding setOrganizationRole_def
  by (intro always_bind[OF always_reads[OF reads_guard]] always_found_role always_intro) (simp_all add: role_statements)

lemma roles_known_bootstrap_binding [always_intro]: "always roles_known (bootstrap_binding root user code)"
  unfolding bootstrap_binding_def
  by (intro always_bind[OF always_wrap[OF always_reads[OF reads_query]]] always_if always_found_role always_intro) (simp_all add: role_statements)

lemma roles_known_startup: "always roles_known (NewIAMService cb)"
proof -
  have seed: "always roles_known (bind_seed seed stored code)" for seed stored code
    unfolding bind_seed_def by (intro always_intro) (auto intro!: always_intro simp: role_statements split: option.splits)
  show ?thesis
    unfolding NewIAMService_def ensureIAMCatalog_def ensure_seed_def ensureFeatureCatalog_def ensure_feature_def
    by (intro always_intro seed) (simp_all add: role_statements)
qed

lemma roles_known_bootstrap: "always roles_known (EnsureOrganizationBootstrap cb)"
  unfolding EnsureOrganizationBootstrap_def bootstrap_user_def bootstrap_membership_def Let_def
  by (intro always_intro) (auto simp: role_statements)

lemma roles_known_member_ops [always_intro]:
  "always roles_known (UpsertOrganizationMemberFor cb actor i u role)" "always roles_known (RemoveOrganizationMemberFor cb actor i u)"
  unfolding UpsertOrganizationMemberFor_def RemoveOrganizationMemberFor_def listOrganizationMembersWithRoles_def
  by (intro always_intro; simp add: role_statements)+

lemma roles_known_operation: "always roles_known (run_op cb env actor op)"
  by (cases op; simp only: run_op.simps CreateUserFor_def UpdateUserFor_def ResetUserPasswordFor_def DeleteUserFor_def CreateOrganizationFor_def
        UpdateOrganizationFor_def DeleteOrganizationFor_def UpsertOrganizationMemberByEmailFor_def SetUserFeaturePolicy_def new_password_def
        removeUser_def Let_def;
      intro always_intro; auto simp: role_statements intro: roles_known_fallible)

lemma reachable_roles_known: "iam_reachable cb env s \<Longrightarrow> roles_known (sv_db s)"
proof (induction rule: iam_reachable.induct)
  case (install s)
  then show ?case by (simp add: roles_known_def empty_iam_db_def)
next
  case (startup s r s')
  then show ?case using alwaysD[OF roles_known_startup] by blast
next
  case (bootstrap s r s')
  then show ?case using alwaysD[OF roles_known_bootstrap] by blast
next
  case (register s name email hash status r' s')
  then show ?case using alwaysD[OF always_exec] roles_known_fallible(1) by metis
next
  case (operation s actor op r s')
  then show ?case using alwaysD[OF roles_known_operation] by blast
qed simp

section \<open>A reload completes\<close>

text \<open>Without failing statements, from given tables, a program that leaves them as they are returns.\<close>

definition runs :: "iam_db \<Rightarrow> ('e, 'a) svc \<Rightarrow> bool" where
  "runs db m \<longleftrightarrow> (\<forall>s. sv_faults s = [] \<longrightarrow> sv_db s = db \<longrightarrow> (\<exists>x s'. m s = (Inr x, s') \<and> sv_faults s' = [] \<and> sv_db s' = db))"

lemma runsD: "runs db m \<Longrightarrow> sv_faults s = [] \<Longrightarrow> sv_db s = db \<Longrightarrow> \<exists>x s'. m s = (Inr x, s') \<and> sv_faults s' = [] \<and> sv_db s' = db"
  by (simp add: runs_def)

lemma runs_bind: "runs db m \<Longrightarrow> (\<And>x. runs db (k x)) \<Longrightarrow> runs db (svc_bind m k)"
  unfolding runs_def svc_bind_Inr by metis

lemma runs_wrap: "runs db m \<Longrightarrow> runs db (svc_wrap pre m)"
  unfolding runs_def by (simp add: svc_wrap_Inr)

lemma runs_query: "runs db (k (f db)) \<Longrightarrow> runs db (svc_bind (query f) k)" "runs db (k (f db)) \<Longrightarrow> runs db (svc_bind (svc_wrap pre (query f)) k)"
  unfolding runs_def by (auto simp: svc_bind_Inr svc_wrap_Inr query_Inr may_fail_def)

lemma runs_return: "runs db (svc_return x)"
  by (simp add: runs_def svc_return_def)

lemma runs_some: "runs db (k x) \<Longrightarrow> runs db (svc_bind (svc_some err (Some x)) k)"
  by (simp add: runs_def svc_bind_Inr svc_some_Inr)

lemma runs_foreach: "(\<And>x. x \<in> set xs \<Longrightarrow> runs db (f x)) \<Longrightarrow> runs db (svc_foreach f xs)"
  by (induction xs) (auto intro: runs_return runs_bind)

text \<open>An enforcer in memory: with automatic saving off, adding a rule or a grouping and linking the roles do not fail.\<close>

definition never_fails :: "'e casbin \<Rightarrow> bool" where
  "never_fails cb \<longleftrightarrow> (\<forall>e. (\<forall>r. \<exists>e'. cb_AddPolicy cb e r = Inr e') \<and> (\<forall>g. \<exists>e'. cb_AddGroupingPolicy cb e g = Inr e') \<and>
     (\<exists>e'. cb_BuildRoleLinks cb e = Inr e'))"

lemma runs_on_enforcer: "(\<And>e. \<exists>e'. f e = Inr e') \<Longrightarrow> runs db (on_enforcer f)"
  unfolding runs_def on_enforcer_def by (metis (mono_tags, lifting) iam_sys.ext_inject iam_sys.surjective iam_sys.update_convs(2) old.sum.simps(6))

lemma runs_enforcer:
  assumes "never_fails cb"
  shows "runs db (authorizer_reset cb)" "runs db (addPermission cb code obj act)" "runs db (addBinding cb u code d)" "runs db (rebuildRoleLinks cb)"
  using assms unfolding authorizer_reset_def addPermission_def addBinding_def rebuildRoleLinks_def never_fails_def
  by (intro runs_wrap runs_on_enforcer; blast)+

lemma runs_reload:
  assumes "never_fails cb" and "\<And>b. b \<in> set (bindings db) \<Longrightarrow> role_by_id (bd_RoleID b) db \<noteq> None"
  shows "runs db (reloadAuthorization cb)"
proof -
  have role: "runs db (load_role cb role)" for role
    unfolding load_role_def by (intro runs_query runs_foreach runs_enforcer[OF assms(1)])
  have binding: "runs db (load_binding cb orgs row)" if row_in: "row \<in> set (db_ListIAMRoleBindings db)" for orgs row
  proof -
    obtain b r org where row: "row = (b, Some r, org)"
      using row_in assms(2) by (fastforce simp: db_ListIAMRoleBindings_def)
    show ?thesis
      unfolding row load_binding_def
      by (simp, intro runs_some runs_bind runs_enforcer[OF assms(1)])
         (auto intro!: runs_return runs_enforcer[OF assms(1)] runs_foreach split: option.splits)
  qed
  show ?thesis
    unfolding reloadAuthorization_def
    by (intro runs_bind[OF runs_enforcer(1)[OF assms(1)]] runs_query runs_bind[OF runs_foreach[OF role]] runs_bind[OF runs_foreach[OF binding]]
        runs_enforcer[OF assms(1)])
qed

lemma roles_known_lookup: "roles_known db \<Longrightarrow> b \<in> set (bindings db) \<Longrightarrow> role_by_id (bd_RoleID b) db \<noteq> None"
  unfolding roles_known_def known_role_def bindings_def role_by_id_def find_None_iff by force

end
