(* ===== verification/Iam_Sessions.thy ===== *)
theory Iam_Sessions
  imports Iam_Password Iam_Integrity
begin

text \<open>
  Signing in: session tokens (src/pkg/utils/jwt.go), accounts and passwords (iam/auth.go) and personal access tokens
  (iam/pat.go). The JWT library, argon2id, bcrypt and the random source are parameters; the clock is a sequence of
  readings per call.
\<close>

section \<open>Session tokens\<close>

record jwt_claims =
  cl_UserID :: nat
  cl_Email :: string
  cl_ExpiresAt :: gtime
  cl_IssuedAt :: gtime
  cl_NotBefore :: gtime
  cl_Issuer :: string
  cl_Subject :: string

text \<open>The library: dates of claims, signing with HS256, and parsing at a time with a function that gives the key for a token signed by
  an HMAC method or by another one; with the claims it tells whether the token is valid.\<close>

record jwt_lib =
  jl_NumericDate :: "gtime \<Rightarrow> gtime"
  jl_SignHS256 :: "string \<Rightarrow> jwt_claims \<Rightarrow> gerr + string"
  jl_Parse :: "gtime \<Rightarrow> (bool \<Rightarrow> gerr + string) \<Rightarrow> string \<Rightarrow> gerr + jwt_claims \<times> bool"

definition hour :: gtime where
  "hour = 3600 * 10 ^ 9"

definition secret_not_configured :: gerr where
  "secret_not_configured = ErrNew ''JWT secret key is not configured''"

text \<open>The new secret.\<close>

definition SetJWTSecret :: "string \<Rightarrow> gerr + string" where
  "SetJWTSecret secret =
     (if secret = [] then Inl (ErrNew ''JWT secret key is required and cannot be empty'')
      else if length secret < 32 then Inl (ErrNew ''JWT secret key must be at least 32 characters long for security'')
      else Inr secret)"

definition GenerateToken :: "jwt_lib \<Rightarrow> string \<Rightarrow> (nat \<Rightarrow> gtime) \<Rightarrow> nat \<Rightarrow> string \<Rightarrow> gerr + string" where
  "GenerateToken jl secret clock userID email =
     (if secret = [] then Inl secret_not_configured
      else jl_SignHS256 jl secret
        \<lparr>cl_UserID = userID, cl_Email = email, cl_ExpiresAt = jl_NumericDate jl (clock 0 + 24 * hour),
         cl_IssuedAt = jl_NumericDate jl (clock 1), cl_NotBefore = jl_NumericDate jl (clock 2), cl_Issuer = ''liaison'', cl_Subject = email\<rparr>)"

definition signing_key :: "string \<Rightarrow> bool \<Rightarrow> gerr + string" where
  "signing_key secret hmac = (if hmac then Inr secret else Inl (ErrNew ''unexpected signing method''))"

definition ValidateToken :: "jwt_lib \<Rightarrow> string \<Rightarrow> gtime \<Rightarrow> string \<Rightarrow> gerr + jwt_claims" where
  "ValidateToken jl secret now tokenString =
     (if secret = [] then Inl secret_not_configured
      else case jl_Parse jl now (signing_key secret) tokenString of
        Inl err \<Rightarrow> Inl err
      | Inr (claims, valid) \<Rightarrow> if valid then Inr claims else Inl (ErrNew ''invalid token''))"

definition RefreshToken :: "jwt_lib \<Rightarrow> string \<Rightarrow> (nat \<Rightarrow> gtime) \<Rightarrow> string \<Rightarrow> gerr + string" where
  "RefreshToken jl secret clock tokenString =
     (case ValidateToken jl secret (clock 0) tokenString of
        Inl err \<Rightarrow> Inl err
      | Inr claims \<Rightarrow>
          if cl_ExpiresAt claims - clock 1 < hour then GenerateToken jl secret (\<lambda>i. clock (i + 2)) (cl_UserID claims) (cl_Email claims)
          else Inr tokenString)"

section \<open>Accounts\<close>

record auth_env =
  ae_argon :: argon2_lib
  ae_jwt :: jwt_lib
  ae_secret :: string

definition user_not_found :: gerr where
  "user_not_found = ErrNew ''user not found''"

text \<open>The token and the account; a failure to record the time is only logged.\<close>

definition Login :: "auth_env \<Rightarrow> (nat \<Rightarrow> gtime) \<Rightarrow> string \<Rightarrow> string \<Rightarrow> string \<Rightarrow> ('e, string \<times> iam_user) svc" where
  "Login env clock email password loginIP =
     svc_bind (query (db_GetUserByEmail email)) (\<lambda>user.
     svc_bind (svc_some user_not_found user) (\<lambda>user.
     svc_bind (svc_guard (us_Status user = ''active'') (ErrNew ''user account is disabled'')) (\<lambda>_.
     svc_bind (svc_lift (VerifyPassword (ae_argon env) password (us_Password user))) (\<lambda>valid.
     svc_bind (svc_guard valid (ErrNew ''invalid password'')) (\<lambda>_.
     svc_bind (svc_attempt (exec_total (db_UpdateUserLastLoginAndIP (clock 0) (us_ID user) loginIP))) (\<lambda>_.
     svc_bind (svc_lift (GenerateToken (ae_jwt env) (ae_secret env) (\<lambda>i. clock (i + 1)) (us_ID user) (us_Email user))) (\<lambda>token.
     svc_return (token, user))))))))"

definition default_email :: string where
  "default_email = ''default@liaison.local''"

text \<open>The password that is written to the file of the operator; nothing when the account is already there.\<close>

definition CreateDefaultUser :: "'e casbin \<Rightarrow> iam_env \<Rightarrow> ('e, string option) svc" where
  "CreateDefaultUser cb env =
     svc_bind (query (db_CheckUserExists default_email)) (\<lambda>exists.
     if exists then svc_return None
     else
       svc_bind (svc_lift (env_generate env)) (\<lambda>password.
       svc_bind (svc_lift (env_hash env password)) (\<lambda>hash.
       svc_bind (exec (db_CreateUser ''default'' default_email hash ''active'')) (\<lambda>_.
       svc_bind (EnsureOrganizationBootstrap cb) (\<lambda>_.
       svc_return (Some password))))))"

definition GetUserByID :: "nat \<Rightarrow> ('e, iam_user) svc" where
  "GetUserByID userID = svc_bind (query (db_GetUserByID userID)) (svc_some user_not_found)"

definition GetUserByToken :: "auth_env \<Rightarrow> gtime \<Rightarrow> string \<Rightarrow> ('e, iam_user) svc" where
  "GetUserByToken env now tokenString =
     svc_bind (svc_lift (ValidateToken (ae_jwt env) (ae_secret env) now tokenString)) (\<lambda>claims.
     svc_bind (query (db_GetUserByID (cl_UserID claims))) (svc_some user_not_found))"

definition ChangePassword :: "argon2_lib \<Rightarrow> gerr + bytes \<Rightarrow> nat \<Rightarrow> string \<Rightarrow> string \<Rightarrow> ('e, unit) svc" where
  "ChangePassword lib salt userID oldPassword newPassword =
     svc_bind (query (db_GetUserByID userID)) (\<lambda>user.
     svc_bind (svc_some user_not_found user) (\<lambda>user.
     svc_bind (svc_lift (VerifyPassword lib oldPassword (us_Password user))) (\<lambda>valid.
     svc_bind (svc_guard valid (ErrNew ''invalid old password'')) (\<lambda>_.
     svc_bind (svc_lift (HashPassword lib salt newPassword)) (\<lambda>hash.
     exec (db_UpdateUser (user\<lparr>us_Password := hash\<rparr>)))))))"

section \<open>Personal access tokens\<close>

record bcrypt_lib =
  bc_GenerateFromPassword :: "bytes \<Rightarrow> nat \<Rightarrow> gerr + string"
  bc_CompareHashAndPassword :: "string \<Rightarrow> bytes \<Rightarrow> gerr option"

definition patRandomBytes :: nat where "patRandomBytes = 25"

definition PATPlaintextPrefix :: string where "PATPlaintextPrefix = ''liaison_pat_''"

definition patPrefixTotalLen :: nat where "patPrefixTotalLen = length PATPlaintextPrefix + 8"

definition patMaxPerUser :: nat where "patMaxPerUser = 50"

definition patMaxNameLen :: nat where "patMaxNameLen = 64"

definition patBcryptCost :: nat where "patBcryptCost = 10"

definition ErrPATNameRequired :: gerr where "ErrPATNameRequired = ErrNew ''token name is required''"

definition ErrPATNameTooLong :: gerr where
  "ErrPATNameTooLong = ErrNew (''token name must be at most '' @ dec patMaxNameLen @ '' characters'')"

definition ErrPATTooMany :: gerr where
  "ErrPATTooMany = ErrNew (''token limit reached (max '' @ dec patMaxPerUser @ '' per user)'')"

definition ErrPATInvalid :: gerr where "ErrPATInvalid = ErrNew ''invalid or revoked token''"

definition ErrPATExpired :: gerr where "ErrPATExpired = ErrNew ''token expired''"

definition pat_plaintext :: "bytes \<Rightarrow> string" where
  "pat_plaintext raw = PATPlaintextPrefix @ to_lower (rev (dropWhile (\<lambda>c. c = CHR ''='') (rev (base32_encode raw))))"

definition pat_prefix :: "string \<Rightarrow> string" where
  "pat_prefix plaintext = (if length plaintext > patPrefixTotalLen then take patPrefixTotalLen plaintext else plaintext)"

text \<open>The stored row and the plaintext, which is shown once.\<close>

definition CreatePAT ::
  "bcrypt_lib \<Rightarrow> (nat \<Rightarrow> gerr + bytes) \<Rightarrow> nat \<Rightarrow> string \<Rightarrow> gtime option \<Rightarrow> ('e, user_api_token \<times> string) svc" where
  "CreatePAT bc random userID name expiresAt =
     (let name = trim_space name in
      svc_bind (svc_guard (name \<noteq> []) ErrPATNameRequired) (\<lambda>_.
      svc_bind (svc_guard (length name \<le> patMaxNameLen) ErrPATNameTooLong) (\<lambda>_.
      svc_bind (query (db_CountUserAPITokens userID)) (\<lambda>count.
      svc_bind (svc_guard (count < patMaxPerUser) ErrPATTooMany) (\<lambda>_.
      svc_bind (svc_wrap ''generate random token: '' (svc_lift (random patRandomBytes))) (\<lambda>raw.
      let plaintext = pat_plaintext raw in
      svc_bind (svc_wrap ''bcrypt hash: '' (svc_lift (bc_GenerateFromPassword bc plaintext patBcryptCost))) (\<lambda>hash.
      svc_bind (exec (db_CreateUserAPIToken \<lparr>tk_ID = 0, tk_UserID = userID, tk_Name = name, tk_TokenPrefix = pat_prefix plaintext,
          tk_TokenHash = hash, tk_Scope = ''full_access'', tk_LastUsedAt = None, tk_LastUsedIP = [], tk_ExpiresAt = expiresAt, tk_RevokedAt = None\<rparr>))
        (\<lambda>tok. svc_return (tok, plaintext)))))))))"

definition ListPATs :: "nat \<Rightarrow> ('e, user_api_token list) svc" where
  "ListPATs userID = svc_bind (query (db_ListUserAPITokens userID)) (\<lambda>out. svc_return (map (\<lambda>k. k\<lparr>tk_TokenHash := []\<rparr>) out))"

definition RevokePAT :: "gtime \<Rightarrow> nat \<Rightarrow> nat \<Rightarrow> ('e, unit) svc" where
  "RevokePAT now userID i = exec_total (db_RevokeUserAPIToken now userID i)"

text \<open>The account, and the token whose use a background statement records (\<^verbatim>\<open>TouchUserAPIToken\<close>, a transition of its own).\<close>

definition GetUserByPAT :: "bcrypt_lib \<Rightarrow> gtime \<Rightarrow> string \<Rightarrow> string \<Rightarrow> ('e, iam_user \<times> nat \<times> string) svc" where
  "GetUserByPAT bc now plaintext requestIP =
     (let plaintext = trim_space plaintext in
      svc_bind (svc_guard (take (length PATPlaintextPrefix) plaintext = PATPlaintextPrefix) ErrPATInvalid) (\<lambda>_.
      svc_bind (query (db_GetUserAPITokensByPrefix (pat_prefix plaintext))) (\<lambda>candidates.
      svc_bind (svc_some ErrPATInvalid (find (\<lambda>c. bc_CompareHashAndPassword bc (tk_TokenHash c) plaintext = None) candidates)) (\<lambda>match.
      svc_bind (svc_guard (\<not> (case tk_ExpiresAt match of None \<Rightarrow> False | Some t \<Rightarrow> now > t)) ErrPATExpired) (\<lambda>_.
      svc_bind (query (db_GetUserByID (tk_UserID match))) (\<lambda>user.
      svc_bind (svc_some ErrPATInvalid user) (\<lambda>user.
      svc_return (user, tk_ID match, requestIP))))))))"

definition TouchPAT :: "gtime \<Rightarrow> nat \<times> string \<Rightarrow> ('e, unit) svc" where
  "TouchPAT now use = exec_total (db_TouchUserAPIToken now (fst use) (snd use))"

section \<open>What the operations leave\<close>

lemma reads_lift [reads_intro]: "reads (svc_lift r)"
  by (simp add: reads_def svc_lift_def same_tables_def)

lemma reads_GetUserByToken [reads_intro]: "reads (GetUserByToken env now tok)"
  unfolding GetUserByToken_def by (intro reads_intro)

lemma reads_GetUserByPAT [reads_intro]: "reads (GetUserByPAT bc now plaintext ip)"
  unfolding GetUserByPAT_def Let_def by (intro reads_intro)

lemma svc_lift_Inr [svc_ok]: "svc_lift r s = (Inr y, s') \<longleftrightarrow> r = Inr y \<and> s' = s"
  by (auto simp: svc_lift_def)

text \<open>A token authenticates as the owner of a live, unrevoked row that accepts it.\<close>

lemma GetUserByPAT_Inr:
  assumes "GetUserByPAT bc now plaintext ip s = (Inr (user, i, ip'), s')"
  shows "user \<in> set (users (sv_db s)) \<and> (\<exists>k \<in> set (idb_tokens (sv_db s)). tk_ID k = i \<and> tk_RevokedAt k = None \<and> tk_UserID k = us_ID user \<and>
    tk_TokenPrefix k = pat_prefix (trim_space plaintext) \<and> bc_CompareHashAndPassword bc (tk_TokenHash k) (trim_space plaintext) = None \<and>
    (\<forall>t. tk_ExpiresAt k = Some t \<longrightarrow> now \<le> t))"
  using assms
  by (fastforce simp: GetUserByPAT_def Let_def svc_bind_Inr svc_guard_Inr svc_some_Inr svc_return_Inr same_tables_def
      db_GetUserAPITokensByPrefix_def live_tokens_def db_GetUserByID_def dest!: query_InrD find_SomeD split: option.splits)

lemma GetUserByToken_Inr:
  assumes "GetUserByToken env now tok s = (Inr user, s')"
  shows "user \<in> set (users (sv_db s)) \<and> (\<exists>c. ValidateToken (ae_jwt env) (ae_secret env) now tok = Inr c \<and> cl_UserID c = us_ID user)"
  using assms
  by (auto simp: GetUserByToken_def svc_bind_Inr svc_some_Inr svc_lift_Inr same_tables_def db_GetUserByID_def dest!: query_InrD find_SomeD)

end
