(* ===== verification/Iam_Access.thy ===== *)
theory Iam_Access
  imports Iam_Sessions
begin

text \<open>
  Histories of an installation with sign-ins and personal access tokens: whom a token authenticates, what revoking does for
  good, how many tokens a user has, and that accounts have positive identifiers.
\<close>

section \<open>Histories\<close>

text \<open>A token as it was handed out: its row, its owner, its expiry and the plaintext.\<close>

type_synonym issued = "nat \<times> nat \<times> gtime option \<times> string"

inductive auth_step :: "'e casbin \<Rightarrow> bcrypt_lib \<Rightarrow> 'e iam_sys \<Rightarrow> issued list \<Rightarrow> 'e iam_sys \<Rightarrow> bool" for cb bc where
  process: "auth_step cb bc s [] (s\<lparr>sv_enf := e, sv_faults := faults\<rparr>)"
| startup: "NewIAMService cb s = (r, s') \<Longrightarrow> auth_step cb bc s [] s'"
| bootstrap: "EnsureOrganizationBootstrap cb s = (r, s') \<Longrightarrow> auth_step cb bc s [] s'"
| default_user: "CreateDefaultUser cb env s = (r1, s') \<Longrightarrow> auth_step cb bc s [] s'"
| operation: "run_op cb env actor op s = (r, s') \<Longrightarrow> auth_step cb bc s [] s'"
| login: "Login aenv clock email password ip s = (r2, s') \<Longrightarrow> auth_step cb bc s [] s'"
| change_password: "ChangePassword lib salt u old new s = (r, s') \<Longrightarrow> auth_step cb bc s [] s'"
| create_token: "CreatePAT bc random u name expires s = (Inr (tok, plain), s') \<Longrightarrow> auth_step cb bc s [(tk_ID tok, u, expires, plain)] s'"
| refuse_token: "CreatePAT bc random u name expires s = (Inl err, s') \<Longrightarrow> auth_step cb bc s [] s'"
| revoke_token: "RevokePAT now u i s = (r, s') \<Longrightarrow> auth_step cb bc s [] s'"
| touch_token: "TouchPAT now use s = (r, s') \<Longrightarrow> auth_step cb bc s [] s'"

inductive auth_run :: "'e casbin \<Rightarrow> bcrypt_lib \<Rightarrow> 'e iam_sys \<Rightarrow> issued list \<Rightarrow> 'e iam_sys \<Rightarrow> bool" for cb bc s0 where
  start: "auth_run cb bc s0 [] s0"
| step: "auth_run cb bc s0 I s \<Longrightarrow> auth_step cb bc s J s' \<Longrightarrow> auth_run cb bc s0 (I @ J) s'"

section \<open>Steps that leave the tokens alone\<close>

lemma tokens_statements:
  "idb_tokens (db_UpsertOrganizationMembership i u db) = idb_tokens db" "idb_tokens (delete_memberships Q db) = idb_tokens db"
  "idb_tokens (delete_bindings P db) = idb_tokens db" "idb_tokens (db_UpsertIAMRoleBinding i u r inherit db) = idb_tokens db"
  "idb_tokens (db_UpsertIAMRole code db) = idb_tokens db" "idb_tokens (db_UpsertIAMPermission code resource action db) = idb_tokens db"
  "idb_tokens (db_UpsertIAMRolePermission r p db) = idb_tokens db" "idb_tokens (db_DeleteOrganization i db) = idb_tokens db"
  "idb_tokens (db_DeleteUser u db) = idb_tokens db" "idb_tokens (update_user u f db) = idb_tokens db"
  by (simp_all add: db_UpsertOrganizationMembership_def delete_memberships_def delete_bindings_def db_UpsertIAMRoleBinding_def db_UpsertIAMRole_def
      db_UpsertIAMPermission_def db_UpsertIAMRolePermission_def db_DeleteOrganization_def db_DeleteUser_def update_user_def Let_def)

lemma tokens_fallible:
  "db_CreateUser name email hash status db = Inr (x, db') \<Longrightarrow> idb_tokens db' = idb_tokens db"
  "db_UpdateUser user db = Inr (y, db') \<Longrightarrow> idb_tokens db' = idb_tokens db"
  "db_CreateOrganization name description parent isRoot db = Inr (z, db') \<Longrightarrow> idb_tokens db' = idb_tokens db"
  "db_UpdateOrganization org db = Inr (y, db') \<Longrightarrow> idb_tokens db' = idb_tokens db"
  "db_ReplaceIAMRolePermissionSubset r ps qs db = Inr (y, db') \<Longrightarrow> idb_tokens db' = idb_tokens db"
  by (auto simp: db_CreateUser_def db_UpdateUser_def db_CreateOrganization_def db_UpdateOrganization_def db_ReplaceIAMRolePermissionSubset_def
      Let_def split: if_splits)

lemmas statement_defs = db_DeleteIAMRoleBinding_def db_DeleteIAMRoleBindingsByOrganization_def db_DeleteIAMRoleBindingsByUser_def
  db_DeleteOrganizationMembership_def db_DeleteOrganizationMembershipsByOrganization_def db_DeleteOrganizationMembershipsByUser_def
  db_UpdateUserLastLoginAndIP_def

lemmas tokens_simps = tokens_statements statement_defs

lemma keeps_more_reads [keeps_intro]:
  "keeps f may_fail" "keeps f (svc_lift r)" "keeps f (set_parent cb actor i parent setParent org)" "keeps f (feature_permission ft)"
  by (intro reads_keeps reads_intro reads_set_parent, (simp add: feature_permission_def, intro reads_intro)?)+

lemma keeps_attempt [keeps_intro]: "keeps f m \<Longrightarrow> keeps f (svc_attempt m)"
  unfolding keeps_def svc_attempt_def by (metis (mono_tags, lifting) case_prod_beta snd_conv)

lemma keeps_tokens_role [keeps_intro]: "keeps idb_tokens (setOrganizationRole cb i u role inherit)"
  unfolding setOrganizationRole_def by (intro keeps_intro) (simp_all add: tokens_simps)

lemma keeps_tokens_startup: "keeps idb_tokens (NewIAMService cb)"
proof -
  have seed: "keeps idb_tokens (bind_seed seed stored code)" for seed stored code
    unfolding bind_seed_def by (intro keeps_intro) (auto intro!: keeps_intro simp: tokens_simps split: option.splits)
  show ?thesis
    unfolding NewIAMService_def ensureIAMCatalog_def ensure_seed_def ensureFeatureCatalog_def ensure_feature_def
    by (intro keeps_intro seed) (simp_all add: tokens_simps)
qed

lemma keeps_tokens_bootstrap [keeps_intro]: "keeps idb_tokens (EnsureOrganizationBootstrap cb)"
  unfolding EnsureOrganizationBootstrap_def bootstrap_user_def bootstrap_membership_def bootstrap_binding_def Let_def
  by (intro keeps_intro) (auto simp: tokens_simps dest: tokens_fallible)

lemma keeps_tokens_members [keeps_intro]:
  "keeps idb_tokens (UpsertOrganizationMemberFor cb actor i u role)" "keeps idb_tokens (RemoveOrganizationMemberFor cb actor i u)"
  unfolding UpsertOrganizationMemberFor_def RemoveOrganizationMemberFor_def listOrganizationMembersWithRoles_def
  by (intro keeps_intro; simp add: tokens_simps)+

lemma keeps_tokens_operation: "keeps idb_tokens (run_op cb env actor op)"
  by (cases op; simp only: run_op.simps CreateUserFor_def UpdateUserFor_def ResetUserPasswordFor_def DeleteUserFor_def CreateOrganizationFor_def
        UpdateOrganizationFor_def DeleteOrganizationFor_def UpsertOrganizationMemberByEmailFor_def SetUserFeaturePolicy_def
        new_password_def removeUser_def Let_def;
      intro keeps_intro; auto simp: tokens_simps dest: tokens_fallible)

lemma keeps_tokens_accounts:
  "keeps idb_tokens (CreateDefaultUser cb env)" "keeps idb_tokens (Login aenv clock email password ip)"
  "keeps idb_tokens (ChangePassword lib salt u old new)"
  unfolding CreateDefaultUser_def Login_def ChangePassword_def by (intro keeps_intro; auto simp: tokens_simps dest: tokens_fallible)+

section \<open>Steps on the tokens\<close>

text \<open>What a step does to the rows: nothing, a new row, a revocation of rows or a record of their use.\<close>

lemma CreatePAT_Inr:
  assumes "CreatePAT bc random u name expires s = (Inr (tok, plain), s')"
  shows "tk_ID tok = next_id (map tk_ID (idb_tokens (sv_db s))) \<and> tk_UserID tok = u \<and> tk_ExpiresAt tok = expires \<and> tk_RevokedAt tok = None \<and>
    tk_TokenPrefix tok = pat_prefix plain \<and> bc_GenerateFromPassword bc plain patBcryptCost = Inr (tk_TokenHash tok) \<and>
    db_CountUserAPITokens u (sv_db s) < patMaxPerUser \<and> idb_tokens (sv_db s') = idb_tokens (sv_db s) @ [tok]"
  using assms
  by (auto simp: CreatePAT_def Let_def svc_ok same_tables_def db_CreateUserAPIToken_def dest!: may_fail_same)

lemma CreatePAT_Inl: "CreatePAT bc random u name expires s = (Inl err, s') \<Longrightarrow> idb_tokens (sv_db s') = idb_tokens (sv_db s)"
proof -
  have fail: "exec (db_CreateUserAPIToken tok) s = (Inl e, s') \<Longrightarrow> sv_db s' = sv_db s" for tok e and s s' :: "'a iam_sys"
    by (auto simp: exec_def svc_bind_def db_CreateUserAPIToken_def Let_def same_tables_def dest!: may_fail_same split: sum.splits prod.splits)
  show "CreatePAT bc random u name expires s = (Inl err, s') \<Longrightarrow> ?thesis"
    by (auto simp: CreatePAT_def Let_def svc_bind_def svc_guard_def svc_return_def svc_fail_def svc_wrap_def svc_lift_def same_tables_def
        dest!: fail readsD[OF reads_query] split: if_splits sum.splits prod.splits)
qed

datatype token_change = Same | Added user_api_token | Updated "user_api_token \<Rightarrow> user_api_token"

fun change_tokens :: "token_change \<Rightarrow> user_api_token list \<Rightarrow> user_api_token list" where
  "change_tokens Same ks = ks"
| "change_tokens (Added k) ks = ks @ [k]"
| "change_tokens (Updated f) ks = map f ks"

definition harmless :: "(user_api_token \<Rightarrow> user_api_token) \<Rightarrow> bool" where
  "harmless f \<longleftrightarrow> (\<forall>k. tk_ID (f k) = tk_ID k \<and> tk_UserID (f k) = tk_UserID k \<and> tk_ExpiresAt (f k) = tk_ExpiresAt k \<and>
     tk_TokenPrefix (f k) = tk_TokenPrefix k \<and> tk_TokenHash (f k) = tk_TokenHash k \<and> (tk_RevokedAt k \<noteq> None \<longrightarrow> tk_RevokedAt (f k) \<noteq> None))"

fun change_ok :: "bcrypt_lib \<Rightarrow> iam_db \<Rightarrow> issued list \<Rightarrow> token_change \<Rightarrow> bool" where
  "change_ok bc db J Same \<longleftrightarrow> J = []"
| "change_ok bc db J (Updated f) \<longleftrightarrow> J = [] \<and> harmless f"
| "change_ok bc db J (Added k) \<longleftrightarrow> (\<exists>plain. J = [(tk_ID k, tk_UserID k, tk_ExpiresAt k, plain)] \<and> tk_RevokedAt k = None \<and>
     tk_TokenPrefix k = pat_prefix plain \<and> bc_GenerateFromPassword bc plain patBcryptCost = Inr (tk_TokenHash k)) \<and>
     tk_ID k = next_id (map tk_ID (idb_tokens db)) \<and> db_CountUserAPITokens (tk_UserID k) db < patMaxPerUser"

lemma update_tokens_rows: "idb_tokens (update_tokens P f db) = map (\<lambda>k. if P k then f k else k) (idb_tokens db)"
  by (simp add: update_tokens_def)

lemma harmless_updates:
  "harmless (\<lambda>k. if tk_ID k = i \<and> tk_UserID k = u \<and> tk_RevokedAt k = None then k\<lparr>tk_RevokedAt := Some now\<rparr> else k)"
  "harmless (\<lambda>k. if tk_ID k = i then k\<lparr>tk_LastUsedAt := Some now, tk_LastUsedIP := ip\<rparr> else k)"
  by (simp_all add: harmless_def)

lemma exec_total_cases: "exec_total f s = (r, s') \<Longrightarrow> sv_db s' = sv_db s \<or> sv_db s' = f (sv_db s)"
  by (auto simp: exec_total_def exec_def svc_bind_def same_tables_def dest!: may_fail_same split: sum.splits prod.splits)

lemma auth_step_change:
  assumes "auth_step cb bc s J s'"
  shows "\<exists>c. idb_tokens (sv_db s') = change_tokens c (idb_tokens (sv_db s)) \<and> change_ok bc (sv_db s) J c"
  using assms
proof cases
  case (create_token random u name expires tok plain)
  show ?thesis by (rule exI[of _ "Added tok"]) (use CreatePAT_Inr[OF create_token(2)] create_token(1) in auto)
next
  case (revoke_token now u i r)
  from exec_total_cases[OF revoke_token(2)[unfolded RevokePAT_def]] show ?thesis
  proof
    assume "sv_db s' = db_RevokeUserAPIToken now u i (sv_db s)"
    then show ?thesis
      by (intro exI[of _ "Updated (\<lambda>k. if tk_ID k = i \<and> tk_UserID k = u \<and> tk_RevokedAt k = None then k\<lparr>tk_RevokedAt := Some now\<rparr> else k)"])
         (simp add: db_RevokeUserAPIToken_def update_tokens_rows harmless_updates revoke_token(1))
  qed (use revoke_token(1) in \<open>auto intro: exI[of _ Same]\<close>)
next
  case (touch_token now use r)
  from exec_total_cases[OF touch_token(2)[unfolded TouchPAT_def]] show ?thesis
  proof
    assume "sv_db s' = db_TouchUserAPIToken now (fst use) (snd use) (sv_db s)"
    then show ?thesis
      by (intro exI[of _ "Updated (\<lambda>k. if tk_ID k = fst use then k\<lparr>tk_LastUsedAt := Some now, tk_LastUsedIP := snd use\<rparr> else k)"])
         (simp add: db_TouchUserAPIToken_def update_tokens_rows harmless_updates touch_token(1))
  qed (use touch_token(1) in \<open>auto intro: exI[of _ Same]\<close>)
qed (auto intro!: exI[of _ Same] dest: keepsD[OF keeps_tokens_startup] keepsD[OF keeps_tokens_bootstrap] keepsD[OF keeps_tokens_operation]
      keepsD[OF keeps_tokens_accounts(1)] keepsD[OF keeps_tokens_accounts(2)] keepsD[OF keeps_tokens_accounts(3)] CreatePAT_Inl)

section \<open>Invariants of the tokens\<close>

text \<open>Rows and issued tokens correspond, and row identifiers are unique.\<close>

definition tokens_issued :: "bcrypt_lib \<Rightarrow> issued list \<Rightarrow> user_api_token list \<Rightarrow> bool" where
  "tokens_issued bc I ks \<longleftrightarrow> distinct (map tk_ID ks) \<and>
     (\<forall>k \<in> set ks. \<exists>plain. (tk_ID k, tk_UserID k, tk_ExpiresAt k, plain) \<in> set I \<and> tk_TokenPrefix k = pat_prefix plain \<and>
        bc_GenerateFromPassword bc plain patBcryptCost = Inr (tk_TokenHash k)) \<and>
     (\<forall>i u e plain. (i, u, e, plain) \<in> set I \<longrightarrow> (\<exists>k \<in> set ks. tk_ID k = i \<and> tk_UserID k = u))"

lemma harmless_ids: "harmless f \<Longrightarrow> map tk_ID (map f ks) = map tk_ID ks"
  by (simp add: harmless_def)

lemma tokens_issued_step:
  assumes "auth_step cb bc s J s'" "tokens_issued bc I (idb_tokens (sv_db s))"
  shows "tokens_issued bc (I @ J) (idb_tokens (sv_db s'))"
proof -
  obtain c where c: "idb_tokens (sv_db s') = change_tokens c (idb_tokens (sv_db s))" "change_ok bc (sv_db s) J c"
    using auth_step_change[OF assms(1)] by blast
  show ?thesis
  proof (cases c)
    case (Added k)
    with c assms(2) next_id_notin[of tk_ID "idb_tokens (sv_db s)"] show ?thesis
      by (auto simp: tokens_issued_def) blast+
  next
    case (Updated f)
    then have f: "harmless f" "J = []" "idb_tokens (sv_db s') = map f (idb_tokens (sv_db s))" using c by simp_all
    then show ?thesis
      using assms(2) harmless_ids[OF f(1)] unfolding tokens_issued_def f by (simp add: harmless_def del: map_map)
  qed (use c assms(2) in simp)
qed

lemma tokens_issued_run:
  "auth_run cb bc s0 I s \<Longrightarrow> sv_db s0 = empty_iam_db \<Longrightarrow> tokens_issued bc I (idb_tokens (sv_db s))"
proof (induction rule: auth_run.induct)
  case start
  then show ?case by (simp add: tokens_issued_def empty_iam_db_def)
qed (blast intro: tokens_issued_step)

text \<open>A revoked row stays revoked.\<close>

definition revoked :: "nat \<Rightarrow> user_api_token list \<Rightarrow> bool" where
  "revoked i ks \<longleftrightarrow> distinct (map tk_ID ks) \<and> (\<exists>k \<in> set ks. tk_ID k = i \<and> tk_RevokedAt k \<noteq> None)"

lemma revoked_step:
  assumes "auth_step cb bc s J s'" "revoked i (idb_tokens (sv_db s))"
  shows "revoked i (idb_tokens (sv_db s'))"
proof -
  obtain c where c: "idb_tokens (sv_db s') = change_tokens c (idb_tokens (sv_db s))" "change_ok bc (sv_db s) J c"
    using auth_step_change[OF assms(1)] by blast
  show ?thesis
  proof (cases c)
    case (Added k)
    with c assms(2) next_id_notin[of tk_ID "idb_tokens (sv_db s)"] show ?thesis by (auto simp: revoked_def)
  next
    case (Updated f)
    then have f: "harmless f" "idb_tokens (sv_db s') = map f (idb_tokens (sv_db s))" using c by simp_all
    then show ?thesis
      using assms(2) harmless_ids[OF f(1)] unfolding revoked_def f by (simp add: harmless_def del: map_map) blast
  qed (use c assms(2) in simp)
qed

lemma revoked_run: "auth_run cb bc s0 I s \<Longrightarrow> revoked i (idb_tokens (sv_db s0)) \<Longrightarrow> revoked i (idb_tokens (sv_db s))"
  by (induction rule: auth_run.induct) (blast intro: revoked_step)+

lemma revoked_unmatched: "revoked i ks \<Longrightarrow> k \<in> set ks \<Longrightarrow> tk_ID k = i \<Longrightarrow> tk_RevokedAt k \<noteq> None"
  by (auto simp: revoked_def distinct_map inj_on_def)

lemma RevokePAT_revokes:
  assumes "RevokePAT now u i s = (Inr (), s')" "k \<in> set (idb_tokens (sv_db s))" "tk_ID k = i" "tk_UserID k = u"
    and "distinct (map tk_ID (idb_tokens (sv_db s)))"
  shows "revoked i (idb_tokens (sv_db s'))"
proof -
  let ?f = "\<lambda>k. if tk_ID k = i \<and> tk_UserID k = u \<and> tk_RevokedAt k = None then k\<lparr>tk_RevokedAt := Some now\<rparr> else k"
  have rows: "idb_tokens (sv_db s') = map ?f (idb_tokens (sv_db s))"
    using assms(1) by (auto simp: RevokePAT_def exec_total_Inr db_RevokeUserAPIToken_def update_tokens_rows same_tables_def dest!: may_fail_same)
  have "tk_RevokedAt (?f k) \<noteq> None" "tk_ID (?f k) = i" using assms(3,4) by auto
  moreover have "?f k \<in> set (idb_tokens (sv_db s'))" using assms(2) unfolding rows by (simp only: set_map image_eqI)
  moreover have "distinct (map tk_ID (idb_tokens (sv_db s')))"
    using assms(5) unfolding rows harmless_ids[OF harmless_updates(1)] .
  ultimately show ?thesis unfolding revoked_def by blast
qed

text \<open>No user has more live tokens than the limit.\<close>

lemma count_update: "harmless f \<Longrightarrow>
  length (filter (\<lambda>k. tk_UserID k = u \<and> tk_RevokedAt k = None) (map f ks)) \<le> length (filter (\<lambda>k. tk_UserID k = u \<and> tk_RevokedAt k = None) ks)"
  by (induction ks) (auto simp: harmless_def)

lemma count_tokens: "db_CountUserAPITokens u db = length (filter (\<lambda>k. tk_UserID k = u \<and> tk_RevokedAt k = None) (idb_tokens db))"
  by (simp add: db_CountUserAPITokens_def live_tokens_def conj_commute)

lemma token_limit_step:
  assumes "auth_step cb bc s J s'" "\<And>u. db_CountUserAPITokens u (sv_db s) \<le> patMaxPerUser"
  shows "db_CountUserAPITokens u (sv_db s') \<le> patMaxPerUser"
proof -
  obtain c where c: "idb_tokens (sv_db s') = change_tokens c (idb_tokens (sv_db s))" "change_ok bc (sv_db s) J c"
    using auth_step_change[OF assms(1)] by blast
  show ?thesis
  proof (cases c)
    case (Added k)
    with c assms(2)[of u] show ?thesis by (auto simp: count_tokens)
  next
    case (Updated f)
    with c assms(2)[of u] count_update[of f u "idb_tokens (sv_db s)"] show ?thesis by (simp add: count_tokens)
  qed (use c assms(2)[of u] in \<open>simp add: count_tokens\<close>)
qed

lemma token_limit_run:
  assumes "auth_run cb bc s0 I s" "sv_db s0 = empty_iam_db"
  shows "db_CountUserAPITokens u (sv_db s) \<le> patMaxPerUser"
  using assms
proof (induction arbitrary: u rule: auth_run.induct)
  case start
  then show ?case by (simp add: count_tokens empty_iam_db_def)
qed (blast intro: token_limit_step)

section \<open>Identifiers of accounts\<close>

definition users_pos :: "iam_db \<Rightarrow> bool" where
  "users_pos db \<longleftrightarrow> (\<forall>u \<in> set (idb_users db). us_ID u > 0)"

lemma always_found_user:
  assumes "\<And>u. us_ID u > 0 \<Longrightarrow> always users_pos (k u)"
  shows "always users_pos (svc_bind (query (db_GetUserByID i)) (\<lambda>user. svc_bind (svc_some err user) k))"
  unfolding always_def
proof
  fix s
  show "pres users_pos (svc_bind (query (db_GetUserByID i)) (\<lambda>user. svc_bind (svc_some err user) k)) s"
  proof (rule pres_checks(2))
    fix user t
    assume q: "query (db_GetUserByID i) s = (Inr user, t)" "sv_db t = sv_db s"
    show "pres users_pos (svc_bind (svc_some err user) k) t"
    proof (rule pres_checks(3))
      fix u t'
      assume u: "svc_some err user t = (Inr u, t')" "sv_db t' = sv_db t"
      then have "find (\<lambda>u. us_ID u = i) (users (sv_db t')) = Some u"
        using q query_InrD[OF q(1)] by (simp add: svc_some_Inr db_GetUserByID_def)
      then have "u \<in> set (idb_users (sv_db t'))" by (auto simp: users_def dest: find_SomeD)
      then have "users_pos (sv_db t') \<Longrightarrow> us_ID u > 0" by (simp add: users_pos_def)
      then have "users_pos (sv_db t') \<Longrightarrow> pres users_pos (k u) t'" using assms unfolding always_def by blast
      then show "pres users_pos (k u) t'" by (simp add: pres_def)
    qed
  qed
qed

lemma users_pos_statements:
  "users_pos (db_UpsertOrganizationMembership i u db) = users_pos db" "users_pos (delete_memberships Q db) = users_pos db"
  "users_pos (delete_bindings P db) = users_pos db" "users_pos (db_UpsertIAMRoleBinding i u r inherit db) = users_pos db"
  "users_pos (db_UpsertIAMRole code db) = users_pos db" "users_pos (db_UpsertIAMPermission code resource action db) = users_pos db"
  "users_pos (db_UpsertIAMRolePermission r p db) = users_pos db" "users_pos (db_DeleteOrganization i db) = users_pos db"
  "users_pos db \<Longrightarrow> users_pos (db_DeleteUser u db)"
  "users_pos db \<Longrightarrow> users_pos (update_user u (\<lambda>u. u\<lparr>us_LastLogin := now, us_LoginIP := ip\<rparr>) db)"
  by (auto simp: users_pos_def db_UpsertOrganizationMembership_def delete_memberships_def delete_bindings_def db_UpsertIAMRoleBinding_def db_UpsertIAMRole_def
      db_UpsertIAMPermission_def db_UpsertIAMRolePermission_def db_DeleteOrganization_def db_DeleteUser_def update_user_def Let_def)

lemma users_pos_fallible:
  "db_CreateUser name email hash status db = Inr (x, db') \<Longrightarrow> users_pos db \<Longrightarrow> users_pos db'"
  "db_UpdateUser user db = Inr (y, db') \<Longrightarrow> us_ID user > 0 \<Longrightarrow> users_pos db \<Longrightarrow> users_pos db'"
  "db_CreateOrganization name description parent isRoot db = Inr (z, db') \<Longrightarrow> users_pos db \<Longrightarrow> users_pos db'"
  "db_UpdateOrganization org db = Inr (y, db') \<Longrightarrow> users_pos db \<Longrightarrow> users_pos db'"
  "db_ReplaceIAMRolePermissionSubset r ps qs db = Inr (y, db') \<Longrightarrow> users_pos db \<Longrightarrow> users_pos db'"
  by (auto simp: users_pos_def db_CreateUser_def db_UpdateUser_def db_CreateOrganization_def db_UpdateOrganization_def save_row_def next_id_def
      db_ReplaceIAMRolePermissionSubset_def Let_def split: if_splits)

lemmas users_pos_simps = users_pos_statements statement_defs

lemma users_pos_role [always_intro]: "always users_pos (setOrganizationRole cb i u role inherit)"
  unfolding setOrganizationRole_def by (intro always_intro) (simp_all add: users_pos_simps)

lemma users_pos_startup: "always users_pos (NewIAMService cb)"
proof -
  have seed: "always users_pos (bind_seed seed stored code)" for seed stored code
    unfolding bind_seed_def by (intro always_intro) (auto intro!: always_intro simp: users_pos_simps split: option.splits)
  show ?thesis
    unfolding NewIAMService_def ensureIAMCatalog_def ensure_seed_def ensureFeatureCatalog_def ensure_feature_def
    by (intro always_intro seed) (simp_all add: users_pos_simps)
qed

lemma users_pos_bootstrap [always_intro]: "always users_pos (EnsureOrganizationBootstrap cb)"
  unfolding EnsureOrganizationBootstrap_def bootstrap_user_def bootstrap_membership_def bootstrap_binding_def Let_def
  by (intro always_intro) (auto simp: users_pos_simps dest: users_pos_fallible)

lemma users_pos_members [always_intro]:
  "always users_pos (UpsertOrganizationMemberFor cb actor i u role)" "always users_pos (RemoveOrganizationMemberFor cb actor i u)"
  unfolding UpsertOrganizationMemberFor_def RemoveOrganizationMemberFor_def listOrganizationMembersWithRoles_def
  by (intro always_intro; simp add: users_pos_simps)+

lemma users_pos_updates [always_intro]:
  "always users_pos (UpdateUserFor cb actor i name status role)" "always users_pos (ResetUserPasswordFor cb env actor i password)"
  "always users_pos (ChangePassword lib salt i old new)"
  unfolding UpdateUserFor_def ResetUserPasswordFor_def ChangePassword_def Let_def
  by (intro always_bind[OF always_reads[OF reads_requirePermission]] always_bind[OF always_reads[OF reads_guard]] always_found_user always_intro;
      auto simp: users_pos_simps dest: users_pos_fallible)+

lemma users_pos_operation: "always users_pos (run_op cb env actor op)"
  by (cases op; simp only: run_op.simps CreateUserFor_def DeleteUserFor_def CreateOrganizationFor_def UpdateOrganizationFor_def DeleteOrganizationFor_def
        UpsertOrganizationMemberByEmailFor_def SetUserFeaturePolicy_def new_password_def removeUser_def Let_def;
      intro always_intro; auto simp: users_pos_simps dest: users_pos_fallible)

lemma always_attempt [always_intro]: "always I m \<Longrightarrow> always I (svc_attempt m)"
  unfolding always_def pres_def svc_attempt_def by (metis (mono_tags, lifting) case_prod_beta snd_conv)

lemma users_pos_accounts: "always users_pos (CreateDefaultUser cb env)" "always users_pos (Login aenv clock email password ip)"
  unfolding CreateDefaultUser_def Login_def by (intro always_intro; auto simp: users_pos_simps dest: users_pos_fallible)+

lemma users_pos_tokens: "always users_pos (CreatePAT bc random u name expires)" "always users_pos (RevokePAT now u i)" "always users_pos (TouchPAT now use)"
  unfolding CreatePAT_def RevokePAT_def TouchPAT_def Let_def
  by (intro always_intro; auto simp: users_pos_def db_CreateUserAPIToken_def db_RevokeUserAPIToken_def db_TouchUserAPIToken_def update_tokens_def Let_def)+

lemma users_pos_run: "auth_run cb bc s0 I s \<Longrightarrow> sv_db s0 = empty_iam_db \<Longrightarrow> users_pos (sv_db s)"
proof (induction rule: auth_run.induct)
  case start
  then show ?case by (simp add: users_pos_def empty_iam_db_def)
next
  case (step I s J s')
  then have "users_pos (sv_db s)" by simp
  with step(2) show ?case
    by cases (simp_all add: alwaysD[OF users_pos_startup] alwaysD[OF users_pos_bootstrap] alwaysD[OF users_pos_operation] alwaysD[OF users_pos_updates(3)]
        alwaysD[OF users_pos_accounts(1)] alwaysD[OF users_pos_accounts(2)] alwaysD[OF users_pos_tokens(1)] alwaysD[OF users_pos_tokens(2)]
        alwaysD[OF users_pos_tokens(3)])
qed

end
