(* ===== verification/Resource_Scope.thy ===== *)
theory Resource_Scope
  imports Iam_Members
begin

text \<open>
  Which resources a user of the control plane sees (src/pkg/liaison/manager/controlplane/resource_scope.go): a root administrator sees
  everything, everyone else the resources with a relation to the user; a created resource is claimed for its creator. The
  user identifier in the request context is \<open>Some\<close>, or \<open>None\<close> for calls without a user.
\<close>

definition actorUserID :: "nat option \<Rightarrow> nat option" where
  "actorUserID ctx = (case ctx of Some i \<Rightarrow> if i > 0 then Some i else None | None \<Rightarrow> None)"

text \<open>\<^verbatim>\<open>notFound\<close>: the reason is not part of the error text.\<close>

definition resource_not_found :: gerr where
  "resource_not_found = ErrNew [CHR 0xE8, CHR 0xB5, CHR 0x84, CHR 0xE6, CHR 0xBA, CHR 0x90, CHR 0xE4, CHR 0xB8, CHR 0x8D, CHR 0xE5, CHR 0xAD, CHR 0x98, CHR 0xE5, CHR 0x9C, CHR 0xA8]"

definition organization_not_found :: gerr where
  "organization_not_found = ErrNew [CHR 0xE7, CHR 0x94, CHR 0xA8, CHR 0xE6, CHR 0x88, CHR 0xB7, CHR 0xE6, CHR 0x89, CHR 0x80, CHR 0xE5, CHR 0xB1, CHR 0x9E, CHR 0xE7, CHR 0xBB, CHR 0x84, CHR 0xE7, CHR 0xBB, CHR 0x87, CHR 0xE4, CHR 0xB8, CHR 0x8D, CHR 0xE5, CHR 0xAD, CHR 0x98, CHR 0xE5, CHR 0x9C, CHR 0xA8]"

definition inherits_admin :: "(iam_role_binding \<times> iam_role option) option \<Rightarrow> bool" where
  "inherits_admin binding = (case binding of
     Some (b, Some role) \<Rightarrow> ro_Code role = IAMRoleAdmin \<and> bd_InheritChildren b
   | _ \<Rightarrow> False)"

definition isRootAdministrator :: "nat \<Rightarrow> ('e, bool) svc" where
  "isRootAdministrator userID =
     svc_bind (query db_GetRootOrganization) (\<lambda>root.
     case root of
       None \<Rightarrow> svc_return False
     | Some root \<Rightarrow>
         svc_bind (query (db_GetIAMRoleBinding (og_ID root) userID)) (\<lambda>binding.
         svc_return (inherits_admin binding)))"

text \<open>The visible identifiers; \<open>None\<close>: not restricted.\<close>

definition visibleResourceIDs :: "nat option \<Rightarrow> string \<Rightarrow> ('e, nat list option) svc" where
  "visibleResourceIDs ctx resourceType =
     (case actorUserID ctx of
        None \<Rightarrow> svc_return None
      | Some u \<Rightarrow>
          svc_bind (isRootAdministrator u) (\<lambda>admin.
          if admin then svc_return None
          else svc_bind (query (db_ListIAMResourceIDsForSubject resourceType ''user'' u)) (\<lambda>ids. svc_return (Some ids))))"

definition requireVisibleResource :: "nat option \<Rightarrow> string \<Rightarrow> nat \<Rightarrow> ('e, unit) svc" where
  "requireVisibleResource ctx resourceType resourceID =
     svc_bind (visibleResourceIDs ctx resourceType) (\<lambda>scope.
     case scope of
       None \<Rightarrow> svc_return ()
     | Some ids \<Rightarrow> svc_guard (resourceID \<in> set ids) resource_not_found)"

definition owner_relation :: "string \<Rightarrow> nat \<Rightarrow> nat \<Rightarrow> iam_resource_relation" where
  "owner_relation resourceType resourceID u =
     \<lparr>rl_ResourceType = resourceType, rl_ResourceID = resourceID, rl_Relation = ''owner'', rl_SubjectType = ''user'', rl_SubjectID = u,
      rl_CreatedBy = u, rl_Deleted = False\<rparr>"

definition organization_relation :: "string \<Rightarrow> nat \<Rightarrow> nat \<Rightarrow> nat \<Rightarrow> iam_resource_relation" where
  "organization_relation resourceType resourceID i u =
     \<lparr>rl_ResourceType = resourceType, rl_ResourceID = resourceID, rl_Relation = ''belongs_to'', rl_SubjectType = ''organization'', rl_SubjectID = i,
      rl_CreatedBy = u, rl_Deleted = False\<rparr>"

definition claimResource :: "nat option \<Rightarrow> string \<Rightarrow> nat \<Rightarrow> ('e, unit) svc" where
  "claimResource ctx resourceType resourceID =
     (case actorUserID ctx of
        None \<Rightarrow> svc_return ()
      | Some u \<Rightarrow>
          svc_bind (query (db_ListUserOrganizations u)) (\<lambda>ms.
          case ms of
            [] \<Rightarrow> svc_fail organization_not_found
          | m # _ \<Rightarrow>
              svc_bind (exec_total (db_UpsertIAMResourceRelation (owner_relation resourceType resourceID u))) (\<lambda>_.
              exec_total (db_UpsertIAMResourceRelation (organization_relation resourceType resourceID (mb_OrganizationID m) u)))))"

definition intersectResourceIDs :: "nat list \<Rightarrow> nat list \<Rightarrow> nat list" where
  "intersectResourceIDs left right = (if left = [] \<or> right = [] then [] else filter (\<lambda>i. i \<in> set right) left)"

section \<open>What is visible\<close>

definition related :: "iam_db \<Rightarrow> string \<Rightarrow> nat \<Rightarrow> nat \<Rightarrow> bool" where
  "related db resourceType resourceID u \<longleftrightarrow> (\<exists>r \<in> set (idb_relations db). \<not> rl_Deleted r \<and> rl_ResourceType r = resourceType \<and>
     rl_ResourceID r = resourceID \<and> rl_SubjectType r = ''user'' \<and> rl_SubjectID r = u)"

definition root_administrator :: "iam_db \<Rightarrow> nat \<Rightarrow> bool" where
  "root_administrator db u \<longleftrightarrow> (\<exists>root. db_GetRootOrganization db = Some root \<and> inherits_admin (db_GetIAMRoleBinding (og_ID root) u db))"

lemma visible_ids_iff: "i \<in> set (db_ListIAMResourceIDsForSubject t ''user'' u db) \<longleftrightarrow> related db t i u"
  by (auto simp: db_ListIAMResourceIDsForSubject_def relations_def related_def)

lemma isRootAdministrator_Inr: "isRootAdministrator u s = (Inr admin, s') \<Longrightarrow> same_tables s s' \<and> admin = root_administrator (sv_db s) u"
  by (auto simp: isRootAdministrator_def root_administrator_def svc_bind_Inr svc_return_Inr same_tables_def split: option.splits dest!: query_InrD)

lemma visibleResourceIDs_Inr:
  assumes "visibleResourceIDs ctx t s = (Inr scope, s')"
  shows "scope = (case actorUserID ctx of None \<Rightarrow> None
     | Some u \<Rightarrow> if root_administrator (sv_db s) u then None else Some (db_ListIAMResourceIDsForSubject t ''user'' u (sv_db s)))"
  using assms
  by (auto simp: visibleResourceIDs_def svc_bind_Inr svc_return_Inr same_tables_def split: option.splits if_split_asm dest!: query_InrD isRootAdministrator_Inr)

lemma upsert_relation_related:
  "related (db_UpsertIAMResourceRelation rel db) t i u \<longleftrightarrow>
     related db t i u \<or> (rl_ResourceType rel = t \<and> rl_ResourceID rel = i \<and> rl_SubjectType rel = ''user'' \<and> rl_SubjectID rel = u)"
proof (cases "list_ex (same_relation rel) (idb_relations db)")
  case True
  let ?f = "\<lambda>r. if same_relation rel r then r\<lparr>rl_CreatedBy := rl_CreatedBy rel, rl_Deleted := False\<rparr> else r"
  let ?P = "\<lambda>r. \<not> rl_Deleted r \<and> rl_ResourceType r = t \<and> rl_ResourceID r = i \<and> rl_SubjectType r = ''user'' \<and> rl_SubjectID r = u"
  have f: "?P (?f r) \<longleftrightarrow> ?P r \<or> (same_relation rel r \<and> rl_ResourceType rel = t \<and> rl_ResourceID rel = i \<and> rl_SubjectType rel = ''user'' \<and> rl_SubjectID rel = u)" for r
    by (auto simp: same_relation_def)
  have rows: "idb_relations (db_UpsertIAMResourceRelation rel db) = map ?f (idb_relations db)"
    using True by (simp add: db_UpsertIAMResourceRelation_def)
  have "related (db_UpsertIAMResourceRelation rel db) t i u \<longleftrightarrow> (\<exists>r \<in> set (idb_relations db). ?P (?f r))"
    by (simp only: related_def rows set_map bex_simps(7))
  with True show ?thesis unfolding f related_def by (auto simp: list_ex_iff)
qed (auto simp: related_def db_UpsertIAMResourceRelation_def)

lemma claimResource_Inr:
  assumes "claimResource (Some u) t i s = (Inr (), s')" "0 < u"
  shows "\<exists>m \<in> set (memberships (sv_db s)). mb_UserID m = u \<and>
    sv_db s' = db_UpsertIAMResourceRelation (organization_relation t i (mb_OrganizationID m) u)
       (db_UpsertIAMResourceRelation (owner_relation t i u) (sv_db s))"
proof -
  obtain ms t1 where ms: "db_ListUserOrganizations u (sv_db s) = ms" "sv_db t1 = sv_db s"
    and rest: "(case ms of [] \<Rightarrow> svc_fail organization_not_found
          | m # _ \<Rightarrow>
              svc_bind (exec_total (db_UpsertIAMResourceRelation (owner_relation t i u))) (\<lambda>_.
              exec_total (db_UpsertIAMResourceRelation (organization_relation t i (mb_OrganizationID m) u)))) t1 = (Inr (), s')"
    using assms by (auto simp: claimResource_def actorUserID_def svc_bind_Inr same_tables_def dest!: query_InrD)
  show ?thesis
  proof (cases ms)
    case (Cons m rest')
    then have "m \<in> set (db_ListUserOrganizations u (sv_db s))" using ms(1) by simp
    moreover have "sv_db s' = db_UpsertIAMResourceRelation (organization_relation t i (mb_OrganizationID m) u)
       (db_UpsertIAMResourceRelation (owner_relation t i u) (sv_db s))"
      using rest ms(2) by (auto simp: Cons svc_bind_Inr exec_total_Inr same_tables_def dest!: may_fail_same)
    ultimately show ?thesis by (intro bexI[of _ m]) (auto simp: db_ListUserOrganizations_def)
  qed (use rest in \<open>simp add: svc_fail_Inr\<close>)
qed

lemma requireVisible_without_faults:
  assumes "sv_faults s = []" "0 < v"
  shows "requireVisibleResource (Some v) t i s =
    ((if root_administrator (sv_db s) v \<or> related (sv_db s) t i v then Inr () else Inl resource_not_found), s)"
proof -
  have query: "query f s = (Inr (f (sv_db s)), s)" for f using assms(1) by (simp add: query_def svc_bind_def may_fail_def)
  have "isRootAdministrator v s = (Inr (root_administrator (sv_db s) v), s)"
    by (auto simp: isRootAdministrator_def root_administrator_def svc_bind_def query svc_return_def split: option.splits)
  then show ?thesis
    using assms(2)
    by (simp add: requireVisibleResource_def visibleResourceIDs_def actorUserID_def svc_bind_def query svc_return_def svc_guard_def svc_fail_def visible_ids_iff)
qed

lemma root_administrator_upsert [simp]: "root_administrator (db_UpsertIAMResourceRelation rel db) v = root_administrator db v"
  by (simp add: root_administrator_def db_GetRootOrganization_def organizations_def db_GetIAMRoleBinding_def bindings_def role_by_id_def
      db_UpsertIAMResourceRelation_def)

text \<open>C28: Claiming a resource makes it visible to its creator and changes nothing else: afterwards a user sees a resource if and only
  if the user is a root administrator, was already related to it, or is the creator of exactly this resource; everyone else gets the
  not-found error.\<close>

theorem claim_scopes_visibility:
  assumes "claimResource (Some u) t i s = (Inr (), s')" "0 < u"
    and "sv_db w = sv_db s'" "sv_faults w = []" "0 < v"
  shows "requireVisibleResource (Some v) t' j w =
    ((if root_administrator (sv_db s) v \<or> related (sv_db s) t' j v \<or> (v = u \<and> t' = t \<and> j = i) then Inr () else Inl resource_not_found), w)"
proof -
  obtain m :: organization_membership where db: "sv_db s' = db_UpsertIAMResourceRelation (organization_relation t i (mb_OrganizationID m) u)
       (db_UpsertIAMResourceRelation (owner_relation t i u) (sv_db s))"
    using claimResource_Inr[OF assms(1,2)] by (elim bexE conjE)
  have "related (sv_db w) t' j v \<longleftrightarrow> related (sv_db s) t' j v \<or> (v = u \<and> t' = t \<and> j = i)"
    unfolding assms(3) db upsert_relation_related by (auto simp: owner_relation_def organization_relation_def)
  moreover have "root_administrator (sv_db w) v = root_administrator (sv_db s) v" by (simp add: assms(3) db)
  ultimately show ?thesis using requireVisible_without_faults[OF assms(4,5)] by simp
qed

definition scope_sys :: "unit iam_sys" where
  "scope_sys = \<lparr>sv_db = empty_iam_db\<lparr>idb_memberships := [\<lparr>mb_ID = 2, mb_OrganizationID = 3, mb_UserID = 7, mb_Deleted = False\<rparr>]\<rparr>,
     sv_enf = (), sv_faults = []\<rparr>"

theorem claim_scopes_visibility_witness:
  "\<exists>s'. claimResource (Some 7) ''device'' 4 scope_sys = (Inr (), s')
   \<and> requireVisibleResource (Some 7) ''device'' 4 s' = (Inr (), s')
   \<and> requireVisibleResource (Some 8) ''device'' 4 s' = (Inl resource_not_found, s')"
proof -
  obtain s' where s': "claimResource (Some 7) ''device'' 4 scope_sys = (Inr (), s')" "sv_faults s' = []"
    by (simp add: claimResource_def actorUserID_def svc_bind_def query_def may_fail_def exec_total_def exec_def scope_sys_def empty_iam_db_def
        db_ListUserOrganizations_def memberships_def)
  have "\<not> root_administrator (sv_db scope_sys) 8" "\<not> related (sv_db scope_sys) ''device'' 4 8"
    by (simp_all add: root_administrator_def related_def db_GetRootOrganization_def organizations_def scope_sys_def empty_iam_db_def)
  then show ?thesis
    using s' claim_scopes_visibility[OF s'(1) _ refl s'(2), of 7 "''device''" 4] claim_scopes_visibility[OF s'(1) _ refl s'(2), of 8 "''device''" 4]
    by (intro exI[of _ s']) simp
qed

end
