(* ===== verification/Iam_Middleware.thy ===== *)
theory Iam_Middleware
  imports Iam_Access Resource_Scope
begin

text \<open>
  The authentication of requests (src/pkg/liaison/manager/iam/middleware.go). The middleware ends in a refusal or calls the handler with a
  context, which carries the account or, for the endpoints that need none, nothing; the use of a personal access token that is recorded
  in the background is returned beside it.
\<close>

section \<open>Requests\<close>

record http_request =
  rq_Path :: string
  rq_Method :: string
  rq_Authorization :: string
  rq_XRealIP :: string
  rq_XForwardedFor :: string
  rq_RemoteAddr :: string

definition has_prefix :: "string \<Rightarrow> string \<Rightarrow> bool" where
  "has_prefix s p \<longleftrightarrow> take (length p) s = p"

definition has_suffix :: "string \<Rightarrow> string \<Rightarrow> bool" where
  "has_suffix s p \<longleftrightarrow> has_prefix (rev s) (rev p)"

definition trim_suffix :: "string \<Rightarrow> string \<Rightarrow> string" where
  "trim_suffix s p = (if has_suffix s p then take (length s - length p) s else s)"

section \<open>Which permission a request needs\<close>

definition web_path :: "string \<Rightarrow> bool" where
  "web_path path \<longleftrightarrow> has_prefix path ''/api/v1/webssh'' \<or> has_prefix path ''/api/v1/webdesktop'' \<or> has_prefix path ''/api/v1/webdata''"

definition request_resource :: "string \<Rightarrow> string option" where
  "request_resource path =
     (if has_prefix path ''/api/v1/edges'' then Some ''connectors''
      else if has_prefix path ''/api/v1/devices'' then Some ''devices''
      else if has_prefix path ''/api/v1/applications'' then Some ''applications''
      else if has_prefix path ''/api/v1/proxies'' then Some ''accesses''
      else if web_path path then Some ''accesses''
      else if has_prefix path ''/api/v1/audits'' then Some ''logs''
      else if has_prefix path ''/api/v1/agent'' then Some ''agent_session_api''
      else if path = ''/api/v1/traffic-metrics'' then Some ''overview''
      else None)"

definition web_action :: "string \<Rightarrow> string option" where
  "web_action meth =
     (if meth = ''GET'' then Some ''read''
      else if meth \<in> {''POST'', ''PUT'', ''PATCH'', ''DELETE''} then Some ''use''
      else None)"

definition turn_action :: "string \<Rightarrow> string option" where
  "turn_action meth = (if meth \<in> {''GET'', ''POST''} then Some ''use'' else None)"

definition plain_action :: "string \<Rightarrow> string option" where
  "plain_action meth =
     (if meth = ''GET'' then Some ''read''
      else if meth = ''POST'' then Some ''create''
      else if meth = ''PUT'' \<or> meth = ''PATCH'' then Some ''update''
      else if meth = ''DELETE'' then Some ''delete''
      else None)"

definition resourcePermissionForRequest :: "http_request \<Rightarrow> (string \<times> string) option" where
  "resourcePermissionForRequest r =
     (let path = trim_suffix (rq_Path r) ''/'' in
      case request_resource path of
        None \<Rightarrow> None
      | Some resource \<Rightarrow>
          map_option (\<lambda>action. (resource, action))
            (if web_path path then web_action (rq_Method r)
             else if has_prefix path ''/api/v1/agent'' \<and>
               (str_contains path ''/turns'' \<or> str_contains path ''/approvals/'' \<or> has_suffix path ''/events'')
             then turn_action (rq_Method r)
             else plain_action (rq_Method r)))"

section \<open>The address of the client\<close>

text \<open>\<^verbatim>\<open>net.SplitHostPort\<close>: the host; \<open>None\<close> for an error.\<close>

definition split_host :: "string \<Rightarrow> string option" where
  "split_host hostport =
     (if CHR '':'' \<notin> set hostport then None
      else
        let i = length hostport - 1 - length (takeWhile (\<lambda>c. c \<noteq> CHR '':'') (rev hostport)) in
        if hd hostport = CHR ''['' then
          (let close = length (takeWhile (\<lambda>c. c \<noteq> CHR '']'') hostport) in
           if close = length hostport \<or> close + 1 \<noteq> i then None
           else if CHR ''['' \<in> set (drop 1 hostport) \<or> CHR '']'' \<in> set (drop (close + 1) hostport) then None
           else Some (take (close - 1) (drop 1 hostport)))
        else if CHR '':'' \<in> set (take i hostport) \<or> CHR ''['' \<in> set hostport \<or> CHR '']'' \<in> set hostport then None
        else Some (take i hostport))"

definition ExtractClientIP :: "http_request \<Rightarrow> string" where
  "ExtractClientIP r =
     (let real = trim_space (rq_XRealIP r); forwarded = trim_space (rq_XForwardedFor r) in
      if real \<noteq> [] then real
      else if forwarded \<noteq> [] then
        (let first = takeWhile (\<lambda>c. c \<noteq> CHR '','') forwarded in
         if CHR '','' \<in> set forwarded \<and> first \<noteq> [] then trim_space first else forwarded)
      else case split_host (rq_RemoteAddr r) of Some host \<Rightarrow> host | None \<Rightarrow> rq_RemoteAddr r)"

section \<open>The middleware\<close>

definition isIAMEndpoint :: "string \<Rightarrow> bool" where
  "isIAMEndpoint path \<longleftrightarrow>
     has_prefix path ''/packages/'' \<or>
     (has_prefix path ''/api/v1/webssh/sessions/'' \<and> has_suffix path ''/connect'') \<or>
     (has_prefix path ''/api/v1/webdesktop/sessions/'' \<and> has_suffix path ''/connect'') \<or>
     path \<in> {''/api/v1/iam/login'', ''/api/v1/iam/client_ip'', ''/install.sh'', ''/install.ps1'', ''/install.bat'', ''/uninstall.sh'', ''/uninstall.ps1''}"

text \<open>The header split at its first blank.\<close>

definition bearer_token :: "string \<Rightarrow> string option" where
  "bearer_token header =
     (let scheme = takeWhile (\<lambda>c. c \<noteq> CHR '' '') header in
      if CHR '' '' \<in> set header \<and> scheme = ''Bearer'' then Some (drop (length scheme + 1) header) else None)"

definition authenticate :: "auth_env \<Rightarrow> bcrypt_lib \<Rightarrow> gtime \<Rightarrow> string \<Rightarrow> string \<Rightarrow> ('e, iam_user \<times> (nat \<times> string) option) svc" where
  "authenticate env bc now token ip =
     (if has_prefix token PATPlaintextPrefix
      then svc_bind (GetUserByPAT bc now token ip) (\<lambda>(user, use). svc_return (user, Some use))
      else svc_bind (GetUserByToken env now token) (\<lambda>user. svc_return (user, None)))"

datatype auth_reply = Refused nat string string | Served "iam_user option"

definition unauthorized :: "string \<Rightarrow> auth_reply" where
  "unauthorized message = Refused 401 ''UNAUTHORIZED'' message"

definition authorize_request :: "'e casbin \<Rightarrow> http_request \<Rightarrow> iam_user \<Rightarrow> ('e, auth_reply) svc" where
  "authorize_request cb r user =
     (case resourcePermissionForRequest r of
        None \<Rightarrow> svc_return (Served (Some user))
      | Some (resource, action) \<Rightarrow>
          svc_bind (svc_attempt (RequireResourcePermission cb (Some (us_ID user)) resource action)) (\<lambda>res.
          svc_return (case res of
              Inr _ \<Rightarrow> Served (Some user)
            | Inl err \<Rightarrow>
                if errors_is err ErrForbidden then Refused 403 ''FORBIDDEN'' ''No permission to perform this operation''
                else Refused 500 ''AUTHORIZATION_FAILED'' ''Authorization failed'')))"

text \<open>\<open>None\<close>: the call did not come over HTTP.\<close>

definition AuthMiddleware ::
  "'e casbin \<Rightarrow> auth_env \<Rightarrow> bcrypt_lib \<Rightarrow> gtime \<Rightarrow> http_request option \<Rightarrow> ('e, auth_reply \<times> (nat \<times> string) option) svc" where
  "AuthMiddleware cb env bc now req =
     (case req of
        None \<Rightarrow> svc_return (Served None, None)
      | Some r \<Rightarrow>
          if isIAMEndpoint (rq_Path r) then svc_return (Served None, None)
          else if rq_Authorization r = [] then svc_return (unauthorized ''No authentication token provided'', None)
          else case bearer_token (rq_Authorization r) of
            None \<Rightarrow> svc_return (unauthorized ''Invalid token format'', None)
          | Some token \<Rightarrow>
              svc_bind (svc_attempt (authenticate env bc now token (ExtractClientIP r))) (\<lambda>res.
              case res of
                Inl _ \<Rightarrow> svc_return (unauthorized ''Token validation failed'', None)
              | Inr (user, use) \<Rightarrow> svc_bind (authorize_request cb r user) (\<lambda>reply. svc_return (reply, use))))"

section \<open>What a served request has passed\<close>

lemma svc_attempt_Inr [svc_ok]: "svc_attempt m s = (Inr r, s') \<longleftrightarrow> m s = (r, s')"
  by (auto simp: svc_attempt_def split: prod.splits)

lemma reads_attempt [reads_intro]: "reads m \<Longrightarrow> reads (svc_attempt m)"
  unfolding reads_def svc_attempt_def by (metis (mono_tags, lifting) case_prod_beta snd_conv)

lemma reads_authenticate [reads_intro]: "reads (authenticate env bc now token ip)"
  unfolding authenticate_def by (auto intro!: reads_intro split: prod.splits)

lemma reads_requireResourceFeature [reads_intro]: "reads (requireResourceFeature cb actor resource)"
  unfolding requireResourceFeature_def by (intro reads_intro)

text \<open>A permission in some organization the user has a binding in.\<close>

definition allowed_somewhere :: "'e casbin \<Rightarrow> 'e iam_sys \<Rightarrow> nat \<Rightarrow> string \<Rightarrow> string \<Rightarrow> bool" where
  "allowed_somewhere cb s u object action \<longleftrightarrow>
     (\<exists>b \<in> set (bindings (sv_db s)). bd_UserID b = u \<and>
        cb_Enforce cb (sv_enf s) (userSubject u) (organizationDomain (bd_OrganizationID b)) object action = Inr True)"

lemma allowed_in_some_Inr:
  "allowed_in_some cb (Some u) object action is s = (Inr (), s') \<Longrightarrow>
   \<exists>i \<in> set is. cb_Enforce cb (sv_enf s) (userSubject u) (organizationDomain i) object action = Inr True"
proof (induction cb "Some u" object action "is" arbitrary: s rule: allowed_in_some.induct)
  case (2 cb object action i "is")
  then show ?case
    by (auto simp: svc_bind_Inr hasPermission_def enforce_def enforce_subject_def svc_wrap_Inr split: if_splits)
qed (simp add: svc_fail_Inr)

lemma request_resource_plain:
  "request_resource path = Some resource \<Longrightarrow> resource \<noteq> [] \<and> trim_slashes (trim_space resource) = resource"
  by (auto simp: request_resource_def trim_slashes_def trim_space_def is_space_def split: if_splits)

lemma RequireResourcePermission_Inr:
  assumes "RequireResourcePermission cb (Some u) resource action s = (Inr (), s')" "trim_slashes (trim_space resource) = resource"
  shows "allowed_somewhere cb s u (''/resources/'' @ resource) action"
proof -
  obtain t1 t2 rows where t1: "requireResourceFeature cb (Some u) resource s = (Inr (), t1)"
    and t2: "query (db_ListIAMRoleBindingsByUser u) t1 = (Inr rows, t2)"
    and some: "allowed_in_some cb (Some u) (''/resources/'' @ resource) action (map (\<lambda>(b, _). bd_OrganizationID b) rows) t2 = (Inr (), s')"
    using assms by (auto simp: RequireResourcePermission_def Let_def svc_bind_Inr svc_guard_Inr)
  have same: "same_tables s t1" "same_tables t1 t2" "rows = db_ListIAMRoleBindingsByUser u (sv_db s)"
    using readsD[OF reads_requireResourceFeature t1] query_InrD[OF t2] by (auto simp: same_tables_def)
  then show ?thesis
    using allowed_in_some_Inr[OF some]
    by (auto simp: allowed_somewhere_def same_tables_def db_ListIAMRoleBindingsByUser_def db_ListIAMRoleBindings_def)
qed

lemma unauthorized_not_served [simp]: "unauthorized message \<noteq> Served u" "Served u \<noteq> unauthorized message"
  by (simp_all add: unauthorized_def)

lemma authorize_served:
  assumes "authorize_request cb r user t = (Inr (Served u), s')"
  shows "u = Some user \<and> (\<forall>resource action. resourcePermissionForRequest r = Some (resource, action) \<longrightarrow>
    (\<exists>t'. RequireResourcePermission cb (Some (us_ID user)) resource action t = (Inr (), t')))"
proof (cases "resourcePermissionForRequest r")
  case None
  with assms show ?thesis by (simp add: authorize_request_def svc_return_Inr)
next
  case (Some p)
  obtain resource action where p: "p = (resource, action)" by force
  obtain res t' where res: "RequireResourcePermission cb (Some (us_ID user)) resource action t = (res, t')" by force
  with assms Some p show ?thesis
    by (cases res) (auto simp: authorize_request_def svc_bind_def svc_attempt_def svc_return_def split: if_splits)
qed

lemma served_authenticated:
  assumes "AuthMiddleware cb env bc now (Some r) s = (Inr (Served u, use), s')" "\<not> isIAMEndpoint (rq_Path r)"
  shows "\<exists>token user t. bearer_token (rq_Authorization r) = Some token \<and> u = Some user \<and>
    authenticate env bc now token (ExtractClientIP r) s = (Inr (user, use), t) \<and>
    (\<forall>resource action. resourcePermissionForRequest r = Some (resource, action) \<longrightarrow>
       allowed_somewhere cb s (us_ID user) (''/resources/'' @ resource) action)"
proof -
  obtain token res t where token: "bearer_token (rq_Authorization r) = Some token"
    and res: "authenticate env bc now token (ExtractClientIP r) s = (res, t)"
    and rest: "(case res of Inl _ \<Rightarrow> svc_return (unauthorized ''Token validation failed'', None)
       | Inr (user, use) \<Rightarrow> svc_bind (authorize_request cb r user) (\<lambda>reply. svc_return (reply, use))) t = (Inr (Served u, use), s')"
    using assms
    by (auto simp: AuthMiddleware_def svc_bind_Inr svc_return_Inr svc_attempt_Inr split: if_split_asm option.split_asm)
  obtain user where auth: "authenticate env bc now token (ExtractClientIP r) s = (Inr (user, use), t)"
    and authz: "authorize_request cb r user t = (Inr (Served u), s')"
    using rest res by (cases res) (auto simp: svc_bind_Inr svc_return_Inr)
  have same: "same_tables s t" using readsD[OF reads_authenticate auth] .
  have u: "u = Some user" using authorize_served[OF authz] by simp
  have "allowed_somewhere cb s (us_ID user) (''/resources/'' @ resource) action"
    if perm: "resourcePermissionForRequest r = Some (resource, action)" for resource action
  proof -
    have "trim_slashes (trim_space resource) = resource"
      using perm by (auto simp: resourcePermissionForRequest_def Let_def split: option.splits dest!: request_resource_plain)
    moreover obtain t' where "RequireResourcePermission cb (Some (us_ID user)) resource action t = (Inr (), t')"
      using authorize_served[OF authz] perm by blast
    ultimately have "allowed_somewhere cb t (us_ID user) (''/resources/'' @ resource) action" by (intro RequireResourcePermission_Inr)
    then show ?thesis using same by (simp add: allowed_somewhere_def same_tables_def)
  qed
  with token auth u show ?thesis by blast
qed

lemma authenticate_live: "authenticate env bc now token ip s = (Inr (user, use), t) \<Longrightarrow> user \<in> set (users (sv_db s))"
  by (auto simp: authenticate_def svc_bind_Inr svc_return_Inr dest!: GetUserByPAT_Inr GetUserByToken_Inr split: if_splits prod.splits)

end
