(* ===== verification/Iam_Consistency.thy ===== *)
theory Iam_Consistency
  imports Iam_Forest
begin

text \<open>
  When the enforcer agrees with the tables. Every operation that succeeds leaves them in agreement, with one exception: moving an
  organization does not reload the enforcer, and the administrators of the old parent keep their inherited authority.
\<close>

section \<open>Programs that end in agreement\<close>

definition reflecting :: "'e casbin \<Rightarrow> ('e, 'a) svc \<Rightarrow> bool" where
  "reflecting cb m \<longleftrightarrow> (\<forall>s x s'. m s = (Inr x, s') \<longrightarrow> reflects cb (sv_db s') (sv_enf s'))"

named_theorems reflecting_intro \<open>programs that end with the enforcer in agreement with the tables\<close>

lemma reflecting_last: "(\<And>x. reflecting cb (k x)) \<Longrightarrow> reflecting cb (svc_bind m k)"
  unfolding reflecting_def by (auto simp: svc_bind_Inr)

lemma reflecting_then_reads:
  assumes "reflecting cb m" "\<And>x. reads (k x)"
  shows "reflecting cb (svc_bind m k)"
  unfolding reflecting_def
proof (intro allI impI)
  fix s y s'
  assume "svc_bind m k s = (Inr y, s')"
  then obtain x t where "m s = (Inr x, t)" "k x t = (Inr y, s')" by (auto simp: svc_bind_Inr)
  then show "reflects cb (sv_db s') (sv_enf s')"
    using assms(1) readsD[OF assms(2)] by (fastforce simp: reflecting_def same_tables_def)
qed

lemma reflecting_reload: "casbin_enforcer cb \<Longrightarrow> reflecting cb (reloadAuthorization cb)"
  unfolding reflecting_def using casbin_enforcer.reload_reflects by (metis old.unit.exhaust)

lemma reflecting_setOrganizationRole: "casbin_enforcer cb \<Longrightarrow> reflecting cb (setOrganizationRole cb i u role inherit)"
  unfolding setOrganizationRole_def by (intro reflecting_last reflecting_reload)

text \<open>A role change followed by reading statements.\<close>

lemmas reflecting_role_tail = reflecting_then_reads[OF reflecting_setOrganizationRole]

lemma reflecting_CreateUserFor: "casbin_enforcer cb \<Longrightarrow> reflecting cb (CreateUserFor cb env actor i name email password role)"
  unfolding CreateUserFor_def Let_def split_def
  by (rule reflecting_role_tail, assumption, intro reads_intro | rule reflecting_last)+

lemma reflecting_CreateOrganizationFor:
  assumes "casbin_enforcer cb"
  shows "reflecting cb (CreateOrganizationFor cb actor name description parent)"
proof (cases actor)
  case None
  have "CreateOrganizationFor cb None name description parent s \<noteq> (Inr x, s')" for s x s'
    by (auto simp: CreateOrganizationFor_def Let_def svc_bind_Inr permitted_def split: option.splits dest!: requirePermission_Inr)
  then show ?thesis by (simp add: None reflecting_def)
next
  case (Some u)
  show ?thesis
    unfolding CreateOrganizationFor_def Let_def Some
    by (simp only: option.case, (rule reflecting_role_tail[OF assms], intro reads_intro | rule reflecting_last)+)
qed

lemma reflecting_members:
  assumes "casbin_enforcer cb"
  shows "reflecting cb (UpsertOrganizationMemberFor cb actor i u role)" "reflecting cb (RemoveOrganizationMemberFor cb actor i u)"
    "reflecting cb (UpsertOrganizationMemberByEmailFor cb actor i email role)"
proof -
  show upsert: "reflecting cb (UpsertOrganizationMemberFor cb actor i u role)" for u
    unfolding UpsertOrganizationMemberFor_def
    by (rule reflecting_role_tail[OF assms], intro reads_intro | rule reflecting_last)+
  show "reflecting cb (RemoveOrganizationMemberFor cb actor i u)"
    unfolding RemoveOrganizationMemberFor_def by (intro reflecting_last reflecting_reload assms)
  show "reflecting cb (UpsertOrganizationMemberByEmailFor cb actor i email role)"
    unfolding UpsertOrganizationMemberByEmailFor_def by (intro reflecting_last upsert)
qed

lemma reflecting_DeleteOrganizationFor: "casbin_enforcer cb \<Longrightarrow> reflecting cb (DeleteOrganizationFor cb actor i)"
  unfolding DeleteOrganizationFor_def by (intro reflecting_last reflecting_reload)

lemma reflecting_SetUserFeaturePolicy: "casbin_enforcer cb \<Longrightarrow> reflecting cb (SetUserFeaturePolicy cb actor enabled)"
  unfolding SetUserFeaturePolicy_def by (intro reflecting_last reflecting_reload)

lemma reflecting_void: "reflecting cb m \<Longrightarrow> reflecting cb (svc_void m)"
  unfolding svc_void_def by (erule reflecting_then_reads) (rule reads_return)

section \<open>What the policy depends on\<close>

definition policy_tables :: "iam_db \<Rightarrow> organization list \<times> iam_role list \<times> iam_permission list \<times> (nat \<times> nat) list \<times> iam_role_binding list" where
  "policy_tables db = (idb_organizations db, idb_roles db, idb_permissions db, idb_role_permissions db, idb_bindings db)"

lemma binding_domains_cong: "idb_organizations db = idb_organizations db' \<Longrightarrow> binding_domains db = binding_domains db'"
  by (simp add: fun_eq_iff binding_domains_def db_GetOrganizationByID_def organizations_def db_ListOrganizations_def)

lemma binding_groupings_cong:
  "binding_domains db = binding_domains db' \<Longrightarrow> idb_roles db = idb_roles db' \<Longrightarrow> binding_groupings db = binding_groupings db'"
  by (rule ext) (simp add: binding_groupings_def role_by_id_def split: option.split)

lemma table_rules_cong:
  "idb_roles db = idb_roles db' \<Longrightarrow> idb_permissions db = idb_permissions db' \<Longrightarrow> idb_role_permissions db = idb_role_permissions db' \<Longrightarrow>
   table_rules db = table_rules db'"
  by (simp add: table_rules_def role_rules_def db_ListIAMPermissionsByRole_def)

lemma reflects_policy_tables: "policy_tables db = policy_tables db' \<Longrightarrow> reflects cb db e = reflects cb db' e"
  using binding_groupings_cong[OF binding_domains_cong, of db db'] table_rules_cong[of db db']
  by (simp add: policy_tables_def reflects_def table_groupings_def bindings_def)

lemma DeleteUser_groupings:
  "table_groupings (db_DeleteUser i (db_DeleteOrganizationMembershipsByUser i (db_DeleteIAMRoleBindingsByUser i db))) =
   {g \<in> table_groupings db. fst g \<noteq> userSubject i}"
proof -
  let ?db = "db_DeleteUser i (db_DeleteOrganizationMembershipsByUser i (db_DeleteIAMRoleBindingsByUser i db))"
  have bindings: "set (bindings ?db) = {b \<in> set (bindings db). bd_UserID b \<noteq> i}"
    by (auto simp: bindings_def db_DeleteUser_def db_DeleteOrganizationMembershipsByUser_def delete_memberships_def
        db_DeleteIAMRoleBindingsByUser_def delete_bindings_def)
  have "binding_groupings ?db = binding_groupings db"
    by (intro binding_groupings_cong binding_domains_cong)
       (simp_all add: db_DeleteUser_def db_DeleteOrganizationMembershipsByUser_def delete_memberships_def db_DeleteIAMRoleBindingsByUser_def delete_bindings_def)
  moreover have "(a, c, d) \<in> binding_groupings db b \<Longrightarrow> a = userSubject (bd_UserID b)" for a c d b
    by (auto simp: binding_groupings_def split: option.splits)
  ultimately show ?thesis by (fastforce simp: table_groupings_def bindings)
qed

lemma DeleteUser_rules: "table_rules (db_DeleteUser i (db_DeleteOrganizationMembershipsByUser i (db_DeleteIAMRoleBindingsByUser i db))) = table_rules db"
  by (rule table_rules_cong)
     (simp_all add: db_DeleteUser_def db_DeleteOrganizationMembershipsByUser_def delete_memberships_def db_DeleteIAMRoleBindingsByUser_def delete_bindings_def)

lemma DeleteUserFor_reflects:
  assumes "casbin_enforcer cb" "reflects cb (sv_db s) (sv_enf s)" "DeleteUserFor cb actor i s = (Inr (), s')"
  shows "reflects cb (sv_db s') (sv_enf s')"
proof -
  obtain t1 t2 where t1: "same_tables s t1"
    and tx: "in_tx id (svc_bind (svc_wrap ''delete role bindings: '' (exec_total (db_DeleteIAMRoleBindingsByUser i))) (\<lambda>_.
        svc_bind (svc_wrap ''delete memberships: '' (exec_total (db_DeleteOrganizationMembershipsByUser i))) (\<lambda>_.
        svc_wrap ''delete user: '' (exec_total (db_DeleteUser i))))) t1 = (Inr (), t2)"
    and remove: "removeUser cb i t2 = (Inr (), s')"
    using assms(3) by (auto simp: DeleteUserFor_def svc_bind_Inr svc_guard_Inr svc_some_Inr same_tables_def dest!: requirePermission_Inr query_InrD)
  have t2: "sv_db t2 = db_DeleteUser i (db_DeleteOrganizationMembershipsByUser i (db_DeleteIAMRoleBindingsByUser i (sv_db s)))" "sv_enf t2 = sv_enf s"
    using tx t1 by (auto simp: svc_ok same_tables_def dest!: may_fail_same)
  obtain e' where e': "cb_RemoveFilteredGroupingPolicy cb (sv_enf s) (userSubject i) = Inr e'" "s' = t2\<lparr>sv_enf := e'\<rparr>"
    using remove t2 by (auto simp: removeUser_def svc_ok)
  show ?thesis
    using casbin_enforcer.remove_groupings[OF assms(1) e'(1)] assms(2) e'(2)
    by (simp add: reflects_def t2(1) DeleteUser_groupings DeleteUser_rules)
qed

text \<open>Renaming an organization changes no grant.\<close>

definition hierarchy :: "iam_db \<Rightarrow> (nat \<times> nat option \<times> bool) set" where
  "hierarchy db = (\<lambda>x. (og_ID x, og_ParentID x, og_IsRoot x)) ` set (organizations db)"

lemma hierarchy_iff: "(c, p, r) \<in> hierarchy db \<longleftrightarrow> (\<exists>x \<in> set (organizations db). og_ID x = c \<and> og_ParentID x = p \<and> og_IsRoot x = r)"
  unfolding hierarchy_def image_iff prod.inject by metis

lemma hierarchy_edge: "(\<exists>r. (c, Some q, r) \<in> hierarchy db) \<longleftrightarrow> (\<exists>x \<in> set (organizations db). og_ID x = c \<and> og_ParentID x = Some q)"
  unfolding hierarchy_iff by metis

lemma hierarchy_root: "(\<exists>p. (i, p, True) \<in> hierarchy db) \<longleftrightarrow> (\<exists>x \<in> set (organizations db). og_ID x = i \<and> og_IsRoot x)"
  unfolding hierarchy_iff by metis

lemma binding_domains_hierarchy:
  assumes "distinct (map og_ID (idb_organizations db))"
  shows "binding_domains db b =
     {organizationDomain (bd_OrganizationID b)} \<union>
     (if (\<exists>p. (bd_OrganizationID b, p, True) \<in> hierarchy db) then {globalDomain} else {}) \<union>
     (if bd_InheritChildren b
      then {organizationDomain i | i p r. (i, p, r) \<in> hierarchy db \<and> i \<noteq> bd_OrganizationID b \<and>
              (i, bd_OrganizationID b) \<in> {(c, q). \<exists>r. (c, Some q, r) \<in> hierarchy db}\<^sup>+}
      else {})"
proof -
  have "distinct (map og_ID (db_ListOrganizations db))"
    using distinct_organizations[OF assms] by (simp add: db_ListOrganizations_def distinct_map)
  then have edges: "parent_edges (db_ListOrganizations db) = {(c, q). \<exists>r. (c, Some q, r) \<in> hierarchy db}"
    unfolding hierarchy_edge by (auto simp: parent_edges_iff db_ListOrganizations_def)
  have root: "(\<exists>x. db_GetOrganizationByID i db = Some x \<and> og_IsRoot x) \<longleftrightarrow> (\<exists>p. (i, p, True) \<in> hierarchy db)" for i
    unfolding hierarchy_root using GetOrganizationByID_iff[OF assms] by metis
  show ?thesis unfolding binding_domains_def edges root by (auto simp: hierarchy_def)
qed

lemma rename_hierarchy:
  assumes "distinct (map og_ID (idb_organizations db))" "x \<in> set (organizations db)"
    and "og_ID org = og_ID x" "og_ParentID org = og_ParentID x" "og_IsRoot org = og_IsRoot x" "\<not> og_Deleted org"
    and save: "db_UpdateOrganization org db = Inr ((), db')"
  shows "hierarchy db' = hierarchy db \<and> distinct (map og_ID (idb_organizations db')) \<and> policy_tables (db'\<lparr>idb_organizations := idb_organizations db\<rparr>) = policy_tables db"
proof -
  have mem: "x \<in> set (idb_organizations db)" using assms(2) by (simp add: set_organizations)
  have db': "db' = db\<lparr>idb_organizations := map (\<lambda>y. if og_ID y = og_ID x then org else y) (idb_organizations db)\<rparr>"
    using save mem assms(3) by (auto simp: db_UpdateOrganization_def save_row_def list_ex_iff split: if_splits)
  have same: "y \<in> set (idb_organizations db) \<Longrightarrow> og_ID y = og_ID x \<Longrightarrow> y = x" for y
    using assms(1) mem by (auto simp: distinct_map dest: inj_onD)
  have "map og_ID (idb_organizations db') = map og_ID (idb_organizations db)" using assms(3) by (simp add: db')
  then have "distinct (map og_ID (idb_organizations db'))" using assms(1) by simp
  moreover have "set (organizations db') = insert org {y \<in> set (organizations db). og_ID y \<noteq> og_ID x}"
    using mem assms(2,6) same by (auto simp: set_organizations db' image_iff)
  moreover have "hierarchy db = (\<lambda>x. (og_ID x, og_ParentID x, og_IsRoot x)) ` insert x {y \<in> set (organizations db). og_ID y \<noteq> og_ID x}"
    using assms(2) same by (auto simp: hierarchy_def set_organizations image_iff)
  moreover have "policy_tables (db'\<lparr>idb_organizations := idb_organizations db\<rparr>) = policy_tables db" by (simp add: policy_tables_def db')
  ultimately show ?thesis using assms(3-5) by (simp add: hierarchy_def)
qed

lemma UpdateOrganizationFor_reflects:
  assumes "reflects cb (sv_db s) (sv_enf s)" "distinct (map og_ID (idb_organizations (sv_db s)))"
    and "UpdateOrganizationFor cb actor i name description parent False s = (Inr org', s')"
  shows "reflects cb (sv_db s') (sv_enf s')"
proof -
  obtain x t where x: "db_GetOrganizationByID i (sv_db s) = Some x" and t: "same_tables s t"
    and org': "og_ID org' = og_ID x" "og_ParentID org' = og_ParentID x" "og_IsRoot org' = og_IsRoot x" "og_Deleted org' = og_Deleted x" and exec: "exec (db_UpdateOrganization org') t = (Inr (), s')"
    using assms(3) by (auto simp: UpdateOrganizationFor_def Let_def set_parent_def svc_bind_Inr svc_guard_Inr svc_some_Inr svc_wrap_Inr svc_return_Inr
        same_tables_def dest!: requirePermission_Inr query_InrD)
  have live: "x \<in> set (organizations (sv_db s))" using x GetOrganizationByID_iff[OF assms(2)] by simp
  have save: "db_UpdateOrganization org' (sv_db s) = Inr ((), sv_db s')" and enf: "sv_enf s' = sv_enf s"
    using exec t by (auto simp: exec_Inr same_tables_def dest!: may_fail_same)
  have h: "hierarchy (sv_db s') = hierarchy (sv_db s)" "distinct (map og_ID (idb_organizations (sv_db s')))"
    "policy_tables (sv_db s'\<lparr>idb_organizations := idb_organizations (sv_db s)\<rparr>) = policy_tables (sv_db s)"
    using rename_hierarchy[OF assms(2) live _ _ _ _ save] org' live by (auto simp: set_organizations)
  have domains: "binding_domains (sv_db s') = binding_domains (sv_db s)"
    unfolding fun_eq_iff binding_domains_hierarchy[OF assms(2)] binding_domains_hierarchy[OF h(2)] h(1) by simp
  have "table_groupings (sv_db s') = table_groupings (sv_db s)"
    using binding_groupings_cong[OF domains] h(3) by (simp add: table_groupings_def bindings_def policy_tables_def)
  moreover have "table_rules (sv_db s') = table_rules (sv_db s)" using h(3) by (intro table_rules_cong) (auto simp: policy_tables_def)
  ultimately show ?thesis using assms(1) by (simp add: reflects_def enf)
qed

text \<open>Changing a user row changes no grant.\<close>

lemma exec_UpdateUser_reflects:
  assumes "exec (db_UpdateUser user) s = (Inr (), s')" "reflects cb (sv_db s) (sv_enf s)"
  shows "reflects cb (sv_db s') (sv_enf s')"
proof -
  have "policy_tables (sv_db s') = policy_tables (sv_db s)" "sv_enf s' = sv_enf s"
    using assms(1) by (auto simp: exec_Inr db_UpdateUser_def policy_tables_def same_tables_def split: if_splits dest!: may_fail_same)
  with assms(2) reflects_policy_tables show ?thesis by metis
qed

lemma ResetUserPasswordFor_reflects:
  assumes "reflects cb (sv_db s) (sv_enf s)" "ResetUserPasswordFor cb env actor i password s = (Inr (), s')"
  shows "reflects cb (sv_db s') (sv_enf s')"
proof -
  obtain user t where "same_tables s t" "exec (db_UpdateUser user) t = (Inr (), s')"
    using assms(2) by (auto simp: ResetUserPasswordFor_def svc_bind_Inr svc_guard_Inr svc_some_Inr svc_wrap_Inr svc_lift_def same_tables_def
        dest!: requirePermission_Inr query_InrD)
  with assms(1) exec_UpdateUser_reflects show ?thesis by (metis same_tables_def)
qed

lemma UpdateUserFor_reflects:
  assumes "casbin_enforcer cb" "reflects cb (sv_db s) (sv_enf s)" "UpdateUserFor cb actor i name status role s = (Inr user, s')"
  shows "reflects cb (sv_db s') (sv_enf s')"
proof (cases role)
  case None
  then obtain t where "same_tables s t" "exec (db_UpdateUser user) t = (Inr (), s')"
    using assms(3) by (auto simp: UpdateUserFor_def Let_def svc_bind_Inr svc_guard_Inr svc_some_Inr svc_wrap_Inr svc_return_Inr same_tables_def
        dest!: requirePermission_Inr query_InrD)
  with assms(2) exec_UpdateUser_reflects show ?thesis by (metis same_tables_def)
next
  case (Some code)
  have "reflecting cb (UpdateUserFor cb actor i name status (Some code))"
    unfolding UpdateUserFor_def Let_def option.case
    by (rule reflecting_then_reads[OF _ reads_return], (rule reflecting_last)+, rule reflecting_setOrganizationRole[OF assms(1)] | rule reflecting_last)+
  with assms(3) Some show ?thesis by (auto simp: reflecting_def)
qed

fun moves :: "iam_op \<Rightarrow> bool" where
  "moves (OpUpdateOrganization _ _ _ _ setParent) = setParent"
| "moves _ = False"

end
