(* ===== verification/Iam_Bootstrap.thy ===== *)
theory Iam_Bootstrap
  imports Iam_Members
begin

text \<open>
  The policy of the user role as it is set and read back, and the account the bootstrap makes the administrator of the installation.
\<close>

section \<open>The feature policy\<close>

lemma concat_singletons: "concat (map (\<lambda>x. if P x then [f x] else []) xs) = map f (filter P xs)"
  by (induction xs) auto

lemma filter_unique: "distinct (map k xs) \<Longrightarrow> x \<in> set xs \<Longrightarrow> filter (\<lambda>y. k y = k x \<and> Q y) xs = (if Q x then [x] else [])"
  by (induction xs) (auto simp: filter_empty_conv image_iff)

lemma feature_permission_Inr:
  "feature_permission f s = (Inr x, s') \<Longrightarrow> same_tables s s' \<and> (\<exists>p. db_GetIAMPermissionByCode (ft_Code f) (sv_db s) = Some p \<and> x = (ft_Code f, pm_ID p))"
  by (auto simp: feature_permission_def svc_bind_Inr svc_some_Inr svc_return_Inr dest!: query_InrD)

lemma Replace_Inr:
  "db_ReplaceIAMRolePermissionSubset r ps qs db = Inr (x, db') \<Longrightarrow>
   db' = db\<lparr>idb_role_permissions := filter (\<lambda>(a, p). \<not> (a = r \<and> p \<in> set ps)) (idb_role_permissions db) @ map (\<lambda>p. (r, p)) qs\<rparr>"
  by (simp add: db_ReplaceIAMRolePermissionSubset_def Let_def split: if_splits)

lemma feature_permissions_Inr:
  assumes "svc_map feature_permission fs s = (Inr ps, s')"
  shows "same_tables s s' \<and> map fst ps = map ft_Code fs \<and>
    (\<forall>(code, i) \<in> set ps. \<exists>p. db_GetIAMPermissionByCode code (sv_db s) = Some p \<and> pm_ID p = i)"
  using assms
proof (induction fs arbitrary: s ps)
  case (Cons f fs)
  then obtain p t qs where t: "same_tables s t" "db_GetIAMPermissionByCode (ft_Code f) (sv_db s) = Some p"
    and qs: "svc_map feature_permission fs t = (Inr qs, s')" and ps: "ps = (ft_Code f, pm_ID p) # qs"
    by (auto simp: svc_bind_Inr svc_return_Inr dest!: feature_permission_Inr)
  from Cons.IH[OF qs] t ps show ?case by (auto simp: same_tables_def)
qed (simp add: svc_return_Inr)

lemma GetPermission_iff:
  assumes "iam_keys db"
  shows "db_GetIAMPermissionByCode code db = Some p \<longleftrightarrow> p \<in> set (idb_permissions db) \<and> pm_Code p = code"
  using find_SomeD[of "\<lambda>p. pm_Code p = code" "idb_permissions db" p] find_distinct[of pm_Code "idb_permissions db" p] assms
  by (auto simp: db_GetIAMPermissionByCode_def iam_keys_def)

lemma feature_rows_after_set:
  assumes keys: "iam_keys db" and ps: "\<forall>(code, i) \<in> set ps. \<exists>p. db_GetIAMPermissionByCode code db = Some p \<and> pm_ID p = i"
    and codes: "code \<in> fst ` set ps" and permission: "db_GetIAMPermissionByCode code db = Some p"
    and replace: "db_ReplaceIAMRolePermissionSubset r (map snd ps) (map snd (filter (\<lambda>(c, _). c \<in> set enabled) ps)) db = Inr ((), db')"
  shows "(r, pm_ID p) \<in> set (idb_role_permissions db') \<longleftrightarrow> code \<in> set enabled"
proof -
  have one: "c = code" if "(c, pm_ID p) \<in> set ps" for c
  proof -
    from ps that obtain q where "db_GetIAMPermissionByCode c db = Some q" "pm_ID q = pm_ID p" by auto
    then have "q = p" using keys permission GetPermission_iff[OF keys] by (auto simp: iam_keys_def distinct_map dest: inj_onD)
    with \<open>db_GetIAMPermissionByCode c db = Some q\<close> permission show ?thesis using GetPermission_iff[OF keys] by auto
  qed
  from codes obtain i where i: "(code, i) \<in> set ps" by force
  from bspec[OF ps i] have "i = pm_ID p" using permission by auto
  with i have p: "(code, pm_ID p) \<in> set ps" by simp
  then have all: "pm_ID p \<in> set (map snd ps)" by force
  have granted: "pm_ID p \<in> set (map snd (filter (\<lambda>(c, _). c \<in> set enabled) ps)) \<longleftrightarrow> code \<in> set enabled"
  proof
    assume "pm_ID p \<in> set (map snd (filter (\<lambda>(c, _). c \<in> set enabled) ps))"
    then obtain c where "(c, pm_ID p) \<in> set ps" "c \<in> set enabled" by auto
    with one show "code \<in> set enabled" by blast
  next
    assume "code \<in> set enabled"
    with p have "(code, pm_ID p) \<in> set (filter (\<lambda>(c, _). c \<in> set enabled) ps)" by simp
    then show "pm_ID p \<in> set (map snd (filter (\<lambda>(c, _). c \<in> set enabled) ps))" by force
  qed
  have "(r, q) \<in> set (idb_role_permissions db') \<longleftrightarrow> ((r, q) \<in> set (idb_role_permissions db) \<and> q \<notin> set (map snd ps)) \<or>
      q \<in> set (map snd (filter (\<lambda>(c, _). c \<in> set enabled) ps))" for q
    unfolding Replace_Inr[OF replace] by auto
  then show ?thesis using all granted by blast
qed

lemma SetUserFeaturePolicy_Inr:
  assumes "SetUserFeaturePolicy cb actor enabled s = (Inr (), s')"
  obtains role ps where "db_GetIAMRoleByCode IAMRoleUser (sv_db s) = Some role" "map fst ps = map ft_Code featureCatalog"
    "\<forall>(code, i) \<in> set ps. \<exists>p. db_GetIAMPermissionByCode code (sv_db s) = Some p \<and> pm_ID p = i"
    "db_ReplaceIAMRolePermissionSubset (ro_ID role) (map snd ps) (map snd (filter (\<lambda>(c, _). c \<in> set enabled) ps)) (sv_db s) = Inr ((), sv_db s')"
proof -
  obtain role ps t1 t2 t3 where role: "db_GetIAMRoleByCode IAMRoleUser (sv_db s) = Some role"
    and t1: "sv_db t1 = sv_db s" and ps: "svc_map feature_permission featureCatalog t1 = (Inr ps, t2)"
    and exec: "exec (db_ReplaceIAMRolePermissionSubset (ro_ID role) (map snd ps) (map snd (filter (\<lambda>(c, _). c \<in> set enabled) ps))) t2 = (Inr (), t3)"
    and reload: "reloadAuthorization cb t3 = (Inr (), s')"
    using assms by (auto simp: SetUserFeaturePolicy_def svc_bind_Inr svc_guard_Inr svc_some_Inr same_tables_def
        dest!: query_InrD require_permissions_feature_Inr)
  have "sv_db s' = sv_db t3" using keepsD[OF keeps_reloadAuthorization[of "\<lambda>db. db"] reload] .
  moreover note feature_permissions_Inr[OF ps] t1
  ultimately show thesis
    using exec by (intro that[OF role, of ps]) (auto simp: exec_Inr same_tables_def dest!: may_fail_same)
qed

lemma policy_enabled_codes:
  assumes "UserFeaturePolicy cb actor s = (Inr policy, s')"
  obtains role where "db_GetIAMRoleByCode IAMRoleUser (sv_db s) = Some role"
    "fp_Enabled policy = concat (map (\<lambda>f. map (\<lambda>_. ft_Code f) (filter (\<lambda>p. pm_Code p = ft_Code f)
       (db_ListIAMPermissionsByRole (ro_ID role) (sv_db s)))) featureCatalog)"
  using assms by (auto simp: UserFeaturePolicy_def svc_bind_Inr svc_some_Inr svc_return_Inr same_tables_def
      dest!: query_InrD require_permissions_feature_Inr)

lemma feature_policy_roundtrip:
  assumes keys: "iam_keys (sv_db s)" and set: "SetUserFeaturePolicy cb actor enabled s = (Inr (), s')"
    and read: "UserFeaturePolicy cb actor' t = (Inr policy, t')" "sv_db t = sv_db s'"
  shows "fp_Enabled policy = filter (\<lambda>code. code \<in> set enabled) (map ft_Code featureCatalog)"
proof -
  obtain role ps where role: "db_GetIAMRoleByCode IAMRoleUser (sv_db s) = Some role" and codes: "map fst ps = map ft_Code featureCatalog"
    and ps: "\<forall>(code, i) \<in> set ps. \<exists>p. db_GetIAMPermissionByCode code (sv_db s) = Some p \<and> pm_ID p = i"
    and replace: "db_ReplaceIAMRolePermissionSubset (ro_ID role) (map snd ps) (map snd (filter (\<lambda>(c, _). c \<in> set enabled) ps)) (sv_db s) = Inr ((), sv_db s')"
    using set by (rule SetUserFeaturePolicy_Inr)
  have tables: "idb_roles (sv_db s') = idb_roles (sv_db s)" "idb_permissions (sv_db s') = idb_permissions (sv_db s)"
    using Replace_Inr[OF replace] by simp_all
  obtain role' where role': "db_GetIAMRoleByCode IAMRoleUser (sv_db t) = Some role'"
    and policy: "fp_Enabled policy = concat (map (\<lambda>f. map (\<lambda>_. ft_Code f) (filter (\<lambda>p. pm_Code p = ft_Code f)
       (db_ListIAMPermissionsByRole (ro_ID role') (sv_db t)))) featureCatalog)"
    using read(1) by (rule policy_enabled_codes)
  have "role' = role" using role role' tables(1) read(2) by (simp add: db_GetIAMRoleByCode_def)
  have one: "filter (\<lambda>p. pm_Code p = ft_Code f) (db_ListIAMPermissionsByRole (ro_ID role) (sv_db s')) =
      (if ft_Code f \<in> set enabled then [the (db_GetIAMPermissionByCode (ft_Code f) (sv_db s))] else [])" if "f \<in> set featureCatalog" for f
  proof -
    have "ft_Code f \<in> fst ` set ps" using codes that by (metis image_eqI image_set)
    then obtain p where p: "db_GetIAMPermissionByCode (ft_Code f) (sv_db s) = Some p" using ps by fastforce
    then have "p \<in> set (idb_permissions (sv_db s))" "pm_Code p = ft_Code f" using GetPermission_iff[OF keys] by auto
    then have "filter (\<lambda>q. pm_Code q = ft_Code f \<and> (ro_ID role, pm_ID q) \<in> set (idb_role_permissions (sv_db s'))) (idb_permissions (sv_db s)) =
        (if (ro_ID role, pm_ID p) \<in> set (idb_role_permissions (sv_db s')) then [p] else [])"
      using filter_unique[of pm_Code "idb_permissions (sv_db s)" p] keys by (simp add: iam_keys_def)
    then show ?thesis
      using feature_rows_after_set[OF keys ps \<open>ft_Code f \<in> fst ` set ps\<close> p replace] p
      by (simp add: db_ListIAMPermissionsByRole_def tables conj_commute)
  qed
  have "fp_Enabled policy = concat (map (\<lambda>f. if ft_Code f \<in> set enabled then [ft_Code f] else []) featureCatalog)"
    unfolding policy read(2) \<open>role' = role\<close> by (rule arg_cong[where f = concat], rule map_cong[OF refl]) (simp add: one)
  then show ?thesis by (simp add: concat_singletons filter_map o_def)
qed

section \<open>The bootstrap\<close>

text \<open>One round of the loop: the account has a binding on the root organization afterwards, and no other account changes.\<close>

lemma bootstrap_membership_Inr:
  assumes "bootstrap_membership root user s = (Inr (), s')"
  shows "sv_db s' = sv_db s \<or> sv_db s' = db_UpsertOrganizationMembership (og_ID root) (us_ID user) (sv_db s)"
  using assms
  by (auto simp: bootstrap_membership_def svc_bind_Inr svc_wrap_Inr same_tables_def exec_total_Inr svc_return_Inr split: if_split_asm
      dest!: query_InrD may_fail_same)

lemma bootstrap_binding_Inr:
  assumes "bootstrap_binding root user code s = (Inr (), s')"
  shows "db_GetIAMRoleBinding (og_ID root) (us_ID user) (sv_db s) \<noteq> None \<and> sv_db s' = sv_db s \<or>
     (\<exists>role. db_GetIAMRoleBinding (og_ID root) (us_ID user) (sv_db s) = None \<and> db_GetIAMRoleByCode code (sv_db s) = Some role \<and>
        sv_db s' = db_UpsertIAMRoleBinding (og_ID root) (us_ID user) (ro_ID role) (code = IAMRoleAdmin) (sv_db s))"
proof (cases "db_GetIAMRoleBinding (og_ID root) (us_ID user) (sv_db s)")
  case None
  then show ?thesis
    using assms by (auto simp: bootstrap_binding_def svc_bind_Inr svc_wrap_Inr svc_some_Inr exec_total_Inr same_tables_def
        dest!: query_InrD may_fail_same)
next
  case (Some b)
  then show ?thesis
    using assms by (auto simp: bootstrap_binding_def svc_bind_Inr svc_wrap_Inr svc_return_Inr same_tables_def dest!: query_InrD)
qed

lemma roles_of_updates [simp]:
  "idb_roles (db_UpsertOrganizationMembership i u db) = idb_roles db" "idb_roles (db_UpsertIAMRoleBinding i u r inherit db) = idb_roles db"
  by (simp_all add: db_UpsertOrganizationMembership_def db_UpsertIAMRoleBinding_def Let_def)

lemma bootstrap_user_Inr:
  assumes "bootstrap_user root (i, user) s = (Inr (), s')"
  shows "v \<noteq> us_ID user \<Longrightarrow> db_GetIAMRoleBinding (og_ID root) v (sv_db s') = db_GetIAMRoleBinding (og_ID root) v (sv_db s)"
    "idb_roles (sv_db s') = idb_roles (sv_db s)"
    "db_GetIAMRoleBinding (og_ID root) (us_ID user) (sv_db s) = None \<Longrightarrow> i = 0 \<Longrightarrow>
     \<exists>b role. db_GetIAMRoleBinding (og_ID root) (us_ID user) (sv_db s') = Some (b, role_by_id (ro_ID role) (sv_db s)) \<and> bd_InheritChildren b \<and>
       db_GetIAMRoleByCode IAMRoleAdmin (sv_db s) = Some role"
proof -
  let ?code = "if i = 0 then IAMRoleAdmin else IAMRoleUser"
  obtain t where member: "bootstrap_membership root user s = (Inr (), t)" and binding: "bootstrap_binding root user ?code t = (Inr (), s')"
    using assms by (auto simp: bootstrap_user_def svc_bind_Inr)
  have t: "db_GetIAMRoleBinding j v (sv_db t) = db_GetIAMRoleBinding j v (sv_db s)" "idb_roles (sv_db t) = idb_roles (sv_db s)" for j v
    using bootstrap_membership_Inr[OF member] by auto
  note step = bootstrap_binding_Inr[OF binding]
  show "v \<noteq> us_ID user \<Longrightarrow> db_GetIAMRoleBinding (og_ID root) v (sv_db s') = db_GetIAMRoleBinding (og_ID root) v (sv_db s)"
    using step t(1) binding_other(1)[of v "us_ID user" "og_ID root"] by metis
  show "idb_roles (sv_db s') = idb_roles (sv_db s)" using step t(2) by auto
  show "\<exists>b role. db_GetIAMRoleBinding (og_ID root) (us_ID user) (sv_db s') = Some (b, role_by_id (ro_ID role) (sv_db s)) \<and> bd_InheritChildren b \<and>
       db_GetIAMRoleByCode IAMRoleAdmin (sv_db s) = Some role"
    if none: "db_GetIAMRoleBinding (og_ID root) (us_ID user) (sv_db s) = None" and first: "i = 0"
  proof -
    obtain role where role: "db_GetIAMRoleByCode IAMRoleAdmin (sv_db t) = Some role"
      and s': "sv_db s' = db_UpsertIAMRoleBinding (og_ID root) (us_ID user) (ro_ID role) True (sv_db t)"
      using step t(1) none first by auto
    have "role_by_id (ro_ID role) (sv_db t) = role_by_id (ro_ID role) (sv_db s)" "db_GetIAMRoleByCode IAMRoleAdmin (sv_db s) = Some role"
      using t(2) role by (simp_all add: role_by_id_def db_GetIAMRoleByCode_def)
    then show ?thesis
      using binding_inserted[of "og_ID root" "us_ID user" "sv_db t" "ro_ID role" True] none t(1) s' by auto
  qed
qed

lemma bootstrap_rest:
  assumes "svc_foreach (bootstrap_user root) xs s = (Inr (), s')" "v \<notin> (us_ID \<circ> snd) ` set xs"
  shows "db_GetIAMRoleBinding (og_ID root) v (sv_db s') = db_GetIAMRoleBinding (og_ID root) v (sv_db s)"
  using assms
proof (induction xs arbitrary: s)
  case (Cons x xs)
  obtain i user where x: "x = (i, user)" by force
  from Cons.prems obtain t where "bootstrap_user root (i, user) s = (Inr (), t)" "svc_foreach (bootstrap_user root) xs t = (Inr (), s')"
    by (auto simp: x svc_bind_Inr)
  with Cons show ?case using bootstrap_user_Inr(1)[of root i user s t v] by (auto simp: x)
qed (simp add: svc_return_Inr)

text \<open>The account with the lowest identifier among the live ones.\<close>

definition first_account :: "iam_db \<Rightarrow> iam_user" where
  "first_account db = hd (go_sort (\<lambda>a b. us_ID a < us_ID b) (db_ListUsers 0 100000 db))"

definition root_binding :: "iam_db \<Rightarrow> nat \<Rightarrow> (iam_role_binding \<times> iam_role option) option" where
  "root_binding db u = (case db_GetRootOrganization db of None \<Rightarrow> None | Some root \<Rightarrow> db_GetIAMRoleBinding (og_ID root) u db)"

definition installation_admin :: "iam_db \<Rightarrow> nat \<Rightarrow> bool" where
  "installation_admin db u \<longleftrightarrow> is_admin_binding (root_binding db u) \<and> (\<exists>b r. root_binding db u = Some (b, r) \<and> bd_InheritChildren b)"

lemma role_of_code:
  assumes "iam_keys db" "db_GetIAMRoleByCode code db = Some role"
  shows "role_by_id (ro_ID role) db = Some role \<and> ro_Code role = code"
  using assms find_SomeD[of "\<lambda>r. ro_Code r = code" "idb_roles db" role] find_distinct[of ro_ID "idb_roles db" role]
  by (auto simp: db_GetIAMRoleByCode_def role_by_id_def iam_keys_def)

lemma bootstrap_promotes_first_account:
  assumes keys: "iam_keys (sv_db s)" and root: "db_GetRootOrganization (sv_db s) = Some root" and users: "users (sv_db s) \<noteq> []"
    and unbound: "root_binding (sv_db s) (us_ID (first_account (sv_db s))) = None"
    and run: "EnsureOrganizationBootstrap cb s = (Inr (), s')"
  shows "installation_admin (sv_db s') (us_ID (first_account (sv_db s)))"
proof -
  let ?db = "sv_db s" and ?us = "go_sort (\<lambda>a b. us_ID a < us_ID b) (db_ListUsers 0 100000 (sv_db s))"
  have listed: "db_ListUsers 0 100000 ?db \<noteq> []" using users by (simp add: db_ListUsers_def)
  then obtain u rest where us: "?us = u # rest" by (metis length_go_sort length_0_conv neq_Nil_conv)
  then have u: "first_account ?db = u" by (simp add: first_account_def)
  obtain t t' where t: "sv_db t = ?db" and loop: "svc_foreach (bootstrap_user root) (enumerate 0 ?us) t = (Inr (), t')"
    and reload: "reloadAuthorization cb t' = (Inr (), s')"
    using run listed root
    by (auto simp: EnsureOrganizationBootstrap_def svc_bind_Inr svc_wrap_Inr svc_return_Inr Let_def same_tables_def dest!: query_InrD may_fail_same)
  have s': "sv_db s' = sv_db t'" using keepsD[OF keeps_reloadAuthorization[of "\<lambda>db. db"] reload] .
  have orgs: "idb_organizations (sv_db t') = idb_organizations ?db"
    using keepsD[OF keeps_foreach[OF bootstrap_user_keeps_organizations] loop] t by simp
  obtain t1 where one: "bootstrap_user root (0, u) t = (Inr (), t1)" and others: "svc_foreach (bootstrap_user root) (enumerate 1 rest) t1 = (Inr (), t')"
    using loop by (auto simp: us svc_bind_Inr)
  have "distinct (map us_ID (db_ListUsers 0 100000 ?db))"
    using keys by (auto simp: iam_keys_def db_ListUsers_def users_def distinct_map_filter take_map[symmetric] intro: distinct_take)
  then have "distinct (map us_ID ?us)" by (simp add: distinct_map)
  then have "us_ID u \<notin> (us_ID \<circ> snd) ` set (enumerate 1 rest)" by (auto simp: us in_set_enumerate_eq)
  then have rest: "db_GetIAMRoleBinding (og_ID root) (us_ID u) (sv_db t') = db_GetIAMRoleBinding (og_ID root) (us_ID u) (sv_db t1)"
    by (rule bootstrap_rest[OF others])
  have "db_GetIAMRoleBinding (og_ID root) (us_ID u) (sv_db t) = None" using unbound root u t by (simp add: root_binding_def)
  from bootstrap_user_Inr(3)[OF one this] obtain b role where b: "db_GetIAMRoleBinding (og_ID root) (us_ID u) (sv_db t1) = Some (b, role_by_id (ro_ID role) ?db)"
    "bd_InheritChildren b" "db_GetIAMRoleByCode IAMRoleAdmin ?db = Some role" using t by auto
  have "root_binding (sv_db s') (us_ID u) = Some (b, Some role)"
    using rest b role_of_code[OF keys b(3)] root orgs by (simp add: root_binding_def s' db_GetRootOrganization_def organizations_def)
  then show ?thesis
    using b(2) role_of_code[OF keys b(3)] by (simp add: installation_admin_def is_admin_binding_def u)
qed

end
