(* ===== verification/Iam_Properties.thy ===== *)
theory Iam_Properties
  imports Iam_Consistency Iam_Bootstrap Iam_Integrity
begin

text \<open>
  An enforcer that meets the contract, a small installation, and the properties of the service at work on it: what a reload enforces, and
  what a move of an organization leaves behind.
\<close>

section \<open>A reference enforcer\<close>

text \<open>Lists of rules and groupings. \<^verbatim>\<open>keyMatch2\<close> on path segments (\<open>:name\<close> matches one segment, a final \<open>*\<close> the rest);
  \<^verbatim>\<open>regexMatch\<close> on alternatives of literals.\<close>

record ref_enforcer =
  re_rules :: "rule list"
  re_groupings :: "grouping list"

fun match_segments :: "string list \<Rightarrow> string list \<Rightarrow> bool" where
  "match_segments _ [''*''] = True"
| "match_segments (k # ks) (p # ps) = ((k = p \<or> (take 1 p = '':'' \<and> k \<noteq> [])) \<and> match_segments ks ps)"
| "match_segments ks ps = (ks = [] \<and> ps = [])"

definition ref_keyMatch2 :: "string \<Rightarrow> string \<Rightarrow> bool" where
  "ref_keyMatch2 key pattern = match_segments (split_on (CHR ''/'') key) (split_on (CHR ''/'') pattern)"

definition ref_regexMatch :: "string \<Rightarrow> string \<Rightarrow> bool" where
  "ref_regexMatch key pattern = list_ex (str_contains key) (split_on (CHR ''|'') (filter (\<lambda>c. c \<noteq> CHR ''('' \<and> c \<noteq> CHR '')'') pattern))"

definition ref_role :: "grouping list \<Rightarrow> string \<Rightarrow> string \<Rightarrow> string \<Rightarrow> bool" where
  "ref_role gs sub role d \<longleftrightarrow> sub = role \<or> list_ex (\<lambda>g. g = (sub, role, d)) gs"

definition ref_Enforce :: "ref_enforcer \<Rightarrow> string \<Rightarrow> string \<Rightarrow> string \<Rightarrow> string \<Rightarrow> bool" where
  "ref_Enforce e sub d obj act =
     list_ex (\<lambda>(psub, pdom, pobj, pact).
       (ref_role (re_groupings e) sub psub d \<or> ref_role (re_groupings e) sub psub globalDomain) \<and> (pdom = globalDomain \<or> d = pdom) \<and>
       ref_keyMatch2 obj pobj \<and> ref_regexMatch act pact) (re_rules e)"

definition reference_casbin :: "ref_enforcer casbin" where
  "reference_casbin = \<lparr>
     cb_Enforce = (\<lambda>e sub d obj act. Inr (ref_Enforce e sub d obj act)),
     cb_ClearPolicy = (\<lambda>e. \<lparr>re_rules = [], re_groupings = []\<rparr>),
     cb_AddPolicy = (\<lambda>e r. Inr (e\<lparr>re_rules := List.insert r (re_rules e)\<rparr>)),
     cb_AddGroupingPolicy = (\<lambda>e g. Inr (e\<lparr>re_groupings := List.insert g (re_groupings e)\<rparr>)),
     cb_BuildRoleLinks = (\<lambda>e. Inr e),
     cb_RemoveFilteredGroupingPolicy = (\<lambda>e u. Inr (e\<lparr>re_groupings := filter (\<lambda>g. fst g \<noteq> u) (re_groupings e)\<rparr>)),
     cb_keyMatch2 = ref_keyMatch2, cb_regexMatch = ref_regexMatch,
     cb_rules = (\<lambda>e. set (re_rules e)), cb_groupings = (\<lambda>e. set (re_groupings e)), cb_linked = (\<lambda>e. True)\<rparr>"

lemma reference_simps [simp]:
  "cb_Enforce reference_casbin e sub d obj act = Inr (ref_Enforce e sub d obj act)"
  "cb_ClearPolicy reference_casbin e = \<lparr>re_rules = [], re_groupings = []\<rparr>"
  "cb_AddPolicy reference_casbin e r = Inr (e\<lparr>re_rules := List.insert r (re_rules e)\<rparr>)"
  "cb_AddGroupingPolicy reference_casbin e g = Inr (e\<lparr>re_groupings := List.insert g (re_groupings e)\<rparr>)"
  "cb_BuildRoleLinks reference_casbin e = Inr e"
  "cb_RemoveFilteredGroupingPolicy reference_casbin e u = Inr (e\<lparr>re_groupings := filter (\<lambda>g. fst g \<noteq> u) (re_groupings e)\<rparr>)"
  "cb_keyMatch2 reference_casbin = ref_keyMatch2" "cb_regexMatch reference_casbin = ref_regexMatch"
  "cb_rules reference_casbin e = set (re_rules e)" "cb_groupings reference_casbin e = set (re_groupings e)" "cb_linked reference_casbin e"
  by (simp_all add: reference_casbin_def)

lemma ref_Enforce_matcher: "ref_Enforce e sub d obj act \<longleftrightarrow> policy_allows reference_casbin (set (re_rules e)) (set (re_groupings e)) sub d obj act"
proof -
  have "ref_role gs a b c \<longleftrightarrow> has_role (set gs) a b c" for gs a b c by (auto simp: ref_role_def has_role_def list_ex_iff)
  then show ?thesis by (simp add: ref_Enforce_def policy_allows_def rule_matches_def list_ex_iff)
qed

interpretation reference: casbin_enforcer reference_casbin
  by unfold_locales (auto simp: ref_Enforce_matcher)

section \<open>A small installation\<close>

text \<open>The root organization 4 with its administrator 5; below it organization 2 with its administrator 7, and organization 3 below 2.\<close>

definition demo_organization :: "nat \<Rightarrow> string \<Rightarrow> nat option \<Rightarrow> bool \<Rightarrow> organization" where
  "demo_organization i name parent isRoot =
     \<lparr>og_ID = i, og_Name = name, og_Description = [], og_ParentID = parent, og_IsRoot = isRoot, og_Deleted = False\<rparr>"

definition demo_user :: "nat \<Rightarrow> string \<Rightarrow> iam_user" where
  "demo_user i email = \<lparr>us_ID = i, us_Name = email, us_Email = email, us_Password = ''hash'', us_Status = ''active'', us_LastLogin = None, us_LoginIP = [], us_Deleted = False\<rparr>"

definition demo_binding :: "nat \<Rightarrow> nat \<Rightarrow> nat \<Rightarrow> nat \<Rightarrow> bool \<Rightarrow> iam_role_binding" where
  "demo_binding i u r org inherit =
     \<lparr>bd_ID = i, bd_UserID = u, bd_RoleID = r, bd_OrganizationID = org, bd_InheritChildren = inherit, bd_Deleted = False\<rparr>"

definition demo_db :: iam_db where
  "demo_db = \<lparr>
     idb_users = [demo_user 5 ''root@x'', demo_user 7 ''lead@x''],
     idb_organizations = [demo_organization 2 ''a'' (Some 4) False, demo_organization 3 ''b'' (Some 2) False, demo_organization 4 ''root'' None True],
     idb_memberships = [\<lparr>mb_ID = 2, mb_OrganizationID = 4, mb_UserID = 5, mb_Deleted = False\<rparr>, \<lparr>mb_ID = 3, mb_OrganizationID = 2, mb_UserID = 7, mb_Deleted = False\<rparr>],
     idb_roles = [\<lparr>ro_ID = 2, ro_Code = IAMRoleAdmin\<rparr>, \<lparr>ro_ID = 3, ro_Code = IAMRoleUser\<rparr>],
     idb_permissions = [\<lparr>pm_ID = 8, pm_Code = ''organizations.item.manage'', pm_Resource = ''/organizations/:id'', pm_Action = ''(read|update|delete|create_child)''\<rparr>,
       \<lparr>pm_ID = 9, pm_Code = ''organizations.members.manage'', pm_Resource = ''/organizations/:id/members'', pm_Action = ''(read|write)''\<rparr>],
     idb_role_permissions = [(2, 8), (2, 9)],
     idb_bindings = [demo_binding 2 5 2 4 True, demo_binding 3 7 2 2 True],
     idb_relations = [], idb_tokens = []\<rparr>"

definition demo_sys :: "ref_enforcer iam_sys" where
  "demo_sys = \<lparr>sv_db = demo_db, sv_enf = \<lparr>re_rules = [], re_groupings = []\<rparr>, sv_faults = []\<rparr>"

definition demo_enforcer :: ref_enforcer where
  "demo_enforcer = \<lparr>
     re_rules = [(''role:admin'', globalDomain, ''/organizations/:id/members'', ''(read|write)''),
       (''role:admin'', globalDomain, ''/organizations/:id'', ''(read|update|delete|create_child)'')],
     re_groupings = [(''user:7'', ''role:admin'', ''org:3''), (''user:7'', ''role:admin'', ''org:2''), (''user:5'', ''role:admin'', ''org:2''),
       (''user:5'', ''role:admin'', ''org:3''), (''user:5'', ''role:admin'', globalDomain), (''user:5'', ''role:admin'', ''org:4'')]\<rparr>"

lemmas svc_run = svc_bind_def svc_return_def svc_fail_def svc_guard_def svc_some_def svc_wrap_def query_def exec_def exec_total_def may_fail_def
  in_tx_def on_enforcer_def enforce_subject_def enforce_def

lemma demo_dec: "dec 2 = ''2''" "dec 3 = ''3''" "dec 4 = ''4''" "dec 5 = ''5''" "dec 7 = ''7''"
  by code_simp+

lemmas demo_rows = demo_db_def demo_organization_def demo_user_def demo_binding_def

lemma demo_ListOrganizations: "db_ListOrganizations demo_db =
    [demo_organization 4 ''root'' None True, demo_organization 3 ''b'' (Some 2) False, demo_organization 2 ''a'' (Some 4) False]"
  by (simp add: db_ListOrganizations_def organizations_def organization_less_def demo_rows)

lemma demo_ListBindings: "db_ListIAMRoleBindings demo_db =
    [(demo_binding 2 5 2 4 True, Some \<lparr>ro_ID = 2, ro_Code = IAMRoleAdmin\<rparr>, Some (demo_organization 4 ''root'' None True)),
     (demo_binding 3 7 2 2 True, Some \<lparr>ro_ID = 2, ro_Code = IAMRoleAdmin\<rparr>, Some (demo_organization 2 ''a'' (Some 4) False))]"
  by (simp add: db_ListIAMRoleBindings_def bindings_def role_by_id_def db_GetOrganizationByID_def organizations_def demo_rows)

lemma demo_inherited:
  "inherited_organizations (db_ListOrganizations demo_db) 4 = [demo_organization 3 ''b'' (Some 2) False, demo_organization 2 ''a'' (Some 4) False]"
  "inherited_organizations (db_ListOrganizations demo_db) 2 = [demo_organization 3 ''b'' (Some 2) False]"
  by (simp_all add: inherited_organizations_def isOrganizationDescendant_def organization_parents_def demo_ListOrganizations demo_organization_def)

lemma demo_permissions:
  "db_ListIAMPermissionsByRole 2 demo_db =
     [\<lparr>pm_ID = 8, pm_Code = ''organizations.item.manage'', pm_Resource = ''/organizations/:id'', pm_Action = ''(read|update|delete|create_child)''\<rparr>,
      \<lparr>pm_ID = 9, pm_Code = ''organizations.members.manage'', pm_Resource = ''/organizations/:id/members'', pm_Action = ''(read|write)''\<rparr>]"
  "db_ListIAMPermissionsByRole 3 demo_db = []"
  "idb_roles demo_db = [\<lparr>ro_ID = 2, ro_Code = IAMRoleAdmin\<rparr>, \<lparr>ro_ID = 3, ro_Code = IAMRoleUser\<rparr>]"
  by (simp_all add: db_ListIAMPermissionsByRole_def demo_db_def)

lemma demo_reload: "reloadAuthorization reference_casbin demo_sys = (Inr (), demo_sys\<lparr>sv_enf := demo_enforcer\<rparr>)"
  by (simp add: reloadAuthorization_def authorizer_reset_def load_role_def load_binding_def addPermission_def addBinding_def rebuildRoleLinks_def svc_run
      demo_sys_def demo_enforcer_def demo_ListBindings demo_inherited demo_permissions demo_binding_def demo_organization_def
      roleSubject_def userSubject_def organizationDomain_def demo_dec List.insert_def)

lemma reference_never_fails: "never_fails reference_casbin"
  by (simp add: never_fails_def)

section \<open>What a reload enforces\<close>

text \<open>C13: A reload that succeeds leaves the tables alone and makes the enforcer decide exactly what they grant: a user may do
  something in a domain if and only if a live binding of the user covers the domain (its organization, everything for the root
  organization, all organizations below it for an inheriting binding) and the bound role has a permission whose patterns match.\<close>

theorem reload_enforces_tables:
  assumes "casbin_enforcer cb" "reloadAuthorization cb s = (Inr (), s')"
  shows "sv_db s' = sv_db s \<and> enforce cb u d obj act s' = (Inr (authorized cb (sv_db s) u d obj act), s')"
  using casbin_enforcer.reload_reflects[OF assms] casbin_enforcer.reflects_Enforce[OF assms(1)] by (simp add: enforce_Inr)

abbreviation demo_loaded :: "ref_enforcer iam_sys" where
  "demo_loaded \<equiv> demo_sys\<lparr>sv_enf := demo_enforcer\<rparr>"

lemmas demo_enforce = ref_Enforce_def ref_role_def ref_keyMatch2_def ref_regexMatch_def demo_enforcer_def userSubject_def organizationDomain_def
  organizationObject_def demo_dec

lemma demo_decisions:
  "ref_Enforce demo_enforcer (userSubject 7) (organizationDomain 3) (organizationObject 3) ''delete''"
  "ref_Enforce demo_enforcer (userSubject 5) (organizationDomain 3) (organizationObject 3) ''update''"
  "ref_Enforce demo_enforcer (userSubject 5) (organizationDomain 4) (organizationObject 4) ''create_child''"
  "\<not> ref_Enforce demo_enforcer (userSubject 7) (organizationDomain 4) (organizationObject 4) ''update''"
  by (simp_all add: demo_enforce)

theorem reload_enforces_tables_witness:
  "reloadAuthorization reference_casbin demo_sys = (Inr (), demo_loaded)
   \<and> authorized reference_casbin demo_db 7 (organizationDomain 3) (organizationObject 3) ''delete''
   \<and> \<not> authorized reference_casbin demo_db 7 (organizationDomain 4) (organizationObject 4) ''update''"
  using reload_enforces_tables[OF reference.casbin_enforcer_axioms demo_reload, of 7 "organizationDomain 3" "organizationObject 3" "''delete''"]
    reload_enforces_tables[OF reference.casbin_enforcer_axioms demo_reload, of 7 "organizationDomain 4" "organizationObject 4" "''update''"]
    demo_decisions demo_reload
  by (simp add: enforce_Inr demo_sys_def)

section \<open>Moving an organization\<close>

lemma UpdateOrganizationFor_enforcer:
  assumes "UpdateOrganizationFor cb actor i name description parent setParent s = (Inr org, s')"
  shows "sv_enf s' = sv_enf s"
proof -
  obtain x t org' where "sv_enf t = sv_enf s" "exec (db_UpdateOrganization org') t = (Inr (), s')"
    using assms by (auto simp: UpdateOrganizationFor_def Let_def svc_bind_Inr svc_guard_Inr svc_some_Inr svc_wrap_Inr svc_return_Inr same_tables_def
        dest!: requirePermission_Inr query_InrD readsD[OF reads_set_parent])
  then show ?thesis by (auto simp: exec_Inr same_tables_def dest!: may_fail_same)
qed

text \<open>C27: After an organization was updated, also after it was moved to another parent, the enforcer still decides by the tables as
  they were before. The witness moves organization 3 away from organization 2: the administrator of 2 may still delete it, though the
  tables no longer grant that.\<close>

theorem move_keeps_old_decisions:
  assumes "casbin_enforcer cb" "reflects cb (sv_db s) (sv_enf s)"
    and "UpdateOrganizationFor cb actor i name description parent setParent s = (Inr org, s')"
  shows "enforce cb u d obj act s' = (Inr (authorized cb (sv_db s) u d obj act), s')"
  using casbin_enforcer.reflects_Enforce[OF assms(1,2)] UpdateOrganizationFor_enforcer[OF assms(3)] by (simp add: enforce_Inr)

definition moved_db :: iam_db where
  "moved_db = demo_db\<lparr>idb_organizations :=
     [demo_organization 2 ''a'' (Some 4) False, demo_organization 3 ''b'' (Some 4) False, demo_organization 4 ''root'' None True]\<rparr>"

lemma demo_GetOrganization:
  "db_GetOrganizationByID 3 demo_db = Some (demo_organization 3 ''b'' (Some 2) False)"
  "db_GetOrganizationByID 4 demo_db = Some (demo_organization 4 ''root'' None True)"
  by (simp_all add: db_GetOrganizationByID_def organizations_def demo_rows)

lemma demo_save: "db_UpdateOrganization (demo_organization 3 ''b'' (Some 4) False) demo_db = Inr ((), moved_db)"
  by (simp add: db_UpdateOrganization_def save_row_def moved_db_def demo_rows)

lemma demo_move: "UpdateOrganizationFor reference_casbin (Some 5) 3 [] [] (Some 4) True demo_loaded =
    (Inr (demo_organization 3 ''b'' (Some 4) False), demo_loaded\<lparr>sv_db := moved_db\<rparr>)"
proof -
  have permission: "requirePermission reference_casbin (Some 5) (organizationDomain j) (organizationObject j) action demo_loaded = (Inr (), demo_loaded)"
    if "ref_Enforce demo_enforcer (userSubject 5) (organizationDomain j) (organizationObject j) action" "action \<noteq> ''read''" for j action
    using that by (simp add: requirePermission_def svc_run)
  have query: "query f demo_loaded = (Inr (f demo_db), demo_loaded)" for f by (simp add: svc_run demo_sys_def)
  have "check_no_cycle (Suc n) 3 4 demo_loaded = (Inr (), demo_loaded)" for n
    by (simp add: svc_bind_def query svc_some_def svc_guard_def svc_return_def demo_GetOrganization demo_organization_def)
  from this[of 1023] have walk: "check_no_cycle 1024 3 4 demo_loaded = (Inr (), demo_loaded)" by simp
  have exec: "exec (db_UpdateOrganization (demo_organization 3 ''b'' (Some 4) False)) demo_loaded = (Inr (), demo_loaded\<lparr>sv_db := moved_db\<rparr>)"
    by (simp add: svc_run demo_sys_def demo_save)
  have org: "demo_organization 3 ''b'' (Some 2) False\<lparr>og_Description := [], og_ParentID := Some 4\<rparr> = demo_organization 3 ''b'' (Some 4) False"
    "og_Name (demo_organization 3 ''b'' (Some 2) False) = ''b''" "\<not> og_IsRoot (demo_organization 3 ''b'' (Some 2) False)"
    by (simp_all add: demo_organization_def)
  have trim: "trim_space [] = []" by (simp add: trim_space_def)
  show ?thesis
    by (simp add: UpdateOrganizationFor_def set_parent_def Let_def svc_bind_def svc_guard_def svc_return_def svc_wrap_def svc_some_def query permission
        demo_decisions walk demo_GetOrganization org trim exec)
qed

definition moved_enforcer :: ref_enforcer where
  "moved_enforcer = \<lparr>re_rules = re_rules demo_enforcer,
     re_groupings = [(''user:7'', ''role:admin'', ''org:2''), (''user:5'', ''role:admin'', ''org:3''),
       (''user:5'', ''role:admin'', ''org:2''), (''user:5'', ''role:admin'', globalDomain), (''user:5'', ''role:admin'', ''org:4'')]\<rparr>"

lemma moved_ListOrganizations: "db_ListOrganizations moved_db =
    [demo_organization 4 ''root'' None True, demo_organization 2 ''a'' (Some 4) False, demo_organization 3 ''b'' (Some 4) False]"
  by (simp add: db_ListOrganizations_def organizations_def organization_less_def moved_db_def demo_organization_def)

lemma moved_rest:
  "db_ListIAMRoleBindings moved_db = db_ListIAMRoleBindings demo_db"
  "db_ListIAMPermissionsByRole i moved_db = db_ListIAMPermissionsByRole i demo_db" "idb_roles moved_db = idb_roles demo_db"
  by (simp_all add: db_ListIAMRoleBindings_def bindings_def role_by_id_def db_GetOrganizationByID_def organizations_def
      db_ListIAMPermissionsByRole_def moved_db_def demo_rows)

lemma moved_inherited:
  "inherited_organizations (db_ListOrganizations moved_db) 4 = [demo_organization 2 ''a'' (Some 4) False, demo_organization 3 ''b'' (Some 4) False]"
  "inherited_organizations (db_ListOrganizations moved_db) 2 = []"
  by (simp_all add: inherited_organizations_def isOrganizationDescendant_def organization_parents_def moved_ListOrganizations demo_organization_def)

lemma moved_reload: "reloadAuthorization reference_casbin (demo_loaded\<lparr>sv_db := moved_db\<rparr>) = (Inr (), demo_loaded\<lparr>sv_db := moved_db, sv_enf := moved_enforcer\<rparr>)"
  by (simp add: reloadAuthorization_def authorizer_reset_def load_role_def load_binding_def addPermission_def addBinding_def rebuildRoleLinks_def svc_run
      demo_sys_def demo_enforcer_def moved_enforcer_def moved_rest moved_inherited demo_ListBindings demo_permissions demo_binding_def demo_organization_def
      roleSubject_def userSubject_def organizationDomain_def demo_dec List.insert_def)

lemma demo_reflects: "reflects reference_casbin demo_db demo_enforcer"
  using reference.reload_reflects[OF demo_reload] by (simp add: demo_sys_def)

lemma moved_not_authorized: "\<not> authorized reference_casbin moved_db 7 (organizationDomain 3) (organizationObject 3) ''delete''"
proof -
  have "reflects reference_casbin moved_db moved_enforcer" using reference.reload_reflects[OF moved_reload] by simp
  from reference.reflects_Enforce[OF this, of 7 "organizationDomain 3" "organizationObject 3" "''delete''"]
  show ?thesis by (simp add: demo_enforce moved_enforcer_def)
qed

theorem move_keeps_old_decisions_witness:
  "enforce reference_casbin 7 (organizationDomain 3) (organizationObject 3) ''delete'' (demo_loaded\<lparr>sv_db := moved_db\<rparr>)
     = (Inr (authorized reference_casbin demo_db 7 (organizationDomain 3) (organizationObject 3) ''delete''), demo_loaded\<lparr>sv_db := moved_db\<rparr>)
   \<and> authorized reference_casbin demo_db 7 (organizationDomain 3) (organizationObject 3) ''delete''
   \<and> \<not> authorized reference_casbin moved_db 7 (organizationDomain 3) (organizationObject 3) ''delete''"
  using move_keeps_old_decisions[OF reference.casbin_enforcer_axioms _ demo_move, of 7 "organizationDomain 3" "organizationObject 3" "''delete''"]
    demo_reflects demo_decisions(1) moved_not_authorized
  by (simp add: demo_sys_def enforce_Inr)

section \<open>Who changes what\<close>


definition demo_env :: iam_env where
  "demo_env = \<lparr>env_generate = Inr ''a-generated-password'', env_hash = (\<lambda>p. Inr (rev p))\<rparr>"


section \<open>The hierarchy\<close>



section \<open>References and reloads\<close>

text \<open>C31: The tables stay well formed in every state of an installation, whatever statements fail: role codes, permission codes, account
  identifiers and memberships are unique, and every role binding, live or deleted, names a role that exists.\<close>

theorem tables_stay_typed:
  "iam_reachable cb env s \<Longrightarrow> iam_keys (sv_db s) \<and> roles_known (sv_db s)"
  using reachable_keys reachable_roles_known by blast

text \<open>An installation after its first account was registered and the service was started.\<close>

definition first_start :: "ref_enforcer iam_sys" where
  "first_start = snd (EnsureOrganizationBootstrap reference_casbin (snd (NewIAMService reference_casbin
     (snd (exec (db_CreateUser ''a'' ''a@x'' ''h'' ''active'') \<lparr>sv_db = empty_iam_db, sv_enf = demo_enforcer, sv_faults = []\<rparr>)))))"

lemma first_start_reachable: "iam_reachable reference_casbin demo_env first_start"
  unfolding first_start_def
  by (intro iam_reachable.bootstrap[OF _ prod.collapse[symmetric]] iam_reachable.startup[OF _ prod.collapse[symmetric]]
      iam_reachable.register[OF _ prod.collapse[symmetric]] iam_reachable.install) simp

theorem tables_stay_typed_witness: "iam_keys (sv_db first_start) \<and> roles_known (sv_db first_start)"
  using tables_stay_typed[OF first_start_reachable] .

text \<open>C30: A reload recovers: in every state of an installation, whatever earlier operations left of the enforcer, a reload whose statements
  do not fail returns without an error, leaves the tables alone, and brings the enforcer into agreement with them.\<close>

theorem reload_recovers:
  assumes "casbin_enforcer cb" "never_fails cb" "iam_reachable cb env s" "sv_faults s = []"
  shows "\<exists>s'. reloadAuthorization cb s = (Inr (), s') \<and> sv_db s' = sv_db s \<and> reflects cb (sv_db s) (sv_enf s')"
proof -
  have "runs (sv_db s) (reloadAuthorization cb)"
    using assms(2) roles_known_lookup[OF reachable_roles_known[OF assms(3)]] by (rule runs_reload)
  then obtain s' where "reloadAuthorization cb s = (Inr (), s')" using runsD[OF _ assms(4) refl] by fastforce
  then show ?thesis using casbin_enforcer.reload_reflects[OF assms(1)] by blast
qed

theorem reload_recovers_witness:
  "\<exists>s'. reloadAuthorization reference_casbin (first_start\<lparr>sv_enf := demo_enforcer, sv_faults := []\<rparr>) = (Inr (), s') \<and>
     reflects reference_casbin (sv_db first_start) (sv_enf s')"
  using reload_recovers[OF reference.casbin_enforcer_axioms reference_never_fails iam_reachable.process[OF first_start_reachable], of "[]" demo_enforcer] by auto

text \<open>C33: The walk along the parents stops after as many hops as there are organizations, also when the parents form a cycle or
  point outside the list, and that many hops are enough: it answers true exactly for the proper ancestors.\<close>

theorem descendant_walk_complete:
  "isOrganizationDescendant orgs candidate ancestor \<longleftrightarrow> (candidate, ancestor) \<in> {(c, p). organization_parents orgs c = Some p}\<^sup>+"
  using isOrganizationDescendant_iff by (simp add: parent_edges_def)

section \<open>Agreement of enforcer and tables\<close>

text \<open>C15: Every management operation that succeeds and is not a move of an organization leaves the enforcer in agreement with the
  tables: the policy and the groupings in memory are the ones a reload of the tables would build.\<close>

theorem enforcer_in_step:
  assumes "casbin_enforcer cb" "org_forest (sv_db s)" "reflects cb (sv_db s) (sv_enf s)"
    and "run_op cb env actor op s = (Inr (), s')" "\<not> moves op"
  shows "reflects cb (sv_db s') (sv_enf s')"
proof -
  have distinct: "distinct (map og_ID (idb_organizations (sv_db s)))" using assms(2) by (simp add: org_forest_def)
  note reflecting = reflecting_CreateUserFor[OF assms(1)] reflecting_CreateOrganizationFor[OF assms(1)] reflecting_members[OF assms(1)]
    reflecting_DeleteOrganizationFor[OF assms(1)] reflecting_SetUserFeaturePolicy[OF assms(1)]
  have ends: "reflects cb (sv_db s') (sv_enf s')" if "reflecting cb (run_op cb env actor op)"
    using that assms(4) by (auto simp: reflecting_def)
  show ?thesis
  proof (cases op)
    case OpUpdateUser
    with assms(4) show ?thesis by (auto simp: svc_void_def svc_ok intro: UpdateUserFor_reflects[OF assms(1,3)])
  next
    case OpResetUserPassword
    with assms(4) show ?thesis by (auto intro: ResetUserPasswordFor_reflects[OF assms(3)])
  next
    case OpDeleteUser
    with assms(4) show ?thesis by (auto intro: DeleteUserFor_reflects[OF assms(1,3)])
  next
    case OpUpdateOrganization
    with assms(4,5) show ?thesis by (auto simp: svc_void_def svc_ok intro: UpdateOrganizationFor_reflects[OF assms(3) distinct])
  qed (auto intro!: ends reflecting_void reflecting)
qed

lemma acyclic_measure: "(\<And>a b. (a, b) \<in> R \<Longrightarrow> f b < (f a :: nat)) \<Longrightarrow> acyclic R"
proof -
  assume descending: "\<And>a b. (a, b) \<in> R \<Longrightarrow> f b < f a"
  have "f b < f a" if "(a, b) \<in> R\<^sup>+" for a b
    using that by (induction rule: trancl.induct) (use descending less_trans in blast)+
  then show "acyclic R" unfolding acyclic_def by fastforce
qed

lemma demo_forest: "org_forest demo_db"
proof -
  have orgs: "organizations demo_db = idb_organizations demo_db" by (simp add: organizations_def demo_rows)
  have dist: "distinct (map og_ID (idb_organizations demo_db))" by (simp add: demo_rows)
  have "acyclic (parent_edges (idb_organizations demo_db))"
    by (rule acyclic_measure[where f = "\<lambda>i. if i = 3 then 2 else if i = 2 then 1 else 0"])
       (auto simp: parent_edges_iff[OF dist], auto simp: demo_rows)
  then show ?thesis unfolding org_forest_def orgs using dist by (simp add: demo_rows)
qed

theorem enforcer_in_step_witness:
  "\<exists>s'. run_op reference_casbin demo_env (Some 5) (OpUpdateOrganization 3 [] ''text'' None False) demo_loaded = (Inr (), s')
   \<and> sv_db s' \<noteq> demo_db \<and> reflects reference_casbin (sv_db s') (sv_enf s')"
proof -
  have permission: "requirePermission reference_casbin (Some 5) (organizationDomain 3) (organizationObject 3) ''update'' demo_loaded = (Inr (), demo_loaded)"
    by (simp add: requirePermission_def svc_run demo_decisions)
  have query: "query f demo_loaded = (Inr (f demo_db), demo_loaded)" for f by (simp add: svc_run demo_sys_def)
  have trim: "trim_space [] = []" "trim_space ''text'' = ''text''" by (simp_all add: trim_space_def is_space_def)
  let ?org = "(demo_organization 3 ''b'' (Some 2) False)\<lparr>og_Description := ''text''\<rparr>"
  let ?db = "demo_db\<lparr>idb_organizations := [demo_organization 2 ''a'' (Some 4) False, ?org, demo_organization 4 ''root'' None True]\<rparr>"
  have exec: "exec (db_UpdateOrganization ?org) demo_loaded = (Inr (), demo_loaded\<lparr>sv_db := ?db\<rparr>)"
    by (simp add: svc_run demo_sys_def db_UpdateOrganization_def save_row_def demo_rows)
  have "\<not> og_IsRoot (demo_organization 3 ''b'' (Some 2) False)" by (simp add: demo_organization_def)
  then have run: "run_op reference_casbin demo_env (Some 5) (OpUpdateOrganization 3 [] ''text'' None False) demo_loaded = (Inr (), demo_loaded\<lparr>sv_db := ?db\<rparr>)"
    by (simp add: svc_void_def UpdateOrganizationFor_def set_parent_def Let_def svc_bind_def svc_guard_def svc_return_def svc_wrap_def svc_some_def query
        permission demo_GetOrganization trim exec)
  have "?db \<noteq> demo_db" by (simp add: demo_rows)
  moreover have "reflects reference_casbin (sv_db (demo_loaded\<lparr>sv_db := ?db\<rparr>)) (sv_enf (demo_loaded\<lparr>sv_db := ?db\<rparr>))"
    by (rule enforcer_in_step[OF reference.casbin_enforcer_axioms _ _ run]) (simp_all add: demo_sys_def demo_forest demo_reflects)
  ultimately show ?thesis using run by (intro exI[of _ "demo_loaded\<lparr>sv_db := ?db\<rparr>"]) simp
qed

section \<open>Members\<close>

text \<open>C16: Setting or removing a member never takes the last administrator away from an organization: when the organization has a
  member the API shows as administrator before the operation, it has one afterwards, however the operation ends.\<close>

theorem last_administrator_stays:
  assumes "iam_keys (sv_db s)" "has_admin i (sv_db s)"
    and "op = OpUpsertMember i u role \<or> op = OpUpsertMemberByEmail i email role \<or> op = OpRemoveMember i u"
    and "run_op cb env actor op s = (r, s')"
  shows "has_admin i (sv_db s')"
proof -
  have email: "pres (has_admin i) (UpsertOrganizationMemberByEmailFor cb actor i email role) s"
    unfolding UpsertOrganizationMemberByEmailFor_def
    by (intro pres_checks UpsertMember_keeps_admin) (use assms(1) in \<open>auto simp: svc_some_Inr same_tables_def dest!: query_InrD\<close>)
  from assms(3) have "pres (has_admin i) (run_op cb env actor op) s"
    by (elim disjE) (simp_all add: pres_void UpsertMember_keeps_admin[OF assms(1)] RemoveMember_keeps_admin[OF assms(1)] email)
  then show ?thesis using presD assms(2,4) by blast
qed

lemma demo_has_admin: "has_admin 2 demo_db" "iam_keys demo_db"
proof -
  have "7 \<in> org_admins 2 demo_db"
    by (simp add: org_admins_def db_ListOrganizationMembers_def memberships_def db_GetIAMRoleBinding_def bindings_def role_by_id_def is_admin_binding_def demo_rows)
  then show "has_admin 2 demo_db" by (auto simp: has_admin_def)
  show "iam_keys demo_db" by (simp add: iam_keys_def demo_rows)
qed

text \<open>Removing the only administrator of organization 2 is refused.\<close>

theorem last_administrator_stays_witness:
  "\<exists>s'. run_op reference_casbin demo_env (Some 5) (OpRemoveMember 2 7) demo_loaded
      = (Inl (errw ErrInvalid ''organization must keep at least one administrator''), s') \<and> has_admin 2 (sv_db s')"
proof -
  have "ref_Enforce demo_enforcer (userSubject 5) (organizationDomain 2) (organizationMembersObject 2) ''write''"
    by (simp add: demo_enforce organizationMembersObject_def)
  then have permission: "requirePermission reference_casbin (Some 5) (organizationDomain 2) (organizationMembersObject 2) ''write'' demo_loaded = (Inr (), demo_loaded)"
    by (simp add: requirePermission_def svc_run)
  have query: "query f demo_loaded = (Inr (f demo_db), demo_loaded)" for f by (simp add: svc_run demo_sys_def)
  have rows: "db_ListOrganizationMembers 2 demo_db = [\<lparr>mb_ID = 3, mb_OrganizationID = 2, mb_UserID = 7, mb_Deleted = False\<rparr>]"
    "db_GetIAMRoleBinding 2 7 demo_db = Some (demo_binding 3 7 2 2 True, Some \<lparr>ro_ID = 2, ro_Code = IAMRoleAdmin\<rparr>)"
    by (simp_all add: db_ListOrganizationMembers_def memberships_def db_GetIAMRoleBinding_def bindings_def role_by_id_def demo_rows)
  have run: "run_op reference_casbin demo_env (Some 5) (OpRemoveMember 2 7) demo_loaded
      = (Inl (errw ErrInvalid ''organization must keep at least one administrator''), demo_loaded)"
    by (simp add: RemoveOrganizationMemberFor_def listOrganizationMembersWithRoles_def svc_bind_def svc_return_def svc_guard_def svc_fail_def query permission rows
        is_admin_binding_def count_admins_def)
  have "has_admin 2 (sv_db demo_loaded)"
    by (rule last_administrator_stays[OF _ _ _ run, where u = 7 and role = "[]" and email = "[]"]) (simp_all add: demo_sys_def demo_has_admin)
  with run show ?thesis by blast
qed

section \<open>Features\<close>

text \<open>C32: The policy of the user role reads back as it was set: after a successful change the enabled features are the selected ones,
  in the order of the catalog, whatever was enabled before.\<close>

theorem feature_policy_reads_back:
  assumes "iam_keys (sv_db s)" "SetUserFeaturePolicy cb actor enabled s = (Inr (), s')"
    and "UserFeaturePolicy cb actor' t = (Inr policy, t')" "sv_db t = sv_db s'"
  shows "fp_Enabled policy = filter (\<lambda>code. code \<in> set enabled) (map ft_Code featureCatalog)"
  using assms by (rule feature_policy_roundtrip)

text \<open>An installation with the feature permissions; audit and storage upload are enabled.\<close>

definition feature_db :: iam_db where
  "feature_db = demo_db\<lparr>
     idb_permissions := map (\<lambda>(i, f). \<lparr>pm_ID = i + 10, pm_Code = ft_Code f, pm_Resource = ''/features/'' @ ft_Code f, pm_Action = ''use''\<rparr>) (enumerate 0 allFeatures),
     idb_role_permissions := [(2, 18), (3, 12), (3, 13)]\<rparr>"

definition feature_enforcer :: ref_enforcer where
  "feature_enforcer = \<lparr>re_rules = [(''role:admin'', globalDomain, ''/features/permissions.manage'', ''use'')],
     re_groupings = [(''user:5'', ''role:admin'', globalDomain)]\<rparr>"

definition feature_sys :: "ref_enforcer iam_sys" where
  "feature_sys = \<lparr>sv_db = feature_db, sv_enf = feature_enforcer, sv_faults = []\<rparr>"

lemma feature_may_manage: "RequireFeature reference_casbin (Some 5) FeaturePermissions (feature_sys\<lparr>sv_db := feature_db\<lparr>idb_role_permissions := rps\<rparr>\<rparr>)
   = (Inr (), feature_sys\<lparr>sv_db := feature_db\<lparr>idb_role_permissions := rps\<rparr>\<rparr>)"
  by (simp add: RequireFeature_def require_feature_def hasPermission_def svc_run feature_sys_def feature_db_def db_GetRootOrganization_def organizations_def
      demo_rows ref_Enforce_def ref_role_def ref_keyMatch2_def ref_regexMatch_def feature_enforcer_def userSubject_def demo_dec)

lemma feature_query: "query f feature_sys = (Inr (f feature_db), feature_sys)"
  by (simp add: svc_run feature_sys_def)

lemma svc_map_same_state: "(\<And>x. x \<in> set xs \<Longrightarrow> f x s = (Inr (g x), s)) \<Longrightarrow> svc_map f xs s = (Inr (map g xs), s)"
  by (induction xs) (simp_all add: svc_bind_def svc_return_def)

lemma feature_lookup:
  "map (\<lambda>f. map_option pm_ID (db_GetIAMPermissionByCode (ft_Code f) feature_db)) featureCatalog = map Some [10, 11, 12, 13, 14, 15, 16, 17]"
  by (simp add: db_GetIAMPermissionByCode_def feature_db_def allFeatures_def featureCatalog_def)

lemma feature_permissions:
  "svc_map feature_permission featureCatalog feature_sys = (Inr (zip (map ft_Code featureCatalog) [10, 11, 12, 13, 14, 15, 16, 17]), feature_sys)"
proof -
  let ?g = "\<lambda>f. (ft_Code f, the (map_option pm_ID (db_GetIAMPermissionByCode (ft_Code f) feature_db)))"
  have "feature_permission f feature_sys = (Inr (?g f), feature_sys)" if "f \<in> set featureCatalog" for f
  proof -
    from that have "map_option pm_ID (db_GetIAMPermissionByCode (ft_Code f) feature_db) \<in> set (map Some [10, 11, 12, 13, 14, 15, 16, 17])"
      unfolding feature_lookup[symmetric] by simp
    then obtain p where "db_GetIAMPermissionByCode (ft_Code f) feature_db = Some p" by (cases "db_GetIAMPermissionByCode (ft_Code f) feature_db") auto
    then show ?thesis by (simp add: feature_permission_def svc_bind_def svc_return_def svc_some_def feature_query)
  qed
  then have "svc_map feature_permission featureCatalog feature_sys = (Inr (map ?g featureCatalog), feature_sys)" by (rule svc_map_same_state)
  moreover have "map ?g featureCatalog = zip (map ft_Code featureCatalog) (map the (map (\<lambda>f. map_option pm_ID (db_GetIAMPermissionByCode (ft_Code f) feature_db)) featureCatalog))"
    by (simp add: zip_map_map zip_same_conv_map)
  ultimately show ?thesis unfolding feature_lookup by simp
qed

abbreviation feature_db' :: iam_db where
  "feature_db' \<equiv> feature_db\<lparr>idb_role_permissions := [(2, 18), (3, 10), (3, 11)]\<rparr>"

lemma feature_replace:
  "exec (db_ReplaceIAMRolePermissionSubset 3 [10, 11, 12, 13, 14, 15, 16, 17] [10, 11]) feature_sys = (Inr (), feature_sys\<lparr>sv_db := feature_db'\<rparr>)"
  by (simp add: svc_run feature_sys_def db_ReplaceIAMRolePermissionSubset_def feature_db_def)

theorem feature_policy_reads_back_witness:
  "\<exists>s' policy t'. SetUserFeaturePolicy reference_casbin (Some 5) [FeatureFilesUpload, FeatureFilesRead] feature_sys = (Inr (), s')
   \<and> UserFeaturePolicy reference_casbin (Some 5) (s'\<lparr>sv_enf := feature_enforcer\<rparr>) = (Inr policy, t')
   \<and> fp_Enabled policy = filter (\<lambda>code. code \<in> {FeatureFilesUpload, FeatureFilesRead}) (map ft_Code featureCatalog)"
proof -
  have role: "db_GetIAMRoleByCode IAMRoleUser feature_db = Some \<lparr>ro_ID = 3, ro_Code = IAMRoleUser\<rparr>"
    by (simp add: db_GetIAMRoleByCode_def feature_db_def demo_db_def)
  have "runs feature_db' (reloadAuthorization reference_casbin)"
    by (rule runs_reload[OF reference_never_fails]) (auto simp: feature_db_def bindings_def role_by_id_def demo_rows)
  then obtain s' where reload: "reloadAuthorization reference_casbin (feature_sys\<lparr>sv_db := feature_db'\<rparr>) = (Inr (), s')"
    and s': "sv_db s' = feature_db'" "sv_faults s' = []"
    using runsD[of feature_db' "reloadAuthorization reference_casbin" "feature_sys\<lparr>sv_db := feature_db'\<rparr>"] by (auto simp: feature_sys_def)
  have manage: "RequireFeature reference_casbin (Some 5) FeaturePermissions feature_sys = (Inr (), feature_sys)"
    using feature_may_manage[of "[(2, 18), (3, 12), (3, 13)]"] by (simp add: feature_sys_def feature_db_def)
  have ids: "map snd (zip (map ft_Code featureCatalog) [10, 11, 12, 13, 14, 15, 16, 17 :: nat]) = [10, 11, 12, 13, 14, 15, 16, 17]"
    "map snd (filter (\<lambda>(code, _). code \<in> set [FeatureFilesUpload, FeatureFilesRead]) (zip (map ft_Code featureCatalog) [10, 11, 12, 13, 14, 15, 16, 17 :: nat])) = [10, 11]"
    "list_all (\<lambda>code. code \<in> ft_Code ` set featureCatalog) [FeatureFilesUpload, FeatureFilesRead]"
    by (simp_all add: featureCatalog_def)
  have set: "SetUserFeaturePolicy reference_casbin (Some 5) [FeatureFilesUpload, FeatureFilesRead] feature_sys = (Inr (), s')"
    unfolding SetUserFeaturePolicy_def
    by (simp add: svc_bind_def manage svc_guard_def svc_return_def svc_some_def feature_query role feature_permissions feature_replace reload ids[simplified])
  have t: "s'\<lparr>sv_enf := feature_enforcer\<rparr> = feature_sys\<lparr>sv_db := feature_db'\<rparr>"
    using s' by (simp add: feature_sys_def)
  have query: "query f (feature_sys\<lparr>sv_db := feature_db'\<rparr>) = (Inr (f feature_db'), feature_sys\<lparr>sv_db := feature_db'\<rparr>)" for f
    by (simp add: svc_run feature_sys_def)
  have role': "db_GetIAMRoleByCode IAMRoleUser feature_db' = Some \<lparr>ro_ID = 3, ro_Code = IAMRoleUser\<rparr>" using role by (simp add: db_GetIAMRoleByCode_def)
  obtain policy where read: "UserFeaturePolicy reference_casbin (Some 5) (s'\<lparr>sv_enf := feature_enforcer\<rparr>) = (Inr policy, feature_sys\<lparr>sv_db := feature_db'\<rparr>)"
    unfolding t UserFeaturePolicy_def by (simp add: svc_bind_def svc_return_def svc_some_def query role' feature_may_manage)
  have "iam_keys (sv_db feature_sys)" by (simp add: iam_keys_def feature_sys_def feature_db_def allFeatures_def featureCatalog_def demo_rows)
  from feature_policy_reads_back[OF this set read] set read show ?thesis by auto
qed

section \<open>The account the bootstrap promotes\<close>

text \<open>C29: Every start of the service runs the bootstrap, and a successful bootstrap makes the live account with the lowest identifier
  an administrator of the whole installation when that account has no binding on the root organization: by an inheriting administrator
  binding there. In the witness this is an ordinary member of one organization, once the account that was created first is deleted.\<close>

theorem bootstrap_promotes_lowest_account:
  assumes "iam_keys (sv_db s)" "db_GetRootOrganization (sv_db s) = Some root" "users (sv_db s) \<noteq> []"
    and "root_binding (sv_db s) (us_ID (first_account (sv_db s))) = None"
    and "EnsureOrganizationBootstrap cb s = (Inr (), s')"
  shows "installation_admin (sv_db s') (us_ID (first_account (sv_db s)))"
  using assms by (rule bootstrap_promotes_first_account)

text \<open>Account 5, created first, is deleted; 7 is a user of organization 2; 8 administers the installation.\<close>

definition boot_db :: iam_db where
  "boot_db = demo_db\<lparr>
     idb_users := [(demo_user 5 ''root@x'')\<lparr>us_Deleted := True\<rparr>, demo_user 7 ''lead@x'', demo_user 8 ''second@x''],
     idb_memberships := [\<lparr>mb_ID = 2, mb_OrganizationID = 2, mb_UserID = 7, mb_Deleted = False\<rparr>, \<lparr>mb_ID = 3, mb_OrganizationID = 4, mb_UserID = 8, mb_Deleted = False\<rparr>],
     idb_bindings := [demo_binding 2 7 3 2 False, demo_binding 3 8 2 4 True]\<rparr>"

definition booted_db :: iam_db where
  "booted_db = boot_db\<lparr>
     idb_memberships := idb_memberships boot_db @ [\<lparr>mb_ID = 4, mb_OrganizationID = 4, mb_UserID = 7, mb_Deleted = False\<rparr>],
     idb_bindings := idb_bindings boot_db @ [demo_binding 4 7 2 4 True]\<rparr>"

definition boot_sys :: "ref_enforcer iam_sys" where
  "boot_sys = \<lparr>sv_db = boot_db, sv_enf = demo_enforcer, sv_faults = []\<rparr>"

lemma boot_lists:
  "db_ListUsers 0 100000 boot_db = [demo_user 7 ''lead@x'', demo_user 8 ''second@x'']"
  "db_GetRootOrganization boot_db = Some (demo_organization 4 ''root'' None True)"
  "db_GetIAMRoleBinding 4 7 boot_db = None"
  by (simp_all add: db_ListUsers_def users_def boot_db_def db_GetRootOrganization_def organizations_def db_GetIAMRoleBinding_def bindings_def demo_rows)

lemma boot_loop:
  "svc_foreach (bootstrap_user (demo_organization 4 ''root'' None True)) [(0, demo_user 7 ''lead@x''), (Suc 0, demo_user 8 ''second@x'')] boot_sys
   = (Inr (), boot_sys\<lparr>sv_db := booted_db\<rparr>)"
  by (simp add: bootstrap_user_def bootstrap_membership_def bootstrap_binding_def svc_run boot_sys_def booted_db_def boot_db_def demo_rows
      db_GetOrganizationMembership_def memberships_def db_UpsertOrganizationMembership_def db_GetIAMRoleBinding_def bindings_def db_GetIAMRoleByCode_def
      db_UpsertIAMRoleBinding_def next_id_def Let_def)

theorem bootstrap_promotes_lowest_account_witness:
  "\<exists>s'. EnsureOrganizationBootstrap reference_casbin boot_sys = (Inr (), s') \<and> \<not> installation_admin boot_db 7 \<and> installation_admin (sv_db s') 7"
proof -
  have "runs booted_db (reloadAuthorization reference_casbin)"
    by (rule runs_reload[OF reference_never_fails]) (auto simp: booted_db_def boot_db_def bindings_def role_by_id_def demo_rows)
  then obtain s' where reload: "reloadAuthorization reference_casbin (boot_sys\<lparr>sv_db := booted_db\<rparr>) = (Inr (), s')"
    using runsD[of booted_db "reloadAuthorization reference_casbin" "boot_sys\<lparr>sv_db := booted_db\<rparr>"] by (auto simp: boot_sys_def)
  have query: "query f boot_sys = (Inr (f boot_db), boot_sys)" "may_fail boot_sys = (Inr (), boot_sys)" for f by (simp_all add: svc_run boot_sys_def)
  have sorted: "go_sort (\<lambda>a b. us_ID a < us_ID b) [demo_user 7 ''lead@x'', demo_user 8 ''second@x''] = [demo_user 7 ''lead@x'', demo_user 8 ''second@x'']"
    by (simp add: demo_user_def)
  have run: "EnsureOrganizationBootstrap reference_casbin boot_sys = (Inr (), s')"
    unfolding EnsureOrganizationBootstrap_def
    by (simp add: svc_bind_def svc_wrap_def svc_return_def query boot_lists sorted boot_loop reload del: svc_foreach.simps go_sort.simps)
  have first: "us_ID (first_account boot_db) = 7" by (simp add: first_account_def boot_lists sorted) (simp add: demo_user_def)
  have root: "root_binding boot_db 7 = None" by (simp add: root_binding_def boot_lists demo_organization_def)
  have "installation_admin (sv_db s') 7"
    using bootstrap_promotes_lowest_account[of boot_sys "demo_organization 4 ''root'' None True" reference_casbin s'] run first root boot_lists(2)
    by (simp add: boot_sys_def iam_keys_def boot_db_def users_def demo_rows)
  then show ?thesis using run root by (auto simp: installation_admin_def)
qed

end
