(* ===== verification/Iam_Access_Properties.thy ===== *)
theory Iam_Access_Properties
  imports Iam_Middleware Iam_Properties
begin

text \<open>
  The properties of signing in: personal access tokens over whole histories, what a served request has passed, and the way of an account from
  its creation to a session.
\<close>

section \<open>Personal access tokens\<close>

text \<open>C18: A personal access token authenticates only its owner. Whatever happened to an installation since it was empty, a text that is
  accepted as a token at some time belongs to a live account, and to this very account a token was handed out whose stored hash
  accepts the text, whose stored prefix is the text's, which is not expired at that time and which was not revoked.\<close>

theorem token_authenticates_owner:
  assumes "sv_db s0 = empty_iam_db" "auth_run cb bc s0 I s" "GetUserByPAT bc now presented ip s = (Inr (user, i, ip'), s')"
  shows "user \<in> set (users (sv_db s)) \<and>
    (\<exists>expires plain hash. (i, us_ID user, expires, plain) \<in> set I \<and> pat_prefix (trim_space presented) = pat_prefix plain \<and>
      bc_GenerateFromPassword bc plain patBcryptCost = Inr hash \<and> bc_CompareHashAndPassword bc hash (trim_space presented) = None \<and>
      (\<forall>t. expires = Some t \<longrightarrow> now \<le> t)) \<and>
    (\<exists>k \<in> set (idb_tokens (sv_db s)). tk_ID k = i \<and> tk_RevokedAt k = None)"
proof -
  obtain k where k: "k \<in> set (idb_tokens (sv_db s))" "tk_ID k = i" "tk_RevokedAt k = None" "tk_UserID k = us_ID user"
      "tk_TokenPrefix k = pat_prefix (trim_space presented)" "bc_CompareHashAndPassword bc (tk_TokenHash k) (trim_space presented) = None"
      "\<And>t. tk_ExpiresAt k = Some t \<Longrightarrow> now \<le> t"
    and user: "user \<in> set (users (sv_db s))"
    using GetUserByPAT_Inr[OF assms(3)] by blast
  obtain plain where "(tk_ID k, tk_UserID k, tk_ExpiresAt k, plain) \<in> set I" "tk_TokenPrefix k = pat_prefix plain"
      "bc_GenerateFromPassword bc plain patBcryptCost = Inr (tk_TokenHash k)"
    using tokens_issued_run[OF assms(2,1)] k(1) unfolding tokens_issued_def by blast
  with k user show ?thesis by metis
qed

text \<open>C20: Revoking is final: once the owner's request to revoke a token has succeeded, no later state of the installation, whatever
  happens in between, accepts any text as that token.\<close>

theorem revoked_token_stays_dead:
  assumes "sv_db s0 = empty_iam_db" "auth_run cb bc s0 I s" "(i, u, expires, plain) \<in> set I"
    and "RevokePAT now u i s = (Inr (), s1)" "auth_run cb bc s1 J t" "GetUserByPAT bc now' presented ip t = (Inr (user, j, ip'), t')"
  shows "j \<noteq> i"
proof -
  have issued: "tokens_issued bc I (idb_tokens (sv_db s))" using assms(1,2) by (blast intro: tokens_issued_run)
  then obtain k where "k \<in> set (idb_tokens (sv_db s))" "tk_ID k = i" "tk_UserID k = u"
    using assms(3) unfolding tokens_issued_def by blast
  then have "revoked i (idb_tokens (sv_db s1))"
    using RevokePAT_revokes[OF assms(4)] issued unfolding tokens_issued_def by blast
  then have "revoked i (idb_tokens (sv_db t))" using revoked_run[OF assms(5)] by blast
  then show ?thesis using GetUserByPAT_Inr[OF assms(6)] revoked_unmatched by blast
qed


text \<open>The plaintext of a token: its prefix and lower-case letters and digits.\<close>

lemma pat_char_plain: "n < 32 \<Longrightarrow> \<not> is_space (to_lower_char (base32_char n))"
proof -
  assume "n < 32"
  then have "of_char (to_lower_char (base32_char n)) \<ge> (50 :: nat)" by (simp add: to_lower_char_def base32_char_def Let_def)
  moreover have "is_space c \<Longrightarrow> of_char c < (50 :: nat)" for c by (auto simp: is_space_def)
  ultimately show ?thesis by fastforce
qed

lemma trim_space_plain: "(\<And>c. c \<in> set s \<Longrightarrow> \<not> is_space c) \<Longrightarrow> trim_space s = s"
proof -
  assume plain: "\<And>c. c \<in> set s \<Longrightarrow> \<not> is_space c"
  then have "dropWhile is_space s = s" "dropWhile is_space (rev s) = rev s" by (auto simp: dropWhile_eq_self_iff hd_rev)
  then show ?thesis by (simp add: trim_space_def)
qed

lemma pat_plaintext_text:
  assumes "length raw = patRandomBytes"
  shows "trim_space (pat_plaintext raw) = pat_plaintext raw" "take (length PATPlaintextPrefix) (pat_plaintext raw) = PATPlaintextPrefix"
proof -
  have base: "set (base32_encode raw) \<subseteq> base32_char ` {..<32}"
    using base32_encode_whole(2)[of raw 5] assms by (simp add: patRandomBytes_def)
  have "\<not> is_space c" if c: "c \<in> set (pat_plaintext raw)" for c
  proof (cases "c \<in> set PATPlaintextPrefix")
    case True
    then show ?thesis by (auto simp: PATPlaintextPrefix_def is_space_def)
  next
    case False
    then obtain d where "d \<in> set (base32_encode raw)" "c = to_lower_char d"
      using c set_dropWhileD by (fastforce simp: pat_plaintext_def to_lower_def)
    then show ?thesis using base pat_char_plain by auto
  qed
  then show "trim_space (pat_plaintext raw) = pat_plaintext raw" by (rule trim_space_plain)
  show "take (length PATPlaintextPrefix) (pat_plaintext raw) = PATPlaintextPrefix" by (simp add: pat_plaintext_def)
qed

section \<open>Requests\<close>


section \<open>Accounts\<close>

text \<open>C34: The status of an account is checked when it signs in and never again: for an account that is inactive or locked signing in is
  refused whatever the password, but a session token issued before still authenticates it until the token expires.\<close>

theorem disabled_account_keeps_access:
  assumes "us_Status user \<noteq> ''active''" "db_GetUserByEmail email (sv_db s) = Some user" "db_GetUserByID (us_ID user) (sv_db s) = Some user"
    and "ValidateToken (ae_jwt env) (ae_secret env) now token = Inr claims" "cl_UserID claims = us_ID user" "sv_faults s = []"
  shows "Login env clock email password ip s = (Inl (ErrNew ''user account is disabled''), s) \<and>
    GetUserByToken env now token s = (Inr user, s)"
  using assms
  by (simp add: Login_def GetUserByToken_def svc_bind_def query_def may_fail_def svc_some_def svc_return_def svc_guard_def svc_fail_def svc_lift_def)

subsection \<open>From creation to a session\<close>

text \<open>What the libraries document: a derived key has the requested length; a token signed with a key is accepted with that key between the
  two dates of its claims; a date of a claim is the instant without fractions of a second.\<close>

definition argon2_lengths :: "argon2_lib \<Rightarrow> bool" where
  "argon2_lengths lib \<longleftrightarrow> (\<forall>password salt time memory threads n key. ar_IDKey lib password salt time memory threads n = Inr key \<longrightarrow> length key = n)"

definition ascii :: "string \<Rightarrow> bool" where
  "ascii s \<longleftrightarrow> list_all (\<lambda>c. of_char c < (128 :: nat)) s"

definition jwt_accepts :: "jwt_lib \<Rightarrow> bool" where
  "jwt_accepts jl \<longleftrightarrow>
     (\<forall>t. jl_NumericDate jl t \<le> t \<and> t < jl_NumericDate jl t + 10 ^ 9) \<and>
     (\<forall>key c. ascii (cl_Email c) \<longrightarrow> (\<exists>tok. jl_SignHS256 jl key c = Inr tok \<and>
        (\<forall>now kf. cl_NotBefore c \<le> now \<and> now < cl_ExpiresAt c \<and> kf True = Inr key \<longrightarrow> jl_Parse jl now kf tok = Inr (c, True))))"

lemma find_last: "(\<And>x. x \<in> set xs \<Longrightarrow> \<not> P x) \<Longrightarrow> P y \<Longrightarrow> find P (xs @ [y]) = Some y"
  by (induction xs) auto

lemma keeps_users_role: "keeps idb_users (setOrganizationRole cb i u role inherit)"
  unfolding setOrganizationRole_def
  by (intro keeps_intro) (simp_all add: statement_defs db_UpsertOrganizationMembership_def delete_bindings_def db_UpsertIAMRoleBinding_def Let_def)

lemma new_password_Inr:
  "new_password env password s = (Inr (pw, generated), s') \<longleftrightarrow>
   s' = s \<and> (if password = [] then env_generate env = Inr pw \<and> generated = pw else pw = password \<and> generated = [])"
  by (auto simp: new_password_def svc_bind_Inr svc_return_Inr svc_wrap_Inr svc_lift_Inr)

text \<open>The row of a created account.\<close>

lemma CreateUserFor_Inr:
  assumes "CreateUserFor cb env actor i name email password role s = (Inr (user, generated), s')"
  shows "idb_users (sv_db s') = idb_users (sv_db s) @ [user] \<and> us_ID user \<notin> us_ID ` set (idb_users (sv_db s)) \<and>
    us_Email user \<notin> us_Email ` set (idb_users (sv_db s)) \<and> us_Status user = ''active'' \<and> \<not> us_Deleted user \<and>
    env_hash env (if password = [] then generated else password) = Inr (us_Password user)"
proof -
  obtain t1 pw t2 email' name' code hash t3 t4
    where t1: "sv_db t1 = sv_db s" and pw: "new_password env password t1 = (Inr (pw, generated), t2)"
      and hash: "env_hash env pw = Inr hash"
      and create: "exec (db_CreateUser name' email' hash ''active'') t2 = (Inr user, t3)"
      and role: "setOrganizationRole cb t4 (us_ID user) code (code = IAMRoleAdmin) t3 = (Inr (), s')"
    using assms
    by (auto simp: CreateUserFor_def Let_def svc_bind_Inr svc_return_Inr svc_guard_Inr svc_some_Inr svc_wrap_Inr svc_lift_Inr new_password_Inr same_tables_def
        dest!: query_InrD readsD[OF reads_requirePermission])
  have t2: "t2 = t1" "pw = (if password = [] then generated else password)" using pw by (auto simp: new_password_Inr split: if_splits)
  have "idb_users (sv_db s') = idb_users (sv_db t3)" using keepsD[OF keeps_users_role role] .
  moreover have "idb_users (sv_db t3) = idb_users (sv_db s) @ [user] \<and> us_Email user \<notin> us_Email ` set (idb_users (sv_db s)) \<and>
      us_ID user = next_id (map us_ID (idb_users (sv_db s))) \<and> us_Status user = ''active'' \<and> \<not> us_Deleted user \<and> us_Password user = hash"
    using create t1 t2(1)
    by (auto simp: exec_Inr db_CreateUser_def Let_def same_tables_def list_ex_iff dest!: may_fail_same split: if_splits)
  ultimately show ?thesis using hash t2(2) next_id_notin[of us_ID "idb_users (sv_db s)"] by simp
qed

lemma HashPassword_verifies:
  assumes "HashPassword lib salt password = Inr hash" "argon2_lengths lib" "ar_Version lib < 2 ^ 63"
  shows "VerifyPassword lib password hash = Inr True"
proof -
  obtain bs key where "salt = Inr bs" and key: "argon2_default lib password bs = Inr key" "hash = encoded_hash lib DefaultPasswordConfig bs key"
    using assms(1) by (auto simp: HashPassword_def split: sum.splits)
  have "length key = 32" using key(1) assms(2) by (auto simp: argon2_default_def argon2_lengths_def DefaultPasswordConfig_def)
  then show ?thesis using VerifyPassword_hashed[OF assms(3)] key by simp
qed

text \<open>The session of a sign-in.\<close>

lemma session_token_accepted:
  assumes "jwt_accepts jl" "secret \<noteq> []" "ascii email" "clock 2 \<le> now" "now + 10 ^ 9 \<le> clock 0 + 24 * hour"
  shows "\<exists>token c. GenerateToken jl secret clock u email = Inr token \<and> ValidateToken jl secret now token = Inr c \<and> cl_UserID c = u"
proof -
  let ?c = "\<lparr>cl_UserID = u, cl_Email = email, cl_ExpiresAt = jl_NumericDate jl (clock 0 + 24 * hour),
         cl_IssuedAt = jl_NumericDate jl (clock 1), cl_NotBefore = jl_NumericDate jl (clock 2), cl_Issuer = ''liaison'', cl_Subject = email\<rparr>"
  have "jl_NumericDate jl (clock 2) \<le> now" "now < jl_NumericDate jl (clock 0 + 24 * hour)"
    using assms(1,4,5) unfolding jwt_accepts_def by (smt (verit))+
  moreover obtain tok where "jl_SignHS256 jl secret ?c = Inr tok"
      "\<And>now kf. cl_NotBefore ?c \<le> now \<Longrightarrow> now < cl_ExpiresAt ?c \<Longrightarrow> kf True = Inr secret \<Longrightarrow> jl_Parse jl now kf tok = Inr (?c, True)"
    using assms(1,3) unfolding jwt_accepts_def by (metis jwt_claims.select_convs(2))
  ultimately show ?thesis using assms(2) by (intro exI[of _ tok] exI[of _ ?c]) (simp add: GenerateToken_def ValidateToken_def signing_key_def)
qed

text \<open>C19: The way into the system works: after an administrator has created an account, its email and the chosen password (or the generated one
  that was handed out) sign in, and the session token that comes back authenticates exactly this account for a day, with the time and the address
  of the sign-in recorded.\<close>

theorem created_account_signs_in:
  assumes "CreateUserFor cb (password_env (ae_argon env) random salt) actor i name email password role s = (Inr (user, generated), s')"
    and "argon2_lengths (ae_argon env)" "ar_Version (ae_argon env) < 2 ^ 63" "jwt_accepts (ae_jwt env)" "ae_secret env \<noteq> []" "ascii (us_Email user)"
    and "sv_db t = sv_db s'" "sv_faults t = []" "clock 3 \<le> now" "now + 10 ^ 9 \<le> clock 1 + 24 * hour"
  shows "\<exists>token t'. Login env clock (us_Email user) (if password = [] then generated else password) ip t = (Inr (token, user), t') \<and>
    GetUserByToken env now token t' = (Inr (user\<lparr>us_LastLogin := Some (clock 0), us_LoginIP := ip\<rparr>), t')"
proof -
  let ?pw = "if password = [] then generated else password" and ?us = "idb_users (sv_db s)"
  let ?upd = "\<lambda>u. u\<lparr>us_LastLogin := Some (clock 0), us_LoginIP := ip\<rparr>"
  let ?t = "t\<lparr>sv_db := db_UpdateUserLastLoginAndIP (clock 0) (us_ID user) ip (sv_db t)\<rparr>"
  have rows: "idb_users (sv_db t) = ?us @ [user]" "us_ID user \<notin> us_ID ` set ?us" "us_Email user \<notin> us_Email ` set ?us" "us_Status user = ''active''"
      "\<not> us_Deleted user" "HashPassword (ae_argon env) salt ?pw = Inr (us_Password user)"
    using CreateUserFor_Inr[OF assms(1)] assms(7) by (auto simp: password_env_def)
  have others: "us_Email u \<noteq> us_Email user" "us_ID u \<noteq> us_ID user" if "u \<in> set ?us" for u
    using that rows(2,3) by (metis image_eqI)+
  have email: "db_GetUserByEmail (us_Email user) (sv_db t) = Some user"
    using others(1) rows(5) by (auto simp: db_GetUserByEmail_def users_def rows(1) intro!: find_last)
  have "idb_users (sv_db ?t) = map (\<lambda>u. if us_ID u = us_ID user \<and> \<not> us_Deleted u then ?upd u else u) (?us @ [user])"
    by (simp add: db_UpdateUserLastLoginAndIP_def update_user_def rows(1))
  also have "\<dots> = ?us @ [?upd user]" using others(2) rows(5) by (auto intro!: map_idI)
  finally have users': "idb_users (sv_db ?t) = ?us @ [?upd user]" .
  have found: "db_GetUserByID (us_ID user) (sv_db ?t) = Some (?upd user)"
    unfolding db_GetUserByID_def users_def users' filter_append
    using others(2) rows(5) by (simp del: find.simps) (rule find_last; auto)
  obtain token c where token: "GenerateToken (ae_jwt env) (ae_secret env) (\<lambda>i. clock (i + 1)) (us_ID user) (us_Email user) = Inr token"
      "ValidateToken (ae_jwt env) (ae_secret env) now token = Inr c" "cl_UserID c = us_ID user"
    using session_token_accepted[OF assms(4,5,6), of "\<lambda>i. clock (i + 1)" now "us_ID user"] assms(9,10) by (auto simp: numeral_3_eq_3)
  have "VerifyPassword (ae_argon env) ?pw (us_Password user) = Inr True" using HashPassword_verifies[OF rows(6) assms(2,3)] .
  then have "Login env clock (us_Email user) ?pw ip t = (Inr (token, user), ?t)"
    using assms(8) rows(4) token(1)
    by (simp add: Login_def svc_bind_def query_def may_fail_def email svc_some_def svc_return_def svc_guard_def svc_lift_def svc_attempt_def exec_total_def exec_def)
  moreover have "GetUserByToken env now token ?t = (Inr (?upd user), ?t)"
    using assms(8) token(2,3) found
    by (simp add: GetUserByToken_def svc_bind_def svc_lift_def query_def may_fail_def svc_some_def svc_return_def)
  ultimately show ?thesis by blast
qed

section \<open>The properties at work\<close>

subsection \<open>Stand-ins for the libraries\<close>

text \<open>Tokens that carry the key and the claims, each field after its length; keys that are the padded password.\<close>

definition pack :: "string list \<Rightarrow> string" where
  "pack parts = concat (map (\<lambda>f. replicate (length f) (CHR ''1'') @ CHR ''0'' # f) parts)"

fun unpack :: "nat \<Rightarrow> string \<Rightarrow> string list" where
  "unpack 0 s = []"
| "unpack (Suc k) s = (let n = length (takeWhile (\<lambda>c. c = CHR ''1'') s); rest = drop (n + 1) s in take n rest # unpack k (drop n rest))"

lemma unpack_pack: "unpack (length parts) (pack parts) = parts"
proof (induction parts)
  case (Cons f parts)
  have "takeWhile (\<lambda>c. c = CHR ''1'') (replicate n (CHR ''1'') @ CHR ''0'' # s) = replicate n (CHR ''1'')" for n s
    by (induction n) auto
  with Cons show ?case by (simp add: pack_def Let_def)
qed (simp add: pack_def)

definition pack_time :: "gtime \<Rightarrow> string" where
  "pack_time n = (if n < 0 then CHR ''-'' else CHR ''+'') # dec (nat \<bar>n\<bar>)"

definition unpack_time :: "string \<Rightarrow> gtime" where
  "unpack_time s = (if hd s = CHR ''-'' then - int (undec (tl s)) else int (undec (tl s)))"

lemma undec_dec: "undec (dec n) = n"
  unfolding dec_def by (rule undec_dec_digits) simp

lemma unpack_pack_time: "unpack_time (pack_time n) = n"
  by (simp add: unpack_time_def pack_time_def undec_dec)

definition pack_claims :: "string \<Rightarrow> jwt_claims \<Rightarrow> string" where
  "pack_claims key c = pack [key, dec (cl_UserID c), cl_Email c, pack_time (cl_ExpiresAt c), pack_time (cl_IssuedAt c), pack_time (cl_NotBefore c),
     cl_Issuer c, cl_Subject c]"

definition unpack_claims :: "string \<Rightarrow> string \<times> jwt_claims" where
  "unpack_claims s = (let f = unpack 8 s in
     (f ! 0, \<lparr>cl_UserID = undec (f ! 1), cl_Email = f ! 2, cl_ExpiresAt = unpack_time (f ! 3), cl_IssuedAt = unpack_time (f ! 4),
       cl_NotBefore = unpack_time (f ! 5), cl_Issuer = f ! 6, cl_Subject = f ! 7\<rparr>))"

lemma unpack_pack_claims: "unpack_claims (pack_claims key c) = (key, c)"
proof -
  let ?parts = "[key, dec (cl_UserID c), cl_Email c, pack_time (cl_ExpiresAt c), pack_time (cl_IssuedAt c), pack_time (cl_NotBefore c), cl_Issuer c, cl_Subject c]"
  have "length ?parts = 8" by simp
  then have "unpack 8 (pack_claims key c) = ?parts" unfolding pack_claims_def by (metis unpack_pack)
  then show ?thesis by (simp add: unpack_claims_def Let_def unpack_pack_time undec_dec del: unpack.simps)
qed

definition demo_jwt :: jwt_lib where
  "demo_jwt = \<lparr>jl_NumericDate = (\<lambda>t. t div 10 ^ 9 * 10 ^ 9), jl_SignHS256 = (\<lambda>key c. Inr (pack_claims key c)),
     jl_Parse = (\<lambda>now kf s. let (key, c) = unpack_claims s in
       if kf True = Inr key \<and> cl_NotBefore c \<le> now \<and> now < cl_ExpiresAt c then Inr (c, True) else Inl (ErrNew ''token is invalid''))\<rparr>"

lemma demo_jwt_accepts: "jwt_accepts demo_jwt"
proof -
  have "t div 10 ^ 9 * 10 ^ 9 \<le> t \<and> t < t div 10 ^ 9 * 10 ^ 9 + (10 :: int) ^ 9" for t
    using pos_mod_sign[of "10 ^ 9" t] pos_mod_bound[of "10 ^ 9" t] by (simp add: minus_mod_eq_div_mult[symmetric])
  then show ?thesis by (simp add: jwt_accepts_def demo_jwt_def unpack_pack_claims)
qed

definition demo_argon :: argon2_lib where
  "demo_argon = \<lparr>ar_Version = 19, ar_IDKey = (\<lambda>password salt time memory threads n. Inr (take n (password @ replicate n (CHR ''0'')))),
     ar_scan_error = (\<lambda>s. ErrNew ''input does not match format'')\<rparr>"

lemma demo_argon_lengths: "argon2_lengths demo_argon" "ar_Version demo_argon < 2 ^ 63"
  by (auto simp: argon2_lengths_def demo_argon_def min_def)

definition demo_auth :: auth_env where
  "demo_auth = \<lparr>ae_argon = demo_argon, ae_jwt = demo_jwt, ae_secret = ''0123456789abcdef0123456789abcdef''\<rparr>"

subsection \<open>Tokens of a fresh installation\<close>

text \<open>The first account of an empty installation gets a token; a stand-in for bcrypt that keeps the text.\<close>

definition demo_bcrypt :: bcrypt_lib where
  "demo_bcrypt = \<lparr>bc_GenerateFromPassword = (\<lambda>p cost. Inr (''h'' @ p)),
     bc_CompareHashAndPassword = (\<lambda>h p. if h = ''h'' @ p then None else Some (ErrNew ''mismatch''))\<rparr>"

definition token_start :: "ref_enforcer iam_sys" where
  "token_start = \<lparr>sv_db = empty_iam_db, sv_enf = \<lparr>re_rules = [], re_groupings = []\<rparr>, sv_faults = []\<rparr>"

definition token_user :: iam_user where
  "token_user = \<lparr>us_ID = 1, us_Name = ''default'', us_Email = default_email, us_Password = rev ''a-generated-password'', us_Status = ''active'',
     us_LastLogin = None, us_LoginIP = [], us_Deleted = False\<rparr>"

definition token_random :: "nat \<Rightarrow> gerr + bytes" where
  "token_random n = Inr (replicate n (CHR ''x''))"

definition demo_token :: string where
  "demo_token = pat_plaintext (replicate 25 (CHR ''x''))"

definition token_row :: user_api_token where
  "token_row = \<lparr>tk_ID = 1, tk_UserID = 1, tk_Name = ''ci'', tk_TokenPrefix = pat_prefix demo_token, tk_TokenHash = ''h'' @ demo_token, tk_Scope = ''full_access'',
     tk_LastUsedAt = None, tk_LastUsedIP = [], tk_ExpiresAt = None, tk_RevokedAt = None\<rparr>"

lemma demo_token_text: "trim_space demo_token = demo_token" "take (length PATPlaintextPrefix) demo_token = PATPlaintextPrefix"
  unfolding demo_token_def by (rule pat_plaintext_text; simp add: patRandomBytes_def)+

lemma token_account:
  "\<exists>r s. CreateDefaultUser reference_casbin demo_env token_start = (r, s) \<and> idb_users (sv_db s) = [token_user] \<and> idb_tokens (sv_db s) = [] \<and> sv_faults s = []"
  by (simp add: CreateDefaultUser_def svc_run svc_lift_def db_CheckUserExists_def users_def token_start_def empty_iam_db_def demo_env_def db_CreateUser_def
      next_id_def EnsureOrganizationBootstrap_def db_ListUsers_def db_GetRootOrganization_def organizations_def db_CreateOrganization_def Let_def
      bootstrap_user_def bootstrap_membership_def bootstrap_binding_def db_GetOrganizationMembership_def memberships_def
      db_UpsertOrganizationMembership_def db_GetIAMRoleBinding_def bindings_def db_GetIAMRoleByCode_def token_user_def)

lemma token_history:
  obtains s where "auth_run reference_casbin demo_bcrypt token_start [(1, 1, None, demo_token)] s" "idb_users (sv_db s) = [token_user]"
    "idb_tokens (sv_db s) = [token_row]" "sv_faults s = []"
proof -
  obtain r s1 where s1: "CreateDefaultUser reference_casbin demo_env token_start = (r, s1)" "idb_users (sv_db s1) = [token_user]" "idb_tokens (sv_db s1) = []" "sv_faults s1 = []"
    using token_account by blast
  let ?s = "s1\<lparr>sv_db := sv_db s1\<lparr>idb_tokens := [token_row]\<rparr>\<rparr>"
  have "trim_space ''ci'' = ''ci''" by code_simp
  then have "CreatePAT demo_bcrypt token_random 1 ''ci'' None s1 = (Inr (token_row, demo_token), ?s)"
    using s1(3,4)
    by (simp add: CreatePAT_def svc_run svc_lift_def Let_def db_CountUserAPITokens_def live_tokens_def patMaxPerUser_def patMaxNameLen_def patRandomBytes_def
        token_random_def demo_bcrypt_def db_CreateUserAPIToken_def next_id_def token_row_def demo_token_def)
  from auth_step.create_token[OF this, of reference_casbin] auth_run.step[OF auth_run.start auth_step.default_user[OF s1(1)]]
  have "auth_run reference_casbin demo_bcrypt token_start ([] @ [] @ [(tk_ID token_row, 1, None, demo_token)]) ?s"
    by (metis append_Nil auth_run.step)
  then show thesis using s1(2,4) by (intro that[of ?s]) (simp_all add: token_row_def)
qed

lemma demo_token_accepted:
  assumes "idb_users (sv_db s) = [token_user]" "idb_tokens (sv_db s) = [token_row]" "sv_faults s = []"
  shows "GetUserByPAT demo_bcrypt now demo_token ip s = (Inr (token_user, 1, ip), s)"
  using assms demo_token_text
  by (simp add: GetUserByPAT_def svc_run Let_def db_GetUserAPITokensByPrefix_def live_tokens_def token_row_def demo_bcrypt_def db_GetUserByID_def users_def
      token_user_def)

theorem token_authenticates_owner_witness:
  "\<exists>I s s'. auth_run reference_casbin demo_bcrypt token_start I s \<and> GetUserByPAT demo_bcrypt 9 demo_token ''10.0.0.1'' s = (Inr (token_user, 1, ''10.0.0.1''), s') \<and>
     (\<exists>expires plain. (1, us_ID token_user, expires, plain) \<in> set I \<and> pat_prefix demo_token = pat_prefix plain)"
proof -
  obtain s where s: "auth_run reference_casbin demo_bcrypt token_start [(1, 1, None, demo_token)] s" "idb_users (sv_db s) = [token_user]"
    "idb_tokens (sv_db s) = [token_row]" "sv_faults s = []" by (rule token_history)
  have get: "GetUserByPAT demo_bcrypt 9 demo_token ''10.0.0.1'' s = (Inr (token_user, 1, ''10.0.0.1''), s)" using s(2-4) by (rule demo_token_accepted)
  have "sv_db token_start = empty_iam_db" by (simp add: token_start_def)
  from token_authenticates_owner[OF this s(1) get] s(1) get demo_token_text(1) show ?thesis by metis
qed

text \<open>After the revocation a second token is created: the later state accepts this one.\<close>

theorem revoked_token_stays_dead_witness:
  "\<exists>s s1 t. auth_run reference_casbin demo_bcrypt token_start [(1, 1, None, demo_token)] s \<and> RevokePAT 5 1 1 s = (Inr (), s1) \<and>
     auth_run reference_casbin demo_bcrypt s1 [(2, 1, None, demo_token)] t \<and>
     GetUserByPAT demo_bcrypt 9 demo_token ''10.0.0.1'' t = (Inr (token_user, 2, ''10.0.0.1''), t) \<and> (2 :: nat) \<noteq> 1"
proof -
  obtain s where s: "auth_run reference_casbin demo_bcrypt token_start [(1, 1, None, demo_token)] s" "idb_users (sv_db s) = [token_user]"
    "idb_tokens (sv_db s) = [token_row]" "sv_faults s = []" by (rule token_history)
  let ?old = "token_row\<lparr>tk_RevokedAt := Some 5\<rparr>" and ?new = "token_row\<lparr>tk_ID := 2\<rparr>"
  let ?s1 = "s\<lparr>sv_db := sv_db s\<lparr>idb_tokens := [?old]\<rparr>\<rparr>" and ?t = "s\<lparr>sv_db := sv_db s\<lparr>idb_tokens := [?old, ?new]\<rparr>\<rparr>"
  have revoke: "RevokePAT 5 1 1 s = (Inr (), ?s1)"
    using s(3,4) by (simp add: RevokePAT_def svc_run db_RevokeUserAPIToken_def update_tokens_def token_row_def)
  have "trim_space ''ci'' = ''ci''" by code_simp
  then have create: "CreatePAT demo_bcrypt token_random 1 ''ci'' None ?s1 = (Inr (?new, demo_token), ?t)"
    using s(4)
    by (simp add: CreatePAT_def svc_run svc_lift_def Let_def db_CountUserAPITokens_def live_tokens_def patMaxPerUser_def patMaxNameLen_def patRandomBytes_def
        token_random_def demo_bcrypt_def db_CreateUserAPIToken_def next_id_def token_row_def demo_token_def)
  have run: "auth_run reference_casbin demo_bcrypt ?s1 [(2, 1, None, demo_token)] ?t"
    using auth_run.step[OF auth_run.start auth_step.create_token[OF create]] by simp
  have get: "GetUserByPAT demo_bcrypt 9 demo_token ''10.0.0.1'' ?t = (Inr (token_user, 2, ''10.0.0.1''), ?t)"
    using s(2,4) demo_token_text
    by (simp add: GetUserByPAT_def svc_run Let_def db_GetUserAPITokensByPrefix_def live_tokens_def token_row_def demo_bcrypt_def db_GetUserByID_def users_def
        token_user_def)
  have "sv_db token_start = empty_iam_db" by (simp add: token_start_def)
  from revoked_token_stays_dead[OF this s(1) _ revoke run get, of None demo_token] s(1) revoke run get show ?thesis by auto
qed


subsection \<open>A request with a token\<close>

definition demo_request :: http_request where
  "demo_request = \<lparr>rq_Path = ''/api/v1/iam/profile'', rq_Method = ''GET'', rq_Authorization = ''Bearer '' @ demo_token, rq_XRealIP = [],
     rq_XForwardedFor = ''10.0.0.1, 10.0.0.2'', rq_RemoteAddr = ''127.0.0.1:80''\<rparr>"

lemma demo_request_parts:
  "\<not> isIAMEndpoint (rq_Path demo_request)" "rq_Authorization demo_request \<noteq> []" "bearer_token (rq_Authorization demo_request) = Some demo_token"
  "ExtractClientIP demo_request = ''10.0.0.1''" "resourcePermissionForRequest demo_request = None" "has_prefix demo_token PATPlaintextPrefix"
  using demo_token_text(2)
  by (simp_all add: demo_request_def isIAMEndpoint_def has_prefix_def has_suffix_def bearer_token_def ExtractClientIP_def trim_space_def is_space_def Let_def
      resourcePermissionForRequest_def request_resource_def web_path_def trim_suffix_def)


subsection \<open>A locked account\<close>

definition locked_user :: iam_user where
  "locked_user = (demo_user 7 ''lead@x'')\<lparr>us_Status := ''locked''\<rparr>"

definition locked_sys :: "ref_enforcer iam_sys" where
  "locked_sys = demo_sys\<lparr>sv_db := demo_db\<lparr>idb_users := [demo_user 5 ''root@x'', locked_user]\<rparr>\<rparr>"

theorem disabled_account_keeps_access_witness:
  "\<exists>token. GenerateToken demo_jwt (ae_secret demo_auth) (\<lambda>i. 0) 7 ''lead@x'' = Inr token \<and>
     Login demo_auth (\<lambda>i. hour) ''lead@x'' ''any'' ''10.0.0.1'' locked_sys = (Inl (ErrNew ''user account is disabled''), locked_sys) \<and>
     GetUserByToken demo_auth hour token locked_sys = (Inr locked_user, locked_sys)"
proof -
  have "ascii ''lead@x''" by code_simp
  then obtain token c where token: "GenerateToken demo_jwt (ae_secret demo_auth) (\<lambda>i. 0) 7 ''lead@x'' = Inr token"
      "ValidateToken demo_jwt (ae_secret demo_auth) hour token = Inr c" "cl_UserID c = 7"
    using session_token_accepted[OF demo_jwt_accepts, of "ae_secret demo_auth" "''lead@x''" "\<lambda>i. 0" hour 7] by (auto simp: demo_auth_def hour_def)
  have "db_GetUserByEmail ''lead@x'' (sv_db locked_sys) = Some locked_user" "db_GetUserByID (us_ID locked_user) (sv_db locked_sys) = Some locked_user"
    "us_Status locked_user \<noteq> ''active''" "us_ID locked_user = 7" "sv_faults locked_sys = []"
    by (simp_all add: db_GetUserByEmail_def db_GetUserByID_def users_def locked_sys_def locked_user_def demo_sys_def demo_user_def)
  then show ?thesis
    using disabled_account_keeps_access[of locked_user "''lead@x''" locked_sys demo_auth hour token c "\<lambda>i. hour" "''any''" "''10.0.0.1''"] token
    by (simp add: demo_auth_def)
qed

subsection \<open>A new account\<close>

definition office_sys :: "ref_enforcer iam_sys" where
  "office_sys = demo_sys\<lparr>sv_enf := \<lparr>
     re_rules = [(''role:admin'', globalDomain, ''/users'', ''(read|create)''), (''role:admin'', globalDomain, ''/organizations/:id'', ''(read|update)'')],
     re_groupings = [(''user:5'', ''role:admin'', globalDomain)]\<rparr>\<rparr>"

abbreviation office_env :: iam_env where
  "office_env \<equiv> password_env demo_argon token_random (Inr ''0123456789abcdef'')"

definition office_hash :: string where
  "office_hash = encoded_hash demo_argon DefaultPasswordConfig ''0123456789abcdef'' (take 32 (''correct horse'' @ replicate 32 (CHR ''0'')))"

definition office_user :: iam_user where
  "office_user = \<lparr>us_ID = 8, us_Name = ''new'', us_Email = ''new@x'', us_Password = office_hash, us_Status = ''active'', us_LastLogin = None, us_LoginIP = [],
     us_Deleted = False\<rparr>"

lemma office_permissions:
  "requirePermission reference_casbin (Some 5) globalDomain ''/users'' ''create'' office_sys = (Inr (), office_sys)"
  "requirePermission reference_casbin (Some 5) (organizationDomain 3) (organizationObject 3) ''update'' office_sys = (Inr (), office_sys)"
  by (simp_all add: requirePermission_def svc_run office_sys_def demo_sys_def ref_Enforce_def ref_role_def ref_keyMatch2_def ref_regexMatch_def userSubject_def
      organizationDomain_def organizationObject_def demo_dec)

lemma office_created:
  "\<exists>s'. CreateUserFor reference_casbin office_env (Some 5) 3 [] ''New@x '' ''correct horse'' [] office_sys = (Inr (office_user, []), s')"
proof -
  let ?db = "demo_db\<lparr>idb_users := idb_users demo_db @ [office_user]\<rparr>"
  let ?db' = "db_UpsertIAMRoleBinding 3 8 3 False (db_DeleteIAMRoleBinding 3 8 (db_UpsertOrganizationMembership 3 8 ?db))"
  let ?s = "office_sys\<lparr>sv_db := ?db\<rparr>"
  have texts: "to_lower (trim_space ''New@x '') = ''new@x''" "trim_space [] = []" "accountName ''new@x'' = ''new''" by code_simp+
  have hash: "HashPassword demo_argon (Inr ''0123456789abcdef'') ''correct horse'' = Inr office_hash"
    by (simp add: HashPassword_def argon2_default_def demo_argon_def DefaultPasswordConfig_def office_hash_def)
  have create: "exec (db_CreateUser ''new'' ''new@x'' office_hash ''active'') office_sys = (Inr office_user, ?s)"
    by (simp add: svc_run db_CreateUser_def Let_def office_sys_def demo_sys_def demo_rows next_id_def office_user_def)
  have "runs ?db' (reloadAuthorization reference_casbin)"
    by (rule runs_reload[OF reference_never_fails])
       (auto simp: db_UpsertIAMRoleBinding_def db_DeleteIAMRoleBinding_def delete_bindings_def db_UpsertOrganizationMembership_def bindings_def role_by_id_def
          Let_def demo_rows)
  then obtain s' where reload: "reloadAuthorization reference_casbin (office_sys\<lparr>sv_db := ?db'\<rparr>) = (Inr (), s')"
    using runsD[of ?db' "reloadAuthorization reference_casbin" "office_sys\<lparr>sv_db := ?db'\<rparr>"] by (auto simp: office_sys_def demo_sys_def)
  have role: "setOrganizationRole reference_casbin 3 8 IAMRoleUser False ?s = (Inr (), s')"
    using reload
    by (simp add: setOrganizationRole_def IsValidIAMRoleCode_def svc_bind_def svc_guard_def svc_return_def svc_some_def query_def may_fail_def in_tx_def
        svc_wrap_def exec_total_def exec_def office_sys_def demo_sys_def db_GetIAMRoleByCode_def demo_permissions)
  have rows: "db_GetOrganizationByID 3 (sv_db office_sys) = Some (demo_organization 3 ''b'' (Some 2) False)" "\<not> db_CheckUserExists ''new@x'' (sv_db office_sys)"
    by (simp_all add: db_GetOrganizationByID_def organizations_def db_CheckUserExists_def users_def office_sys_def demo_sys_def demo_rows)
  have query: "query f office_sys = (Inr (f (sv_db office_sys)), office_sys)" for f by (simp add: svc_run office_sys_def demo_sys_def)
  show ?thesis
    using role
    by (simp add: CreateUserFor_def Let_def svc_bind_def office_permissions query rows svc_guard_def svc_return_def svc_some_def texts IsValidIAMRoleCode_def
        new_password_def svc_wrap_def svc_lift_def password_env_def hash create office_user_def demo_organization_def)
qed

theorem created_account_signs_in_witness:
  "\<exists>s' token t'. CreateUserFor reference_casbin office_env (Some 5) 3 [] ''New@x '' ''correct horse'' [] office_sys = (Inr (office_user, []), s') \<and>
     Login demo_auth (\<lambda>i. 0) ''new@x'' ''correct horse'' ''10.0.0.1'' (s'\<lparr>sv_faults := []\<rparr>) = (Inr (token, office_user), t') \<and>
     GetUserByToken demo_auth (23 * hour) token t' = (Inr (office_user\<lparr>us_LastLogin := Some 0, us_LoginIP := ''10.0.0.1''\<rparr>), t')"
proof -
  obtain s' where s': "CreateUserFor reference_casbin office_env (Some 5) 3 [] ''New@x '' ''correct horse'' [] office_sys = (Inr (office_user, []), s')"
    using office_created by blast
  have "ascii (us_Email office_user)" by (simp add: ascii_def office_user_def)
  from created_account_signs_in[of reference_casbin demo_auth token_random "Inr ''0123456789abcdef''" "Some 5" 3 "[]" "''New@x ''" "''correct horse''" "[]" office_sys
      office_user "[]" s' "s'\<lparr>sv_faults := []\<rparr>" "\<lambda>i. 0" "23 * hour" "''10.0.0.1''"] this
  show ?thesis using s' demo_argon_lengths demo_jwt_accepts by (simp add: demo_auth_def hour_def office_user_def)
qed

end
